(* ===== verification/Prelude.thy ===== *)
theory Prelude
  imports Main "HOL-Library.Word" "HOL-Library.List_Lexorder" "HOL-Library.Char_ord"
    "HOL-Library.Product_Lexorder" "HOL-Library.AList"
begin

text \<open>
  What the component theories share: JSON values as Python's \<^verbatim>\<open>json\<close> module returns them, the
  parts of Python's built-in operations on them that the program uses (truth value,
  \<^verbatim>\<open>dict.get\<close>, \<^verbatim>\<open>str\<close>, \<^verbatim>\<open>sorted(set(...))\<close>, \<^verbatim>\<open>str.strip\<close>, \<^verbatim>\<open>str.split\<close>), and the
  generic lemmas on association lists, minima of optional times and sorting that the proofs use.

  A Python string is a \<open>string\<close>; one \<open>char\<close> is one Python character (a code point below 256), so
  \<open>length\<close> is Python's \<^verbatim>\<open>len\<close> and the lexicographic order of \<open>List_Lexorder\<close> on \<open>Char_ord\<close> is
  Python's order on strings. A byte is an \<open>8 word\<close>. Python's \<^verbatim>\<open>None\<close> inside a JSON value is
  \<open>JNull\<close>; a nullable column is an \<open>option\<close>.
\<close>

named_theorems dict_simps \<open>lookups in dictionaries after an update\<close>
named_theorems span_simps \<open>optional minimum and maximum times\<close>

type_synonym byte = "8 word"

section \<open>JSON values\<close>

text \<open>
  A float is kept as its Python \<^verbatim>\<open>repr\<close>. An object is its list of members in source order.
\<close>

datatype json =
    JNull
  | JBool bool
  | JInt int
  | JFloat string
  | JStr string
  | JList "json list"
  | JObj "(string \<times> json) list"

type_synonym dict = "(string \<times> json) list"

abbreviation dict_get :: "dict \<Rightarrow> string \<Rightarrow> json" where
  "dict_get d k \<equiv> (case map_of d k of None \<Rightarrow> JNull | Some v \<Rightarrow> v)"

abbreviation dict_set :: "string \<Rightarrow> json \<Rightarrow> dict \<Rightarrow> dict" where
  "dict_set \<equiv> AList.update"

abbreviation dict_has :: "dict \<Rightarrow> string \<Rightarrow> bool" where
  "dict_has d k \<equiv> map_of d k \<noteq> None"

fun truthy :: "json \<Rightarrow> bool" where
  "truthy JNull = False"
| "truthy (JBool b) = b"
| "truthy (JInt i) = (i \<noteq> 0)"
| "truthy (JFloat r) = (r \<noteq> ''0.0'' \<and> r \<noteq> ''-0.0'')"
| "truthy (JStr s) = (s \<noteq> [])"
| "truthy (JList xs) = (xs \<noteq> [])"
| "truthy (JObj ms) = (ms \<noteq> [])"

fun is_str :: "json \<Rightarrow> bool" where
  "is_str (JStr s) = True"
| "is_str _ = False"

fun is_list :: "json \<Rightarrow> bool" where
  "is_list (JList xs) = True"
| "is_list _ = False"

fun is_dict :: "json \<Rightarrow> bool" where
  "is_dict (JObj ms) = True"
| "is_dict _ = False"

fun is_bool :: "json \<Rightarrow> bool" where
  "is_bool (JBool b) = True"
| "is_bool _ = False"

fun str_of :: "json \<Rightarrow> string" where
  "str_of (JStr s) = s"
| "str_of _ = []"

fun list_of :: "json \<Rightarrow> json list" where
  "list_of (JList xs) = xs"
| "list_of _ = []"

fun dict_of :: "json \<Rightarrow> dict" where
  "dict_of (JObj ms) = ms"
| "dict_of _ = []"

text \<open>The value \<^verbatim>\<open>a or b\<close> of two JSON values.\<close>

definition py_or :: "json \<Rightarrow> json \<Rightarrow> json" where
  "py_or a b = (if truthy a then a else b)"

section \<open>Decimal numerals and \<^verbatim>\<open>str\<close>\<close>

definition digit_char :: "nat \<Rightarrow> char" where
  "digit_char d = char_of (48 + d)"

fun nat_str :: "nat \<Rightarrow> string" where
  "nat_str n = (if n < 10 then [digit_char n] else nat_str (n div 10) @ [digit_char (n mod 10)])"

declare nat_str.simps [simp del]

definition int_str :: "int \<Rightarrow> string" where
  "int_str i = (if i < 0 then CHR ''-'' # nat_str (nat (- i)) else nat_str (nat i))"

text \<open>\<^verbatim>\<open>str.join\<close>.\<close>

fun str_join :: "string \<Rightarrow> string list \<Rightarrow> string" where
  "str_join sep [] = []"
| "str_join sep [x] = x"
| "str_join sep (x # y # zs) = x @ sep @ str_join sep (y # zs)"

text \<open>
  Python's \<^verbatim>\<open>repr\<close> of a string: single quotes unless the text has a single quote and no double
  one; backslash, the chosen quote and unprintable characters escaped.
\<close>

definition hex_digit :: "nat \<Rightarrow> char" where
  "hex_digit d = (if d < 10 then char_of (48 + d) else char_of (87 + d))"

definition py_printable :: "char \<Rightarrow> bool" where
  "py_printable c \<longleftrightarrow> (let n = (of_char c :: nat) in
     32 \<le> n \<and> n \<le> 126 \<or> 161 \<le> n \<and> n \<noteq> 173)"

definition repr_char :: "char \<Rightarrow> char \<Rightarrow> string" where
  "repr_char q c =
     (let n = (of_char c :: nat) in
      if c = q \<or> n = 92 then [CHR 0x5C, c]
      else if n = 10 then [CHR 0x5C, CHR ''n'']
      else if n = 13 then [CHR 0x5C, CHR ''r'']
      else if n = 9 then [CHR 0x5C, CHR ''t'']
      else if py_printable c then [c]
      else [CHR 0x5C, CHR ''x'', hex_digit (n div 16), hex_digit (n mod 16)])"

definition repr_str :: "string \<Rightarrow> string" where
  "repr_str s =
     (let q = (if CHR 0x27 \<in> set s \<and> CHR 0x22 \<notin> set s then CHR 0x22 else CHR 0x27)
      in q # concat (map (repr_char q) s) @ [q])"

fun py_repr :: "json \<Rightarrow> string" where
  "py_repr JNull = ''None''"
| "py_repr (JBool b) = (if b then ''True'' else ''False'')"
| "py_repr (JInt i) = int_str i"
| "py_repr (JFloat r) = r"
| "py_repr (JStr s) = repr_str s"
| "py_repr (JList xs) = ''['' @ str_join '', '' (map py_repr xs) @ '']''"
| "py_repr (JObj ms) =
     ''{'' @ str_join '', '' (map (\<lambda>m. repr_str (fst m) @ '': '' @ py_repr (snd m)) ms) @ ''}''"

definition py_str :: "json \<Rightarrow> string" where
  "py_str v = (case v of JStr s \<Rightarrow> s | _ \<Rightarrow> py_repr v)"

text \<open>The recurring idiom \<^verbatim>\<open>str(v or "")\<close>.\<close>

definition str_or_empty :: "json \<Rightarrow> string" where
  "str_or_empty v = (if truthy v then py_str v else [])"

section \<open>Strings and characters\<close>

text \<open>\<^verbatim>\<open>str.isspace\<close>, the set that \<^verbatim>\<open>str.strip\<close> removes.\<close>

definition py_space :: "char \<Rightarrow> bool" where
  "py_space c \<longleftrightarrow> (let n = (of_char c :: nat) in
     9 \<le> n \<and> n \<le> 13 \<or> 28 \<le> n \<and> n \<le> 32 \<or> n = 133 \<or> n = 160)"

definition py_strip :: "string \<Rightarrow> string" where
  "py_strip s = rev (dropWhile py_space (rev (dropWhile py_space s)))"

text \<open>\<^verbatim>\<open>s.split(c)\<close> for a one-character separator: never empty, the separators dropped.\<close>

fun split_on :: "char \<Rightarrow> string \<Rightarrow> string list" where
  "split_on c [] = [[]]"
| "split_on c (x # xs) =
     (if x = c then [] # split_on c xs
      else (case split_on c xs of [] \<Rightarrow> [[x]] | y # ys \<Rightarrow> (x # y) # ys))"

definition py_lower_char :: "char \<Rightarrow> char" where
  "py_lower_char c = (let n = (of_char c :: nat) in
     if 65 \<le> n \<and> n \<le> 90 \<or> 192 \<le> n \<and> n \<le> 222 \<and> n \<noteq> 215 then char_of (n + 32) else c)"

definition py_lower :: "string \<Rightarrow> string" where
  "py_lower = map py_lower_char"

text \<open>\<^verbatim>\<open>str.title\<close> on ASCII letters; every other character ends a word.\<close>

definition is_letter :: "char \<Rightarrow> bool" where
  "is_letter c \<longleftrightarrow> (let n = (of_char c :: nat) in 65 \<le> n \<and> n \<le> 90 \<or> 97 \<le> n \<and> n \<le> 122)"

definition py_upper_char :: "char \<Rightarrow> char" where
  "py_upper_char c = (let n = (of_char c :: nat) in if 97 \<le> n \<and> n \<le> 122 then char_of (n - 32) else c)"

fun py_title :: "bool \<Rightarrow> string \<Rightarrow> string" where
  "py_title in_word [] = []"
| "py_title in_word (c # cs) =
     (if is_letter c then (if in_word then py_lower_char c else py_upper_char c) # py_title True cs
      else c # py_title False cs)"

definition is_hex_char :: "char \<Rightarrow> bool" where
  "is_hex_char c \<longleftrightarrow> (let n = (of_char c :: nat) in
     48 \<le> n \<and> n \<le> 57 \<or> 65 \<le> n \<and> n \<le> 70 \<or> 97 \<le> n \<and> n \<le> 102)"

text \<open>The UTF-8 encoding of the characters of the model.\<close>

definition utf8_char :: "char \<Rightarrow> byte list" where
  "utf8_char c = (let n = (of_char c :: nat) in
     if n < 128 then [word_of_nat n]
     else [word_of_nat (192 + n div 64), word_of_nat (128 + n mod 64)])"

definition utf8_encode :: "string \<Rightarrow> byte list" where
  "utf8_encode s = concat (map utf8_char s)"

section \<open>Sets as sorted lists, optional extrema\<close>

text \<open>\<^verbatim>\<open>sorted(set(xs))\<close>.\<close>

definition sorted_set :: "'a::linorder list \<Rightarrow> 'a list" where
  "sorted_set xs = sort (remdups xs)"

text \<open>\<^verbatim>\<open>min(xs) if xs else None\<close> and the same for \<^verbatim>\<open>max\<close>.\<close>

fun opt_min :: "'a::linorder list \<Rightarrow> 'a option" where
  "opt_min [] = None"
| "opt_min (x # xs) = Some (fold min xs x)"

fun opt_max :: "'a::linorder list \<Rightarrow> 'a option" where
  "opt_max [] = None"
| "opt_max (x # xs) = Some (fold max xs x)"

text \<open>
  The incremental form the program uses in four places: keep the earliest and the latest time seen,
  with a missing time changing nothing.
\<close>

definition upd_first :: "int option \<Rightarrow> int option \<Rightarrow> int option" where
  "upd_first cur t = (case t of None \<Rightarrow> cur
     | Some x \<Rightarrow> (case cur of None \<Rightarrow> Some x | Some c \<Rightarrow> if x < c then Some x else Some c))"

definition upd_last :: "int option \<Rightarrow> int option \<Rightarrow> int option" where
  "upd_last cur t = (case t of None \<Rightarrow> cur
     | Some x \<Rightarrow> (case cur of None \<Rightarrow> Some x | Some c \<Rightarrow> if x > c then Some x else Some c))"

definition the_list :: "'a option list \<Rightarrow> 'a list" where
  "the_list xs = map the (filter (\<lambda>x. x \<noteq> None) xs)"

text \<open>
  \<^verbatim>\<open>collections.defaultdict\<close>: a lookup with a default, and the two updates \<^verbatim>\<open>d[k].append(v)\<close> and
  \<^verbatim>\<open>d[k].add(v)\<close>. The entries stay in order of first insertion.
\<close>

definition dd_get :: "'v \<Rightarrow> ('k \<times> 'v) list \<Rightarrow> 'k \<Rightarrow> 'v" where
  "dd_get z d k = (case map_of d k of None \<Rightarrow> z | Some v \<Rightarrow> v)"

definition dd_append :: "'k \<Rightarrow> 'v \<Rightarrow> ('k \<times> 'v list) list \<Rightarrow> ('k \<times> 'v list) list" where
  "dd_append k v d = AList.update k (dd_get [] d k @ [v]) d"

definition dd_add :: "'k \<Rightarrow> 'v \<Rightarrow> ('k \<times> 'v set) list \<Rightarrow> ('k \<times> 'v set) list" where
  "dd_add k v d = AList.update k (insert v (dd_get {} d k)) d"

text \<open>Case-insensitive containment (\<^verbatim>\<open>icontains\<close>).\<close>

fun contains_str :: "string \<Rightarrow> string \<Rightarrow> bool" where
  "contains_str sub [] = (sub = [])"
| "contains_str sub (x # xs) = (take (length sub) (x # xs) = sub \<or> contains_str sub xs)"

definition icontains :: "string \<Rightarrow> string \<Rightarrow> bool" where
  "icontains s sub = contains_str (py_lower sub) (py_lower s)"

section \<open>Generic lemmas\<close>

lemma dict_get_set [simp, dict_simps]:
  "dict_get (dict_set k v d) k' = (if k' = k then v else dict_get d k')"
  by (auto simp: update_conv')

lemma map_of_dict_set [simp, dict_simps]:
  "map_of (dict_set k v d) k' = (if k' = k then Some v else map_of d k')"
  by (auto simp: update_conv')

lemma set_dict_set: "(k', v') \<in> set (dict_set k v d) \<Longrightarrow> (k', v') \<in> set d \<or> (k' = k \<and> v' = v)"
  by (induction d) (auto split: if_splits)

lemma keys_dict_set: "fst ` set (dict_set k v d) = insert k (fst ` set d)"
  by (simp add: dom_update)

lemma distinct_dict_set: "distinct (map fst d) \<Longrightarrow> distinct (map fst (dict_set k v d))"
  by (rule distinct_update)

lemma dd_get_update [simp, dict_simps]:
  "dd_get z (AList.update k v d) k' = (if k' = k then v else dd_get z d k')"
  by (simp add: dd_get_def update_conv')

lemma dd_get_append [simp, dict_simps]:
  "dd_get [] (dd_append k v d) k' = (if k' = k then dd_get [] d k @ [v] else dd_get [] d k')"
  by (simp add: dd_append_def)

lemma dd_get_add [simp, dict_simps]:
  "dd_get {} (dd_add k v d) k' = (if k' = k then insert v (dd_get {} d k) else dd_get {} d k')"
  by (simp add: dd_add_def)

lemma keys_update: "fst ` set (AList.update k v d) = insert k (fst ` set d)"
  by (simp add: dom_update)

lemma keys_dd [simp]:
  "fst ` set (dd_append k v d) = insert k (fst ` set d)"
  "fst ` set (dd_add k w d') = insert k (fst ` set d')"
  by (simp_all add: dd_append_def dd_add_def keys_update)

lemma distinct_dd:
  "distinct (map fst d) \<Longrightarrow> distinct (map fst (dd_append k v d))"
  "distinct (map fst d') \<Longrightarrow> distinct (map fst (dd_add k w d'))"
  by (simp_all add: dd_append_def dd_add_def distinct_update)

lemma dd_get_keys: "k \<notin> fst ` set d \<Longrightarrow> dd_get z d k = z"
  by (simp add: dd_get_def map_of_eq_None_iff [THEN iffD2])

lemma distinct_one: "distinct xs \<Longrightarrow> set xs = {r} \<longleftrightarrow> xs = [r]"
  by (cases xs; cases "tl xs") (auto simp: neq_Nil_conv)

lemma set_sorted_set [simp]: "set (sorted_set xs) = set xs"
  by (simp add: sorted_set_def)

lemma distinct_sorted_set [simp]: "distinct (sorted_set xs)"
  by (simp add: sorted_set_def)

lemma sorted_sorted_set [simp]: "sorted (sorted_set xs)"
  by (simp add: sorted_set_def)

lemma sorted_set_cong: "set xs = set ys \<Longrightarrow> sorted_set xs = sorted_set ys"
  by (rule sorted_distinct_set_unique) simp_all

lemma sorted_set_empty [simp]: "sorted_set xs = [] \<longleftrightarrow> xs = []"
  by (metis set_empty set_sorted_set)

lemma fold_min_Min: "fold min xs x = Min (set (x # xs))"
  by (metis Min.set_eq_fold)

lemma fold_max_Max: "fold max xs x = Max (set (x # xs))"
  by (metis Max.set_eq_fold)

lemma opt_min_eq: "opt_min xs = (if xs = [] then None else Some (Min (set xs)))"
  by (cases xs) (simp_all only: opt_min.simps fold_min_Min, simp_all)

lemma opt_max_eq: "opt_max xs = (if xs = [] then None else Some (Max (set xs)))"
  by (cases xs) (simp_all only: opt_max.simps fold_max_Max, simp_all)

lemma opt_min_cong: "set xs = set ys \<Longrightarrow> opt_min xs = opt_min ys"
  by (auto simp: opt_min_eq)

lemma opt_min_Some_iff:
  "opt_min xs = Some m \<longleftrightarrow> m \<in> set xs \<and> (\<forall>x \<in> set xs. m \<le> x)"
  by (auto simp: opt_min_eq intro: Min_eqI)

lemma opt_max_Some_iff:
  "opt_max xs = Some m \<longleftrightarrow> m \<in> set xs \<and> (\<forall>x \<in> set xs. x \<le> m)"
  by (auto simp: opt_max_eq intro: Max_eqI)

lemma the_list_simps [simp, span_simps]:
  "the_list [] = []" "the_list (None # xs) = the_list xs" "the_list (Some x # xs) = x # the_list xs"
  "the_list (xs @ ys) = the_list xs @ the_list ys"
  by (simp_all add: the_list_def)

lemma set_the_list [simp]: "x \<in> set (the_list xs) \<longleftrightarrow> Some x \<in> set xs"
  by (force simp: the_list_def)

lemma opt_min_snoc [span_simps]: "upd_first (opt_min xs) t = opt_min (xs @ the_list [t])"
  by (cases t; cases xs) (auto simp: upd_first_def min_def)

lemma opt_max_snoc [span_simps]: "upd_last (opt_max xs) t = opt_max (xs @ the_list [t])"
  by (cases t; cases xs) (auto simp: upd_last_def max_def)

text \<open>Folding the incremental update over a list of optional times gives the extremum.\<close>

lemma fold_upd_first: "fold (\<lambda>t c. upd_first c t) ts (opt_min xs) = opt_min (xs @ the_list ts)"
proof (induction ts arbitrary: xs)
  case Nil
  then show ?case by simp
next
  case (Cons t ts)
  have "fold (\<lambda>t c. upd_first c t) ts (opt_min (xs @ the_list [t]))
      = opt_min ((xs @ the_list [t]) @ the_list ts)"
    by (rule Cons.IH)
  then show ?case by (cases t) (simp_all add: opt_min_snoc)
qed

lemma fold_upd_last: "fold (\<lambda>t c. upd_last c t) ts (opt_max xs) = opt_max (xs @ the_list ts)"
proof (induction ts arbitrary: xs)
  case Nil
  then show ?case by simp
next
  case (Cons t ts)
  have "fold (\<lambda>t c. upd_last c t) ts (opt_max (xs @ the_list [t]))
      = opt_max ((xs @ the_list [t]) @ the_list ts)"
    by (rule Cons.IH)
  then show ?case by (cases t) (simp_all add: opt_max_snoc)
qed

text \<open>\<^verbatim>\<open>split\<close> and \<^verbatim>\<open>join\<close> are inverse, and no piece holds the separator.\<close>

lemma split_on_nonempty [simp]: "split_on c s \<noteq> []"
  by (induction s) (auto split: list.splits)

lemma split_on_no_sep: "p \<in> set (split_on c s) \<Longrightarrow> c \<notin> set p"
  by (induction s arbitrary: p) (auto split: if_splits list.splits)

lemma length_split_on: "length (split_on c s) = Suc (count_list s c)"
  by (induction s) (auto split: list.splits)

lemma str_join_Cons: "ys \<noteq> [] \<Longrightarrow> str_join sep (x # ys) = x @ sep @ str_join sep ys"
  by (cases ys) simp_all

lemma join_split_on: "str_join [c] (split_on c s) = s"
proof (induction s)
  case Nil
  then show ?case by simp
next
  case (Cons x xs)
  show ?case
  proof (cases "x = c")
    case True
    then show ?thesis using Cons.IH by (simp add: str_join_Cons)
  next
    case False
    obtain y ys where yys: "split_on c xs = y # ys"
      using split_on_nonempty [of c xs] by (cases "split_on c xs") auto
    show ?thesis using Cons.IH False yys by (cases ys) simp_all
  qed
qed

lemma length_utf8_char: "1 \<le> length (utf8_char c)"
  by (simp add: utf8_char_def Let_def)

lemma length_utf8_encode: "length s \<le> length (utf8_encode s)"
proof (induction s)
  case Nil
  then show ?case by simp
next
  case (Cons c s)
  have "utf8_encode (c # s) = utf8_char c @ utf8_encode s" by (simp add: utf8_encode_def)
  with Cons length_utf8_char [of c] show ?case by simp
qed

text \<open>Sorting by a key whose list is already sorted changes nothing.\<close>

lemma sort_key_id: "sorted (map f xs) \<Longrightarrow> sort_key f xs = xs"
  by (induction xs) (auto simp: insort_is_Cons)

lemma filter_sort_key: "filter P (sort_key f xs) = sort_key f (filter P xs)"
  by (rule filter_sort)

section \<open>Slices of a list\<close>

text \<open>The slices \<^verbatim>\<open>xs[i : i + n]\<close> for \<^verbatim>\<open>i\<close> in \<^verbatim>\<open>range(0, len(xs), n)\<close>.\<close>

function batches :: "nat \<Rightarrow> 'a list \<Rightarrow> 'a list list" where
  "batches n xs = (if xs = [] \<or> n = 0 then [] else take n xs # batches n (drop n xs))"
  by pat_completeness auto
termination by (relation "measure (\<lambda>(n, xs). length xs)") auto

declare batches.simps [simp del]

lemma concat_batches: "0 < n \<Longrightarrow> concat (batches n xs) = xs"
proof (induction n xs rule: batches.induct)
  case (1 n xs)
  then show ?case by (subst batches.simps) auto
qed

lemma length_batches: "b \<in> set (batches n xs) \<Longrightarrow> length b \<le> n"
proof (induction n xs rule: batches.induct)
  case (1 n xs)
  then show ?case by (subst (asm) (2) batches.simps) (auto split: if_splits)
qed

lemma batches_nonempty: "b \<in> set (batches n xs) \<Longrightarrow> b \<noteq> []"
proof (induction n xs rule: batches.induct)
  case (1 n xs)
  then show ?case by (subst (asm) (2) batches.simps) (auto split: if_splits)
qed

end
