(* ===== verification/Models.thy ===== *)
theory Models
  imports Prelude
begin

text \<open>
  The database of the program (\<^verbatim>\<open>forensics/models.py\<close>): one \<^theory_text>\<open>record\<close> per Django model, one list
  of rows per table, and the column metadata of \<^verbatim>\<open>AuditEvent\<close> that the normalizer consults through
  \<^verbatim>\<open>_meta.get_field\<close>. A table's rows are in insertion order, which is primary-key order. A
  foreign key is the primary key of the row it points to; a many-to-many relation is the list of the
  related keys on the row that owns it. A \<^verbatim>\<open>JSONField\<close> that the program only ever fills with a
  list of strings is a \<open>string list\<close>; one that holds arbitrary JSON is a \<open>json\<close>. The automatic
  timestamps of event and projection rows, which no modelled operation reads, are left out, and so
  are \<^verbatim>\<open>source_ip\<close> and \<^verbatim>\<open>user_agent\<close> of a file, which the v4 ingest never fills, and the primary
  keys of tables that no other row refers to. Times are integers (milliseconds).
\<close>

datatype status = STATUS_VALID | STATUS_INVALID

section \<open>Column metadata\<close>

datatype column_type =
    AutoField
  | ForeignKey
  | CharField nat
  | TextField
  | PositiveIntegerField
  | PositiveBigIntegerField
  | BooleanField
  | JSONField
  | DateTimeField

text \<open>The concrete fields of \<^verbatim>\<open>AuditEvent\<close> in declaration order.\<close>

definition audit_event_columns :: "(string \<times> column_type) list" where
 "audit_event_columns = [
  (''id'', AutoField),
  (''group'', ForeignKey),
  (''audit_file'', ForeignKey),
  (''line_number'', PositiveIntegerField),
  (''line_hash'', CharField 64),
  (''raw_line'', TextField),
  (''raw_event'', JSONField),
  (''raw_kind'', JSONField),
  (''raw_context'', JSONField),
  (''parse_status'', CharField 16),
  (''validation_error'', TextField),
  (''schema_version'', CharField 80),
  (''recorder_session_id'', CharField 160),
  (''audit_data_mode'', CharField 80),
  (''seq'', PositiveBigIntegerField),
  (''wall_time_ms'', PositiveBigIntegerField),
  (''account_ref'', CharField 64),
  (''engine_id'', CharField 64),
  (''group_ref'', TextField),
  (''event_type'', CharField 80),
  (''context_operation_id'', CharField 160),
  (''context_human_action'', JSONField),
  (''context_transport'', JSONField),
  (''context_engine'', JSONField),
  (''context_group'', JSONField),
  (''context_convergence'', JSONField),
  (''context_source'', JSONField),
  (''human_action_action'', CharField 120),
  (''human_action_origin'', CharField 80),
  (''human_action_phase'', CharField 80),
  (''human_action_fields'', JSONField),
  (''human_action_component_ids'', JSONField),
  (''human_action_target_count'', PositiveIntegerField),
  (''human_action_message_ids'', JSONField),
  (''msg_id'', TextField),
  (''outbound_msg_id'', TextField),
  (''outbound_welcome_msg_ids'', JSONField),
  (''target_kind'', CharField 120),
  (''relay_urls'', JSONField),
  (''accepted_relay_urls'', JSONField),
  (''failed_relays'', JSONField),
  (''required_acks'', PositiveIntegerField),
  (''met_required_acks'', BooleanField),
  (''epoch'', PositiveBigIntegerField),
  (''source_epoch'', PositiveBigIntegerField),
  (''from_epoch'', PositiveBigIntegerField),
  (''to_epoch'', PositiveBigIntegerField),
  (''pending_epoch'', PositiveBigIntegerField),
  (''restored_epoch'', PositiveBigIntegerField),
  (''current_tip_epoch'', PositiveBigIntegerField),
  (''selected_fork_epoch'', PositiveBigIntegerField),
  (''selected_tip_epoch'', PositiveBigIntegerField),
  (''payload_len'', PositiveBigIntegerField),
  (''payload_digest'', CharField 128),
  (''candidate_digest'', CharField 128),
  (''incumbent_digest'', CharField 128),
  (''envelope_kind'', CharField 120),
  (''outcome'', CharField 120),
  (''outcome_kind'', CharField 120),
  (''stale_reason'', CharField 160),
  (''decision'', CharField 120),
  (''reason'', CharField 240),
  (''winner'', CharField 120),
  (''new_state'', CharField 120),
  (''pending_kind'', CharField 120),
  (''intent_kind'', CharField 120),
  (''result_kind'', CharField 120),
  (''proposal_kind'', CharField 120),
  (''snapshot_name'', CharField 256),
  (''selected_branch_id'', CharField 256),
  (''detail'', TextField),
  (''fallback_snapshot_used'', BooleanField),
  (''invalidated_msg_id'', TextField),
  (''max_rewind_commits'', PositiveBigIntegerField),
  (''candidate_count'', PositiveIntegerField),
  (''eligible_count'', PositiveIntegerField),
  (''created_at'', DateTimeField)]"

definition get_field :: "string \<Rightarrow> column_type option" where
  "get_field name = map_of audit_event_columns name"

definition field_max_length :: "string \<Rightarrow> nat option" where
  "field_max_length name = (case get_field name of Some (CharField n) \<Rightarrow> Some n | _ \<Rightarrow> None)"

text \<open>
  Django's documented ranges of the two integer column types
  (\<^verbatim>\<open>BaseDatabaseOperations.integer_field_ranges\<close>), upper ends.
\<close>

fun integer_field_max :: "column_type \<Rightarrow> int option" where
  "integer_field_max PositiveIntegerField = Some 2147483647"
| "integer_field_max PositiveBigIntegerField = Some 9223372036854775807"
| "integer_field_max _ = None"

definition model_int_field_max :: "string \<Rightarrow> int option" where
  "model_int_field_max name =
     (case get_field name of None \<Rightarrow> None | Some t \<Rightarrow> integer_field_max t)"

definition group_slug_max_length :: nat where
  "group_slug_max_length = 160"

definition group_ref_max_length :: nat where
  "group_ref_max_length = 512"

section \<open>Rows\<close>

record audit_group =
  g_id :: nat
  g_name :: string
  g_slug :: string
  g_group_ref :: string
  g_divergent_message_count :: nat
  g_notes :: string
  g_created_at :: int
  g_updated_at :: int

record audit_file =
  af_id :: nat
  af_upload_token :: "nat option"
  af_uploaded_by :: "nat option"
  af_source_name :: string
  af_source_hardware_model :: string
  af_source_device_id :: string
  af_source_platform :: string
  af_source_app_version :: string
  af_source_upload_trigger :: string
  af_source_local_member_ref :: string
  af_content_type :: string
  af_file_sha256 :: string
  af_byte_size :: nat
  af_raw_text :: string
  af_validation_status :: status
  af_validation_error :: string
  af_total_line_count :: nat
  af_valid_event_count :: nat
  af_invalid_event_count :: nat
  af_duplicate_event_count :: nat
  af_first_line_number :: "nat option"
  af_last_line_number :: "nat option"
  af_first_seq :: "int option"
  af_last_seq :: "int option"
  af_first_wall_time_ms :: "int option"
  af_last_wall_time_ms :: "int option"
  af_account_refs :: "string list"
  af_engine_ids :: "string list"
  af_group_refs :: "string list"
  af_schema_versions :: "string list"
  af_audit_data_modes :: "string list"
  af_created_at :: int
  af_groups :: "nat list"

record upload_rejection =
  ur_upload_token :: "nat option"
  ur_reason :: string
  ur_line_number :: "nat option"
  ur_status_code :: nat
  ur_declared_content_length :: "nat option"
  ur_received_bytes :: "nat option"
  ur_created_at :: int

record audit_event =
  ev_id :: nat
  ev_group :: "nat option"
  ev_audit_file :: "nat"
  ev_line_number :: "nat"
  ev_line_hash :: "string"
  ev_raw_line :: "string"
  ev_raw_event :: "json option"
  ev_raw_kind :: "json"
  ev_raw_context :: "json"
  ev_parse_status :: "status"
  ev_validation_error :: "string"
  ev_schema_version :: "string"
  ev_recorder_session_id :: "string"
  ev_audit_data_mode :: "string"
  ev_seq :: "int option"
  ev_wall_time_ms :: "int option"
  ev_account_ref :: "string"
  ev_engine_id :: "string"
  ev_group_ref :: "string"
  ev_event_type :: "string"
  ev_context_operation_id :: "string"
  ev_context_human_action :: "json"
  ev_context_transport :: "json"
  ev_context_engine :: "json"
  ev_context_group :: "json"
  ev_context_convergence :: "json"
  ev_context_source :: "json"
  ev_human_action_action :: "string"
  ev_human_action_origin :: "string"
  ev_human_action_phase :: "string"
  ev_human_action_fields :: "string list"
  ev_human_action_component_ids :: "json list"
  ev_human_action_target_count :: "int option"
  ev_human_action_message_ids :: "string list"
  ev_msg_id :: "string"
  ev_outbound_msg_id :: "string"
  ev_outbound_welcome_msg_ids :: "string list"
  ev_target_kind :: "string"
  ev_relay_urls :: "string list"
  ev_accepted_relay_urls :: "string list"
  ev_failed_relays :: "json list"
  ev_required_acks :: "int option"
  ev_met_required_acks :: "bool option"
  ev_epoch :: "int option"
  ev_source_epoch :: "int option"
  ev_from_epoch :: "int option"
  ev_to_epoch :: "int option"
  ev_pending_epoch :: "int option"
  ev_restored_epoch :: "int option"
  ev_current_tip_epoch :: "int option"
  ev_selected_fork_epoch :: "int option"
  ev_selected_tip_epoch :: "int option"
  ev_payload_len :: "int option"
  ev_payload_digest :: "string"
  ev_candidate_digest :: "string"
  ev_incumbent_digest :: "string"
  ev_envelope_kind :: "string"
  ev_outcome :: "string"
  ev_outcome_kind :: "string"
  ev_stale_reason :: "string"
  ev_decision :: "string"
  ev_reason :: "string"
  ev_winner :: "string"
  ev_new_state :: "string"
  ev_pending_kind :: "string"
  ev_intent_kind :: "string"
  ev_result_kind :: "string"
  ev_proposal_kind :: "string"
  ev_snapshot_name :: "string"
  ev_selected_branch_id :: "string"
  ev_detail :: "string"
  ev_fallback_snapshot_used :: "bool option"
  ev_invalidated_msg_id :: "string"
  ev_max_rewind_commits :: "int option"
  ev_candidate_count :: "int option"
  ev_eligible_count :: "int option"

text \<open>The column defaults of an event row that was given no value.\<close>

definition blank_event :: audit_event where
  "blank_event = \<lparr>
     ev_id = 0,
     ev_group = None,
     ev_audit_file = 0,
     ev_line_number = 0,
     ev_line_hash = [],
     ev_raw_line = [],
     ev_raw_event = None,
     ev_raw_kind = JObj [],
     ev_raw_context = JObj [],
     ev_parse_status = STATUS_VALID,
     ev_validation_error = [],
     ev_schema_version = [],
     ev_recorder_session_id = [],
     ev_audit_data_mode = [],
     ev_seq = None,
     ev_wall_time_ms = None,
     ev_account_ref = [],
     ev_engine_id = [],
     ev_group_ref = [],
     ev_event_type = [],
     ev_context_operation_id = [],
     ev_context_human_action = JObj [],
     ev_context_transport = JObj [],
     ev_context_engine = JObj [],
     ev_context_group = JObj [],
     ev_context_convergence = JObj [],
     ev_context_source = JObj [],
     ev_human_action_action = [],
     ev_human_action_origin = [],
     ev_human_action_phase = [],
     ev_human_action_fields = [],
     ev_human_action_component_ids = [],
     ev_human_action_target_count = None,
     ev_human_action_message_ids = [],
     ev_msg_id = [],
     ev_outbound_msg_id = [],
     ev_outbound_welcome_msg_ids = [],
     ev_target_kind = [],
     ev_relay_urls = [],
     ev_accepted_relay_urls = [],
     ev_failed_relays = [],
     ev_required_acks = None,
     ev_met_required_acks = None,
     ev_epoch = None,
     ev_source_epoch = None,
     ev_from_epoch = None,
     ev_to_epoch = None,
     ev_pending_epoch = None,
     ev_restored_epoch = None,
     ev_current_tip_epoch = None,
     ev_selected_fork_epoch = None,
     ev_selected_tip_epoch = None,
     ev_payload_len = None,
     ev_payload_digest = [],
     ev_candidate_digest = [],
     ev_incumbent_digest = [],
     ev_envelope_kind = [],
     ev_outcome = [],
     ev_outcome_kind = [],
     ev_stale_reason = [],
     ev_decision = [],
     ev_reason = [],
     ev_winner = [],
     ev_new_state = [],
     ev_pending_kind = [],
     ev_intent_kind = [],
     ev_result_kind = [],
     ev_proposal_kind = [],
     ev_snapshot_name = [],
     ev_selected_branch_id = [],
     ev_detail = [],
     ev_fallback_snapshot_used = None,
     ev_invalidated_msg_id = [],
     ev_max_rewind_commits = None,
     ev_candidate_count = None,
     ev_eligible_count = None \<rparr>"

record delivery_artifact =
  da_id :: nat
  da_group :: nat
  da_artifact_id :: string
  da_artifact_kind :: string
  da_first_seen_ms :: "int option"
  da_last_seen_ms :: "int option"
  da_audit_data_modes :: "string list"
  da_author :: json
  da_decoded_payload :: json
  da_decoded_app_event :: json
  da_evidence_events :: "nat list"

text \<open>An entry of \<^verbatim>\<open>DeliveryObservation.states\<close>.\<close>

record state_entry =
  se_state :: string
  se_event_type :: string
  se_event_id :: nat
  se_wall_time_ms :: "int option"

record delivery_observation =
  dv_id :: nat
  dv_artifact :: nat
  dv_engine_id :: string
  dv_account_ref :: string
  dv_first_seen_ms :: "int option"
  dv_last_seen_ms :: "int option"
  dv_states :: "state_entry list"
  dv_latest_state :: string
  dv_missing_inferred :: bool
  dv_evidence_events :: "nat list"

record recipient_expectation =
  re_artifact :: nat
  re_artifact_kind :: string
  re_recipient_scope :: string
  re_membership_epoch :: "int option"
  re_basis_commit_id :: string
  re_expected_member_refs :: "json list"
  re_expected_pubkeys_hex :: "json list"
  re_expected_count :: "int option"
  re_evidence_event :: nat

record network_observation =
  no_group :: "nat option"
  no_artifact :: "nat option"
  no_audit_event :: nat
  no_direction :: string
  no_phase :: string
  no_message_id :: string
  no_artifact_kind :: string
  no_engine_id :: string
  no_account_ref :: string
  no_wall_time_ms :: "int option"
  no_transport_source :: string
  no_delivery_plane :: string
  no_relay_url :: string
  no_subscription_id :: string
  no_wire_id :: string
  no_wire_kind :: string
  no_wire_pubkey_hex :: string
  no_transport_group_id :: string
  no_nostr_event_id :: string
  no_nostr_kind :: "int option"
  no_nostr_pubkey_hex :: string
  no_gift_wrap_event_id :: string
  no_welcome_nostr_event_id :: string
  no_welcome_rumor_event_id :: string
  no_welcome_key_package_tag :: string
  no_publish_result_id :: string
  no_payload_len :: "int option"
  no_payload_digest :: string
  no_outcome :: string
  no_accepted_relay_urls :: "string list"
  no_failed_relays :: "json list"
  no_required_acks :: "int option"
  no_met_required_acks :: "bool option"

record convergence_run =
  cr_id :: nat
  cr_group :: nat
  cr_run_id :: string
  cr_engine_id :: string
  cr_account_ref :: string
  cr_inferred :: bool
  cr_phase :: string
  cr_started_at_ms :: "int option"
  cr_ended_at_ms :: "int option"
  cr_current_tip_epoch :: "int option"
  cr_selected_branch_id :: string
  cr_selected_fork_epoch :: "int option"
  cr_selected_tip_epoch :: "int option"
  cr_max_rewind_commits :: "int option"
  cr_losing_branch_ids :: "json list"
  cr_error_kinds :: "json list"
  cr_evidence_events :: "nat list"

record convergence_candidate =
  cc_run :: nat
  cc_branch_id :: string
  cc_fork_epoch :: "int option"
  cc_tip_epoch :: "int option"
  cc_commit_ids :: "json list"
  cc_commit_count :: "int option"
  cc_state_digest :: string
  cc_tip_digest :: string
  cc_tip_priority :: string
  cc_tip_committer_ref :: string
  cc_tip_committer_pubkey_hex :: string
  cc_retained_anchor_status :: string
  cc_last_input_time_ms :: "int option"
  cc_eligible :: "bool option"
  cc_rejection_reasons :: "json list"
  cc_score :: dict
  cc_app_witnesses :: "json list"

record rule_evaluation =
  ce_run :: nat
  ce_rule_name :: string
  ce_scope :: string
  ce_candidate_branch_id :: string
  ce_other_candidate_branch_id :: string
  ce_inputs :: dict
  ce_result :: json
  ce_decisive :: bool
  ce_selected_branch_id :: string
  ce_rejected_branch_id :: string
  ce_sequence :: nat

record state_delta =
  sd_group :: "nat option"
  sd_audit_event :: nat
  sd_epoch :: "int option"
  sd_change_kind :: string
  sd_membership_change_source :: string
  sd_actor_member_ref :: string
  sd_actor_pubkey_hex :: string
  sd_subject_member_ref :: string
  sd_subject_pubkey_hex :: string
  sd_origin_commit_id :: string
  sd_fields :: "json list"
  sd_component_ids :: "json list"
  sd_value :: dict
  sd_audit_data_mode :: string
  sd_wall_time_ms :: "int option"

record epoch_transition =
  et_group :: "nat option"
  et_audit_event :: nat
  et_engine_id :: string
  et_account_ref :: string
  et_previous_state :: string
  et_new_state :: string
  et_epoch :: "int option"
  et_reason :: string
  et_pending_ref :: "int option"
  et_pending_kind :: string
  et_wall_time_ms :: "int option"

section \<open>The database\<close>

text \<open>
  The evidence tables and the derived projection tables, with the primary-key sequences of the
  tables that are referred to by key. A sequence never hands out a key twice.
\<close>

record projections =
  pj_artifacts :: "delivery_artifact list"
  pj_observations :: "delivery_observation list"
  pj_expectations :: "recipient_expectation list"
  pj_network :: "network_observation list"
  pj_runs :: "convergence_run list"
  pj_candidates :: "convergence_candidate list"
  pj_rules :: "rule_evaluation list"
  pj_deltas :: "state_delta list"
  pj_transitions :: "epoch_transition list"
  pj_next_artifact :: nat
  pj_next_observation :: nat
  pj_next_run :: nat

record database =
  db_groups :: "audit_group list"
  db_files :: "audit_file list"
  db_events :: "audit_event list"
  db_rejections :: "upload_rejection list"
  db_projections :: projections
  db_next_group :: nat
  db_next_file :: nat
  db_next_event :: nat

definition empty_projections :: projections where
  "empty_projections = \<lparr> pj_artifacts = [], pj_observations = [], pj_expectations = [],
     pj_network = [], pj_runs = [], pj_candidates = [], pj_rules = [], pj_deltas = [],
     pj_transitions = [], pj_next_artifact = 1, pj_next_observation = 1, pj_next_run = 1 \<rparr>"

definition empty_database :: database where
  "empty_database = \<lparr> db_groups = [], db_files = [], db_events = [], db_rejections = [],
     db_projections = empty_projections, db_next_group = 1, db_next_file = 1, db_next_event = 1 \<rparr>"

end
