(* ===== verification/Runtime.thy ===== *)
theory Runtime
  imports Prelude
begin

text \<open>
  What the program takes from outside its own sources, as the fields of one record that the
  operations receive: SHA-256, UTF-8 decoding, the JSON scanner of the standard library, the JSON
  Schema validators built from the committed v4 schema, Django's \<^verbatim>\<open>slugify\<close>, and the operator's
  settings (\<^verbatim>\<open>config/settings.py\<close>). Theorems that need something of one of them say so in a
  hypothesis.

  \<open>json_loads raw\<close> is the parse tree of \<^verbatim>\<open>json.loads(raw)\<close> before its two hooks ran, \<open>None\<close> when
  the scanner raises \<^verbatim>\<open>ValueError\<close>: an object has its members in source order, repeated keys
  included, and one of the tokens \<^verbatim>\<open>NaN\<close>, \<^verbatim>\<open>Infinity\<close>, \<^verbatim>\<open>-Infinity\<close> is \<open>JFloat\<close> of that token (no
  Python float has such a \<^verbatim>\<open>repr\<close>).
\<close>

record runtime =
  sha256_hexdigest :: "byte list \<Rightarrow> string"
  utf8_decode :: "byte list \<Rightarrow> string option"
  json_loads :: "string \<Rightarrow> json option"
  event_validators :: "string \<Rightarrow> (json \<Rightarrow> bool) option"
  slugify :: "string \<Rightarrow> string"
  max_dump_bytes :: nat
  max_jsonl_line_bytes :: nat
  max_dump_records :: nat

text \<open>
  The defaults of the three upload limits. An operator may override each; \<open>RECORD_CAP_BYTES_PER_LINE\<close>
  is the divisor the record limit is derived with.
\<close>

definition default_max_dump_bytes :: nat where
  "default_max_dump_bytes = 64 * 1024 * 1024"

definition RECORD_CAP_BYTES_PER_LINE :: nat where
  "RECORD_CAP_BYTES_PER_LINE = 256"

definition default_max_dump_records :: nat where
  "default_max_dump_records = default_max_dump_bytes div RECORD_CAP_BYTES_PER_LINE"

definition default_max_jsonl_line_bytes :: nat where
  "default_max_jsonl_line_bytes = 2 * 1024 * 1024"

end
