(* ===== verification/Json_Guard.thy ===== *)
theory Json_Guard
  imports Runtime
begin

text \<open>
  The reading of one JSONL record (\<^verbatim>\<open>forensics/ingest.py\<close>): the bracket scanner that runs before
  \<^verbatim>\<open>json.loads\<close>, the strict loader with its two hooks, and the LF record splitter. The lemmas relate
  the scanner to the nesting depth of the value a text denotes, through the compact printer
  \<^verbatim>\<open>json.dumps(v, separators=(",", ":"))\<close> that the exports use.
\<close>

section \<open>The nesting scanner\<close>

definition MAX_JSON_NESTING_DEPTH :: nat where
  "MAX_JSON_NESTING_DEPTH = 200"

record scan =
  sc_depth :: nat
  sc_max_depth :: nat
  sc_in_string :: bool
  sc_escaped :: bool

definition scan_char :: "char \<Rightarrow> scan \<Rightarrow> scan" where
  "scan_char ch st =
     (if sc_in_string st then
        (if sc_escaped st then st\<lparr>sc_escaped := False\<rparr>
         else if ch = CHR 0x5C then st\<lparr>sc_escaped := True\<rparr>
         else if ch = CHR 0x22 then st\<lparr>sc_in_string := False\<rparr>
         else st)
      else if ch = CHR 0x22 then st\<lparr>sc_in_string := True\<rparr>
      else if ch = CHR ''['' \<or> ch = CHR ''{'' then
        (let d = sc_depth st + 1 in
         st\<lparr>sc_depth := d, sc_max_depth := (if d > sc_max_depth st then d else sc_max_depth st)\<rparr>)
      else if ch = CHR '']'' \<or> ch = CHR ''}'' then
        (if sc_depth st > 0 then st\<lparr>sc_depth := sc_depth st - 1\<rparr> else st)
      else st)"

definition scan_start :: scan where
  "scan_start = \<lparr>sc_depth = 0, sc_max_depth = 0, sc_in_string = False, sc_escaped = False\<rparr>"

definition max_json_nesting_depth :: "string \<Rightarrow> nat" where
  "max_json_nesting_depth raw = sc_max_depth (fold scan_char raw scan_start)"

section \<open>The strict loader\<close>

definition json_constant :: "string \<Rightarrow> bool" where
  "json_constant s \<longleftrightarrow> s = ''NaN'' \<or> s = ''Infinity'' \<or> s = ''-Infinity''"

text \<open>
  The two hooks over the parse tree: \<^verbatim>\<open>reject_constant\<close> refuses a non-finite number token anywhere,
  \<^verbatim>\<open>unique_object\<close> an object with a repeated key at any depth.
\<close>

fun strict_value :: "json \<Rightarrow> bool" where
  "strict_value (JFloat s) = (\<not> json_constant s)"
| "strict_value (JList xs) = list_all strict_value xs"
| "strict_value (JObj ms) = (distinct (map fst ms) \<and> list_all (\<lambda>m. strict_value (snd m)) ms)"
| "strict_value _ = True"

definition loads_audit_json :: "runtime \<Rightarrow> string \<Rightarrow> json option" where
  "loads_audit_json rt raw =
     (if max_json_nesting_depth raw > MAX_JSON_NESTING_DEPTH then None
      else (case json_loads rt raw of
              None \<Rightarrow> None
            | Some v \<Rightarrow> if strict_value v then Some v else None))"

section \<open>Records of a JSONL text\<close>

definition drop_cr :: "string \<Rightarrow> string" where
  "drop_cr line = (if line \<noteq> [] \<and> last line = CHR 0x0D then butlast line else line)"

definition iter_jsonl_record_lines :: "string \<Rightarrow> string list" where
  "iter_jsonl_record_lines raw_text = map drop_cr (split_on CHR 0x0A raw_text)"

section \<open>Printing and depth\<close>

text \<open>\<^verbatim>\<open>json.dumps\<close> with compact separators and \<^verbatim>\<open>ensure_ascii\<close>.\<close>

definition dumps_char :: "char \<Rightarrow> string" where
  "dumps_char c =
     (let n = (of_char c :: nat) in
      if n = 34 \<or> n = 92 then [CHR 0x5C, c]
      else if n = 10 then [CHR 0x5C, CHR ''n'']
      else if n = 13 then [CHR 0x5C, CHR ''r'']
      else if n = 9 then [CHR 0x5C, CHR ''t'']
      else if n = 8 then [CHR 0x5C, CHR ''b'']
      else if n = 12 then [CHR 0x5C, CHR ''f'']
      else if 32 \<le> n \<and> n \<le> 126 then [c]
      else [CHR 0x5C, CHR ''u'', CHR ''0'', CHR ''0'', hex_digit (n div 16), hex_digit (n mod 16)])"

definition dumps_str :: "string \<Rightarrow> string" where
  "dumps_str s = CHR 0x22 # concat (map dumps_char s) @ [CHR 0x22]"

fun dumps :: "json \<Rightarrow> string" where
  "dumps JNull = ''null''"
| "dumps (JBool b) = (if b then ''true'' else ''false'')"
| "dumps (JInt i) = int_str i"
| "dumps (JFloat r) = r"
| "dumps (JStr s) = dumps_str s"
| "dumps (JList xs) = ''['' @ str_join '','' (map dumps xs) @ '']''"
| "dumps (JObj ms) =
     ''{'' @ str_join '','' (map (\<lambda>m. dumps_str (fst m) @ '':'' @ dumps (snd m)) ms) @ ''}''"

fun json_depth :: "json \<Rightarrow> nat" where
  "json_depth (JList xs) = Suc (fold max (map json_depth xs) 0)"
| "json_depth (JObj ms) = Suc (fold max (map (\<lambda>m. json_depth (snd m)) ms) 0)"
| "json_depth _ = 0"

text \<open>A float's \<^verbatim>\<open>repr\<close> holds no quote and no bracket.\<close>

definition plain_char :: "char \<Rightarrow> bool" where
  "plain_char c \<longleftrightarrow> c \<notin> {CHR 0x22, CHR ''['', CHR ''{'', CHR '']'', CHR ''}''}"

fun plain_floats :: "json \<Rightarrow> bool" where
  "plain_floats (JFloat r) = list_all plain_char r"
| "plain_floats (JList xs) = list_all plain_floats xs"
| "plain_floats (JObj ms) = list_all (\<lambda>m. plain_floats (snd m)) ms"
| "plain_floats _ = True"

section \<open>Lemmas\<close>

text \<open>A position outside every string, at depth \<open>d\<close>, with \<open>m\<close> the deepest level so far.\<close>

abbreviation outside :: "nat \<Rightarrow> nat \<Rightarrow> scan" where
  "outside d m \<equiv> \<lparr>sc_depth = d, sc_max_depth = m, sc_in_string = False, sc_escaped = False\<rparr>"

abbreviation inside :: "nat \<Rightarrow> nat \<Rightarrow> scan" where
  "inside d m \<equiv> \<lparr>sc_depth = d, sc_max_depth = m, sc_in_string = True, sc_escaped = False\<rparr>"

lemma scan_plain: "list_all plain_char s \<Longrightarrow> fold scan_char s (outside d m) = outside d m"
  by (induction s) (auto simp: scan_char_def plain_char_def)

lemma of_char_hex_digit: "n < 16 \<Longrightarrow> (of_char (hex_digit n) :: nat) = (if n < 10 then 48 + n else 87 + n)"
  by (simp add: hex_digit_def)

lemma hex_digit_safe: "n < 16 \<Longrightarrow> hex_digit n \<noteq> CHR 0x5C \<and> hex_digit n \<noteq> CHR 0x22"
  using of_char_hex_digit [of n] by (auto split: if_splits)

lemma of_char_quote: "(of_char c :: nat) = 34 \<longleftrightarrow> c = CHR 0x22"
  using of_char_eq_iff [of c "CHR 0x22", where ?'a = nat] by simp

lemma of_char_backslash: "(of_char c :: nat) = 92 \<longleftrightarrow> c = CHR 0x5C"
  using of_char_eq_iff [of c "CHR 0x5C", where ?'a = nat] by simp

lemma fold_max_start: "fold max ys (a::nat) = max a (fold max ys 0)"
proof (induction ys arbitrary: a)
  case (Cons y ys)
  show ?case using Cons [of "max y a"] Cons [of y] by simp
qed simp

lemma scan_dumps_char: "fold scan_char (dumps_char c) (inside d m) = inside d m"
proof -
  have "(of_char c :: nat) < 256" by simp
  then have h: "(of_char c :: nat) div 16 < 16" "(of_char c :: nat) mod 16 < 16"
    by (simp_all add: less_mult_imp_div_less)
  show ?thesis
    using hex_digit_safe [OF h(1)] hex_digit_safe [OF h(2)]
    by (auto simp: dumps_char_def Let_def scan_char_def of_char_quote of_char_backslash)
qed

lemma scan_dumps_chars: "fold scan_char (concat (map dumps_char s)) (inside d m) = inside d m"
  by (induction s) (simp_all add: scan_dumps_char)

lemma scan_dumps_str: "fold scan_char (dumps_str s) (outside d m) = outside d m"
proof -
  have "scan_char CHR 0x22 (outside d m) = inside d m" by (simp add: scan_char_def)
  moreover have "scan_char CHR 0x22 (inside d m) = outside d m" by (simp add: scan_char_def)
  ultimately show ?thesis by (simp add: dumps_str_def scan_dumps_chars)
qed

lemma digit_plain: "d < 10 \<Longrightarrow> plain_char (digit_char d)"
proof -
  assume "d < 10"
  then have "(of_char (digit_char d) :: nat) = 48 + d" by (simp add: digit_char_def)
  with \<open>d < 10\<close> show ?thesis by (auto simp: plain_char_def)
qed

lemma nat_str_plain: "list_all plain_char (nat_str n)"
proof (induction n rule: nat_str.induct)
  case (1 n)
  then show ?case by (subst nat_str.simps) (simp add: digit_plain)
qed

lemma int_str_plain: "list_all plain_char (int_str i)"
  by (simp add: int_str_def nat_str_plain) (simp add: plain_char_def)

lemma scan_open: "c = CHR ''['' \<or> c = CHR ''{'' \<Longrightarrow>
    scan_char c (outside d m) = outside (Suc d) (max m (Suc d))"
  by (auto simp: scan_char_def max_def)

lemma scan_close: "c = CHR '']'' \<or> c = CHR ''}'' \<Longrightarrow>
    scan_char c (outside (Suc d) m) = outside d m"
  by (auto simp: scan_char_def)

lemma scan_join:
  assumes "\<And>x m. x \<in> set xs \<Longrightarrow> d \<le> m \<Longrightarrow>
      fold scan_char (g x) (outside d m) = outside d (max m (d + h x))"
    and "d \<le> m"
  shows "fold scan_char (str_join '','' (map g xs)) (outside d m)
       = outside d (max m (d + fold max (map h xs) 0))"
  using assms
proof (induction xs arbitrary: m)
  case Nil
  then show ?case by simp
next
  case (Cons x xs)
  let ?m = "max m (d + h x)"
  have x: "fold scan_char (g x) (outside d m) = outside d ?m" using Cons.prems by simp
  have fm: "fold max (map h (x # xs)) 0 = max (h x) (fold max (map h xs) 0)"
    by (simp add: fold_max_start [of _ "h x"])
  show ?case
  proof (cases "xs = []")
    case True
    then show ?thesis using x by simp
  next
    case False
    have comma: "scan_char CHR '','' (outside d ?m) = outside d ?m" by (simp add: scan_char_def)
    have "fold scan_char (str_join '','' (map g xs)) (outside d ?m)
        = outside d (max ?m (d + fold max (map h xs) 0))"
      using Cons.prems by (intro Cons.IH) auto
    then show ?thesis using False x comma fm by (simp add: str_join_Cons max.assoc)
  qed
qed

text \<open>Scanning the printed form of a value from any outside position adds exactly its depth.\<close>

lemma scan_dumps:
  "plain_floats v \<Longrightarrow> d \<le> m \<Longrightarrow>
     fold scan_char (dumps v) (outside d m) = outside d (max m (d + json_depth v))"
proof (induction v arbitrary: d m rule: dumps.induct)
  case (1 d m)
  then show ?case by (simp add: scan_char_def)
next
  case (2 b d m)
  then show ?case by (simp add: scan_char_def)
next
  case (3 i d m)
  then show ?case using scan_plain [OF int_str_plain] by simp
next
  case (4 r d m)
  then show ?case using scan_plain by simp
next
  case (5 s d m)
  then show ?case using scan_dumps_str by simp
next
  case (6 xs d m)
  let ?m = "max m (Suc d)"
  have "fold scan_char (str_join '','' (map dumps xs)) (outside (Suc d) ?m)
      = outside (Suc d) (max ?m (Suc d + fold max (map json_depth xs) 0))"
    using "6.IH" "6.prems" by (intro scan_join) (auto simp: list_all_iff)
  then show ?case by (simp add: scan_open scan_close max.assoc)
next
  case (7 ms d m)
  let ?m = "max m (Suc d)" and ?g = "\<lambda>m. dumps_str (fst m) @ '':'' @ dumps (snd m)"
  have colon: "scan_char CHR '':'' (outside k n) = outside k n" for k n by (simp add: scan_char_def)
  have "fold scan_char (str_join '','' (map ?g ms)) (outside (Suc d) ?m)
      = outside (Suc d) (max ?m (Suc d + fold max (map (\<lambda>m. json_depth (snd m)) ms) 0))"
    using "7.IH" "7.prems" by (intro scan_join) (auto simp: list_all_iff scan_dumps_str colon)
  then show ?case by (simp add: scan_open scan_close max.assoc)
qed

text \<open>What the strict loader returns was parsed, is shallow enough, and passed both hooks.\<close>

lemma loads_audit_json_Some_iff:
  "loads_audit_json rt raw = Some v \<longleftrightarrow>
     json_loads rt raw = Some v \<and> strict_value v \<and>
     max_json_nesting_depth raw \<le> MAX_JSON_NESTING_DEPTH"
  by (auto simp: loads_audit_json_def split: option.splits if_splits)

lemma strict_value_member:
  "strict_value (JObj ms) \<Longrightarrow> (k, v) \<in> set ms \<Longrightarrow> map_of ms k = Some v"
  by simp

text \<open>
  C11: the scanner is exact on printed JSON: for every value, whatever its strings contain, the depth
  that the scanner computes for the compact text of the value is the nesting depth of the value. So
  brackets, quotes and escapes inside strings never change the count, and the guard of
  \<^verbatim>\<open>loads_audit_json\<close> refuses a printed value exactly when it nests deeper than 200.
\<close>

theorem nesting_scan_exact:
  assumes "plain_floats v"
  shows "max_json_nesting_depth (dumps v) = json_depth v
    \<and> (max_json_nesting_depth (dumps v) > MAX_JSON_NESTING_DEPTH \<longleftrightarrow> 200 < json_depth v)"
proof -
  have "fold scan_char (dumps v) (outside 0 0) = outside 0 (json_depth v)"
    using scan_dumps [OF assms, of 0 0] by simp
  then show ?thesis
    by (simp add: max_json_nesting_depth_def scan_start_def MAX_JSON_NESTING_DEPTH_def)
qed

theorem nesting_scan_exact_witness:
  "max_json_nesting_depth (dumps (JObj [(''a['', JList [JStr ''[[{'', JFloat ''1.5''])])) = 2"
proof -
  let ?v = "JObj [(''a['', JList [JStr ''[[{'', JFloat ''1.5''])]"
  have "plain_floats ?v" by (simp add: plain_char_def)
  from nesting_scan_exact [OF this] show ?thesis by simp
qed

text \<open>
  The record splitter loses nothing but carriage returns. The records are the pieces between line
  feeds, each without its final CR; joining the pieces with line feeds gives the upload back, and no
  record contains a line feed, so no other separator character splits a record.
\<close>

theorem jsonl_records_roundtrip:
  "(\<exists>pieces. iter_jsonl_record_lines text = map drop_cr pieces \<and> str_join [CHR 0x0A] pieces = text)
   \<and> list_all (\<lambda>r. CHR 0x0A \<notin> set r) (iter_jsonl_record_lines text)
   \<and> length (iter_jsonl_record_lines text) = Suc (count_list text CHR 0x0A)"
proof (intro conjI)
  show "\<exists>pieces. iter_jsonl_record_lines text = map drop_cr pieces \<and> str_join [CHR 0x0A] pieces = text"
    using join_split_on by (auto simp: iter_jsonl_record_lines_def)
  show "list_all (\<lambda>r. CHR 0x0A \<notin> set r) (iter_jsonl_record_lines text)"
    by (auto simp: iter_jsonl_record_lines_def list_all_iff drop_cr_def dest: split_on_no_sep in_set_butlastD)
  show "length (iter_jsonl_record_lines text) = Suc (count_list text CHR 0x0A)"
    by (simp add: iter_jsonl_record_lines_def length_split_on)
qed

end
