(* ===== verification/Normalize.thy ===== *)
theory Normalize
  imports Models Json_Guard
begin

text \<open>
  The v4 acceptance gate (\<^verbatim>\<open>forensics/audit_schema.py\<close>) and the normalizer of
  \<^verbatim>\<open>forensics/ingest.py\<close>: \<^verbatim>\<open>normalize_event\<close>, \<^verbatim>\<open>normalize_kind\<close>, \<^verbatim>\<open>normalize_context\<close> and the
  \<^verbatim>\<open>copy_*\<close> helpers. The two mutable arguments of the Python functions, the dictionary \<^verbatim>\<open>normalized\<close>
  and the list \<^verbatim>\<open>errors\<close>, are threaded as a pair; a sequence of statements is \<open>run\<close> over the list
  of the statements.

  The lemmas show that whatever the event, every key written is a column of \<^verbatim>\<open>AuditEvent\<close> and every
  value fits that column.
\<close>

type_synonym nstate = "dict \<times> string list"

definition run :: "(nstate \<Rightarrow> nstate) list \<Rightarrow> nstate \<Rightarrow> nstate" where
  "run steps st = fold (\<lambda>f s. f s) steps st"

section \<open>The schema gate\<close>

definition SCHEMA_VERSION :: string where
  "SCHEMA_VERSION = ''marmot-forensics-audit/v4''"

definition schema_error_code :: "runtime \<Rightarrow> json \<Rightarrow> string option" where
  "schema_error_code rt event =
     (case event of
        JObj ev \<Rightarrow>
          (if dict_get ev ''schema_version'' \<noteq> JStr SCHEMA_VERSION then Some ''unsupported_schema''
           else
             (let kind = dict_get ev ''kind'';
                  kind_type = (case kind of JObj k \<Rightarrow> dict_get k ''type'' | _ \<Rightarrow> JNull);
                  validator = (case kind_type of JStr t \<Rightarrow> event_validators rt t | _ \<Rightarrow> None)
              in (case validator of
                    None \<Rightarrow> Some ''invalid_v4_schema''
                  | Some valid \<Rightarrow> if valid event then None else Some ''invalid_v4_schema'')))
      | _ \<Rightarrow> Some ''invalid_json_object'')"

section \<open>Value tests and column limits\<close>

definition V4_PEELER_OUTCOMES :: "string list" where
  "V4_PEELER_OUTCOMES = [''success'', ''decrypt_failed'', ''stale_epoch'', ''malformed'', ''other'',
     ''invalid_signature'', ''wrong_recipient'']"

definition SAFE_ONLY_AUDIT_DATA_MODE :: string where
  "SAFE_ONLY_AUDIT_DATA_MODE = ''safe_only''"

definition MSG_ID_MAX_LENGTH :: nat where
  "MSG_ID_MAX_LENGTH = 512"

definition MAX_WALL_TIME_MS :: int where
  "MAX_WALL_TIME_MS = 4102444800000"

fun value_if_str :: "json \<Rightarrow> string" where
  "value_if_str (JStr s) = s"
| "value_if_str _ = []"

fun value_if_int :: "json \<Rightarrow> int option" where
  "value_if_int (JInt i) = (if i \<ge> 0 then Some i else None)"
| "value_if_int _ = None"

definition is_hex :: "json \<Rightarrow> nat option \<Rightarrow> bool \<Rightarrow> bool" where
  "is_hex value exact_len even_len =
     (case value of
        JStr s \<Rightarrow>
          (if s = [] then False
           else if (case exact_len of Some n \<Rightarrow> length s \<noteq> n | None \<Rightarrow> False) then False
           else if even_len \<and> length s mod 2 \<noteq> 0 then False
           else list_all is_hex_char s)
      | _ \<Rightarrow> False)"

definition valid_group_ref :: "json \<Rightarrow> bool" where
  "valid_group_ref value \<longleftrightarrow>
     is_hex value None False \<and> length (str_of value) \<le> group_ref_max_length"

definition is_valid_message_id :: "json \<Rightarrow> bool" where
  "is_valid_message_id value = is_hex value (Some 64) False"

definition message_id_requirement_label :: string where
  "message_id_requirement_label = ''64 hex characters''"

definition string_exceeds_model_limit ::
  "string \<Rightarrow> string \<Rightarrow> string list \<Rightarrow> bool \<times> string list" where
  "string_exceeds_model_limit field value errors =
     (case field_max_length field of
        Some m \<Rightarrow>
          if length value > m
          then (True, errors @ [field @ '' must be at most '' @ nat_str m @ '' characters''])
          else (False, errors)
      | None \<Rightarrow> (False, errors))"

definition int_exceeds_model_limit ::
  "string \<Rightarrow> int \<Rightarrow> string list \<Rightarrow> string \<Rightarrow> bool \<times> string list" where
  "int_exceeds_model_limit field value errors model_field =
     (case model_int_field_max model_field of
        Some m \<Rightarrow>
          if value > m
          then (True, errors @ [field @ '' must be a non-negative integer within range''])
          else (False, errors)
      | None \<Rightarrow> (False, errors))"

definition bounded_str_or_empty :: "json \<Rightarrow> string \<Rightarrow> string list \<Rightarrow> string \<times> string list" where
  "bounded_str_or_empty value field errors =
     (case value of
        JStr s \<Rightarrow> (let (b, es) = string_exceeds_model_limit field s errors
                   in if b then ([], es) else (s, es))
      | _ \<Rightarrow> ([], errors))"

section \<open>The copy helpers\<close>

fun dest_or :: "string option \<Rightarrow> string \<Rightarrow> string" where
  "dest_or None field = field"
| "dest_or (Some d) field = d"

definition add_error :: "string \<Rightarrow> nstate \<Rightarrow> nstate" where
  "add_error e st = (fst st, snd st @ [e])"

definition put :: "string \<Rightarrow> json \<Rightarrow> nstate \<Rightarrow> nstate" where
  "put k v st = (dict_set k v (fst st), snd st)"

text \<open>The tail shared by the bounded copies: stop on an exceeded limit, store otherwise.\<close>

definition store_unless :: "bool \<times> string list \<Rightarrow> string \<Rightarrow> json \<Rightarrow> nstate \<Rightarrow> nstate" where
  "store_unless chk k v st =
     (if fst chk then (fst st, snd chk) else (dict_set k v (fst st), snd chk))"

definition copy_str :: "dict \<Rightarrow> string \<Rightarrow> string option \<Rightarrow> nstate \<Rightarrow> nstate" where
  "copy_str kind field dest_field st =
     (let value = value_if_str (dict_get kind field) in
      if value = [] then add_error (field @ '' must be a non-empty string'') st
      else store_unless (string_exceeds_model_limit (dest_or dest_field field) value (snd st))
             (dest_or dest_field field) (JStr value) st)"

definition copy_optional_str :: "dict \<Rightarrow> string \<Rightarrow> string option \<Rightarrow> nstate \<Rightarrow> nstate" where
  "copy_optional_str kind field dest_field st =
     (case dict_get kind field of
        JNull \<Rightarrow> st
      | JStr s \<Rightarrow> store_unless (string_exceeds_model_limit (dest_or dest_field field) s (snd st))
                  (dest_or dest_field field) (JStr s) st
      | _ \<Rightarrow> add_error (field @ '' must be a string when present'') st)"

definition copy_context_str :: "dict \<Rightarrow> string \<Rightarrow> string \<Rightarrow> nstate \<Rightarrow> nstate" where
  "copy_context_str source source_field dest_field st =
     (case dict_get source source_field of
        JStr s \<Rightarrow> store_unless (string_exceeds_model_limit dest_field s (snd st)) dest_field (JStr s) st
      | _ \<Rightarrow> add_error (''context.'' @ source_field @ '' must be a string when present'') st)"

definition copy_human_action_str :: "dict \<Rightarrow> string \<Rightarrow> string \<Rightarrow> nstate \<Rightarrow> nstate" where
  "copy_human_action_str source source_field dest_field st =
     (case dict_get source source_field of
        JNull \<Rightarrow> st
      | JStr s \<Rightarrow> store_unless (string_exceeds_model_limit dest_field s (snd st)) dest_field (JStr s) st
      | _ \<Rightarrow> add_error (''human_action.'' @ source_field @ '' must be a string when present'') st)"

definition copy_int :: "dict \<Rightarrow> string \<Rightarrow> nstate \<Rightarrow> nstate" where
  "copy_int kind field st =
     (case value_if_int (dict_get kind field) of
        None \<Rightarrow> add_error (field @ '' must be a non-negative integer'') st
      | Some i \<Rightarrow> store_unless (int_exceeds_model_limit field i (snd st) field) field (JInt i) st)"

definition copy_optional_int :: "dict \<Rightarrow> string \<Rightarrow> string option \<Rightarrow> nstate \<Rightarrow> nstate" where
  "copy_optional_int kind field dest_field st =
     (if dict_get kind field = JNull then st
      else (case value_if_int (dict_get kind field) of
              None \<Rightarrow> add_error (field @ '' must be a non-negative integer when present'') st
            | Some i \<Rightarrow>
                store_unless (int_exceeds_model_limit field i (snd st) (dest_or dest_field field))
                  (dest_or dest_field field) (JInt i) st))"

definition copy_msg_field :: "dict \<Rightarrow> string \<Rightarrow> bool \<Rightarrow> string option \<Rightarrow> nstate \<Rightarrow> nstate" where
  "copy_msg_field kind field required dest_field st =
     (let value = dict_get kind field in
      if value = JNull then (if required then add_error (field @ '' is required'') st else st)
      else if \<not> is_valid_message_id value
      then add_error (field @ '' must be '' @ message_id_requirement_label) st
      else if length (str_of value) > MSG_ID_MAX_LENGTH
      then add_error (field @ '' must be at most '' @ nat_str MSG_ID_MAX_LENGTH @ '' characters'') st
      else put (dest_or dest_field field) value st)"

definition copy_msg_id :: "dict \<Rightarrow> nstate \<Rightarrow> nstate" where
  "copy_msg_id kind = copy_msg_field kind ''msg_id'' True None"

definition copy_optional_msg_id :: "dict \<Rightarrow> string \<Rightarrow> string option \<Rightarrow> nstate \<Rightarrow> nstate" where
  "copy_optional_msg_id kind field dest_field = copy_msg_field kind field False dest_field"

definition copy_digest :: "dict \<Rightarrow> string \<Rightarrow> nstate \<Rightarrow> nstate" where
  "copy_digest kind field st =
     (let value = dict_get kind field in
      if \<not> is_hex value (Some 64) False then add_error (field @ '' must be 64 hex characters'') st
      else put field value st)"

definition copy_optional_digest :: "dict \<Rightarrow> string \<Rightarrow> nstate \<Rightarrow> nstate" where
  "copy_optional_digest kind field st =
     (let value = dict_get kind field in
      if value = JNull then st
      else if \<not> is_hex value (Some 64) False then add_error (field @ '' must be 64 hex characters'') st
      else put field value st)"

definition copy_optional_str_list :: "dict \<Rightarrow> string \<Rightarrow> string option \<Rightarrow> nstate \<Rightarrow> nstate" where
  "copy_optional_str_list source source_field dest_field st =
     (let value = dict_get source source_field in
      if value = JNull then st
      else if \<not> is_list value \<or> \<not> list_all is_str (list_of value)
      then add_error (source_field @ '' must be a list of strings when present'') st
      else put (dest_or dest_field source_field) value st)"

definition copy_optional_int_list :: "dict \<Rightarrow> string \<Rightarrow> string \<Rightarrow> nstate \<Rightarrow> nstate" where
  "copy_optional_int_list source source_field dest_field st =
     (let value = dict_get source source_field in
      if value = JNull then st
      else if \<not> is_list value \<or> \<not> list_all (\<lambda>item. value_if_int item \<noteq> None) (list_of value)
      then add_error (''human_action.'' @ source_field @ '' must be a list of non-negative integers'') st
      else put dest_field value st)"

definition copy_optional_msg_id_list :: "dict \<Rightarrow> string \<Rightarrow> string \<Rightarrow> nstate \<Rightarrow> nstate" where
  "copy_optional_msg_id_list source source_field dest_field st =
     (let value = dict_get source source_field in
      if value = JNull then st
      else if \<not> is_list value \<or> \<not> list_all is_valid_message_id (list_of value)
      then add_error (''human_action.'' @ source_field @ '' must be a list of ''
                        @ message_id_requirement_label) st
      else put dest_field value st)"

definition copy_human_action_fields :: "dict \<Rightarrow> nstate \<Rightarrow> nstate" where
  "copy_human_action_fields source = run [
     copy_human_action_str source ''action'' ''human_action_action'',
     copy_human_action_str source ''origin'' ''human_action_origin'',
     copy_human_action_str source ''phase'' ''human_action_phase'',
     copy_optional_str_list source ''fields'' (Some ''human_action_fields''),
     copy_optional_int_list source ''component_ids'' ''human_action_component_ids'',
     copy_optional_int source ''target_count'' (Some ''human_action_target_count''),
     copy_optional_msg_id_list source ''message_ids'' ''human_action_message_ids'',
     copy_optional_int source ''from_epoch'' None,
     copy_optional_int source ''to_epoch'' None]"

definition copy_relay_url :: "dict \<Rightarrow> nstate \<Rightarrow> nstate" where
  "copy_relay_url kind st =
     (case dict_get kind ''relay_url'' of
        JNull \<Rightarrow> st
      | JStr u \<Rightarrow> if dict_has kind ''relay_urls'' then st else put ''relay_urls'' (JList [JStr u]) st
      | _ \<Rightarrow> add_error ''relay_url must be a string when present'' st)"

definition copy_publish_fields :: "dict \<Rightarrow> nstate \<Rightarrow> nstate" where
  "copy_publish_fields kind = run [
     copy_optional_msg_id kind ''msg_id'' None,
     copy_optional_str kind ''target_kind'' None,
     copy_optional_int kind ''required_acks'' None,
     copy_relay_url kind]"

text \<open>
  The loop of \<^verbatim>\<open>copy_outbound_messages\<close> over the numbered messages: the first ordinary message id, the
  welcome ids in order, the errors.
\<close>

fun outbound_loop ::
  "nat \<Rightarrow> json list \<Rightarrow> string \<times> json list \<times> string list \<Rightarrow> string \<times> json list \<times> string list" where
  "outbound_loop index [] acc = acc"
| "outbound_loop index (message # messages) (outbound, welcome, errors) =
     outbound_loop (Suc index) messages
       (let here = ''outbound_messages['' @ nat_str index @ '']'' in
        case message of
          JObj m \<Rightarrow>
            (let msg_id = dict_get m ''msg_id'' in
             if \<not> is_valid_message_id msg_id
             then (outbound, welcome,
                   errors @ [here @ ''.msg_id must be '' @ message_id_requirement_label])
             else if length (str_of msg_id) > MSG_ID_MAX_LENGTH
             then (outbound, welcome,
                   errors @ [here @ ''.msg_id must be at most '' @ nat_str MSG_ID_MAX_LENGTH
                               @ '' characters''])
             else if dict_get m ''artifact_kind'' = JStr ''welcome''
             then (outbound, welcome @ [msg_id], errors)
             else if outbound = [] then (str_of msg_id, welcome, errors)
             else (outbound, welcome, errors))
        | _ \<Rightarrow> (outbound, welcome, errors @ [here @ '' must be an object'']))"

definition copy_outbound_messages :: "dict \<Rightarrow> nstate \<Rightarrow> nstate" where
  "copy_outbound_messages kind st =
     (case dict_get kind ''outbound_messages'' of
        JNull \<Rightarrow> st
      | JList messages \<Rightarrow>
          (let (outbound, welcome, errors) = outbound_loop 0 messages ([], [], snd st);
               n1 = (if outbound \<noteq> [] \<and> \<not> truthy (dict_get (fst st) ''outbound_msg_id'')
                     then dict_set ''outbound_msg_id'' (JStr outbound) (fst st) else fst st);
               n2 = (if welcome \<noteq> [] then dict_set ''outbound_welcome_msg_ids'' (JList welcome) n1 else n1)
           in (n2, errors))
      | _ \<Rightarrow> add_error ''outbound_messages must be a list when present'' st)"

section \<open>The variants of \<^verbatim>\<open>normalize_kind\<close>\<close>

definition put_if_dict :: "string \<Rightarrow> json \<Rightarrow> nstate \<Rightarrow> nstate" where
  "put_if_dict dest value st = (if is_dict value then put dest value st else st)"

text \<open>\<^verbatim>\<open>source_context\<close>, \<^verbatim>\<open>engine_context\<close> and \<^verbatim>\<open>group_context\<close> lift an object into a context column.\<close>

definition kind_recipient_expectation :: "dict \<Rightarrow> nstate \<Rightarrow> nstate" where
  "kind_recipient_expectation kind = run [
     copy_msg_id kind,
     (\<lambda>st. case dict_get kind ''expectation'' of
              JObj expectation \<Rightarrow> copy_optional_str expectation ''artifact_kind'' (Some ''target_kind'') st
            | _ \<Rightarrow> st)]"

definition copy_welcome_ids :: "dict \<Rightarrow> nstate \<Rightarrow> nstate" where
  "copy_welcome_ids kind st =
     (if dict_has kind ''outbound_welcome_msg_ids'' then
        (let welcome_ids = dict_get kind ''outbound_welcome_msg_ids'' in
         if \<not> is_list welcome_ids \<or> \<not> list_all is_valid_message_id (list_of welcome_ids)
         then add_error (''outbound_welcome_msg_ids must be a list of '' @ message_id_requirement_label) st
         else put ''outbound_welcome_msg_ids'' welcome_ids st)
      else st)"

definition kind_send_outcome :: "dict \<Rightarrow> nstate \<Rightarrow> nstate" where
  "kind_send_outcome kind = run [
     copy_str kind ''intent_kind'' None,
     copy_str kind ''result_kind'' None,
     copy_optional_msg_id kind ''outbound_msg_id'' None,
     copy_outbound_messages kind,
     copy_welcome_ids kind]"

definition copy_failed_relays :: "dict \<Rightarrow> nstate \<Rightarrow> nstate" where
  "copy_failed_relays kind st =
     (case dict_get kind ''failed_relays'' of
        JNull \<Rightarrow> st
      | JList xs \<Rightarrow> put ''failed_relays'' (JList xs) st
      | _ \<Rightarrow> add_error ''failed_relays must be a list when present'' st)"

definition copy_met_required_acks :: "dict \<Rightarrow> nstate \<Rightarrow> nstate" where
  "copy_met_required_acks kind st =
     (case dict_get kind ''met_required_acks'' of
        JNull \<Rightarrow> st
      | JBool b \<Rightarrow> put ''met_required_acks'' (JBool b) st
      | _ \<Rightarrow> add_error ''met_required_acks must be a boolean when present'' st)"

definition kind_publish_outcome :: "dict \<Rightarrow> nstate \<Rightarrow> nstate" where
  "kind_publish_outcome kind = run [
     copy_publish_fields kind,
     copy_optional_str_list kind ''accepted_relay_urls'' None,
     copy_failed_relays kind,
     copy_met_required_acks kind]"

definition kind_publish_failure :: "dict \<Rightarrow> nstate \<Rightarrow> nstate" where
  "kind_publish_failure kind = run [
     copy_publish_fields kind,
     copy_optional_str kind ''stage'' (Some ''outcome_kind''),
     copy_optional_str kind ''reason'' None,
     copy_optional_str kind ''detail'' None,
     copy_optional_str_list kind ''relay_urls'' None]"

definition kind_epoch_state_changed :: "dict \<Rightarrow> nstate \<Rightarrow> nstate" where
  "kind_epoch_state_changed kind = run [
     copy_optional_str kind ''previous_state'' (Some ''outcome''),
     copy_str kind ''new_state'' None,
     copy_int kind ''epoch'',
     copy_str kind ''reason'' None,
     copy_optional_int kind ''pending_ref'' (Some ''pending_epoch''),
     copy_optional_str kind ''pending_kind'' None]"

definition copy_value_digest :: "dict \<Rightarrow> nstate \<Rightarrow> nstate" where
  "copy_value_digest value st =
     (let digest = dict_get value ''digest'' in
      if digest = JNull then st
      else if is_hex digest (Some 64) False then put ''payload_digest'' digest st
      else add_error ''value.digest must be 64 hex characters when present'' st)"

definition kind_group_state_changed :: "dict \<Rightarrow> nstate \<Rightarrow> nstate" where
  "kind_group_state_changed kind = run [
     copy_int kind ''epoch'',
     copy_str kind ''change_kind'' (Some ''outcome_kind''),
     copy_optional_msg_id kind ''origin_commit_id'' (Some ''outbound_msg_id''),
     (\<lambda>st. case dict_get kind ''value'' of
              JObj value \<Rightarrow> run [copy_value_digest value,
                                copy_optional_int value ''len'' (Some ''payload_len'')] st
            | _ \<Rightarrow> st)]"

definition check_winner :: "nstate \<Rightarrow> nstate" where
  "check_winner st =
     (if dict_get (fst st) ''winner'' \<in> {JStr ''candidate'', JStr ''incumbent'', JStr ''missing_snapshot''}
      then st else add_error ''winner must be candidate, incumbent, or missing_snapshot'' st)"

definition kind_fork_resolution :: "dict \<Rightarrow> nstate \<Rightarrow> nstate" where
  "kind_fork_resolution kind = run [
     copy_int kind ''source_epoch'',
     copy_digest kind ''candidate_digest'',
     copy_optional_digest kind ''incumbent_digest'',
     copy_str kind ''winner'' None,
     check_winner,
     copy_optional_msg_id kind ''invalidated_msg_id'' None]"

definition kind_convergence_run_state :: "dict \<Rightarrow> nstate \<Rightarrow> nstate" where
  "kind_convergence_run_state kind = run [
     copy_str kind ''phase'' (Some ''outcome''),
     copy_optional_int kind ''current_tip_epoch'' None,
     copy_optional_str kind ''reason'' None,
     copy_optional_str kind ''error_kind'' (Some ''outcome_kind'')]"

definition is_eligible :: "json \<Rightarrow> bool" where
  "is_eligible candidate =
     (case candidate of JObj c \<Rightarrow> dict_get c ''eligible'' = JBool True | _ \<Rightarrow> False)"

definition copy_candidate_counts :: "dict \<Rightarrow> nstate \<Rightarrow> nstate" where
  "copy_candidate_counts kind st =
     (case dict_get kind ''candidates'' of
        JList candidates \<Rightarrow> run [
          put ''candidate_count'' (JInt (int (length candidates))),
          put ''eligible_count'' (JInt (int (length (filter is_eligible candidates))))] st
      | _ \<Rightarrow> run [copy_int kind ''candidate_count'', copy_int kind ''eligible_count''] st)"

definition kind_convergence_decision :: "dict \<Rightarrow> nstate \<Rightarrow> nstate" where
  "kind_convergence_decision kind = run [
     copy_int kind ''current_tip_epoch'',
     copy_int kind ''max_rewind_commits'',
     copy_optional_str kind ''selected_branch_id'' None,
     copy_optional_int kind ''selected_fork_epoch'' None,
     copy_optional_int kind ''selected_tip_epoch'' None,
     copy_candidate_counts kind]"

definition check_peeler_outcome :: "nstate \<Rightarrow> nstate" where
  "check_peeler_outcome st =
     (if dict_get (fst st) ''outcome'' \<in> JStr ` set V4_PEELER_OUTCOMES then st
      else add_error ''outcome must be a known peeler outcome'' st)"

definition copy_fallback_snapshot_used :: "dict \<Rightarrow> nstate \<Rightarrow> nstate" where
  "copy_fallback_snapshot_used kind st =
     (case dict_get kind ''fallback_snapshot_used'' of
        JBool b \<Rightarrow> put ''fallback_snapshot_used'' (JBool b) st
      | _ \<Rightarrow> add_error ''fallback_snapshot_used must be a boolean'' st)"

definition kind_peeler_outcome :: "dict \<Rightarrow> nstate \<Rightarrow> nstate" where
  "kind_peeler_outcome kind = run [
     copy_msg_id kind,
     copy_str kind ''outcome'' None,
     check_peeler_outcome,
     copy_fallback_snapshot_used kind,
     copy_optional_str kind ''detail'' None]"

text \<open>The \<^verbatim>\<open>match event_type\<close> of \<^verbatim>\<open>normalize_kind\<close>, as the list of statements of the matching case.\<close>

definition kind_steps :: "string \<Rightarrow> dict \<Rightarrow> (nstate \<Rightarrow> nstate) list" where
  "kind_steps event_type kind =
    (if event_type = ''recorder_started'' then [copy_optional_str kind ''recorder'' (Some ''detail'')]
     else if event_type = ''audit_data_mode_changed'' then
       [copy_optional_str kind ''new_mode'' (Some ''outcome''), copy_optional_str kind ''reason'' None]
     else if event_type = ''source_context'' then [put_if_dict ''context_source'' (dict_get kind ''source'')]
     else if event_type = ''engine_context'' then [put_if_dict ''context_engine'' (dict_get kind ''context'')]
     else if event_type = ''group_context'' then
       [put_if_dict ''context_group'' (dict_get kind ''context''), copy_optional_str kind ''reason'' None]
     else if event_type = ''transport_received'' then
       [copy_optional_msg_id kind ''msg_id'' None, copy_optional_int kind ''payload_len'' None,
        copy_optional_digest kind ''payload_digest'']
     else if event_type = ''ingest_entry'' then
       [copy_msg_id kind, copy_str kind ''envelope_kind'' None, copy_int kind ''payload_len'',
        copy_digest kind ''payload_digest'']
     else if event_type = ''ingest_outcome'' then
       [copy_msg_id kind, copy_str kind ''outcome_kind'' None, copy_optional_str kind ''stale_reason'' None,
        copy_optional_int kind ''epoch'' None]
     else if event_type = ''ingest_error'' then
       [copy_msg_id kind, copy_str kind ''error_kind'' (Some ''outcome_kind''),
        copy_optional_str kind ''detail'' None]
     else if event_type = ''message_content_decoded'' then
       [copy_msg_id kind, copy_optional_str kind ''artifact_kind'' (Some ''target_kind'')]
     else if event_type = ''recipient_expectation'' then [kind_recipient_expectation kind]
     else if event_type = ''send_entry'' then [copy_str kind ''intent_kind'' None]
     else if event_type = ''send_outcome'' then [kind_send_outcome kind]
     else if event_type = ''send_error'' then
       [copy_str kind ''intent_kind'' None, copy_str kind ''error_kind'' (Some ''outcome_kind''),
        copy_optional_str kind ''detail'' None]
     else if event_type = ''create_group_entry'' then
       [copy_optional_int kind ''member_count'' (Some ''human_action_target_count'')]
     else if event_type = ''create_group_outcome'' then
       [copy_str kind ''result_kind'' None, copy_outbound_messages kind]
     else if event_type = ''create_group_error'' then
       [copy_str kind ''error_kind'' (Some ''outcome_kind''), copy_optional_str kind ''detail'' None]
     else if event_type = ''human_action'' then [copy_human_action_fields kind]
     else if event_type = ''publish_attempt'' then
       [copy_publish_fields kind, copy_optional_str_list kind ''relay_urls'' None]
     else if event_type = ''publish_outcome'' then [kind_publish_outcome kind]
     else if event_type = ''publish_failure'' then [kind_publish_failure kind]
     else if event_type = ''epoch_state_changed'' then [kind_epoch_state_changed kind]
     else if event_type = ''group_state_changed'' then [kind_group_state_changed kind]
     else if event_type = ''epoch_confirmed'' then
       [copy_int kind ''from_epoch'', copy_int kind ''to_epoch'', copy_str kind ''pending_kind'' None,
        copy_optional_msg_id kind ''origin_commit_id'' (Some ''outbound_msg_id'')]
     else if event_type = ''epoch_rolled_back'' then
       [copy_int kind ''pending_epoch'', copy_int kind ''restored_epoch'', copy_str kind ''pending_kind'' None]
     else if event_type = ''snapshot_created'' then
       [copy_str kind ''snapshot_name'' None, copy_int kind ''source_epoch'', copy_str kind ''reason'' None]
     else if event_type = ''fork_resolution'' then [kind_fork_resolution kind]
     else if event_type = ''convergence_run_state'' then [kind_convergence_run_state kind]
     else if event_type = ''convergence_decision'' then [kind_convergence_decision kind]
     else if event_type = ''peeler_outcome'' then [kind_peeler_outcome kind]
     else if event_type = ''auto_commit_decision'' then
       [copy_str kind ''proposal_kind'' None, copy_str kind ''decision'' None,
        copy_optional_str kind ''reason'' None]
     else if event_type = ''message_state_changed'' then
       [copy_msg_id kind, copy_str kind ''new_state'' None, copy_str kind ''reason'' None]
     else if event_type = ''rejection'' then [copy_msg_id kind, copy_str kind ''reason'' None]
     else [])"

definition normalize_kind :: "string \<Rightarrow> dict \<Rightarrow> dict \<Rightarrow> nstate" where
  "normalize_kind event_type kind normalized = run (kind_steps event_type kind) (normalized, [])"

section \<open>The context and the whole event\<close>

definition copy_context_object :: "dict \<Rightarrow> string \<Rightarrow> nstate \<Rightarrow> nstate" where
  "copy_context_object context field st =
     (case dict_get context field of
        JNull \<Rightarrow> st
      | JObj ms \<Rightarrow> put (''context_'' @ field) (JObj ms) st
      | _ \<Rightarrow> add_error (''context.'' @ field @ '' must be an object when present'') st)"

definition copy_context_human_action :: "dict \<Rightarrow> nstate \<Rightarrow> nstate" where
  "copy_context_human_action context st =
     (case dict_get context ''human_action'' of
        JNull \<Rightarrow> st
      | JObj ha \<Rightarrow> copy_human_action_fields ha (put ''context_human_action'' (JObj ha) st)
      | _ \<Rightarrow> add_error ''context.human_action must be an object when present'' st)"

definition normalize_context :: "json \<Rightarrow> nstate \<Rightarrow> nstate" where
  "normalize_context context st =
     (case context of
        JNull \<Rightarrow> st
      | JObj ctx \<Rightarrow> run ([
          put ''raw_context'' (JObj ctx),
          (\<lambda>st. if dict_get ctx ''operation_id'' = JNull then st
                else copy_context_str ctx ''operation_id'' ''context_operation_id'' st),
          copy_context_human_action ctx]
          @ map (copy_context_object ctx)
              [''transport'', ''engine'', ''group'', ''convergence'', ''source'']) st
      | _ \<Rightarrow> add_error ''context must be an object when present'' st)"

definition json_opt_int :: "int option \<Rightarrow> json" where
  "json_opt_int v = (case v of None \<Rightarrow> JNull | Some i \<Rightarrow> JInt i)"

text \<open>\<^verbatim>\<open>value_if_str(v) if v is not None else ""\<close>, which is \<^verbatim>\<open>value_if_str(v)\<close>.\<close>

definition check_seq :: "nstate \<Rightarrow> nstate" where
  "check_seq st =
     (case dict_get (fst st) ''seq'' of
        JInt i \<Rightarrow> (let (b, es) = int_exceeds_model_limit ''seq'' i (snd st) ''seq''
                   in if b then (dict_set ''seq'' JNull (fst st), es) else (fst st, es))
      | _ \<Rightarrow> add_error ''seq must be a non-negative integer'' st)"

definition check_wall_time :: "nstate \<Rightarrow> nstate" where
  "check_wall_time st =
     (case dict_get (fst st) ''wall_time_ms'' of
        JInt i \<Rightarrow>
          (let (b, es) = int_exceeds_model_limit ''wall_time_ms'' i (snd st) ''wall_time_ms''
           in if b then (dict_set ''wall_time_ms'' JNull (fst st), es)
              else if i > MAX_WALL_TIME_MS
              then (dict_set ''wall_time_ms'' JNull (fst st),
                    es @ [''wall_time_ms must be a non-negative integer within range (at most ''
                            @ int_str MAX_WALL_TIME_MS @ '')''])
              else (fst st, es))
      | _ \<Rightarrow> add_error ''wall_time_ms must be a non-negative integer'' st)"

definition check_engine_id :: "nstate \<Rightarrow> nstate" where
  "check_engine_id st =
     (let (b, es) = string_exceeds_model_limit ''engine_id'' (str_of (dict_get (fst st) ''engine_id'')) (snd st)
      in if b then (dict_set ''engine_id'' (JStr []) (fst st), es) else (fst st, es))"

definition check_group_ref :: "nstate \<Rightarrow> nstate" where
  "check_group_ref st =
     (let r = str_of (dict_get (fst st) ''group_ref'') in
      if r \<noteq> [] \<and> length r > group_ref_max_length
      then put ''group_ref'' (JStr []) (add_error ''group_ref exceeds storage limit'' st)
      else st)"

definition normalized_base :: "dict \<Rightarrow> nstate" where
  "normalized_base data =
     (let (schema_version, es1) = bounded_str_or_empty (dict_get data ''schema_version'') ''schema_version'' [];
          (session_id, es2) =
            bounded_str_or_empty (dict_get data ''recorder_session_id'') ''recorder_session_id'' es1
      in ([(''schema_version'', JStr schema_version),
           (''recorder_session_id'', JStr session_id),
           (''audit_data_mode'', JStr SAFE_ONLY_AUDIT_DATA_MODE),
           (''seq'', json_opt_int (value_if_int (dict_get data ''seq''))),
           (''wall_time_ms'', json_opt_int (value_if_int (dict_get data ''wall_time_ms''))),
           (''account_ref'', JStr (value_if_str (dict_get data ''account_ref''))),
           (''engine_id'', JStr (value_if_str (dict_get data ''engine_id''))),
           (''group_ref'', JStr (value_if_str (dict_get data ''group_ref'')))], es2))"

definition normalize_variant :: "json \<Rightarrow> nstate \<Rightarrow> nstate" where
  "normalize_variant kind_value st =
     (case kind_value of
        JObj kind \<Rightarrow>
          (let event_type = value_if_str (dict_get kind ''type'');
               st1 = put ''raw_kind'' (JObj kind) st
           in if event_type = [] then add_error ''kind.type must be a non-empty string'' st1
              else (let (b, es) = string_exceeds_model_limit ''event_type'' event_type (snd st1)
                    in if b then (fst st1, es)
                       else (let (n, variant_errors) =
                                   normalize_kind event_type kind
                                     (dict_set ''event_type'' (JStr event_type) (fst st1))
                             in (n, es @ variant_errors))))
      | _ \<Rightarrow> add_error ''kind must be an object'' st)"

definition normalize_event :: "runtime \<Rightarrow> dict \<Rightarrow> nstate" where
  "normalize_event rt data =
     (case schema_error_code rt (JObj data) of
        Some code \<Rightarrow> ([], [code])
      | None \<Rightarrow> run [
          check_seq, check_wall_time, check_engine_id, check_group_ref,
          normalize_context (dict_get data ''context''),
          normalize_variant (dict_get data ''kind'')] (normalized_base data))"

section \<open>What a column can hold\<close>

text \<open>
  The check the database makes when a row is inserted, as a predicate: text within the column's
  length, integers within its range, booleans. The columns the program treats as lists hold lists, of
  strings where it iterates over strings, and a message-id column holds 64 hex characters.
\<close>

definition int_fits :: "int \<Rightarrow> json \<Rightarrow> bool" where
  "int_fits m v = (case v of JNull \<Rightarrow> True | JInt i \<Rightarrow> 0 \<le> i \<and> i \<le> m | _ \<Rightarrow> False)"

fun fits :: "column_type \<Rightarrow> json \<Rightarrow> bool" where
  "fits (CharField n) v = (is_str v \<and> length (str_of v) \<le> n)"
| "fits TextField v = is_str v"
| "fits PositiveIntegerField v = int_fits 2147483647 v"
| "fits PositiveBigIntegerField v = int_fits 9223372036854775807 v"
| "fits BooleanField v = (v = JNull \<or> is_bool v)"
| "fits JSONField v = True"
| "fits _ v = False"

definition message_id_columns :: "string list" where
  "message_id_columns = [''msg_id'', ''outbound_msg_id'', ''invalidated_msg_id'']"

definition message_id_list_columns :: "string list" where
  "message_id_list_columns = [''outbound_welcome_msg_ids'', ''human_action_message_ids'']"

definition string_list_columns :: "string list" where
  "string_list_columns = [''human_action_fields'', ''relay_urls'', ''accepted_relay_urls'']"

definition list_columns :: "string list" where
  "list_columns = [''human_action_component_ids'', ''failed_relays'']"

definition column_ok :: "string \<Rightarrow> json \<Rightarrow> bool" where
  "column_ok k v \<longleftrightarrow>
     (case get_field k of None \<Rightarrow> False | Some t \<Rightarrow> fits t v) \<and>
     (k \<in> set message_id_columns \<longrightarrow> is_valid_message_id v) \<and>
     (k \<in> set message_id_list_columns \<longrightarrow> is_list v \<and> list_all is_valid_message_id (list_of v)) \<and>
     (k \<in> set string_list_columns \<longrightarrow> is_list v \<and> list_all is_str (list_of v)) \<and>
     (k \<in> set list_columns \<longrightarrow> is_list v)"

definition conforms :: "dict \<Rightarrow> bool" where
  "conforms d \<longleftrightarrow> list_all (\<lambda>(k, v). column_ok k v) d"

text \<open>The columns that only the head of \<^verbatim>\<open>normalize_event\<close> writes.\<close>

definition base_columns :: "string list" where
  "base_columns = [''schema_version'', ''recorder_session_id'', ''audit_data_mode'', ''seq'',
     ''wall_time_ms'', ''account_ref'', ''engine_id'', ''group_ref'', ''event_type'']"

text \<open>
  What every later statement does to the pair: it keeps the dictionary well-typed, leaves the base
  columns alone and only appends errors.
\<close>

definition nstep :: "nstate \<Rightarrow> nstate \<Rightarrow> bool" where
  "nstep st st' \<longleftrightarrow>
     (conforms (fst st) \<longrightarrow> conforms (fst st')) \<and>
     (\<forall>k \<in> set base_columns. map_of (fst st') k = map_of (fst st) k) \<and>
     (\<exists>es. snd st' = snd st @ es)"

definition preserves :: "(nstate \<Rightarrow> nstate) \<Rightarrow> bool" where
  "preserves f \<longleftrightarrow> (\<forall>st. nstep st (f st))"

text \<open>Which destination a copy helper may write to.\<close>

definition special_column :: "string \<Rightarrow> bool" where
  "special_column k \<longleftrightarrow>
     k \<in> set (message_id_columns @ message_id_list_columns @ string_list_columns @ list_columns
              @ base_columns)"

definition string_dest :: "string \<Rightarrow> bool" where
  "string_dest k \<longleftrightarrow> \<not> special_column k \<and>
     (case get_field k of Some (CharField n) \<Rightarrow> True | Some TextField \<Rightarrow> True | _ \<Rightarrow> False)"

definition int_dest :: "string \<Rightarrow> bool" where
  "int_dest k \<longleftrightarrow> \<not> special_column k \<and>
     (get_field k = Some PositiveIntegerField \<or> get_field k = Some PositiveBigIntegerField)"

definition json_dest :: "string \<Rightarrow> bool" where
  "json_dest k \<longleftrightarrow> \<not> special_column k \<and> get_field k = Some JSONField"

definition bool_dest :: "string \<Rightarrow> bool" where
  "bool_dest k \<longleftrightarrow> \<not> special_column k \<and> get_field k = Some BooleanField"

definition digest_dest :: "string \<Rightarrow> bool" where
  "digest_dest k \<longleftrightarrow> \<not> special_column k \<and> get_field k = Some (CharField 128)"

lemma string_dests [simp]:
  "string_dest ''detail''" "string_dest ''outcome''" "string_dest ''reason''"
  "string_dest ''envelope_kind''" "string_dest ''outcome_kind''" "string_dest ''stale_reason''"
  "string_dest ''target_kind''" "string_dest ''intent_kind''" "string_dest ''result_kind''"
  "string_dest ''new_state''" "string_dest ''pending_kind''" "string_dest ''snapshot_name''"
  "string_dest ''winner''" "string_dest ''selected_branch_id''" "string_dest ''proposal_kind''"
  "string_dest ''decision''" "string_dest ''human_action_action''" "string_dest ''human_action_origin''"
  "string_dest ''human_action_phase''" "string_dest ''context_operation_id''"
  by code_simp+

lemma int_dests [simp]:
  "int_dest ''payload_len''" "int_dest ''epoch''" "int_dest ''human_action_target_count''"
  "int_dest ''from_epoch''" "int_dest ''to_epoch''" "int_dest ''pending_epoch''"
  "int_dest ''restored_epoch''" "int_dest ''source_epoch''" "int_dest ''current_tip_epoch''"
  "int_dest ''max_rewind_commits''" "int_dest ''selected_fork_epoch''" "int_dest ''selected_tip_epoch''"
  "int_dest ''candidate_count''" "int_dest ''eligible_count''" "int_dest ''required_acks''"
  by code_simp+

lemma json_dests [simp]:
  "json_dest ''context_source''" "json_dest ''context_engine''" "json_dest ''context_group''"
  "json_dest ''context_transport''" "json_dest ''context_convergence''" "json_dest ''context_human_action''"
  "json_dest ''raw_context''" "json_dest ''raw_kind''"
  by code_simp+

lemma other_dests [simp]:
  "bool_dest ''met_required_acks''" "bool_dest ''fallback_snapshot_used''"
  "digest_dest ''payload_digest''" "digest_dest ''candidate_digest''" "digest_dest ''incumbent_digest''"
  by code_simp+

text \<open>The columns with a list or message-id rule are distinct, and of the expected types.\<close>

lemma special_fields [simp]:
  "get_field ''msg_id'' = Some TextField" "get_field ''outbound_msg_id'' = Some TextField"
  "get_field ''invalidated_msg_id'' = Some TextField"
  "get_field ''outbound_welcome_msg_ids'' = Some JSONField"
  "get_field ''human_action_message_ids'' = Some JSONField"
  "get_field ''human_action_fields'' = Some JSONField" "get_field ''relay_urls'' = Some JSONField"
  "get_field ''accepted_relay_urls'' = Some JSONField" "get_field ''failed_relays'' = Some JSONField"
  "get_field ''human_action_component_ids'' = Some JSONField"
  by code_simp+

lemmas column_lists =
  message_id_columns_def message_id_list_columns_def string_list_columns_def list_columns_def

lemma conforms_set: "conforms d \<Longrightarrow> column_ok k v \<Longrightarrow> conforms (dict_set k v d)"
  by (fastforce simp: conforms_def list_all_iff dest!: set_dict_set)

lemma nstep_refl [simp]: "nstep st st"
  by (simp add: nstep_def)

lemma nstep_trans: "nstep a b \<Longrightarrow> nstep b c \<Longrightarrow> nstep a c"
  by (auto simp: nstep_def)

lemma preservesI: "(\<And>n es. nstep (n, es) (f (n, es))) \<Longrightarrow> preserves f"
  by (auto simp: preserves_def)

lemma nstep_add_error [simp]: "nstep st (add_error e st)"
  by (simp add: nstep_def add_error_def)

lemma nstep_put: "column_ok k v \<Longrightarrow> k \<notin> set base_columns \<Longrightarrow> nstep st (put k v st)"
  by (auto simp: nstep_def put_def conforms_set)

lemma preserves_run: "list_all preserves fs \<Longrightarrow> preserves (run fs)"
proof (induction fs)
  case Nil
  then show ?case by (simp add: run_def preserves_def)
next
  case (Cons f fs)
  then have f: "preserves f" and fs: "preserves (run fs)" by simp_all
  have "run (f # fs) st = run fs (f st)" for st by (simp add: run_def)
  with f fs show ?case unfolding preserves_def by (metis nstep_trans)
qed

lemma special_not_base: "\<not> special_column k \<Longrightarrow> k \<notin> set base_columns"
  by (simp add: special_column_def)

lemma dest_not_base:
  "string_dest k \<Longrightarrow> k \<notin> set base_columns" "int_dest k \<Longrightarrow> k \<notin> set base_columns"
  "json_dest k \<Longrightarrow> k \<notin> set base_columns" "bool_dest k \<Longrightarrow> k \<notin> set base_columns"
  "digest_dest k \<Longrightarrow> k \<notin> set base_columns"
  by (simp_all add: string_dest_def int_dest_def json_dest_def bool_dest_def digest_dest_def
      special_not_base)

lemma exceeds_errors:
  "\<exists>es'. snd (string_exceeds_model_limit f v es) = es @ es'"
  "\<exists>es'. snd (int_exceeds_model_limit f i es k) = es @ es'"
  by (auto simp: string_exceeds_model_limit_def int_exceeds_model_limit_def split: option.splits)

lemma column_ok_string:
  assumes "string_dest k" and "\<not> fst (string_exceeds_model_limit k s es)"
  shows "column_ok k (JStr s)"
  using assms
  by (auto simp: string_dest_def special_column_def column_ok_def string_exceeds_model_limit_def
      field_max_length_def split: option.splits column_type.splits if_splits)

lemma column_ok_int:
  assumes "int_dest k" and "0 \<le> i" and "\<not> fst (int_exceeds_model_limit f i es k)"
  shows "column_ok k (JInt i)"
  using assms
  by (auto simp: int_dest_def special_column_def column_ok_def int_exceeds_model_limit_def
      model_int_field_max_def int_fits_def split: if_splits)

lemma column_ok_json: "json_dest k \<Longrightarrow> column_ok k v"
  by (auto simp: json_dest_def special_column_def column_ok_def)

lemma column_ok_bool: "bool_dest k \<Longrightarrow> column_ok k (JBool b)"
  by (auto simp: bool_dest_def special_column_def column_ok_def)

lemma is_hex_length: "is_hex v (Some n) b \<Longrightarrow> is_str v \<and> length (str_of v) = n"
  by (auto simp: is_hex_def split: json.splits if_splits)

lemma column_ok_digest: "digest_dest k \<Longrightarrow> is_hex v (Some 64) False \<Longrightarrow> column_ok k v"
  by (auto simp: digest_dest_def special_column_def column_ok_def dest: is_hex_length)

lemma column_ok_msg_id:
  "k \<in> set message_id_columns \<Longrightarrow> is_valid_message_id v \<Longrightarrow> column_ok k v"
  by (auto simp: column_ok_def column_lists is_valid_message_id_def dest: is_hex_length)

lemma nstep_store_unless:
  assumes "\<not> fst chk \<Longrightarrow> column_ok k v" and "k \<notin> set base_columns"
    and "\<exists>es. snd chk = snd st @ es"
  shows "nstep st (store_unless chk k v st)"
  using assms by (auto simp: nstep_def store_unless_def conforms_set)

lemma nstep_store_string:
  "string_dest k \<Longrightarrow> nstep (n, es) (store_unless (string_exceeds_model_limit k s es) k (JStr s) (n, es))"
  by (intro nstep_store_unless) (auto dest: column_ok_string dest_not_base simp: exceeds_errors)

lemma nstep_store_int:
  "int_dest k \<Longrightarrow> 0 \<le> i \<Longrightarrow>
     nstep (n, es) (store_unless (int_exceeds_model_limit f i es k) k (JInt i) (n, es))"
  by (intro nstep_store_unless) (auto dest: column_ok_int dest_not_base simp: exceeds_errors)

lemma value_if_int_Some: "value_if_int v = Some i \<Longrightarrow> v = JInt i \<and> 0 \<le> i"
  by (cases v) (auto split: if_splits)

section \<open>Every copy helper keeps the columns well-typed\<close>

lemma copy_string_preserves [simp]:
  "string_dest (dest_or d f) \<Longrightarrow> preserves (copy_str kind f d)"
  "string_dest (dest_or d f) \<Longrightarrow> preserves (copy_optional_str kind f d)"
  "string_dest k \<Longrightarrow> preserves (copy_context_str kind f k)"
  "string_dest k \<Longrightarrow> preserves (copy_human_action_str kind f k)"
  by (auto simp: copy_str_def copy_optional_str_def copy_context_str_def copy_human_action_str_def Let_def
      preserves_def nstep_store_string split: json.splits)

lemma copy_int_preserves [simp]:
  "int_dest f \<Longrightarrow> preserves (copy_int kind f)"
  "int_dest (dest_or d f) \<Longrightarrow> preserves (copy_optional_int kind f d)"
  by (auto simp: copy_int_def copy_optional_int_def preserves_def
      split: option.splits dest!: value_if_int_Some intro: nstep_store_int)

lemma msg_id_column_free [simp]: "k \<in> set message_id_columns \<Longrightarrow> k \<notin> set base_columns"
  by (auto simp: message_id_columns_def base_columns_def)

lemma copy_msg_preserves [simp]:
  "dest_or d f \<in> set message_id_columns \<Longrightarrow> preserves (copy_msg_field kind f r d)"
  "dest_or d f \<in> set message_id_columns \<Longrightarrow> preserves (copy_optional_msg_id kind f d)"
  "preserves (copy_msg_id kind)"
proof -
  have field: "preserves (copy_msg_field kind f r d)" if "dest_or d f \<in> set message_id_columns" for f r d
    using that by (auto simp: copy_msg_field_def Let_def preserves_def intro!: nstep_put column_ok_msg_id)
  show "dest_or d f \<in> set message_id_columns \<Longrightarrow> preserves (copy_msg_field kind f r d)"
    by (rule field)
  show "dest_or d f \<in> set message_id_columns \<Longrightarrow> preserves (copy_optional_msg_id kind f d)"
    unfolding copy_optional_msg_id_def by (rule field)
  show "preserves (copy_msg_id kind)"
    unfolding copy_msg_id_def by (rule field) (simp add: message_id_columns_def)
qed

lemma copy_digest_preserves [simp]:
  "digest_dest f \<Longrightarrow> preserves (copy_digest kind f)"
  "digest_dest f \<Longrightarrow> preserves (copy_optional_digest kind f)"
  by (auto simp: copy_digest_def copy_optional_digest_def Let_def preserves_def
      intro!: nstep_put column_ok_digest dest_not_base(5))

lemma copy_list_preserves [simp]:
  "dest_or d f \<in> set string_list_columns \<Longrightarrow> preserves (copy_optional_str_list kind f d)"
  "preserves (copy_optional_int_list kind f ''human_action_component_ids'')"
  "preserves (copy_optional_msg_id_list kind f ''human_action_message_ids'')"
  "preserves (copy_welcome_ids kind)"
  "preserves (copy_relay_url kind)"
  "preserves (copy_failed_relays kind)"
  by (auto simp: copy_optional_str_list_def copy_optional_int_list_def copy_optional_msg_id_list_def
      copy_welcome_ids_def copy_relay_url_def copy_failed_relays_def Let_def column_ok_def column_lists
      base_columns_def preserves_def intro!: nstep_put split: json.splits)

lemma copy_flag_preserves [simp]:
  "preserves (copy_met_required_acks kind)"
  "preserves (copy_fallback_snapshot_used kind)"
  "preserves check_winner"
  "preserves check_peeler_outcome"
  by (auto simp: copy_met_required_acks_def copy_fallback_snapshot_used_def check_winner_def
      check_peeler_outcome_def preserves_def intro!: nstep_put column_ok_bool dest_not_base(4)
      split: json.splits)

lemma copy_object_preserves [simp]:
  "json_dest k \<Longrightarrow> preserves (put_if_dict k v)"
  "json_dest k \<Longrightarrow> preserves (put k v)"
  by (auto simp: put_if_dict_def preserves_def intro!: nstep_put column_ok_json dest_not_base(3))

lemma copy_value_digest_preserves [simp]: "preserves (copy_value_digest value)"
  by (auto simp: copy_value_digest_def Let_def preserves_def
      intro!: nstep_put column_ok_digest dest_not_base(5))

text \<open>The loop over outbound messages only ever keeps valid message ids.\<close>

lemma outbound_loop_ids:
  "outbound_loop i ms (out, wel, es) = (out', wel', es') \<Longrightarrow>
   (out \<noteq> [] \<longrightarrow> is_valid_message_id (JStr out)) \<Longrightarrow> list_all is_valid_message_id wel \<Longrightarrow>
   (out' \<noteq> [] \<longrightarrow> is_valid_message_id (JStr out')) \<and> list_all is_valid_message_id wel'"
proof (induction ms arbitrary: i out wel es)
  case Nil
  then show ?case by simp
next
  case (Cons m ms)
  have "\<And>v. is_valid_message_id v \<Longrightarrow> JStr (str_of v) = v"
    unfolding is_valid_message_id_def by (auto dest!: is_hex_length elim!: is_str.elims)
  with Cons.prems show ?case
    by (auto simp: Let_def split: json.splits if_splits intro: Cons.IH dest!: Cons.IH)
qed

lemma outbound_loop_errors:
  "outbound_loop i ms (out, wel, es) = (out', wel', es') \<Longrightarrow> \<exists>more. es' = es @ more"
proof (induction ms arbitrary: i out wel es)
  case Nil
  then show ?case by simp
next
  case (Cons m ms)
  then show ?case by (fastforce simp: Let_def split: json.splits if_splits)
qed

lemma copy_outbound_preserves [simp]: "preserves (copy_outbound_messages kind)"
proof (rule preservesI)
  fix n es
  show "nstep (n, es) (copy_outbound_messages kind (n, es))"
  proof (cases "dict_get kind ''outbound_messages''")
    case (JList messages)
    obtain out wel es' where loop: "outbound_loop 0 messages ([], [], es) = (out, wel, es')"
      by (cases "outbound_loop 0 messages ([], [], es)")
    from outbound_loop_ids [OF this] have ids:
      "out \<noteq> [] \<longrightarrow> is_valid_message_id (JStr out)" "list_all is_valid_message_id wel" by auto
    have "column_ok ''outbound_welcome_msg_ids'' (JList wel)"
      using ids(2) by (simp add: column_ok_def column_lists)
    moreover have "out \<noteq> [] \<Longrightarrow> column_ok ''outbound_msg_id'' (JStr out)"
      using ids(1) by (intro column_ok_msg_id) (simp_all add: column_lists)
    moreover have "\<exists>more. es' = es @ more" using outbound_loop_errors [OF loop] .
    ultimately show ?thesis
      using JList loop
      by (auto simp: copy_outbound_messages_def Let_def conforms_set nstep_def base_columns_def)
  qed (simp_all add: copy_outbound_messages_def)
qed

lemma human_action_preserves [simp]: "preserves (copy_human_action_fields source)"
  unfolding copy_human_action_fields_def by (rule preserves_run) (simp add: column_lists)

lemma publish_preserves [simp]: "preserves (copy_publish_fields kind)"
  unfolding copy_publish_fields_def by (rule preserves_run) (simp add: column_lists)

lemma expectation_preserves [simp]: "preserves (kind_recipient_expectation kind)"
proof -
  have "preserves (\<lambda>st. case dict_get kind ''expectation'' of
      JObj ex \<Rightarrow> copy_optional_str ex ''artifact_kind'' (Some ''target_kind'') st | _ \<Rightarrow> st)"
    using copy_string_preserves(2) [of "Some ''target_kind''" "''artifact_kind''"]
    by (auto simp: preserves_def split: json.splits)
  then show ?thesis unfolding kind_recipient_expectation_def by (intro preserves_run) simp
qed

lemma group_state_preserves [simp]: "preserves (kind_group_state_changed kind)"
proof -
  have "preserves (run [copy_value_digest v, copy_optional_int v ''len'' (Some ''payload_len'')])" for v
    by (rule preserves_run) simp
  then have "preserves (\<lambda>st. case dict_get kind ''value'' of
      JObj v \<Rightarrow> run [copy_value_digest v, copy_optional_int v ''len'' (Some ''payload_len'')] st
    | _ \<Rightarrow> st)"
    by (auto simp: preserves_def split: json.splits)
  then show ?thesis unfolding kind_group_state_changed_def
    by (intro preserves_run) (simp add: column_lists)
qed

lemma variant_preserves [simp]:
  "preserves (kind_send_outcome kind)" "preserves (kind_publish_outcome kind)"
  "preserves (kind_publish_failure kind)" "preserves (kind_epoch_state_changed kind)"
  "preserves (kind_fork_resolution kind)" "preserves (kind_convergence_run_state kind)"
  "preserves (kind_peeler_outcome kind)"
  unfolding kind_send_outcome_def kind_publish_outcome_def kind_publish_failure_def
    kind_epoch_state_changed_def kind_fork_resolution_def kind_convergence_run_state_def
    kind_peeler_outcome_def
  by (rule preserves_run, simp add: column_lists)+

text \<open>
  The two candidate counters are the only integers stored without a range check; a list the process
  can hold in memory is far below the column's range.
\<close>

definition candidates_countable :: "dict \<Rightarrow> bool" where
  "candidates_countable kind \<longleftrightarrow> length (list_of (dict_get kind ''candidates'')) \<le> 2147483647"

lemma candidate_fields [simp]:
  "get_field ''candidate_count'' = Some PositiveIntegerField"
  "get_field ''eligible_count'' = Some PositiveIntegerField"
  by code_simp+

lemma candidate_counts_preserves:
  assumes "candidates_countable kind"
  shows "preserves (copy_candidate_counts kind)"
proof (rule preservesI)
  fix n es
  have ints: "preserves (run [copy_int kind ''candidate_count'', copy_int kind ''eligible_count''])"
    by (rule preserves_run) simp
  show "nstep (n, es) (copy_candidate_counts kind (n, es))"
  proof (cases "dict_get kind ''candidates''")
    case (JList xs)
    then have len: "length xs \<le> 2147483647" using assms by (simp add: candidates_countable_def)
    then have "length (filter is_eligible xs) \<le> 2147483647"
      by (meson le_trans length_filter_le)
    with len have "preserves (run [put ''candidate_count'' (JInt (int (length xs))),
        put ''eligible_count'' (JInt (int (length (filter is_eligible xs))))])"
      by (intro preserves_run)
        (auto intro!: nstep_put simp: preserves_def column_ok_def column_lists int_fits_def base_columns_def)
    then show ?thesis using JList by (simp add: copy_candidate_counts_def preserves_def)
  qed (use ints in \<open>simp_all add: copy_candidate_counts_def preserves_def\<close>)
qed

lemma kind_steps_preserve:
  assumes "candidates_countable kind"
  shows "list_all preserves (kind_steps event_type kind)"
proof -
  have "preserves (kind_convergence_decision kind)"
    unfolding kind_convergence_decision_def
    by (rule preserves_run) (simp add: candidate_counts_preserves assms)
  then show ?thesis unfolding kind_steps_def by (simp add: column_lists)
qed

section \<open>The whole event\<close>

lemma context_object_preserves [simp]:
  "json_dest (''context_'' @ f) \<Longrightarrow> preserves (copy_context_object ctx f)"
  by (auto simp: copy_context_object_def preserves_def intro!: nstep_put column_ok_json dest_not_base(3)
      split: json.splits)

lemma context_human_action_preserves [simp]: "preserves (copy_context_human_action ctx)"
proof -
  have "nstep st (copy_human_action_fields ha (put ''context_human_action'' (JObj ha) st))" for ha st
  proof (rule nstep_trans)
    show "nstep st (put ''context_human_action'' (JObj ha) st)"
      by (intro nstep_put column_ok_json dest_not_base(3)) simp_all
    show "nstep (put ''context_human_action'' (JObj ha) st)
        (copy_human_action_fields ha (put ''context_human_action'' (JObj ha) st))"
      using human_action_preserves [of ha] unfolding preserves_def by blast
  qed
  then show ?thesis by (auto simp: copy_context_human_action_def preserves_def split: json.splits)
qed

lemma normalize_context_preserves [simp]: "preserves (normalize_context c)"
proof (cases c)
  case (JObj ctx)
  have "preserves (\<lambda>st. if dict_get ctx ''operation_id'' = JNull then st
      else copy_context_str ctx ''operation_id'' ''context_operation_id'' st)"
    using copy_string_preserves(3) [of "''context_operation_id''" ctx "''operation_id''"]
    by (auto simp: preserves_def)
  then have "preserves (run ([
      put ''raw_context'' (JObj ctx),
      (\<lambda>st. if dict_get ctx ''operation_id'' = JNull then st
            else copy_context_str ctx ''operation_id'' ''context_operation_id'' st),
      copy_context_human_action ctx]
      @ map (copy_context_object ctx) [''transport'', ''engine'', ''group'', ''convergence'', ''source'']))"
    by (intro preserves_run) simp
  then show ?thesis using JObj by (simp add: normalize_context_def preserves_def)
qed (auto simp: normalize_context_def preserves_def)

text \<open>The head of the function: the eight base columns and their four checks.\<close>

definition checked_base :: "dict \<Rightarrow> nstate" where
  "checked_base data = run [check_seq, check_wall_time, check_engine_id, check_group_ref] (normalized_base data)"

lemma normalize_event_split:
  "schema_error_code rt (JObj data) = None \<Longrightarrow>
   normalize_event rt data =
     normalize_variant (dict_get data ''kind'')
       (normalize_context (dict_get data ''context'') (checked_base data))"
  by (simp add: normalize_event_def checked_base_def run_def)

lemma base_fields [simp]:
  "get_field ''schema_version'' = Some (CharField 80)"
  "get_field ''recorder_session_id'' = Some (CharField 160)"
  "get_field ''audit_data_mode'' = Some (CharField 80)"
  "get_field ''seq'' = Some PositiveBigIntegerField"
  "get_field ''wall_time_ms'' = Some PositiveBigIntegerField"
  "get_field ''account_ref'' = Some (CharField 64)"
  "get_field ''engine_id'' = Some (CharField 64)"
  "get_field ''group_ref'' = Some TextField"
  "get_field ''event_type'' = Some (CharField 80)"
  by code_simp+

lemma bounded_str_length:
  "field_max_length f = Some m \<Longrightarrow> length (fst (bounded_str_or_empty v f es)) \<le> m"
  by (cases v) (auto simp: bounded_str_or_empty_def string_exceeds_model_limit_def)

text \<open>The base columns after the checks, and what an empty error list says of them.\<close>

definition seq_column :: "dict \<Rightarrow> json" where
  "seq_column data = (case value_if_int (dict_get data ''seq'') of
     Some i \<Rightarrow> if i > 9223372036854775807 then JNull else JInt i | None \<Rightarrow> JNull)"

definition wall_column :: "dict \<Rightarrow> json" where
  "wall_column data = (case value_if_int (dict_get data ''wall_time_ms'') of
     Some i \<Rightarrow> if i > MAX_WALL_TIME_MS then JNull else JInt i | None \<Rightarrow> JNull)"

definition engine_column :: "dict \<Rightarrow> string" where
  "engine_column data = (let e = value_if_str (dict_get data ''engine_id'') in if length e > 64 then [] else e)"

definition group_column :: "dict \<Rightarrow> string" where
  "group_column data = (let r = value_if_str (dict_get data ''group_ref'') in
     if length r > group_ref_max_length then [] else r)"

definition base_dict :: "string \<Rightarrow> string \<Rightarrow> json \<Rightarrow> json \<Rightarrow> string \<Rightarrow> string \<Rightarrow> string \<Rightarrow> dict" where
  "base_dict sv rs s w a e g =
    [(''schema_version'', JStr sv), (''recorder_session_id'', JStr rs),
     (''audit_data_mode'', JStr SAFE_ONLY_AUDIT_DATA_MODE), (''seq'', s), (''wall_time_ms'', w),
     (''account_ref'', JStr a), (''engine_id'', JStr e), (''group_ref'', JStr g)]"

lemma base_dict_get:
  "dict_get (base_dict sv rs s w a e g) ''seq'' = s"
  "dict_get (base_dict sv rs s w a e g) ''wall_time_ms'' = w"
  "dict_get (base_dict sv rs s w a e g) ''engine_id'' = JStr e"
  "dict_get (base_dict sv rs s w a e g) ''group_ref'' = JStr g"
  by (simp_all add: base_dict_def)

lemma base_dict_set:
  "dict_set ''seq'' s' (base_dict sv rs s w a e g) = base_dict sv rs s' w a e g"
  "dict_set ''wall_time_ms'' w' (base_dict sv rs s w a e g) = base_dict sv rs s w' a e g"
  "dict_set ''engine_id'' (JStr e') (base_dict sv rs s w a e g) = base_dict sv rs s w a e' g"
  "dict_set ''group_ref'' (JStr g') (base_dict sv rs s w a e g) = base_dict sv rs s w a e g'"
  by (simp_all add: base_dict_def)

lemmas limit_defs = int_exceeds_model_limit_def string_exceeds_model_limit_def field_max_length_def
  model_int_field_max_def

text \<open>Each check, on the base dictionary: the column it leaves and whether it adds an error.\<close>

lemma check_seq_base:
  "\<exists>es'. check_seq (base_dict sv rs (json_opt_int (value_if_int (dict_get data ''seq''))) w a e g, es)
     = (base_dict sv rs (seq_column data) w a e g, es @ es') \<and> (es' = [] \<longleftrightarrow> seq_column data \<noteq> JNull)"
  by (cases "value_if_int (dict_get data ''seq'')")
    (simp_all add: check_seq_def base_dict_get base_dict_set seq_column_def json_opt_int_def
      add_error_def limit_defs)

lemma check_wall_base:
  "\<exists>es'. check_wall_time (base_dict sv rs s (json_opt_int (value_if_int (dict_get data ''wall_time_ms''))) a e g, es)
     = (base_dict sv rs s (wall_column data) a e g, es @ es') \<and> (es' = [] \<longleftrightarrow> wall_column data \<noteq> JNull)"
  by (cases "value_if_int (dict_get data ''wall_time_ms'')")
    (simp_all add: check_wall_time_def base_dict_get base_dict_set wall_column_def json_opt_int_def
      add_error_def limit_defs MAX_WALL_TIME_MS_def)

lemma check_engine_base:
  "\<exists>es'. check_engine_id (base_dict sv rs s w a (value_if_str (dict_get data ''engine_id'')) g, es)
     = (base_dict sv rs s w a (engine_column data) g, es @ es')
     \<and> (es' = [] \<longleftrightarrow> length (value_if_str (dict_get data ''engine_id'')) \<le> 64)"
  by (simp add: check_engine_id_def base_dict_get base_dict_set engine_column_def Let_def limit_defs)

lemma check_group_base:
  "\<exists>es'. check_group_ref (base_dict sv rs s w a e (value_if_str (dict_get data ''group_ref'')), es)
     = (base_dict sv rs s w a e (group_column data), es @ es')
     \<and> (es' = [] \<longleftrightarrow> length (value_if_str (dict_get data ''group_ref'')) \<le> group_ref_max_length)"
  by (auto simp: check_group_ref_def base_dict_get base_dict_set group_column_def Let_def put_def
      add_error_def group_ref_max_length_def)

lemma bounded_str_errors:
  "\<exists>es'. snd (bounded_str_or_empty v f es) = es @ es' \<and> (es' = [] \<longrightarrow> fst (bounded_str_or_empty v f es) = value_if_str v)"
  by (cases v) (auto simp: bounded_str_or_empty_def string_exceeds_model_limit_def split: option.splits)

lemma checked_base_eq:
  "\<exists>sv rs es. checked_base data = (base_dict sv rs (seq_column data) (wall_column data)
       (value_if_str (dict_get data ''account_ref'')) (engine_column data) (group_column data), es)
     \<and> length sv \<le> 80 \<and> length rs \<le> 160
     \<and> (es = [] \<longrightarrow> sv = value_if_str (dict_get data ''schema_version'')
          \<and> rs = value_if_str (dict_get data ''recorder_session_id'')
          \<and> seq_column data \<noteq> JNull \<and> wall_column data \<noteq> JNull
          \<and> length (value_if_str (dict_get data ''engine_id'')) \<le> 64
          \<and> length (value_if_str (dict_get data ''group_ref'')) \<le> group_ref_max_length)"
proof -
  let ?b1 = "bounded_str_or_empty (dict_get data ''schema_version'') ''schema_version'' []"
  let ?b2 = "bounded_str_or_empty (dict_get data ''recorder_session_id'') ''recorder_session_id'' (snd ?b1)"
  obtain e1 where e1: "snd ?b1 = e1" "e1 = [] \<longrightarrow> fst ?b1 = value_if_str (dict_get data ''schema_version'')"
    using bounded_str_errors [of "dict_get data ''schema_version''" "''schema_version''" "[]"] by auto
  obtain e2 where e2: "snd ?b2 = e1 @ e2"
      "e2 = [] \<longrightarrow> fst ?b2 = value_if_str (dict_get data ''recorder_session_id'')"
    using bounded_str_errors [of "dict_get data ''recorder_session_id''" "''recorder_session_id''" "snd ?b1"] e1 by auto
  have len: "length (fst ?b1) \<le> 80" "length (fst ?b2) \<le> 160"
    by (simp_all add: bounded_str_length field_max_length_def)
  have base: "normalized_base data = (base_dict (fst ?b1) (fst ?b2)
      (json_opt_int (value_if_int (dict_get data ''seq'')))
      (json_opt_int (value_if_int (dict_get data ''wall_time_ms'')))
      (value_if_str (dict_get data ''account_ref'')) (value_if_str (dict_get data ''engine_id''))
      (value_if_str (dict_get data ''group_ref'')), e1 @ e2)"
    using e2 by (simp add: normalized_base_def base_dict_def split_beta Let_def)
  obtain e3 where e3: "check_seq (normalized_base data) = (base_dict (fst ?b1) (fst ?b2) (seq_column data)
      (json_opt_int (value_if_int (dict_get data ''wall_time_ms'')))
      (value_if_str (dict_get data ''account_ref'')) (value_if_str (dict_get data ''engine_id''))
      (value_if_str (dict_get data ''group_ref'')), e3)"
    and n3: "e3 = [] \<longrightarrow> e1 = [] \<and> e2 = [] \<and> seq_column data \<noteq> JNull"
    unfolding base using check_seq_base by fastforce
  obtain e4 where e4: "check_wall_time (check_seq (normalized_base data)) = (base_dict (fst ?b1) (fst ?b2)
      (seq_column data) (wall_column data)
      (value_if_str (dict_get data ''account_ref'')) (value_if_str (dict_get data ''engine_id''))
      (value_if_str (dict_get data ''group_ref'')), e4)"
    and n4: "e4 = [] \<longrightarrow> e3 = [] \<and> wall_column data \<noteq> JNull"
    unfolding e3 using check_wall_base by fastforce
  obtain e5 where e5: "check_engine_id (check_wall_time (check_seq (normalized_base data))) =
      (base_dict (fst ?b1) (fst ?b2) (seq_column data) (wall_column data)
      (value_if_str (dict_get data ''account_ref'')) (engine_column data)
      (value_if_str (dict_get data ''group_ref'')), e5)"
    and n5: "e5 = [] \<longrightarrow> e4 = [] \<and> length (value_if_str (dict_get data ''engine_id'')) \<le> 64"
    unfolding e4 using check_engine_base by fastforce
  obtain e6 where e6: "check_group_ref (check_engine_id (check_wall_time (check_seq (normalized_base data)))) =
      (base_dict (fst ?b1) (fst ?b2) (seq_column data) (wall_column data)
      (value_if_str (dict_get data ''account_ref'')) (engine_column data) (group_column data), e6)"
    and n6: "e6 = [] \<longrightarrow> e5 = [] \<and> length (value_if_str (dict_get data ''group_ref'')) \<le> group_ref_max_length"
    unfolding e5 using check_group_base by fastforce
  have "checked_base data = (base_dict (fst ?b1) (fst ?b2) (seq_column data) (wall_column data)
      (value_if_str (dict_get data ''account_ref'')) (engine_column data) (group_column data), e6)"
    using e6 by (simp add: checked_base_def run_def)
  with len n3 n4 n5 n6 e1 e2 show ?thesis by blast
qed

lemma seq_column_fits: "int_fits 9223372036854775807 (seq_column data)"
  by (auto simp: seq_column_def int_fits_def split: option.splits dest: value_if_int_Some)

lemma wall_column_fits: "int_fits 9223372036854775807 (wall_column data)"
  by (auto simp: wall_column_def int_fits_def MAX_WALL_TIME_MS_def split: option.splits dest: value_if_int_Some)

lemma checked_base_conforms:
  assumes "length (value_if_str (dict_get data ''account_ref'')) \<le> 64"
  shows "conforms (fst (checked_base data))"
proof -
  obtain sv rs es where b: "checked_base data = (base_dict sv rs (seq_column data) (wall_column data)
      (value_if_str (dict_get data ''account_ref'')) (engine_column data) (group_column data), es)"
    and len: "length sv \<le> 80" "length rs \<le> 160"
    using checked_base_eq by blast
  have "length (engine_column data) \<le> 64" by (simp add: engine_column_def Let_def)
  with assms len show ?thesis
    by (simp add: b conforms_def base_dict_def column_ok_def column_lists seq_column_fits
        wall_column_fits SAFE_ONLY_AUDIT_DATA_MODE_def)
qed

lemma nstep_base: "nstep st st' \<Longrightarrow> k \<in> set base_columns \<Longrightarrow> map_of (fst st') k = map_of (fst st) k"
  by (simp add: nstep_def)

text \<open>The variant part: it keeps the columns well-typed, touches one base column, only adds errors.\<close>

lemma normalize_variant_step:
  assumes "candidates_countable (dict_of kind)"
  shows "(conforms (fst st) \<longrightarrow> conforms (fst (normalize_variant kind st)))
    \<and> (\<forall>k \<in> set base_columns. k \<noteq> ''event_type'' \<longrightarrow>
          map_of (fst (normalize_variant kind st)) k = map_of (fst st) k)
    \<and> (\<exists>es. snd (normalize_variant kind st) = snd st @ es)"
proof (cases kind)
  case (JObj ms)
  let ?t = "value_if_str (dict_get ms ''type'')" and ?st1 = "put ''raw_kind'' (JObj ms) st"
  let ?n = "dict_set ''event_type'' (JStr ?t) (fst ?st1)"
  have st1: "nstep st ?st1" by (intro nstep_put column_ok_json dest_not_base(3)) simp_all
  obtain es' where es': "snd (string_exceeds_model_limit ''event_type'' ?t (snd ?st1)) = snd ?st1 @ es'"
    using exceeds_errors(1) by blast
  have "preserves (run (kind_steps ?t ms))"
    using assms JObj by (intro preserves_run kind_steps_preserve) simp
  then have kind: "nstep (?n, []) (normalize_kind ?t ms ?n)"
    by (simp add: normalize_kind_def preserves_def)
  have conf: "conforms ?n" if "conforms (fst st)" "\<not> fst (string_exceeds_model_limit ''event_type'' ?t (snd ?st1))"
  proof (rule conforms_set)
    show "conforms (fst ?st1)" using st1 that(1) by (simp add: nstep_def)
    show "column_ok ''event_type'' (JStr ?t)"
      using that(2) by (auto simp: column_ok_def column_lists limit_defs split: if_splits)
  qed
  show ?thesis
    using JObj st1 es' kind conf
    by (auto simp: normalize_variant_def Let_def split_beta nstep_def add_error_def put_def)
qed (auto simp: normalize_variant_def add_error_def)

lemma normalize_event_schema_error:
  "schema_error_code rt (JObj data) = Some code \<Longrightarrow> normalize_event rt data = ([], [code])"
  by (simp add: normalize_event_def)

lemma normalize_event_accepted_schema:
  "snd (normalize_event rt data) = [] \<Longrightarrow> schema_error_code rt (JObj data) = None"
  by (cases "schema_error_code rt (JObj data)") (simp_all add: normalize_event_schema_error)

text \<open>The base columns of an event that passed the gate, after the whole function.\<close>

lemma normalize_event_base:
  assumes "schema_error_code rt (JObj data) = None"
    and "candidates_countable (dict_of (dict_get data ''kind''))"
  shows "k \<in> set base_columns \<Longrightarrow> k \<noteq> ''event_type'' \<Longrightarrow>
      map_of (fst (normalize_event rt data)) k = map_of (fst (checked_base data)) k"
    and "\<exists>es. snd (normalize_event rt data) = snd (checked_base data) @ es"
proof -
  let ?c = "normalize_context (dict_get data ''context'') (checked_base data)"
  have c: "nstep (checked_base data) ?c"
    using normalize_context_preserves unfolding preserves_def by blast
  note v = normalize_variant_step [OF assms(2), of ?c]
  show "k \<in> set base_columns \<Longrightarrow> k \<noteq> ''event_type'' \<Longrightarrow>
      map_of (fst (normalize_event rt data)) k = map_of (fst (checked_base data)) k"
    using v nstep_base [OF c] by (simp add: normalize_event_split [OF assms(1)])
  show "\<exists>es. snd (normalize_event rt data) = snd (checked_base data) @ es"
    using v c by (auto simp: normalize_event_split [OF assms(1)] nstep_def)
qed

section \<open>Properties\<close>

text \<open>An event of the kind \<^verbatim>\<open>send_entry\<close>, and a runtime whose validators accept it, for the witnesses.\<close>

definition example_event :: dict where
  "example_event =
    [(''schema_version'', JStr SCHEMA_VERSION), (''seq'', JInt 3), (''wall_time_ms'', JInt 1000),
     (''engine_id'', JStr ''e1''), (''group_ref'', JStr ''ab''),
     (''kind'', JObj [(''type'', JStr ''send_entry''), (''intent_kind'', JStr ''text'')])]"

definition example_runtime :: runtime where
  "example_runtime = \<lparr>
     sha256_hexdigest = (\<lambda>_. replicate 64 (CHR ''0'')),
     utf8_decode = (\<lambda>bs. Some (map (\<lambda>b. char_of (unat b)) bs)),
     json_loads = map_of [(''{send}'', JObj example_event)],
     event_validators = map_of [(''send_entry'', \<lambda>_. True)],
     slugify = (\<lambda>s. s),
     max_dump_bytes = 40,
     max_jsonl_line_bytes = 20,
     max_dump_records = 3 \<rparr>"

lemma example_event_accepted: "snd (normalize_event example_runtime example_event) = []"
  by code_simp

lemma example_event_small:
  "length (value_if_str (dict_get example_event ''account_ref'')) \<le> 64"
  "candidates_countable (dict_of (dict_get example_event ''kind''))"
  by (simp_all add: example_event_def candidates_countable_def)

lemma normalize_event_conforms:
  assumes "length (value_if_str (dict_get data ''account_ref'')) \<le> 64"
    and "candidates_countable (dict_of (dict_get data ''kind''))"
  shows "conforms (fst (normalize_event rt data))"
proof (cases "schema_error_code rt (JObj data)")
  case None
  let ?c = "normalize_context (dict_get data ''context'') (checked_base data)"
  have "nstep (checked_base data) ?c"
    using normalize_context_preserves unfolding preserves_def by blast
  with checked_base_conforms [OF assms(1)] have "conforms (fst ?c)" by (simp add: nstep_def)
  then show ?thesis
    using normalize_variant_step [OF assms(2), of ?c] by (simp add: normalize_event_split [OF None])
next
  case (Some code)
  then show ?thesis by (simp add: normalize_event_schema_error conforms_def)
qed



text \<open>
  An event that normalizes without error passed the v4 gate and is stored verbatim: its sequence
  number and wall time are present, non-negative and within range (the time at most the year-2100
  bound that keeps the timeline renderable), and the engine id and group reference are exactly those
  of the event, within 64 and 512 characters.
\<close>

theorem accepted_event_core:
  assumes "snd (normalize_event rt data) = []"
    and "candidates_countable (dict_of (dict_get data ''kind''))"
  shows "schema_error_code rt (JObj data) = None
    \<and> (\<exists>i. dict_get data ''seq'' = JInt i \<and> 0 \<le> i \<and> i \<le> 9223372036854775807
         \<and> map_of (fst (normalize_event rt data)) ''seq'' = Some (JInt i))
    \<and> (\<exists>t. dict_get data ''wall_time_ms'' = JInt t \<and> 0 \<le> t \<and> t \<le> MAX_WALL_TIME_MS
         \<and> map_of (fst (normalize_event rt data)) ''wall_time_ms'' = Some (JInt t))
    \<and> map_of (fst (normalize_event rt data)) ''engine_id'' = Some (JStr (value_if_str (dict_get data ''engine_id'')))
    \<and> length (value_if_str (dict_get data ''engine_id'')) \<le> 64
    \<and> map_of (fst (normalize_event rt data)) ''group_ref'' = Some (JStr (value_if_str (dict_get data ''group_ref'')))
    \<and> length (value_if_str (dict_get data ''group_ref'')) \<le> group_ref_max_length"
proof -
  from assms(1) have gate: "schema_error_code rt (JObj data) = None"
    by (rule normalize_event_accepted_schema)
  note base = normalize_event_base [OF gate assms(2)]
  obtain sv rs es where b: "checked_base data = (base_dict sv rs (seq_column data) (wall_column data)
      (value_if_str (dict_get data ''account_ref'')) (engine_column data) (group_column data), es)"
    and ok: "es = [] \<longrightarrow> seq_column data \<noteq> JNull \<and> wall_column data \<noteq> JNull
      \<and> length (value_if_str (dict_get data ''engine_id'')) \<le> 64
      \<and> length (value_if_str (dict_get data ''group_ref'')) \<le> group_ref_max_length"
    using checked_base_eq by blast
  from base(2) assms(1) b have "es = []" by auto
  with ok have ok': "seq_column data \<noteq> JNull" "wall_column data \<noteq> JNull"
      "length (value_if_str (dict_get data ''engine_id'')) \<le> 64"
      "length (value_if_str (dict_get data ''group_ref'')) \<le> group_ref_max_length" by auto
  have seq: "\<exists>i. dict_get data ''seq'' = JInt i \<and> 0 \<le> i \<and> i \<le> 9223372036854775807 \<and> seq_column data = JInt i"
    using ok'(1) by (auto simp: seq_column_def split: option.splits if_splits dest!: value_if_int_Some)
  have wall: "\<exists>t. dict_get data ''wall_time_ms'' = JInt t \<and> 0 \<le> t \<and> t \<le> MAX_WALL_TIME_MS \<and> wall_column data = JInt t"
    using ok'(2) by (auto simp: wall_column_def split: option.splits if_splits dest!: value_if_int_Some)
  have cols: "engine_column data = value_if_str (dict_get data ''engine_id'')"
      "group_column data = value_if_str (dict_get data ''group_ref'')"
    using ok'(3,4) by (simp_all add: engine_column_def group_column_def Let_def)
  show ?thesis
    using gate seq wall cols ok'(3,4) base(1)
    by (auto simp: b base_columns_def base_dict_def)
qed

theorem accepted_event_core_witness:
  "map_of (fst (normalize_event example_runtime example_event)) ''seq'' = Some (JInt 3)
   \<and> map_of (fst (normalize_event example_runtime example_event)) ''engine_id'' = Some (JStr ''e1'')"
proof -
  have d: "dict_get example_event ''seq'' = JInt 3" "dict_get example_event ''engine_id'' = JStr ''e1''"
    by code_simp+
  show ?thesis
    using accepted_event_core [OF example_event_accepted example_event_small(2)]
    by (auto simp: d simp del: map_of.simps)
qed

end
