(* ===== verification/Upload_Validation.thy ===== *)
theory Upload_Validation
  imports Normalize
begin

text \<open>
  The upload boundary of \<^verbatim>\<open>forensics/ingest.py\<close>: \<^verbatim>\<open>parse_jsonl\<close>, \<^verbatim>\<open>validate_upload\<close>, the identity
  check, and the file-level metadata computed from the parsed lines. A raised \<^verbatim>\<open>UploadRejected\<close> is
  \<open>Inl\<close>. The lemmas characterise an accepted upload and show that a refusal carries nothing of the
  request but a line number.
\<close>

section \<open>Parsed lines\<close>

record parsed_line =
  pl_line_number :: nat
  pl_raw_line :: string
  pl_line_hash :: string
  pl_data :: "dict option"
  pl_normalized :: dict
  pl_errors :: "string list"

datatype complexity_error = LineTooLong nat | TooManyRecords

text \<open>The result of loading one record: its object, or the error the loader or its type gives.\<close>

definition load_line :: "runtime \<Rightarrow> string \<Rightarrow> dict option \<times> string list" where
  "load_line rt raw_line =
     (case loads_audit_json rt raw_line of
        Some (JObj d) \<Rightarrow> (Some d, [])
      | Some _ \<Rightarrow> (None, [''invalid_json_object''])
      | None \<Rightarrow> (None, [''invalid_json'']))"

definition parse_line :: "runtime \<Rightarrow> nat \<Rightarrow> string \<Rightarrow> parsed_line" where
  "parse_line rt line_number raw_line =
     (let (data, errors) = load_line rt raw_line;
          (normalized, validation_errors) =
            (case data of None \<Rightarrow> ([], []) | Some d \<Rightarrow> normalize_event rt d)
      in \<lparr> pl_line_number = line_number, pl_raw_line = raw_line,
           pl_line_hash = sha256_hexdigest rt (utf8_encode raw_line),
           pl_data = data, pl_normalized = normalized, pl_errors = errors @ validation_errors \<rparr>)"

fun parse_loop ::
  "runtime \<Rightarrow> nat \<Rightarrow> string list \<Rightarrow> parsed_line list \<Rightarrow> complexity_error + parsed_line list" where
  "parse_loop rt line_number [] parsed = Inr parsed"
| "parse_loop rt line_number (raw # rest) parsed =
     (if length raw > max_jsonl_line_bytes rt \<or> length (utf8_encode raw) > max_jsonl_line_bytes rt
      then Inl (LineTooLong line_number)
      else (let stripped = py_strip raw in
            if stripped = [] then parse_loop rt (Suc line_number) rest parsed
            else if length parsed \<ge> max_dump_records rt then Inl TooManyRecords
            else parse_loop rt (Suc line_number) rest (parsed @ [parse_line rt line_number stripped])))"

definition parse_jsonl :: "runtime \<Rightarrow> string \<Rightarrow> complexity_error + parsed_line list" where
  "parse_jsonl rt raw_text = parse_loop rt 1 (iter_jsonl_record_lines raw_text) []"

section \<open>Refusals\<close>

record upload_rejected =
  rj_code :: string
  rj_line_number :: "nat option"

definition rejected :: "string \<Rightarrow> nat option \<Rightarrow> upload_rejected" where
  "rejected code line_number = \<lparr>rj_code = code, rj_line_number = line_number\<rparr>"

definition status_code :: "string \<Rightarrow> nat" where
  "status_code code =
     (if code = ''ingest_failed'' \<or> code = ''ingest_busy'' then 503
      else if code = ''too_large'' then 413 else 400)"

definition line_codes :: "string list" where
  "line_codes = [''unsupported_schema'', ''invalid_v4_schema'', ''invalid_json_object'', ''invalid_json'']"

text \<open>The loop of \<^verbatim>\<open>has_inconsistent_identity\<close> for one field: compare each value with the last one.\<close>

fun identity_loop :: "string \<Rightarrow> json option \<Rightarrow> parsed_line list \<Rightarrow> bool" where
  "identity_loop field first [] = False"
| "identity_loop field first (line # lines) =
     (let value = dict_get (pl_normalized line) field in
      if truthy value
      then (if first \<noteq> None \<and> Some value \<noteq> first then True else identity_loop field (Some value) lines)
      else identity_loop field first lines)"

definition has_inconsistent_identity :: "parsed_line list \<Rightarrow> bool" where
  "has_inconsistent_identity parsed_lines \<longleftrightarrow>
     list_ex (\<lambda>field. identity_loop field None parsed_lines) [''engine_id'', ''account_ref'']"

definition first_line_error :: "parsed_line list \<Rightarrow> upload_rejected option" where
  "first_line_error parsed_lines =
     (case dropWhile (\<lambda>line. pl_errors line = []) parsed_lines of
        [] \<Rightarrow> None
      | line # _ \<Rightarrow>
          (let code = hd (pl_errors line)
           in Some (rejected (if code \<in> set line_codes then code else ''storage_limit_exceeded'')
                      (Some (pl_line_number line)))))"

definition validate_upload :: "runtime \<Rightarrow> byte list \<Rightarrow> upload_rejected + string \<times> parsed_line list" where
  "validate_upload rt dump_bytes =
     (if length dump_bytes > max_dump_bytes rt then Inl (rejected ''too_large'' None)
      else (case utf8_decode rt dump_bytes of
              None \<Rightarrow> Inl (rejected ''invalid_utf8'' None)
            | Some raw_text \<Rightarrow>
                (case parse_jsonl rt raw_text of
                   Inl _ \<Rightarrow> Inl (rejected ''processing_limit'' None)
                 | Inr parsed_lines \<Rightarrow>
                     if parsed_lines = [] then Inl (rejected ''empty_upload'' None)
                     else (case first_line_error parsed_lines of
                             Some r \<Rightarrow> Inl r
                           | None \<Rightarrow>
                               if has_inconsistent_identity parsed_lines
                               then Inl (rejected ''inconsistent_file_identity'' None)
                               else Inr (raw_text, parsed_lines)))))"

section \<open>File metadata\<close>

record file_meta =
  fm_total_line_count :: nat
  fm_valid_event_count :: nat
  fm_invalid_event_count :: nat
  fm_first_line_number :: "nat option"
  fm_last_line_number :: "nat option"
  fm_first_seq :: "int option"
  fm_last_seq :: "int option"
  fm_first_wall_time_ms :: "int option"
  fm_last_wall_time_ms :: "int option"
  fm_account_refs :: "string list"
  fm_engine_ids :: "string list"
  fm_group_refs :: "string list"
  fm_schema_versions :: "string list"
  fm_audit_data_modes :: "string list"

definition int_values :: "string \<Rightarrow> parsed_line list \<Rightarrow> int list" where
  "int_values field lines =
     the_list (map (\<lambda>l. case dict_get (pl_normalized l) field of JInt i \<Rightarrow> Some i | _ \<Rightarrow> None) lines)"

definition string_values :: "string \<Rightarrow> parsed_line list \<Rightarrow> string list" where
  "string_values field lines =
     sorted_set (filter (\<lambda>s. s \<noteq> []) (map (\<lambda>l. str_of (dict_get (pl_normalized l) field)) lines))"

definition file_metadata :: "parsed_line list \<Rightarrow> file_meta" where
  "file_metadata parsed_lines =
     (let valid_lines = filter (\<lambda>l. pl_errors l = []) parsed_lines;
          numbers = map pl_line_number parsed_lines
      in \<lparr> fm_total_line_count = length parsed_lines,
           fm_valid_event_count = length valid_lines,
           fm_invalid_event_count = length parsed_lines - length valid_lines,
           fm_first_line_number = opt_min numbers,
           fm_last_line_number = opt_max numbers,
           fm_first_seq = opt_min (int_values ''seq'' valid_lines),
           fm_last_seq = opt_max (int_values ''seq'' valid_lines),
           fm_first_wall_time_ms = opt_min (int_values ''wall_time_ms'' valid_lines),
           fm_last_wall_time_ms = opt_max (int_values ''wall_time_ms'' valid_lines),
           fm_account_refs = string_values ''account_ref'' valid_lines,
           fm_engine_ids = string_values ''engine_id'' valid_lines,
           fm_group_refs = string_values ''group_ref'' valid_lines,
           fm_schema_versions = string_values ''schema_version'' parsed_lines,
           fm_audit_data_modes = string_values ''audit_data_mode'' valid_lines \<rparr>)"

definition source_limits :: "(string \<times> nat) list" where
  "source_limits = [(''device_id'', 255), (''hardware_model'', 255), (''platform'', 120),
     (''app_version'', 120), (''upload_trigger'', 160)]"

text \<open>\<^verbatim>\<open>v[:limit]\<close>: defined on strings and lists, a \<^verbatim>\<open>TypeError\<close> (\<open>None\<close>) on any other truthy value.\<close>

definition py_prefix :: "json \<Rightarrow> nat \<Rightarrow> json option" where
  "py_prefix v limit =
     (case v of JStr s \<Rightarrow> Some (JStr (take limit s)) | JList xs \<Rightarrow> Some (JList (take limit xs)) | _ \<Rightarrow> None)"

fun source_fields :: "dict \<Rightarrow> (string \<times> nat) list \<Rightarrow> dict \<Rightarrow> dict option" where
  "source_fields source [] result = Some result"
| "source_fields source ((key, limit) # specs) result =
     (let value = dict_get source key in
      if truthy value
      then (case py_prefix value limit of
              None \<Rightarrow> None
            | Some p \<Rightarrow> source_fields source specs
                (if dict_has result (''source_'' @ key) then result
                 else dict_set (''source_'' @ key) p result))
      else source_fields source specs result)"

fun source_loop :: "dict list \<Rightarrow> dict \<Rightarrow> dict option" where
  "source_loop [] result = Some result"
| "source_loop (source # sources) result =
     (case source_fields source source_limits result of
        None \<Rightarrow> None | Some r \<Rightarrow> source_loop sources r)"

definition is_local_member_ref :: "string \<Rightarrow> bool" where
  "is_local_member_ref s \<longleftrightarrow> length s = 32 \<and>
     list_all (\<lambda>c. let n = (of_char c :: nat) in 48 \<le> n \<and> n \<le> 57 \<or> 97 \<le> n \<and> n \<le> 102) s"

definition file_local_member_ref :: "dict list \<Rightarrow> string" where
  "file_local_member_ref sources =
     (let refs = remdups (filter (\<lambda>s. s \<noteq> [])
                   (map (\<lambda>source. py_lower (str_or_empty (dict_get source ''local_member_ref''))) sources));
          ref = (case refs of [r] \<Rightarrow> r | _ \<Rightarrow> [])
      in if is_local_member_ref ref then ref else [])"

definition body_source_metadata :: "parsed_line list \<Rightarrow> dict option" where
  "body_source_metadata parsed_lines =
     (let sources = map (\<lambda>l. dict_of (dict_get (pl_normalized l) ''context_source'')) parsed_lines
      in (case source_loop sources [] of
            None \<Rightarrow> None
          | Some result \<Rightarrow>
              Some (dict_set ''source_local_member_ref'' (JStr (file_local_member_ref sources)) result)))"

section \<open>Lemmas: parsing\<close>

text \<open>
  The loop is a filter and map over the numbered records, cut off by the two limits: what it returns
  is exactly the non-blank records, in order, each under its own line number.
\<close>

definition numbered_records :: "nat \<Rightarrow> string list \<Rightarrow> (nat \<times> string) list" where
  "numbered_records n lines =
     filter (\<lambda>(i, s). s \<noteq> []) (map (\<lambda>(i, s). (i, py_strip s)) (enumerate n lines))"

lemma numbered_records_Cons:
  "numbered_records n (l # ls) =
     (if py_strip l = [] then numbered_records (Suc n) ls
      else (n, py_strip l) # numbered_records (Suc n) ls)"
  by (simp add: numbered_records_def)

definition line_fits :: "runtime \<Rightarrow> string \<Rightarrow> bool" where
  "line_fits rt raw \<longleftrightarrow> length (utf8_encode raw) \<le> max_jsonl_line_bytes rt"

lemma line_fits_iff:
  "\<not> (length raw > max_jsonl_line_bytes rt \<or> length (utf8_encode raw) > max_jsonl_line_bytes rt)
     \<longleftrightarrow> line_fits rt raw"
  using length_utf8_encode [of raw] by (auto simp: line_fits_def)

lemma parse_loop_Inr_iff:
  assumes "length acc \<le> max_dump_records rt"
  shows "parse_loop rt n lines acc = Inr out \<longleftrightarrow>
     list_all (line_fits rt) lines \<and>
     length acc + length (numbered_records n lines) \<le> max_dump_records rt \<and>
     out = acc @ map (\<lambda>(i, s). parse_line rt i s) (numbered_records n lines)"
  using assms
proof (induction lines arbitrary: n acc)
  case Nil
  then show ?case by (auto simp: numbered_records_def)
next
  case (Cons l ls)
  show ?case
  proof (cases "line_fits rt l")
    case True
    then have step: "parse_loop rt n (l # ls) acc =
        (if py_strip l = [] then parse_loop rt (Suc n) ls acc
         else if length acc \<ge> max_dump_records rt then Inl TooManyRecords
         else parse_loop rt (Suc n) ls (acc @ [parse_line rt n (py_strip l)]))"
      by (simp add: line_fits_iff [symmetric] Let_def)
    show ?thesis
      using Cons.IH [of "acc @ [parse_line rt n (py_strip l)]" "Suc n"] Cons.IH [of acc "Suc n"]
        Cons.prems True
      unfolding step by (auto simp: numbered_records_Cons)
  next
    case False
    then show ?thesis by (auto simp: line_fits_iff [symmetric])
  qed
qed

lemma numbered_records_sorted: "sorted_wrt (<) (map fst (numbered_records n ls))"
  and numbered_records_bound: "i \<in> set (map fst (numbered_records n ls)) \<Longrightarrow> n \<le> i"
proof (induction ls arbitrary: n i)
  case (Cons l ls)
  { case 1
    show ?case using Cons.IH(1) [of "Suc n"] Cons.IH(2) [of _ "Suc n"]
      by (fastforce simp: numbered_records_Cons)
  next
    case 2
    then show ?case using Cons.IH(2) [of i "Suc n"]
      by (fastforce simp: numbered_records_Cons split: if_splits)
  }
qed (simp_all add: numbered_records_def)

text \<open>The identity loop decides whether two different non-empty values occur.\<close>

lemma identity_loop_iff:
  "identity_loop field first lines \<longleftrightarrow>
    (\<exists>x \<in> set lines. truthy (dict_get (pl_normalized x) field) \<and>
       ((\<exists>v. first = Some v \<and> dict_get (pl_normalized x) field \<noteq> v) \<or>
        (\<exists>y \<in> set lines. truthy (dict_get (pl_normalized y) field) \<and>
           dict_get (pl_normalized x) field \<noteq> dict_get (pl_normalized y) field)))"
proof (induction lines arbitrary: first)
  case Nil
  then show ?case by simp
next
  case (Cons l ls)
  then show ?case by (cases first) (auto simp: Let_def)
qed

lemma has_inconsistent_identity_iff:
  "has_inconsistent_identity lines \<longleftrightarrow>
    (\<exists>field \<in> {''engine_id'', ''account_ref''}. \<exists>x \<in> set lines. \<exists>y \<in> set lines.
       truthy (dict_get (pl_normalized x) field) \<and> truthy (dict_get (pl_normalized y) field) \<and>
       dict_get (pl_normalized x) field \<noteq> dict_get (pl_normalized y) field)"
  by (auto simp: has_inconsistent_identity_def identity_loop_iff)

lemma first_line_error_None_iff: "first_line_error lines = None \<longleftrightarrow> (\<forall>l \<in> set lines. pl_errors l = [])"
  by (induction lines) (auto simp: first_line_error_def Let_def)

lemma first_line_error_Some:
  assumes "first_line_error lines = Some r"
  shows "(rj_code r \<in> set line_codes \<or> rj_code r = ''storage_limit_exceeded'')
    \<and> (\<exists>l \<in> set lines. rj_line_number r = Some (pl_line_number l) \<and> pl_errors l \<noteq> [])"
  using assms
proof (induction lines)
  case Nil
  then show ?case by (simp add: first_line_error_def)
next
  case (Cons l ls)
  then show ?case
    by (cases "pl_errors l = []") (auto simp: first_line_error_def Let_def rejected_def)
qed

lemma validate_upload_Inr_iff:
  "validate_upload rt d = Inr (text, lines) \<longleftrightarrow>
     length d \<le> max_dump_bytes rt \<and> utf8_decode rt d = Some text \<and>
     list_all (line_fits rt) (iter_jsonl_record_lines text) \<and>
     lines = map (\<lambda>(i, s). parse_line rt i s) (numbered_records 1 (iter_jsonl_record_lines text)) \<and>
     lines \<noteq> [] \<and> length lines \<le> max_dump_records rt \<and>
     (\<forall>l \<in> set lines. pl_errors l = []) \<and> \<not> has_inconsistent_identity lines"
proof -
  have parse: "parse_jsonl rt text = Inr lines \<longleftrightarrow>
      list_all (line_fits rt) (iter_jsonl_record_lines text) \<and>
      length (numbered_records 1 (iter_jsonl_record_lines text)) \<le> max_dump_records rt \<and>
      lines = map (\<lambda>(i, s). parse_line rt i s) (numbered_records 1 (iter_jsonl_record_lines text))"
    using parse_loop_Inr_iff [of "[]"] by (simp add: parse_jsonl_def)
  have "validate_upload rt d = Inr (text, lines) \<longleftrightarrow>
      length d \<le> max_dump_bytes rt \<and> utf8_decode rt d = Some text \<and> parse_jsonl rt text = Inr lines \<and>
      lines \<noteq> [] \<and> first_line_error lines = None \<and> \<not> has_inconsistent_identity lines"
    by (auto simp: validate_upload_def split: option.splits sum.splits if_splits)
  then show ?thesis unfolding parse first_line_error_None_iff by auto
qed

lemma parse_line_ok:
  assumes "pl_errors (parse_line rt i s) = []"
  shows "\<exists>ev. pl_data (parse_line rt i s) = Some ev \<and> loads_audit_json rt s = Some (JObj ev)
    \<and> pl_normalized (parse_line rt i s) = fst (normalize_event rt ev)
    \<and> snd (normalize_event rt ev) = [] \<and> schema_error_code rt (JObj ev) = None"
  using assms normalize_event_accepted_schema
  by (fastforce simp: parse_line_def load_line_def Let_def split_beta split: option.splits json.splits)

lemma parse_line_fields [simp]:
  "pl_line_number (parse_line rt i s) = i" "pl_raw_line (parse_line rt i s) = s"
  "pl_line_hash (parse_line rt i s) = sha256_hexdigest rt (utf8_encode s)"
  by (simp_all add: parse_line_def Let_def split_beta)

lemma sole_image_iff:
  assumes "\<not> P []"
  shows "f ` S - {[]} = {r} \<and> P r \<longleftrightarrow> P r \<and> (\<exists>s \<in> S. f s = r) \<and> (\<forall>s \<in> S. f s \<in> {[], r})"
proof
  assume "f ` S - {[]} = {r} \<and> P r"
  then have r: "f ` S - {[]} = {r}" "P r" by auto
  then have "r \<in> f ` S" by auto
  moreover have "f s \<in> {[], r}" if "s \<in> S" for s using r(1) that by fast
  ultimately show "P r \<and> (\<exists>s \<in> S. f s = r) \<and> (\<forall>s \<in> S. f s \<in> {[], r})" using r(2) by auto
next
  assume h: "P r \<and> (\<exists>s \<in> S. f s = r) \<and> (\<forall>s \<in> S. f s \<in> {[], r})"
  with assms have "r \<noteq> []" by auto
  with h show "f ` S - {[]} = {r} \<and> P r" by auto
qed

lemma sole_element_iff:
  assumes "\<not> P []"
  shows "(let ref = (case refs of [q] \<Rightarrow> q | _ \<Rightarrow> []) in if P ref then ref else []) = r \<and> r \<noteq> []
     \<longleftrightarrow> refs = [r] \<and> P r"
  using assms by (auto simp: Let_def split: list.splits)

section \<open>Properties\<close>

text \<open>
  C3: which uploads are accepted, exactly. The body is within the size limit and decodes; every line,
  blank ones included, is within the byte limit; the parsed lines are the non-blank records in order
  under their own line numbers; there is at least one and at most the record limit; none has an error;
  and no two of them name different non-empty engines or accounts. In that case every line holds an
  object that the strict loader read, that passed the v4 gate and whose normalized columns are stored,
  and line numbers strictly increase.
\<close>

theorem upload_accepted_iff:
  "(validate_upload rt d = Inr (text, lines) \<longleftrightarrow>
     length d \<le> max_dump_bytes rt \<and> utf8_decode rt d = Some text \<and>
     list_all (line_fits rt) (iter_jsonl_record_lines text) \<and>
     lines = map (\<lambda>(i, s). parse_line rt i s) (numbered_records 1 (iter_jsonl_record_lines text)) \<and>
     lines \<noteq> [] \<and> length lines \<le> max_dump_records rt \<and>
     (\<forall>l \<in> set lines. pl_errors l = []) \<and>
     (\<forall>f \<in> {''engine_id'', ''account_ref''}. \<forall>x \<in> set lines. \<forall>y \<in> set lines.
        truthy (dict_get (pl_normalized x) f) \<and> truthy (dict_get (pl_normalized y) f) \<longrightarrow>
        dict_get (pl_normalized x) f = dict_get (pl_normalized y) f))
   \<and> (validate_upload rt d = Inr (text, lines) \<longrightarrow>
       (\<forall>l \<in> set lines. \<exists>ev. pl_data l = Some ev \<and> loads_audit_json rt (pl_raw_line l) = Some (JObj ev) \<and>
          schema_error_code rt (JObj ev) = None \<and> pl_normalized l = fst (normalize_event rt ev))
       \<and> sorted_wrt (<) (map pl_line_number lines))"
proof (intro conjI impI)
  show "validate_upload rt d = Inr (text, lines) \<longleftrightarrow>
     length d \<le> max_dump_bytes rt \<and> utf8_decode rt d = Some text \<and>
     list_all (line_fits rt) (iter_jsonl_record_lines text) \<and>
     lines = map (\<lambda>(i, s). parse_line rt i s) (numbered_records 1 (iter_jsonl_record_lines text)) \<and>
     lines \<noteq> [] \<and> length lines \<le> max_dump_records rt \<and>
     (\<forall>l \<in> set lines. pl_errors l = []) \<and>
     (\<forall>f \<in> {''engine_id'', ''account_ref''}. \<forall>x \<in> set lines. \<forall>y \<in> set lines.
        truthy (dict_get (pl_normalized x) f) \<and> truthy (dict_get (pl_normalized y) f) \<longrightarrow>
        dict_get (pl_normalized x) f = dict_get (pl_normalized y) f)"
    unfolding validate_upload_Inr_iff has_inconsistent_identity_iff by blast
next
  assume "validate_upload rt d = Inr (text, lines)"
  then have lines: "lines = map (\<lambda>(i, s). parse_line rt i s) (numbered_records 1 (iter_jsonl_record_lines text))"
    and ok: "\<forall>l \<in> set lines. pl_errors l = []"
    by (simp_all add: validate_upload_Inr_iff)
  from ok show "\<forall>l \<in> set lines. \<exists>ev. pl_data l = Some ev \<and>
      loads_audit_json rt (pl_raw_line l) = Some (JObj ev) \<and>
      schema_error_code rt (JObj ev) = None \<and> pl_normalized l = fst (normalize_event rt ev)"
    unfolding lines by (fastforce dest: parse_line_ok)
  have "map pl_line_number lines = map fst (numbered_records 1 (iter_jsonl_record_lines text))"
    by (simp add: lines split_beta comp_def)
  then show "sorted_wrt (<) (map pl_line_number lines)"
    using numbered_records_sorted by metis
qed

definition example_upload :: "byte list" where
  "example_upload = utf8_encode ''{send}''"

theorem upload_accepted_iff_witness:
  "\<exists>text lines. validate_upload example_runtime example_upload = Inr (text, lines) \<and> length lines = 1
     \<and> (\<forall>l \<in> set lines. \<exists>ev. pl_data l = Some ev \<and> schema_error_code example_runtime (JObj ev) = None)"
proof -
  let ?lines = "[parse_line example_runtime 1 ''{send}'']"
  have v: "validate_upload example_runtime example_upload = Inr (''{send}'', ?lines)"
    by code_simp
  then show ?thesis
    using upload_accepted_iff [of example_runtime example_upload "''{send}''" ?lines] by auto
qed

text \<open>
  A refused upload discloses nothing of its body. The reason is one of ten fixed codes, and beyond
  it the refusal carries at most the number of a line of the upload; no key, value or parser message
  of the request can reach it.
\<close>

theorem refusal_codes_fixed:
  assumes "validate_upload rt d = Inl r"
  shows "rj_code r \<in> set ([''too_large'', ''invalid_utf8'', ''processing_limit'', ''empty_upload'',
            ''inconsistent_file_identity'', ''storage_limit_exceeded''] @ line_codes)
    \<and> (rj_line_number r = None \<or>
        (\<exists>text i s. utf8_decode rt d = Some text \<and> rj_line_number r = Some i
           \<and> (i, s) \<in> set (numbered_records 1 (iter_jsonl_record_lines text))))"
proof (cases "rj_line_number r")
  case None
  then show ?thesis using assms first_line_error_Some
    by (fastforce simp: validate_upload_def rejected_def split: option.splits sum.splits if_splits)
next
  case (Some i)
  with assms obtain body lines where t: "utf8_decode rt d = Some body" "parse_jsonl rt body = Inr lines"
    and r: "first_line_error lines = Some r"
    by (auto simp: validate_upload_def rejected_def split: option.splits sum.splits if_splits)
  from first_line_error_Some [OF r] Some obtain l where l: "l \<in> set lines" "i = pl_line_number l"
    and code: "rj_code r \<in> set line_codes \<or> rj_code r = ''storage_limit_exceeded''" by auto
  from t(2) have "lines = map (\<lambda>(i, s). parse_line rt i s) (numbered_records 1 (iter_jsonl_record_lines body))"
    using parse_loop_Inr_iff [of "[]"] by (simp add: parse_jsonl_def)
  with l have "\<exists>s. (i, s) \<in> set (numbered_records 1 (iter_jsonl_record_lines body))" by auto
  with t(1) Some code show ?thesis by auto
qed

theorem refusal_codes_fixed_witness:
  "\<exists>r. validate_upload example_runtime (utf8_encode ''x'') = Inl r \<and> rj_line_number r = Some 1
     \<and> rj_code r \<in> set ([''too_large'', ''invalid_utf8'', ''processing_limit'', ''empty_upload'',
          ''inconsistent_file_identity'', ''storage_limit_exceeded''] @ line_codes)"
proof -
  have "validate_upload example_runtime (utf8_encode ''x'') = Inl (rejected ''invalid_json'' (Some 1))"
    by code_simp
  from refusal_codes_fixed [OF this] this show ?thesis by (auto simp: rejected_def)
qed

text \<open>
  One file speaks for one member. The member reference of a file is either empty or a 32-digit
  lower-case hex string; it is that string exactly when every source object that names a reference
  names this one, up to case.
\<close>

theorem local_member_ref_unanimous:
  "file_local_member_ref sources = r \<and> r \<noteq> [] \<longleftrightarrow>
     is_local_member_ref r \<and>
     list_ex (\<lambda>s. py_lower (str_or_empty (dict_get s ''local_member_ref'')) = r) sources \<and>
     list_all (\<lambda>s. py_lower (str_or_empty (dict_get s ''local_member_ref'')) \<in> {[], r}) sources"
proof -
  let ?f = "\<lambda>s. py_lower (str_or_empty (dict_get s ''local_member_ref''))"
  let ?refs = "remdups (filter (\<lambda>s. s \<noteq> []) (map ?f sources))"
  have set: "set ?refs = ?f ` set sources - {[]}" by auto
  have empty: "\<not> is_local_member_ref []" by (simp add: is_local_member_ref_def)
  have one: "?refs = [q] \<longleftrightarrow> ?f ` set sources - {[]} = {q}" for q
    using distinct_one [of ?refs q] set by simp
  have eq: "file_local_member_ref sources =
      (let ref = (case ?refs of [q] \<Rightarrow> q | _ \<Rightarrow> []) in if is_local_member_ref ref then ref else [])"
    by (simp only: file_local_member_ref_def Let_def)
  have "file_local_member_ref sources = r \<and> r \<noteq> [] \<longleftrightarrow> ?refs = [r] \<and> is_local_member_ref r"
    unfolding eq using empty by (rule sole_element_iff [of is_local_member_ref])
  also have "\<dots> \<longleftrightarrow> ?f ` set sources - {[]} = {r} \<and> is_local_member_ref r" unfolding one ..
  also have "\<dots> \<longleftrightarrow> is_local_member_ref r \<and> (\<exists>s \<in> set sources. ?f s = r) \<and> (\<forall>s \<in> set sources. ?f s \<in> {[], r})"
    using empty by (rule sole_image_iff [of is_local_member_ref])
  finally show ?thesis by (simp add: list_all_iff list_ex_iff)
qed

end
