(* ===== verification/Tables.thy ===== *)
theory Tables
  imports Prelude
begin

text \<open>
  The queries the program makes on a table with a unique key: \<^verbatim>\<open>get\<close>, \<^verbatim>\<open>get_or_create\<close> followed by
  a change of the row, \<^verbatim>\<open>update_or_create\<close>, and \<^verbatim>\<open>add\<close> on a many-to-many relation. The locale
  \<open>keyed_table\<close> states what a client relies on when it writes rows this way, and \<open>evidence_table\<close>
  extends it to rows that keep the earliest and latest time and the identities of the events they
  were derived from. The projection tables are interpreted in their own theories.
\<close>

text \<open>A loop whose body may raise: \<open>None\<close> is the exception, which ends the loop.\<close>

fun fold_opt :: "('a \<Rightarrow> 's \<Rightarrow> 's option) \<Rightarrow> 'a list \<Rightarrow> 's \<Rightarrow> 's option" where
  "fold_opt f [] s = Some s"
| "fold_opt f (x # xs) s = (case f x s of None \<Rightarrow> None | Some s' \<Rightarrow> fold_opt f xs s')"

lemma fold_opt_append:
  "fold_opt f (xs @ ys) s = (case fold_opt f xs s of None \<Rightarrow> None | Some s' \<Rightarrow> fold_opt f ys s')"
  by (induction xs arbitrary: s) (auto split: option.splits)

lemma fold_opt_invariant:
  assumes "fold_opt f xs s = Some s'" "P s"
    and "\<And>x s s'. x \<in> set xs \<Longrightarrow> P s \<Longrightarrow> f x s = Some s' \<Longrightarrow> P s'"
  shows "P s'"
  using assms
proof (induction xs arbitrary: s)
  case Nil
  then show ?case by simp
next
  case (Cons x xs)
  then obtain t where t: "f x s = Some t" "fold_opt f xs t = Some s'" by (auto split: option.splits)
  from Cons.prems(3) [of x s t] Cons.prems(2) t(1) have "P t" by simp
  with Cons.IH [OF t(2)] Cons.prems(3) show ?case by auto
qed

text \<open>An invariant that relates the state to the inputs consumed so far.\<close>

lemma fold_opt_trace:
  assumes "fold_opt f xs s = Some s'" "P ys s"
    and "\<And>ys x s s'. P ys s \<Longrightarrow> f x s = Some s' \<Longrightarrow> P (ys @ [x]) s'"
  shows "P (ys @ xs) s'"
  using assms(1,2)
proof (induction xs arbitrary: s ys)
  case Nil
  then show ?case by simp
next
  case (Cons x xs)
  then obtain t where "f x s = Some t" "fold_opt f xs t = Some s'" by (auto split: option.splits)
  with Cons.IH [of t "ys @ [x]"] assms(3) Cons.prems(2) show ?case by fastforce
qed

lemma fold_opt_total: "(\<And>x s. f x s \<noteq> None) \<Longrightarrow> fold_opt f xs s \<noteq> None"
  by (induction xs arbitrary: s) (auto split: option.splits)

definition find_row :: "('r \<Rightarrow> 'k) \<Rightarrow> 'k \<Rightarrow> 'r list \<Rightarrow> 'r option" where
  "find_row key k rows = find (\<lambda>r. key r = k) rows"

text \<open>
  Fetch the row with key \<open>k\<close>, or create it as \<open>new\<close>; then save it changed by \<open>f\<close>.
\<close>

definition upsert :: "('r \<Rightarrow> 'k) \<Rightarrow> 'k \<Rightarrow> 'r \<Rightarrow> ('r \<Rightarrow> 'r) \<Rightarrow> 'r list \<Rightarrow> 'r list" where
  "upsert key k new f rows =
     (if list_ex (\<lambda>r. key r = k) rows then map (\<lambda>r. if key r = k then f r else r) rows
      else rows @ [f new])"

definition m2m_add :: "'a \<Rightarrow> 'a list \<Rightarrow> 'a list" where
  "m2m_add x xs = (if x \<in> set xs then xs else xs @ [x])"

lemma set_m2m_add [simp]: "set (m2m_add x xs) = insert x (set xs)"
  by (auto simp: m2m_add_def)

lemma distinct_m2m_add [simp]: "distinct xs \<Longrightarrow> distinct (m2m_add x xs)"
  by (auto simp: m2m_add_def)

lemma find_row_None_iff: "find_row key k rows = None \<longleftrightarrow> k \<notin> key ` set rows"
  by (auto simp: find_row_def find_None_iff)

lemma find_row_SomeD: "find_row key k rows = Some r \<Longrightarrow> r \<in> set rows \<and> key r = k"
  by (auto simp: find_row_def find_Some_iff)

lemma find_row_distinct:
  "distinct (map key rows) \<Longrightarrow> r \<in> set rows \<Longrightarrow> find_row key (key r) rows = Some r"
  by (induction rows) (auto simp: find_row_def)

lemma find_row_append [simp]:
  "find_row key k (rows @ rows') = (case find_row key k rows of None \<Rightarrow> find_row key k rows' | Some r \<Rightarrow> Some r)"
  by (induction rows) (auto simp: find_row_def)

lemma find_row_map:
  assumes "\<And>r. key (g r) = key r"
  shows "find_row key k (map g rows) = map_option g (find_row key k rows)"
  by (induction rows) (auto simp: find_row_def assms)

lemma find_row_filter:
  assumes "\<And>r. key r = k \<Longrightarrow> P r"
  shows "find_row key k (filter P rows) = find_row key k rows"
  by (induction rows) (auto simp: find_row_def assms)

lemma list_ex_find_row: "list_ex (\<lambda>r. key r = k) rows \<longleftrightarrow> find_row key k rows \<noteq> None"
  by (auto simp: find_row_None_iff list_ex_iff)

lemma find_row_upsert:
  assumes "\<And>r. key r = k \<Longrightarrow> key (f r) = k" "key new = k"
  shows "find_row key k' (upsert key k new f rows) =
    (if k' = k then Some (f (case find_row key k rows of None \<Rightarrow> new | Some r \<Rightarrow> r)) else find_row key k' rows)"
proof (cases "list_ex (\<lambda>r. key r = k) rows")
  case True
  have "find_row key k' (map (\<lambda>r. if key r = k then f r else r) rows) =
      map_option (\<lambda>r. if key r = k then f r else r) (find_row key k' rows)"
    by (rule find_row_map) (simp add: assms)
  then show ?thesis
    using True by (cases "find_row key k' rows") (auto simp: upsert_def list_ex_find_row dest: find_row_SomeD)
next
  case False
  then have none: "find_row key k rows = None" by (simp add: list_ex_find_row)
  have "find_row key k' [f new] = (if k' = k then Some (f new) else None)"
    by (simp add: find_row_def assms)
  with False none show ?thesis by (cases "k' = k") (simp_all add: upsert_def split: option.splits)
qed

lemma keys_upsert:
  assumes "\<And>r. key r = k \<Longrightarrow> key (f r) = k" "key new = k"
  shows "map key (upsert key k new f rows) = (if k \<in> key ` set rows then map key rows else map key rows @ [k])"
proof (cases "k \<in> key ` set rows")
  case True
  then have "upsert key k new f rows = map (\<lambda>r. if key r = k then f r else r) rows"
    by (auto simp: upsert_def list_ex_iff)
  with True show ?thesis by (simp add: assms o_def if_distrib cong: if_cong)
next
  case False
  then have "upsert key k new f rows = rows @ [f new]"
    by (auto simp: upsert_def list_ex_iff)
  with False show ?thesis by (simp add: assms)
qed

lemma distinct_upsert:
  assumes "\<And>r. key r = k \<Longrightarrow> key (f r) = k" "key new = k" "distinct (map key rows)"
  shows "distinct (map key (upsert key k new f rows))"
  using assms by (simp add: keys_upsert)

lemma upsert_other:
  assumes "r \<in> set (upsert key k new f rows)" "key r \<noteq> k" "\<And>r. key r = k \<Longrightarrow> key (f r) = k" "key new = k"
  shows "r \<in> set rows"
  using assms by (auto simp: upsert_def split: if_splits)

lemma filter_upsert_other:
  assumes "\<And>r. key r = k \<Longrightarrow> \<not> P r \<and> \<not> P (f r)" "key new = k"
  shows "filter P (upsert key k new f rows) = filter P rows"
proof -
  have "filter P (map (\<lambda>r. if key r = k then f r else r) rows) = filter P rows"
    using assms(1) by (induction rows) auto
  then show ?thesis using assms by (auto simp: upsert_def)
qed

section \<open>Rows written by key\<close>

text \<open>
  A client writes inputs into a table: \<open>key_of\<close> names the row an input goes to, \<open>fresh\<close> is the row
  created for it, \<open>step\<close> the change it makes.
\<close>

locale keyed_table =
  fixes key :: "'r \<Rightarrow> 'k"
    and key_of :: "'x \<Rightarrow> 'k"
    and fresh :: "'x \<Rightarrow> 'r"
    and step :: "'x \<Rightarrow> 'r \<Rightarrow> 'r"
  assumes key_fresh: "key (fresh x) = key_of x"
    and key_step: "key (step x r) = key r"
begin

definition put :: "'x \<Rightarrow> 'r list \<Rightarrow> 'r list" where
  "put x rows = upsert key (key_of x) (fresh x) (step x) rows"

lemma find_put:
  "find_row key k (put x rows) =
     (if k = key_of x then Some (step x (case find_row key k rows of None \<Rightarrow> fresh x | Some r \<Rightarrow> r))
      else find_row key k rows)"
  by (simp add: put_def find_row_upsert key_fresh key_step)

lemma distinct_put: "distinct (map key rows) \<Longrightarrow> distinct (map key (put x rows))"
  by (simp add: put_def distinct_upsert key_fresh key_step)

lemma keys_put: "key ` set (put x rows) = insert (key_of x) (key ` set rows)"
proof -
  have keys: "map key (put x rows) =
      (if key_of x \<in> key ` set rows then map key rows else map key rows @ [key_of x])"
    unfolding put_def by (rule keys_upsert) (simp_all add: key_fresh key_step)
  have "set (map key (put x rows)) = insert (key_of x) (key ` set rows)"
    unfolding keys by (simp add: insert_absorb)
  then show ?thesis by simp
qed

lemma put_other: "r \<in> set (put x rows) \<Longrightarrow> key r \<noteq> key_of x \<Longrightarrow> r \<in> set rows"
  unfolding put_def by (drule upsert_other) (simp_all add: key_fresh key_step)

lemma filter_put:
  assumes "\<And>r. P r \<longleftrightarrow> Q (key r)"
  shows "filter P (put x rows) = (if Q (key_of x) then put x (filter P rows) else filter P rows)"
proof (cases "Q (key_of x)")
  case True
  then have "list_ex (\<lambda>r. key r = key_of x) (filter P rows) = list_ex (\<lambda>r. key r = key_of x) rows"
    by (auto simp: list_ex_iff assms)
  moreover have "filter P (map (\<lambda>r. if key r = key_of x then step x r else r) rows) =
      map (\<lambda>r. if key r = key_of x then step x r else r) (filter P rows)"
    by (induction rows) (auto simp: assms key_step)
  ultimately show ?thesis using True by (simp add: put_def upsert_def assms key_step key_fresh)
next
  case False
  then show ?thesis
    unfolding put_def using filter_upsert_other [of key "key_of x" P "step x" "fresh x" rows]
    by (simp add: assms key_step key_fresh)
qed

lemma distinct_puts: "distinct (map key rows) \<Longrightarrow> distinct (map key (fold put xs rows))"
  by (induction xs arbitrary: rows) (simp_all add: distinct_put)

end

section \<open>Rows that summarise evidence\<close>

lemma upd_None:
  "upd_first None t = opt_min (the_list [t])" "upd_last None t = opt_max (the_list [t])"
  using opt_min_snoc [of "[]" t] opt_max_snoc [of "[]" t] by simp_all

locale evidence_table = keyed_table key key_of fresh step
  for key :: "'r \<Rightarrow> 'k" and key_of :: "'x \<Rightarrow> 'k" and fresh :: "'x \<Rightarrow> 'r" and step :: "'x \<Rightarrow> 'r \<Rightarrow> 'r" +
  fixes first_seen :: "'r \<Rightarrow> int option"
    and last_seen :: "'r \<Rightarrow> int option"
    and evidence :: "'r \<Rightarrow> nat list"
    and seen_at :: "'x \<Rightarrow> int option"
    and event_of :: "'x \<Rightarrow> nat"
  assumes first_step: "first_seen (step x r) = upd_first (first_seen r) (seen_at x)"
    and last_step: "last_seen (step x r) = upd_last (last_seen r) (seen_at x)"
    and evidence_step: "evidence (step x r) = m2m_add (event_of x) (evidence r)"
    and first_fresh: "upd_first (first_seen (fresh x)) (seen_at x) = upd_first None (seen_at x)"
    and last_fresh: "upd_last (last_seen (fresh x)) (seen_at x) = upd_last None (seen_at x)"
    and evidence_fresh: "evidence (fresh x) = []"
begin

definition inputs_for :: "'k \<Rightarrow> 'x list \<Rightarrow> 'x list" where
  "inputs_for k xs = filter (\<lambda>x. key_of x = k) xs"

text \<open>The row of every key summarises exactly the inputs that went to it.\<close>

definition summarises :: "'r list \<Rightarrow> 'x list \<Rightarrow> bool" where
  "summarises rows xs \<longleftrightarrow> distinct (map key rows) \<and> (\<forall>k.
     (case find_row key k rows of
        None \<Rightarrow> inputs_for k xs = []
      | Some r \<Rightarrow> inputs_for k xs \<noteq> [] \<and>
          first_seen r = opt_min (the_list (map seen_at (inputs_for k xs))) \<and>
          last_seen r = opt_max (the_list (map seen_at (inputs_for k xs))) \<and>
          set (evidence r) = event_of ` set (inputs_for k xs)))"

lemma summarises_empty: "summarises [] []"
  by (simp add: summarises_def find_row_def inputs_for_def)

lemma summarises_put:
  assumes "summarises rows xs"
  shows "summarises (put x rows) (xs @ [x])"
proof -
  have old: "(case find_row key k rows of
        None \<Rightarrow> inputs_for k xs = []
      | Some r \<Rightarrow> inputs_for k xs \<noteq> [] \<and>
          first_seen r = opt_min (the_list (map seen_at (inputs_for k xs))) \<and>
          last_seen r = opt_max (the_list (map seen_at (inputs_for k xs))) \<and>
          set (evidence r) = event_of ` set (inputs_for k xs))" for k
    using assms unfolding summarises_def by blast
  have here: "inputs_for k (xs @ [x]) = (if k = key_of x then inputs_for k xs @ [x] else inputs_for k xs)" for k
    by (simp add: inputs_for_def)
  have new: "(case find_row key k (put x rows) of
        None \<Rightarrow> inputs_for k (xs @ [x]) = []
      | Some r \<Rightarrow> inputs_for k (xs @ [x]) \<noteq> [] \<and>
          first_seen r = opt_min (the_list (map seen_at (inputs_for k (xs @ [x])))) \<and>
          last_seen r = opt_max (the_list (map seen_at (inputs_for k (xs @ [x])))) \<and>
          set (evidence r) = event_of ` set (inputs_for k (xs @ [x])))" for k
  proof (cases "find_row key k rows")
    case None
    then show ?thesis using old [of k]
      by (cases "k = key_of x") (simp_all add: find_put here first_step last_step evidence_step first_fresh last_fresh evidence_fresh upd_None)
  next
    case (Some r)
    then show ?thesis using old [of k]
      by (cases "k = key_of x") (simp_all add: find_put here first_step last_step evidence_step opt_min_snoc opt_max_snoc)
  qed
  show ?thesis
    unfolding summarises_def using assms new by (simp add: distinct_put summarises_def)
qed

text \<open>Only the key, the time and the event of an input matter.\<close>

lemma summarises_cong:
  assumes "map (\<lambda>x. (key_of x, seen_at x, event_of x)) xs = map (\<lambda>x. (key_of x, seen_at x, event_of x)) ys"
  shows "summarises rows xs = summarises rows ys"
proof -
  have view: "map (\<lambda>x. (seen_at x, event_of x)) (inputs_for k zs) =
      map snd (filter (\<lambda>v. fst v = k) (map (\<lambda>x. (key_of x, seen_at x, event_of x)) zs))" for k zs
    by (simp add: inputs_for_def filter_map o_def)
  have same: "map (\<lambda>x. (seen_at x, event_of x)) (inputs_for k xs) = map (\<lambda>x. (seen_at x, event_of x)) (inputs_for k ys)" for k
    unfolding view assms ..
  have "map seen_at (inputs_for k xs) = map seen_at (inputs_for k ys)" for k
    using arg_cong [OF same [of k], of "map fst"] by (simp add: o_def)
  moreover have "event_of ` set (inputs_for k xs) = event_of ` set (inputs_for k ys)" for k
    using arg_cong [OF same [of k], of "\<lambda>vs. set (map snd vs)"] by (simp add: image_image)
  moreover have "inputs_for k xs = [] \<longleftrightarrow> inputs_for k ys = []" for k
    using arg_cong [OF same [of k], of length] by auto
  ultimately show ?thesis by (simp add: summarises_def cong: option.case_cong)
qed

lemma summarises_puts: "summarises rows xs \<Longrightarrow> summarises (fold put ys rows) (xs @ ys)"
proof (induction ys arbitrary: rows xs)
  case Nil
  then show ?case by simp
next
  case (Cons y ys)
  have "summarises (fold put ys (put y rows)) ((xs @ [y]) @ ys)"
    by (rule Cons.IH) (rule summarises_put [OF Cons.prems])
  then show ?case by simp
qed

lemma summarised_at:
  assumes "summarises rows xs"
  shows "find_row key k rows = None \<Longrightarrow> inputs_for k xs = []"
    and "find_row key k rows = Some r \<Longrightarrow> inputs_for k xs \<noteq> [] \<and>
      first_seen r = opt_min (the_list (map seen_at (inputs_for k xs))) \<and>
      last_seen r = opt_max (the_list (map seen_at (inputs_for k xs))) \<and>
      set (evidence r) = event_of ` set (inputs_for k xs)"
  using spec [OF conjunct2 [OF assms [unfolded summarises_def]], of k] by simp_all

lemma summarised_row:
  assumes "summarises rows xs" "r \<in> set rows"
  shows "inputs_for (key r) xs \<noteq> []"
    and "first_seen r = opt_min (the_list (map seen_at (inputs_for (key r) xs)))"
    and "last_seen r = opt_max (the_list (map seen_at (inputs_for (key r) xs)))"
    and "set (evidence r) = event_of ` set (inputs_for (key r) xs)"
proof -
  have "find_row key (key r) rows = Some r"
    using assms by (simp add: summarises_def find_row_distinct)
  note * = summarised_at(2) [OF assms(1) this]
  show "inputs_for (key r) xs \<noteq> []"
    "first_seen r = opt_min (the_list (map seen_at (inputs_for (key r) xs)))"
    "last_seen r = opt_max (the_list (map seen_at (inputs_for (key r) xs)))"
    "set (evidence r) = event_of ` set (inputs_for (key r) xs)" using * by blast+
qed

lemma summarised_key:
  assumes "summarises rows xs" "x \<in> set xs"
  shows "\<exists>r \<in> set rows. key r = key_of x"
proof (cases "find_row key (key_of x) rows")
  case None
  with assms(2) summarised_at(1) [OF assms(1) None] show ?thesis
    by (auto simp: inputs_for_def filter_empty_conv)
next
  case (Some r)
  then show ?thesis by (auto dest: find_row_SomeD)
qed

end

end
