(* ===== verification/Delivery.thy ===== *)
theory Delivery
  imports Tables Models
begin

text \<open>
  The delivery half of \<^verbatim>\<open>forensics/projections.py\<close>: which messages an event refers to, the artifact
  of each message in its group, the observation each engine has of it, recipient expectations,
  network observations, state deltas and epoch transitions. An operation takes the projection tables
  and returns them changed; \<open>None\<close> is an exception, on which the transaction around the projection is
  rolled back. The unique keys are written with \<open>upsert\<close>; the artifact and observation tables are
  interpreted as \<open>evidence_table\<close>.
\<close>

section \<open>Helpers on raw values\<close>

definition int_or_none :: "json \<Rightarrow> int option" where
  "int_or_none v = (case v of JInt i \<Rightarrow> if i \<ge> 0 then Some i else None | _ \<Rightarrow> None)"

definition bool_or_none :: "json \<Rightarrow> bool option" where
  "bool_or_none v = (case v of JBool b \<Rightarrow> Some b | _ \<Rightarrow> None)"

definition list_or_empty :: "json \<Rightarrow> json list" where
  "list_or_empty v = (case v of JList xs \<Rightarrow> xs | _ \<Rightarrow> [])"

definition dict_or_empty :: "json \<Rightarrow> dict" where
  "dict_or_empty v = (case v of JObj ms \<Rightarrow> ms | _ \<Rightarrow> [])"

definition append_json_value :: "string list \<Rightarrow> string \<Rightarrow> string list" where
  "append_json_value values v = (if v = [] \<or> v \<in> set values then values else sort (values @ [v]))"

text \<open>The values a \<^verbatim>\<open>for\<close> loop over \<^verbatim>\<open>v or []\<close> visits; iterating a number raises \<^verbatim>\<open>TypeError\<close>.\<close>

definition iter_or_empty :: "json \<Rightarrow> json list option" where
  "iter_or_empty v =
     (if \<not> truthy v then Some []
      else (case v of
              JList xs \<Rightarrow> Some xs
            | JStr s \<Rightarrow> Some (map (\<lambda>c. JStr [c]) s)
            | JObj ms \<Rightarrow> Some (map (\<lambda>m. JStr (fst m)) ms)
            | _ \<Rightarrow> None))"

definition raw_kind_of :: "audit_event \<Rightarrow> dict" where
  "raw_kind_of e = (if is_dict (ev_raw_kind e) then dict_of (ev_raw_kind e) else [])"

section \<open>Message references\<close>

record message_ref =
  mr_msg_id :: string
  mr_artifact_kind :: string

definition add_ref :: "json \<Rightarrow> json \<Rightarrow> message_ref list \<Rightarrow> message_ref list" where
  "add_ref msg_id artifact_kind refs =
     (if is_str msg_id \<and> str_of msg_id \<noteq> [] \<and> list_all (\<lambda>r. mr_msg_id r \<noteq> str_of msg_id) refs
      then refs @ [\<lparr> mr_msg_id = str_of msg_id,
                     mr_artifact_kind = (if is_str artifact_kind then str_of artifact_kind else []) \<rparr>]
      else refs)"

definition message_refs_for_event :: "audit_event \<Rightarrow> message_ref list option" where
  "message_refs_for_event e =
     (let kind = raw_kind_of e;
          refs = add_ref (JStr (ev_msg_id e)) (dict_get kind ''artifact_kind'') [];
          refs = add_ref (JStr (ev_outbound_msg_id e)) (JStr []) refs;
          refs = fold (\<lambda>m. add_ref (JStr m) (JStr ''welcome'')) (ev_outbound_welcome_msg_ids e) refs;
          refs = fold (\<lambda>m. add_ref (JStr m) (JStr [])) (ev_human_action_message_ids e) refs;
          refs = add_ref (JStr (ev_invalidated_msg_id e)) (JStr []) refs;
          refs = add_ref (dict_get kind ''msg_id'') (dict_get kind ''artifact_kind'') refs
      in (case iter_or_empty (dict_get kind ''outbound_messages'') of
            None \<Rightarrow> None
          | Some outs \<Rightarrow> Some (fold (\<lambda>out refs.
              if is_dict out
              then add_ref (dict_get (dict_of out) ''msg_id'') (dict_get (dict_of out) ''artifact_kind'') refs
              else refs) outs refs)))"

section \<open>Artifacts\<close>

definition artifact_key :: "delivery_artifact \<Rightarrow> nat \<times> string" where
  "artifact_key a = (da_group a, da_artifact_id a)"

definition artifact_fresh :: "nat \<Rightarrow> nat \<Rightarrow> audit_event \<Rightarrow> message_ref \<Rightarrow> delivery_artifact" where
  "artifact_fresh pk g e ref = \<lparr> da_id = pk, da_group = g, da_artifact_id = mr_msg_id ref,
     da_artifact_kind = mr_artifact_kind ref,
     da_first_seen_ms = ev_wall_time_ms e, da_last_seen_ms = ev_wall_time_ms e,
     da_audit_data_modes = (if ev_audit_data_mode e \<noteq> [] then [ev_audit_data_mode e] else []),
     da_author = JObj [], da_decoded_payload = JObj [], da_decoded_app_event = JObj [],
     da_evidence_events = [] \<rparr>"

definition decoded_or :: "audit_event \<Rightarrow> string \<Rightarrow> json \<Rightarrow> json" where
  "decoded_or e field old =
     (let value = dict_get (raw_kind_of e) field
      in if ev_event_type e = ''message_content_decoded'' \<and> is_dict value then value else old)"

definition artifact_change :: "audit_event \<Rightarrow> message_ref \<Rightarrow> delivery_artifact \<Rightarrow> delivery_artifact" where
  "artifact_change e ref a = a\<lparr>
     da_artifact_kind :=
       (if mr_artifact_kind ref \<noteq> [] \<and> da_artifact_kind a \<in> {[], ''unknown''}
        then mr_artifact_kind ref else da_artifact_kind a),
     da_first_seen_ms := upd_first (da_first_seen_ms a) (ev_wall_time_ms e),
     da_last_seen_ms := upd_last (da_last_seen_ms a) (ev_wall_time_ms e),
     da_audit_data_modes := append_json_value (da_audit_data_modes a) (ev_audit_data_mode e),
     da_author := decoded_or e ''author'' (da_author a),
     da_decoded_payload := decoded_or e ''decoded_payload'' (da_decoded_payload a),
     da_decoded_app_event := decoded_or e ''decoded_app_event'' (da_decoded_app_event a),
     da_evidence_events := m2m_add (ev_id e) (da_evidence_events a) \<rparr>"

text \<open>The artifact is returned as the row saved; an event with no group has none.\<close>

definition artifact_for_message ::
  "audit_event \<Rightarrow> message_ref \<Rightarrow> projections \<Rightarrow> projections \<times> delivery_artifact option" where
  "artifact_for_message e ref pj =
     (case ev_group e of
        None \<Rightarrow> (pj, None)
      | Some g \<Rightarrow>
          (let k = (g, mr_msg_id ref);
               pk = pj_next_artifact pj;
               created = (find_row artifact_key k (pj_artifacts pj) = None);
               rows = upsert artifact_key k (artifact_fresh pk g e ref) (artifact_change e ref) (pj_artifacts pj)
           in (pj\<lparr>pj_artifacts := rows, pj_next_artifact := (if created then Suc pk else pk)\<rparr>,
               find_row artifact_key k rows)))"

fun artifacts_for_refs ::
  "audit_event \<Rightarrow> message_ref list \<Rightarrow> projections \<Rightarrow> projections \<times> delivery_artifact list" where
  "artifacts_for_refs e [] pj = (pj, [])"
| "artifacts_for_refs e (ref # refs) pj =
     (let (pj1, a) = artifact_for_message e ref pj;
          (pj2, as) = artifacts_for_refs e refs pj1
      in (pj2, (case a of None \<Rightarrow> as | Some x \<Rightarrow> x # as)))"

section \<open>Observations\<close>

definition delivery_state_for_event :: "audit_event \<Rightarrow> string" where
  "delivery_state_for_event e =
     (if ev_event_type e = ''message_state_changed'' \<and> ev_new_state e \<noteq> [] then ev_new_state e
      else if ev_event_type e = ''ingest_outcome'' \<and> ev_outcome_kind e \<noteq> [] then ''ingest:'' @ ev_outcome_kind e
      else if ev_event_type e = ''send_outcome'' \<and> ev_result_kind e \<noteq> [] then ''send:'' @ ev_result_kind e
      else if ev_event_type e = ''publish_outcome'' then
        (if ev_met_required_acks e = Some True then ''publish:acked'' else ''publish:partial'')
      else if ev_event_type e = ''publish_failure'' then ''publish:failed''
      else if ev_event_type e = ''message_content_decoded'' then ''decoded''
      else if ev_event_type e = ''recipient_expectation'' then ''expected''
      else ev_event_type e)"

definition observation_key :: "delivery_observation \<Rightarrow> nat \<times> string" where
  "observation_key d = (dv_artifact d, dv_engine_id d)"

definition observation_fresh :: "nat \<Rightarrow> nat \<Rightarrow> audit_event \<Rightarrow> delivery_observation" where
  "observation_fresh pk artifact e = \<lparr> dv_id = pk, dv_artifact = artifact, dv_engine_id = ev_engine_id e,
     dv_account_ref = ev_account_ref e, dv_first_seen_ms = ev_wall_time_ms e,
     dv_last_seen_ms = ev_wall_time_ms e, dv_states = [], dv_latest_state = [],
     dv_missing_inferred = False, dv_evidence_events = [] \<rparr>"

definition observation_change :: "audit_event \<Rightarrow> delivery_observation \<Rightarrow> delivery_observation" where
  "observation_change e d =
     (let state = delivery_state_for_event e;
          entry = \<lparr> se_state = state, se_event_type = ev_event_type e, se_event_id = ev_id e,
                    se_wall_time_ms = ev_wall_time_ms e \<rparr>
      in d\<lparr> dv_account_ref := (if ev_account_ref e \<noteq> [] \<and> dv_account_ref d = [] then ev_account_ref e
                              else dv_account_ref d),
            dv_first_seen_ms := upd_first (dv_first_seen_ms d) (ev_wall_time_ms e),
            dv_last_seen_ms := upd_last (dv_last_seen_ms d) (ev_wall_time_ms e),
            dv_states := (if state \<noteq> [] then dv_states d @ [entry] else dv_states d),
            dv_latest_state := (if state \<noteq> [] then state else dv_latest_state d),
            dv_evidence_events := m2m_add (ev_id e) (dv_evidence_events d) \<rparr>)"

definition project_delivery_observation :: "audit_event \<Rightarrow> delivery_artifact \<Rightarrow> projections \<Rightarrow> projections" where
  "project_delivery_observation e a pj =
     (if ev_engine_id e = [] then pj
      else (let k = (da_id a, ev_engine_id e);
                pk = pj_next_observation pj;
                created = (find_row observation_key k (pj_observations pj) = None)
            in pj\<lparr> pj_observations := upsert observation_key k (observation_fresh pk (da_id a) e)
                     (observation_change e) (pj_observations pj),
                   pj_next_observation := (if created then Suc pk else pk) \<rparr>))"

section \<open>Recipient expectations\<close>

definition expectation_row :: "audit_event \<Rightarrow> delivery_artifact \<Rightarrow> dict \<Rightarrow> recipient_expectation" where
  "expectation_row e a x = \<lparr>
     re_artifact = da_id a,
     re_artifact_kind = py_str (py_or (dict_get x ''artifact_kind'') (JStr (da_artifact_kind a))),
     re_recipient_scope = py_str (py_or (dict_get x ''recipient_scope'') (JStr ''unknown'')),
     re_membership_epoch = int_or_none (dict_get x ''membership_epoch''),
     re_basis_commit_id = str_or_empty (dict_get x ''basis_commit_id''),
     re_expected_member_refs = list_or_empty (dict_get x ''expected_member_refs''),
     re_expected_pubkeys_hex = list_or_empty (dict_get x ''expected_pubkeys_hex''),
     re_expected_count = int_or_none (dict_get x ''expected_count''),
     re_evidence_event = ev_id e \<rparr>"

definition expectations_of :: "audit_event \<Rightarrow> delivery_artifact \<Rightarrow> dict list option" where
  "expectations_of e a =
     (let kind = raw_kind_of e;
          own = (if ev_event_type e = ''recipient_expectation'' \<and> is_dict (dict_get kind ''expectation'')
                 then [dict_of (dict_get kind ''expectation'')] else [])
      in (case iter_or_empty (dict_get kind ''outbound_messages'') of
            None \<Rightarrow> None
          | Some outs \<Rightarrow> Some (own @ map (\<lambda>out. dict_of (dict_get (dict_of out) ''recipient_expectation''))
              (filter (\<lambda>out. is_dict out \<and> dict_get (dict_of out) ''msg_id'' = JStr (da_artifact_id a) \<and>
                 is_dict (dict_get (dict_of out) ''recipient_expectation'')) outs))))"

definition project_recipient_expectations ::
  "audit_event \<Rightarrow> delivery_artifact \<Rightarrow> projections \<Rightarrow> projections option" where
  "project_recipient_expectations e a pj =
     (case expectations_of e a of
        None \<Rightarrow> None
      | Some xs \<Rightarrow> Some (pj\<lparr>pj_expectations := pj_expectations pj @ map (expectation_row e a) xs\<rparr>))"

section \<open>Network observations\<close>

definition NETWORK_EVENT_TYPES :: "string list" where
  "NETWORK_EVENT_TYPES = [''transport_received'', ''ingest_entry'', ''ingest_outcome'', ''ingest_error'',
     ''publish_attempt'', ''publish_outcome'', ''publish_failure'']"

definition wire_for_event :: "audit_event \<Rightarrow> dict \<Rightarrow> dict" where
  "wire_for_event e kind =
     (let wire = dict_get kind ''transport'';
          context_wire = dict_get (dict_of (ev_context_transport e)) ''wire''
      in if is_dict wire then dict_of wire
         else if is_dict context_wire then dict_of context_wire else [])"

definition context_delivery_plane :: "audit_event \<Rightarrow> string" where
  "context_delivery_plane e = str_or_empty (dict_get (dict_of (ev_context_transport e)) ''delivery_plane'')"

definition relay_url_for_event :: "audit_event \<Rightarrow> dict \<Rightarrow> dict \<Rightarrow> string" where
  "relay_url_for_event e kind wire =
     (let relay_url = dict_get kind ''relay_url'';
          relays = py_or (dict_get kind ''relay_urls'')
            (JList (map JStr (if ev_relay_urls e \<noteq> [] then ev_relay_urls e else ev_accepted_relay_urls e)))
      in if truthy (dict_get wire ''relay_url'') then py_str (dict_get wire ''relay_url'')
         else if is_str relay_url \<and> str_of relay_url \<noteq> [] then str_of relay_url
         else if is_list relays \<and> list_of relays \<noteq> [] \<and> is_str (hd (list_of relays))
              then str_of (hd (list_of relays))
         else str_or_empty (dict_get (dict_of (ev_context_transport e)) ''relay_url''))"

definition network_direction :: "string \<Rightarrow> string" where
  "network_direction event_type =
     (if take 7 event_type = ''publish'' \<or> event_type \<in> {''send_outcome'', ''create_group_outcome''}
      then ''outbound'' else ''inbound'')"

definition network_outcome :: "audit_event \<Rightarrow> string" where
  "network_outcome e =
     (if ev_outcome e \<noteq> [] then ev_outcome e
      else if ev_outcome_kind e \<noteq> [] then ev_outcome_kind e
      else if ev_result_kind e \<noteq> [] then ev_result_kind e
      else if ev_reason e \<noteq> [] then ev_reason e
      else if ev_met_required_acks e = Some True then ''met_required_acks'' else [])"

definition network_row :: "audit_event \<Rightarrow> delivery_artifact option \<Rightarrow> network_observation" where
  "network_row e artifact =
     (let kind = raw_kind_of e; wire = wire_for_event e kind; w = (\<lambda>f. str_or_empty (dict_get wire f))
      in \<lparr> no_group = ev_group e,
           no_artifact = map_option da_id artifact,
           no_audit_event = ev_id e,
           no_direction = network_direction (ev_event_type e),
           no_phase = ev_event_type e,
           no_message_id = (case artifact of
               Some a \<Rightarrow> da_artifact_id a
             | None \<Rightarrow> py_str (py_or (dict_get kind ''msg_id'') (JStr (ev_msg_id e)))),
           no_artifact_kind = py_str (py_or (dict_get kind ''artifact_kind'')
             (JStr (case artifact of Some a \<Rightarrow> da_artifact_kind a | None \<Rightarrow> []))),
           no_engine_id = ev_engine_id e,
           no_account_ref = ev_account_ref e,
           no_wall_time_ms = ev_wall_time_ms e,
           no_transport_source = str_or_empty (py_or (dict_get kind ''transport_source'') (dict_get wire ''transport'')),
           no_delivery_plane = py_str (py_or (dict_get wire ''delivery_plane'') (JStr (context_delivery_plane e))),
           no_relay_url = relay_url_for_event e kind wire,
           no_subscription_id = w ''subscription_id'',
           no_wire_id = w ''wire_id'',
           no_wire_kind = w ''wire_kind'',
           no_wire_pubkey_hex = w ''wire_pubkey_hex'',
           no_transport_group_id = w ''transport_group_id'',
           no_nostr_event_id = w ''nostr_event_id'',
           no_nostr_kind = int_or_none (dict_get wire ''nostr_kind''),
           no_nostr_pubkey_hex = w ''nostr_pubkey_hex'',
           no_gift_wrap_event_id = w ''gift_wrap_event_id'',
           no_welcome_nostr_event_id = w ''welcome_nostr_event_id'',
           no_welcome_rumor_event_id = w ''welcome_rumor_event_id'',
           no_welcome_key_package_tag = w ''welcome_key_package_tag'',
           no_publish_result_id = w ''publish_result_id'',
           no_payload_len = ev_payload_len e,
           no_payload_digest = ev_payload_digest e,
           no_outcome = network_outcome e,
           no_accepted_relay_urls = ev_accepted_relay_urls e,
           no_failed_relays = ev_failed_relays e,
           no_required_acks = ev_required_acks e,
           no_met_required_acks = ev_met_required_acks e \<rparr>)"

text \<open>The three tables below refuse a row with no group (a NOT NULL column).\<close>

definition project_network_observation ::
  "audit_event \<Rightarrow> delivery_artifact option \<Rightarrow> projections \<Rightarrow> projections option" where
  "project_network_observation e artifact pj =
     (if ev_group e = None then None
      else Some (pj\<lparr>pj_network := pj_network pj @ [network_row e artifact]\<rparr>))"

section \<open>State deltas and epoch transitions\<close>

definition project_state_delta :: "audit_event \<Rightarrow> projections \<Rightarrow> projections option" where
  "project_state_delta e pj =
     (let kind = raw_kind_of e; k = (\<lambda>f. str_or_empty (dict_get kind f))
      in if ev_group e = None then None
         else Some (pj\<lparr>pj_deltas := pj_deltas pj @ [\<lparr>
           sd_group = ev_group e,
           sd_audit_event = ev_id e,
           sd_epoch = ev_epoch e,
           sd_change_kind = py_str (py_or (dict_get kind ''change_kind'') (JStr (ev_outcome_kind e))),
           sd_membership_change_source = k ''membership_change_source'',
           sd_actor_member_ref = k ''actor_member_ref'',
           sd_actor_pubkey_hex = k ''actor_pubkey_hex'',
           sd_subject_member_ref = k ''subject_member_ref'',
           sd_subject_pubkey_hex = k ''subject_pubkey_hex'',
           sd_origin_commit_id = k ''origin_commit_id'',
           sd_fields = list_or_empty (dict_get kind ''fields''),
           sd_component_ids = list_or_empty (dict_get kind ''component_ids''),
           sd_value = dict_or_empty (dict_get kind ''value''),
           sd_audit_data_mode = ev_audit_data_mode e,
           sd_wall_time_ms = ev_wall_time_ms e \<rparr>]\<rparr>))"

definition project_epoch_transition :: "audit_event \<Rightarrow> projections \<Rightarrow> projections option" where
  "project_epoch_transition e pj =
     (if ev_group e = None then None
      else Some (pj\<lparr>pj_transitions := pj_transitions pj @ [\<lparr>
        et_group = ev_group e,
        et_audit_event = ev_id e,
        et_engine_id = ev_engine_id e,
        et_account_ref = ev_account_ref e,
        et_previous_state = ev_outcome e,
        et_new_state = ev_new_state e,
        et_epoch = ev_epoch e,
        et_reason = ev_reason e,
        et_pending_ref = ev_pending_epoch e,
        et_pending_kind = ev_pending_kind e,
        et_wall_time_ms = ev_wall_time_ms e \<rparr>]\<rparr>))"

section \<open>The artifact and observation tables\<close>

text \<open>An input to the artifact table: the key a new row would get, the group, the event, the reference.\<close>

type_synonym artifact_input = "nat \<times> nat \<times> audit_event \<times> message_ref"

interpretation artifacts: evidence_table artifact_key
  "\<lambda>(pk, g, e, ref). (g, mr_msg_id ref)" "\<lambda>(pk, g, e, ref). artifact_fresh pk g e ref"
  "\<lambda>(pk, g, e, ref). artifact_change e ref" da_first_seen_ms da_last_seen_ms da_evidence_events
  "\<lambda>(pk, g, e, ref). ev_wall_time_ms e" "\<lambda>(pk, g, e, ref). ev_id e"
  by unfold_locales
    (auto simp: artifact_key_def artifact_fresh_def artifact_change_def upd_first_def upd_last_def split: option.splits)

text \<open>An input to the observation table: the key a new row would get, the artifact's key, the event.\<close>

interpretation observations: evidence_table observation_key
  "\<lambda>(pk, a, e). (a, ev_engine_id e)" "\<lambda>(pk, a, e). observation_fresh pk a e"
  "\<lambda>(pk, a, e). observation_change e" dv_first_seen_ms dv_last_seen_ms dv_evidence_events
  "\<lambda>(pk, a, e). ev_wall_time_ms e" "\<lambda>(pk, a, e). ev_id e"
  by unfold_locales
    (auto simp: observation_key_def observation_fresh_def observation_change_def Let_def upd_first_def
      upd_last_def split: option.splits)

lemma artifact_change_simps [simp]:
  "da_id (artifact_change e ref a) = da_id a" "da_group (artifact_change e ref a) = da_group a"
  "da_artifact_id (artifact_change e ref a) = da_artifact_id a"
  by (simp_all add: artifact_change_def)

lemma artifact_fresh_simps [simp]:
  "da_id (artifact_fresh pk g e ref) = pk" "da_group (artifact_fresh pk g e ref) = g"
  "da_artifact_id (artifact_fresh pk g e ref) = mr_msg_id ref"
  by (simp_all add: artifact_fresh_def)

text \<open>
  An artifact operation is one input to the artifact table and touches nothing else; the row it
  returns is in the table under the key asked for.
\<close>

lemma artifact_for_message_put:
  assumes "ev_group e = Some g" "artifact_for_message e ref pj = (pj', a)"
  shows "pj_artifacts pj' = artifacts.put (pj_next_artifact pj, g, e, ref) (pj_artifacts pj)"
    and "\<exists>x. a = Some x \<and> x \<in> set (pj_artifacts pj') \<and> artifact_key x = (g, mr_msg_id ref)"
    and "pj' = pj\<lparr>pj_artifacts := pj_artifacts pj', pj_next_artifact := pj_next_artifact pj'\<rparr>"
proof -
  show put: "pj_artifacts pj' = artifacts.put (pj_next_artifact pj, g, e, ref) (pj_artifacts pj)"
    using assms by (auto simp: artifact_for_message_def artifacts.put_def Let_def)
  have a: "a = find_row artifact_key (g, mr_msg_id ref) (pj_artifacts pj')"
    using assms by (auto simp: artifact_for_message_def Let_def)
  moreover have "find_row artifact_key (g, mr_msg_id ref) (pj_artifacts pj') \<noteq> None"
    unfolding put by (simp add: artifacts.find_put)
  ultimately show "\<exists>x. a = Some x \<and> x \<in> set (pj_artifacts pj') \<and> artifact_key x = (g, mr_msg_id ref)"
    by (auto dest: find_row_SomeD)
  show "pj' = pj\<lparr>pj_artifacts := pj_artifacts pj', pj_next_artifact := pj_next_artifact pj'\<rparr>"
    using assms by (auto simp: artifact_for_message_def Let_def)
qed

text \<open>The same for the list of references of an event.\<close>

definition artifact_inputs :: "audit_event \<Rightarrow> artifact_input list" where
  "artifact_inputs e =
     (case (ev_group e, message_refs_for_event e) of
        (Some g, Some refs) \<Rightarrow> map (\<lambda>ref. (0, g, e, ref)) refs
      | _ \<Rightarrow> [])"

lemma artifacts_for_refs_frame:
  "artifacts_for_refs e refs pj = (pj', as) \<Longrightarrow>
     pj' = pj\<lparr>pj_artifacts := pj_artifacts pj', pj_next_artifact := pj_next_artifact pj'\<rparr>"
proof (induction refs arbitrary: pj pj' as)
  case Nil
  then show ?case by simp
next
  case (Cons ref refs)
  obtain pj1 a where step: "artifact_for_message e ref pj = (pj1, a)" by (cases "artifact_for_message e ref pj")
  obtain bs where rest: "artifacts_for_refs e refs pj1 = (pj', bs)"
    using Cons.prems step by (auto split: prod.splits)
  have "pj1 = pj\<lparr>pj_artifacts := pj_artifacts pj1, pj_next_artifact := pj_next_artifact pj1\<rparr>"
    using step artifact_for_message_put(3) [OF _ step] by (cases "ev_group e") (auto simp: artifact_for_message_def)
  then show ?case using Cons.IH [OF rest] by (metis projections.surjective projections.update_convs(1,10))
qed

lemma artifacts_for_refs_summarises:
  assumes "ev_group e = Some g" "artifacts_for_refs e refs pj = (pj', as)"
    and "\<And>a. P a \<longleftrightarrow> Q (artifact_key a)"
    and "artifacts.summarises (filter P (pj_artifacts pj)) xs"
  shows "artifacts.summarises (filter P (pj_artifacts pj'))
    (xs @ filter (\<lambda>(pk, g, e, ref). Q (g, mr_msg_id ref)) (map (\<lambda>ref. (0, g, e, ref)) refs))"
  using assms(2,4)
proof (induction refs arbitrary: pj pj' as xs)
  case Nil
  then show ?case by simp
next
  case (Cons ref refs)
  obtain pj1 a where step: "artifact_for_message e ref pj = (pj1, a)" by (cases "artifact_for_message e ref pj")
  obtain bs where rest: "artifacts_for_refs e refs pj1 = (pj', bs)"
    using Cons.prems(1) step by (auto split: prod.splits)
  let ?x = "(pj_next_artifact pj, g, e, ref)" and ?z = "(0::nat, g, e, ref)"
  have put: "filter P (pj_artifacts pj1) =
      (if Q (g, mr_msg_id ref) then artifacts.put ?x (filter P (pj_artifacts pj)) else filter P (pj_artifacts pj))"
    unfolding artifact_for_message_put(1) [OF assms(1) step] using artifacts.filter_put [of P Q ?x, OF assms(3)] by simp
  have "artifacts.summarises (filter P (pj_artifacts pj1)) (xs @ (if Q (g, mr_msg_id ref) then [?z] else []))"
  proof (cases "Q (g, mr_msg_id ref)")
    case True
    have "artifacts.summarises (artifacts.put ?x (filter P (pj_artifacts pj))) (xs @ [?x])"
      by (rule artifacts.summarises_put) (rule Cons.prems(2))
    then have "artifacts.summarises (artifacts.put ?x (filter P (pj_artifacts pj))) (xs @ [?z])"
      by (rule iffD1 [OF artifacts.summarises_cong, rotated]) simp
    then show ?thesis using True put by simp
  next
    case False
    then show ?thesis using put Cons.prems(2) by simp
  qed
  from Cons.IH [OF rest this] show ?case by (auto split: if_splits)
qed

end
