(* ===== verification/Divergence.thy ===== *)
theory Divergence
  imports Models
begin

text \<open>
  The divergence analysis of \<^verbatim>\<open>forensics/analysis.py\<close>: which messages some engine observed and another
  engine, active at the time, did not. The code computes it twice: \<^verbatim>\<open>divergent_counts_for_group_ids\<close>
  aggregates rows for the persisted landing-page count, \<^verbatim>\<open>message_traces_from_events\<close> builds the full
  traces for the detail page. Python sets are HOL sets; dictionaries are association lists in
  insertion order. The locale \<open>observation_index\<close> states what either index promises about a list of
  events; both are interpreted, and the parity of the two counts follows.
\<close>

section \<open>Evidence that counts\<close>

definition STRUCTURAL_QUARANTINE_ERRORS :: "string list" where
  "STRUCTURAL_QUARANTINE_ERRORS =
     [''audit log contains multiple engine_ids'', ''audit log contains multiple account_refs'']"

text \<open>The predicate on the file an event belongs to.\<close>

definition structural_quarantine_exclusion :: "audit_file \<Rightarrow> bool" where
  "structural_quarantine_exclusion f \<longleftrightarrow>
     list_all (\<lambda>error. \<not> icontains (af_validation_error f) error) STRUCTURAL_QUARANTINE_ERRORS"

definition event_file_ok :: "audit_file list \<Rightarrow> audit_event \<Rightarrow> bool" where
  "event_file_ok files e \<longleftrightarrow>
     list_ex (\<lambda>f. af_id f = ev_audit_file e \<and> structural_quarantine_exclusion f) files"

definition counted_event :: "audit_file list \<Rightarrow> audit_event \<Rightarrow> bool" where
  "counted_event files e \<longleftrightarrow> ev_parse_status e = STATUS_VALID \<and> event_file_ok files e"

text \<open>NULL wall times sort last, as PostgreSQL orders them ascending.\<close>

definition db_order_key :: "audit_event \<Rightarrow> bool \<times> int \<times> string \<times> nat \<times> nat" where
  "db_order_key e = (ev_wall_time_ms e = None, (case ev_wall_time_ms e of None \<Rightarrow> 0 | Some t \<Rightarrow> t),
     ev_engine_id e, ev_line_number e, ev_id e)"

definition valid_events_for_group :: "audit_file list \<Rightarrow> audit_event list \<Rightarrow> nat \<Rightarrow> audit_event list" where
  "valid_events_for_group files events g =
     sort_key db_order_key (filter (\<lambda>e. counted_event files e \<and> ev_group e = Some g) events)"

section \<open>Message ids and windows\<close>

definition event_message_id_values ::
  "string \<Rightarrow> string \<Rightarrow> string \<Rightarrow> string list \<Rightarrow> string list \<Rightarrow> string list" where
  "event_message_id_values msg_id outbound_msg_id invalidated_msg_id welcome_ids action_ids =
     filter (\<lambda>v. v \<noteq> []) [msg_id, outbound_msg_id, invalidated_msg_id] @ welcome_ids @ action_ids"

definition event_message_ids :: "audit_event \<Rightarrow> string list" where
  "event_message_ids e = event_message_id_values (ev_msg_id e) (ev_outbound_msg_id e)
     (ev_invalidated_msg_id e) (ev_outbound_welcome_msg_ids e) (ev_human_action_message_ids e)"

type_synonym windows = "(string \<times> int \<times> int) list"

definition widen :: "string \<Rightarrow> int \<Rightarrow> windows \<Rightarrow> windows" where
  "widen engine t ws =
     (let (first, last) = dd_get (t, t) ws engine
      in AList.update engine (min first t, max last t) ws)"

definition engine_windows :: "audit_event list \<Rightarrow> windows" where
  "engine_windows events =
     fold (\<lambda>e ws. case ev_wall_time_ms e of
              None \<Rightarrow> ws
            | Some t \<Rightarrow> if ev_engine_id e = [] then ws else widen (ev_engine_id e) t ws) events []"

section \<open>The predicate\<close>

definition is_divergent_message :: "string set \<Rightarrow> string set \<Rightarrow> bool" where
  "is_divergent_message engines in_scope_engines \<longleftrightarrow>
     engines \<noteq> {} \<and> in_scope_engines - engines \<noteq> {}"

definition engines_present_but_missing ::
  "string set \<Rightarrow> int option \<Rightarrow> windows \<Rightarrow> string set \<Rightarrow> string set" where
  "engines_present_but_missing observers reference_ms ws all_engines =
     (case reference_ms of
        None \<Rightarrow> {}
      | Some t \<Rightarrow> Set.filter (\<lambda>engine. engine \<notin> observers \<and>
          (case map_of ws engine of None \<Rightarrow> False | Some (lo, hi) \<Rightarrow> lo \<le> t \<and> t \<le> hi)) all_engines)"

section \<open>The row aggregation\<close>

record divergence_acc =
  dc_engines :: "(nat \<times> string set) list"
  dc_windows :: "(nat \<times> windows) list"
  dc_message_engines :: "(nat \<times> (string \<times> string set) list) list"
  dc_references :: "(nat \<times> (string \<times> int) list) list"

definition note_reference :: "string \<Rightarrow> int \<Rightarrow> (string \<times> int) list \<Rightarrow> (string \<times> int) list" where
  "note_reference m t refs =
     (case map_of refs m of
        None \<Rightarrow> AList.update m t refs
      | Some current \<Rightarrow> if t < current then AList.update m t refs else refs)"

definition aggregate_message :: "nat \<Rightarrow> string \<Rightarrow> int option \<Rightarrow> string \<Rightarrow> divergence_acc \<Rightarrow> divergence_acc" where
  "aggregate_message g engine wall m acc =
     (let acc1 = acc\<lparr>dc_message_engines :=
            AList.update g (dd_add m engine (dd_get [] (dc_message_engines acc) g)) (dc_message_engines acc)\<rparr>
      in (case wall of
            None \<Rightarrow> acc1
          | Some t \<Rightarrow> acc1\<lparr>dc_references :=
              AList.update g (note_reference m t (dd_get [] (dc_references acc1) g)) (dc_references acc1)\<rparr>))"

definition aggregate_row :: "audit_event \<Rightarrow> divergence_acc \<Rightarrow> divergence_acc" where
  "aggregate_row e acc =
     (case ev_group e of
        None \<Rightarrow> acc
      | Some g \<Rightarrow>
          (if ev_engine_id e = [] then acc
           else (let acc1 = acc\<lparr>dc_engines := dd_add g (ev_engine_id e) (dc_engines acc)\<rparr>;
                     acc2 = (case ev_wall_time_ms e of
                               None \<Rightarrow> acc1
                             | Some t \<Rightarrow> acc1\<lparr>dc_windows :=
                                 AList.update g (widen (ev_engine_id e) t (dd_get [] (dc_windows acc1) g))
                                   (dc_windows acc1)\<rparr>)
                 in fold (aggregate_message g (ev_engine_id e) (ev_wall_time_ms e))
                      (event_message_ids e) acc2)))"

definition empty_acc :: divergence_acc where
  "empty_acc = \<lparr>dc_engines = [], dc_windows = [], dc_message_engines = [], dc_references = []\<rparr>"

definition count_group :: "divergence_acc \<Rightarrow> nat \<Rightarrow> nat" where
  "count_group acc g =
     (let all_engines = dd_get {} (dc_engines acc) g;
          ws = dd_get [] (dc_windows acc) g;
          references = dd_get [] (dc_references acc) g
      in length (filter (\<lambda>(m, observers).
            is_divergent_message observers
              (observers \<union> engines_present_but_missing observers (map_of references m) ws all_engines))
          (dd_get [] (dc_message_engines acc) g)))"

definition divergent_counts_for_group_ids ::
  "audit_file list \<Rightarrow> audit_event list \<Rightarrow> nat list \<Rightarrow> (nat \<times> nat) list" where
  "divergent_counts_for_group_ids files events group_ids =
     (let ids = rev (remdups (rev (filter (\<lambda>g. g \<noteq> 0) group_ids)));
          rows = filter (\<lambda>e. counted_event files e \<and> (\<exists>g \<in> set ids. ev_group e = Some g)) events;
          acc = fold aggregate_row rows empty_acc
      in map (\<lambda>g. (g, count_group acc g)) ids)"

section \<open>Message traces\<close>

record message_trace =
  mt_msg_id :: string
  mt_engines :: "string list"
  mt_missing_engines :: "string list"
  mt_missed_by :: "string list"
  mt_absent_engines :: "string list"
  mt_reference_ms :: "int option"
  mt_is_divergent :: bool
  mt_event_types :: "string list"
  mt_states :: "string list"
  mt_first_wall_time_ms :: "int option"
  mt_last_wall_time_ms :: "int option"
  mt_event_count :: nat

definition group_by_message :: "audit_event list \<Rightarrow> (string \<times> audit_event list) list" where
  "group_by_message events =
     fold (\<lambda>e d. fold (\<lambda>m d. dd_append m e d) (event_message_ids e) d) events []"

definition observers_of :: "audit_event list \<Rightarrow> string set" where
  "observers_of msg_events = set (filter (\<lambda>s. s \<noteq> []) (map ev_engine_id msg_events))"

definition state_values :: "audit_event \<Rightarrow> string list" where
  "state_values e = filter (\<lambda>s. s \<noteq> []) [ev_new_state e, ev_outcome e, ev_outcome_kind e, ev_reason e]"

definition set_sorted :: "string set \<Rightarrow> string list" where
  "set_sorted S = sorted_list_of_set S"

definition trace_of :: "windows \<Rightarrow> string set \<Rightarrow> string \<times> audit_event list \<Rightarrow> message_trace" where
  "trace_of ws all_engines item =
     (let (m, msg_events) = item;
          observers = observers_of msg_events;
          wall_times = the_list (map ev_wall_time_ms msg_events);
          reference_ms = opt_min wall_times;
          missed_by = engines_present_but_missing observers reference_ms ws all_engines
      in \<lparr> mt_msg_id = m,
           mt_engines = set_sorted observers,
           mt_missing_engines = set_sorted (all_engines - observers),
           mt_missed_by = set_sorted missed_by,
           mt_absent_engines = set_sorted (all_engines - observers - missed_by),
           mt_reference_ms = reference_ms,
           mt_is_divergent = is_divergent_message observers (observers \<union> missed_by),
           mt_event_types = sorted_set (filter (\<lambda>s. s \<noteq> []) (map ev_event_type msg_events)),
           mt_states = sorted_set (concat (map state_values msg_events)),
           mt_first_wall_time_ms = reference_ms,
           mt_last_wall_time_ms = opt_max wall_times,
           mt_event_count = length msg_events \<rparr>)"

definition message_traces_from_events :: "audit_event list \<Rightarrow> string set \<Rightarrow> message_trace list" where
  "message_traces_from_events events all_engines =
     map (trace_of (engine_windows events) all_engines) (sort_key fst (group_by_message events))"

definition message_traces_for_group :: "audit_event list \<Rightarrow> message_trace list" where
  "message_traces_for_group events =
     message_traces_from_events events (set (filter (\<lambda>s. s \<noteq> []) (map ev_engine_id events)))"

definition trace_is_divergent :: "message_trace \<Rightarrow> bool" where
  "trace_is_divergent trace = mt_is_divergent trace"

definition missing_observations_for_group :: "message_trace list \<Rightarrow> message_trace list" where
  "missing_observations_for_group traces = filter trace_is_divergent traces"

record integrity_summary =
  is_divergent_message_count :: nat
  is_divergent_msg_ids :: "string list"
  is_fork_resolution_count :: nat
  is_rollback_count :: nat
  is_has_fork_activity :: bool

definition group_integrity_summary :: "audit_event list \<Rightarrow> message_trace list \<Rightarrow> integrity_summary" where
  "group_integrity_summary events traces =
     (let missing = missing_observations_for_group traces;
          fork_count = length (filter (\<lambda>e. ev_event_type e = ''fork_resolution'') events);
          rollback_count = length (filter (\<lambda>e. ev_event_type e = ''epoch_rolled_back'') events)
      in \<lparr> is_divergent_message_count = length missing,
           is_divergent_msg_ids = map mt_msg_id missing,
           is_fork_resolution_count = fork_count,
           is_rollback_count = rollback_count,
           is_has_fork_activity = (fork_count \<noteq> 0 \<or> rollback_count \<noteq> 0) \<rparr>)"

text \<open>A group of two engines in which the second, active throughout, never saw message \<open>ab\<close>.\<close>

definition example_file :: audit_file where
  "example_file = \<lparr> af_id = 1, af_upload_token = None, af_uploaded_by = None, af_source_name = [],
     af_source_hardware_model = [], af_source_device_id = [], af_source_platform = [],
     af_source_app_version = [], af_source_upload_trigger = [], af_source_local_member_ref = [],
     af_content_type = [], af_file_sha256 = [], af_byte_size = 0, af_raw_text = [],
     af_validation_status = STATUS_VALID, af_validation_error = [], af_total_line_count = 0,
     af_valid_event_count = 0, af_invalid_event_count = 0, af_duplicate_event_count = 0,
     af_first_line_number = None, af_last_line_number = None, af_first_seq = None, af_last_seq = None,
     af_first_wall_time_ms = None, af_last_wall_time_ms = None, af_account_refs = [],
     af_engine_ids = [], af_group_refs = [], af_schema_versions = [], af_audit_data_modes = [],
     af_created_at = 0, af_groups = [1] \<rparr>"

definition example_row :: "nat \<Rightarrow> string \<Rightarrow> int \<Rightarrow> string \<Rightarrow> audit_event" where
  "example_row n engine t m = blank_event\<lparr> ev_id := n, ev_group := Some 1, ev_audit_file := 1,
     ev_line_number := n, ev_engine_id := engine, ev_wall_time_ms := Some t, ev_msg_id := m \<rparr>"

definition example_events :: "audit_event list" where
  "example_events = [example_row 1 ''aa'' 5 ''ab'', example_row 2 ''bb'' 1 [], example_row 3 ''bb'' 9 []]"

lemma example_row_engine [simp]: "ev_engine_id (example_row n engine t m) = engine"
  by (simp add: example_row_def)

section \<open>What divergence means\<close>

text \<open>
  The specification, over the events themselves: who holds an event for the message, when it was
  first seen, and who has evidence on both sides of that moment.
\<close>

definition carries :: "string \<Rightarrow> audit_event \<Rightarrow> bool" where
  "carries m e \<longleftrightarrow> m \<in> set (event_message_ids e)"

definition tagged :: "audit_event \<Rightarrow> bool" where
  "tagged e \<longleftrightarrow> ev_engine_id e \<noteq> []"

definition engines_in :: "audit_event list \<Rightarrow> string set" where
  "engines_in es = ev_engine_id ` set (filter tagged es)"

definition observers_in :: "audit_event list \<Rightarrow> string \<Rightarrow> string set" where
  "observers_in es m = engines_in (filter (carries m) es)"

definition times_in :: "audit_event list \<Rightarrow> int list" where
  "times_in es = the_list (map ev_wall_time_ms es)"

definition first_observed :: "audit_event list \<Rightarrow> string \<Rightarrow> int \<Rightarrow> bool" where
  "first_observed es m t \<longleftrightarrow>
     t \<in> set (times_in (filter (carries m) es)) \<and> (\<forall>u \<in> set (times_in (filter (carries m) es)). t \<le> u)"

definition active_at :: "audit_event list \<Rightarrow> string \<Rightarrow> int \<Rightarrow> bool" where
  "active_at es engine t \<longleftrightarrow>
     (\<exists>lo \<in> set (times_in (filter (\<lambda>e. ev_engine_id e = engine) es)).
      \<exists>hi \<in> set (times_in (filter (\<lambda>e. ev_engine_id e = engine) es)). lo \<le> t \<and> t \<le> hi)"

definition message_diverges :: "audit_event list \<Rightarrow> string \<Rightarrow> bool" where
  "message_diverges es m \<longleftrightarrow> observers_in es m \<noteq> {} \<and>
     (\<exists>t engine. first_observed es m t \<and> engine \<in> engines_in es - observers_in es m \<and> active_at es engine t)"

text \<open>
  An index of a list of events: the messages it lists, and for each its observers and reference
  time, with a window per engine. \<open>kept\<close> is the part of the events the index looks at.
\<close>

locale observation_index =
  fixes kept :: "audit_event list \<Rightarrow> audit_event list"
    and messages :: "audit_event list \<Rightarrow> string list"
    and observers :: "audit_event list \<Rightarrow> string \<Rightarrow> string set"
    and reference :: "audit_event list \<Rightarrow> string \<Rightarrow> int option"
    and index_windows :: "audit_event list \<Rightarrow> windows"
    and engines :: "audit_event list \<Rightarrow> string set"
  assumes distinct_messages: "distinct (messages es)"
    and messages_complete: "set (messages es) = {m. \<exists>e \<in> set (kept es). carries m e}"
    and observers_law: "observers es m = observers_in (kept es) m"
    and reference_law: "reference es m = opt_min (times_in (filter (carries m) (kept es)))"
    and windows_law: "engine \<noteq> [] \<Longrightarrow> map_of (index_windows es) engine =
          (let ts = times_in (filter (\<lambda>e. ev_engine_id e = engine) (kept es))
           in if ts = [] then None else Some (Min (set ts), Max (set ts)))"
    and engines_law: "engines es = engines_in (kept es)"
begin

definition missed :: "audit_event list \<Rightarrow> string \<Rightarrow> string set" where
  "missed es m = engines_present_but_missing (observers es m) (reference es m) (index_windows es) (engines es)"

definition diverges :: "audit_event list \<Rightarrow> string \<Rightarrow> bool" where
  "diverges es m \<longleftrightarrow> is_divergent_message (observers es m) (observers es m \<union> missed es m)"

lemma in_window:
  assumes "engine \<noteq> []"
  shows "(case map_of (index_windows es) engine of None \<Rightarrow> False | Some (lo, hi) \<Rightarrow> lo \<le> t \<and> t \<le> hi)
     \<longleftrightarrow> active_at (kept es) engine t"
proof -
  define ts where "ts = times_in (filter (\<lambda>e. ev_engine_id e = engine) (kept es))"
  have "(ts \<noteq> [] \<and> Min (set ts) \<le> t \<and> t \<le> Max (set ts)) \<longleftrightarrow> (\<exists>lo \<in> set ts. \<exists>hi \<in> set ts. lo \<le> t \<and> t \<le> hi)"
    by (cases "ts = []") (auto simp: Min_le_iff Max_ge_iff)
  then show ?thesis
    using windows_law [OF assms, of es] by (auto simp: active_at_def ts_def Let_def)
qed

lemma missed_iff:
  "engine \<in> missed es m \<longleftrightarrow> engine \<in> engines_in (kept es) - observers_in (kept es) m \<and>
     (\<exists>t. first_observed (kept es) m t \<and> active_at (kept es) engine t)"
proof (cases "reference es m")
  case None
  then have "times_in (filter (carries m) (kept es)) = []"
    using reference_law [of es m] by (simp add: opt_min_eq split: if_splits)
  with None show ?thesis
    by (simp add: missed_def engines_present_but_missing_def first_observed_def)
next
  case (Some t)
  then have first: "first_observed (kept es) m u \<longleftrightarrow> u = t" for u
    using reference_law [of es m] by (auto simp: first_observed_def opt_min_Some_iff dest!: sym [of "Some t"] intro: antisym)
  have "engine \<in> engines_in (kept es) \<Longrightarrow> engine \<noteq> []"
    by (auto simp: engines_in_def tagged_def)
  then show ?thesis
    using Some by (auto simp: missed_def engines_present_but_missing_def first observers_law engines_law in_window)
qed

lemma diverges_iff: "diverges es m \<longleftrightarrow> message_diverges (kept es) m"
proof -
  have "observers es m \<union> missed es m - observers es m = missed es m"
    using missed_iff [of _ es m] by (auto simp: observers_law)
  moreover have "missed es m \<noteq> {} \<longleftrightarrow> (\<exists>engine. engine \<in> missed es m)" by blast
  ultimately show ?thesis
    by (auto simp: diverges_def is_divergent_message_def message_diverges_def observers_law missed_iff)
qed

lemma divergent_messages: "set (filter (diverges es) (messages es)) = {m. message_diverges (kept es) m}"
proof -
  have "m \<in> set (messages es)" if "message_diverges (kept es) m" for m
    using that by (auto simp: messages_complete message_diverges_def observers_in_def engines_in_def)
  then show ?thesis by (auto simp: diverges_iff)
qed

lemma divergent_count: "length (filter (diverges es) (messages es)) = card {m. message_diverges (kept es) m}"
  by (metis distinct_card distinct_filter distinct_messages divergent_messages)

end

section \<open>Both indexes meet the specification\<close>

lemma times_in_simps [simp, span_simps]:
  "times_in [] = []" "times_in (es @ fs) = times_in es @ times_in fs"
  "times_in [e] = the_list [ev_wall_time_ms e]"
  by (simp_all add: times_in_def)

lemma map_of_widen:
  "map_of (widen engine t ws) k =
     (if k = engine then (case map_of ws engine of None \<Rightarrow> Some (t, t) | Some (a, b) \<Rightarrow> Some (min a t, max b t))
      else map_of ws k)"
  by (auto simp: widen_def dd_get_def update_conv' split: option.splits prod.splits)

lemma engine_windows_snoc:
  "engine_windows (es @ [e]) = (case ev_wall_time_ms e of
       None \<Rightarrow> engine_windows es
     | Some t \<Rightarrow> if ev_engine_id e = [] then engine_windows es else widen (ev_engine_id e) t (engine_windows es))"
  by (simp add: engine_windows_def split: option.splits)

lemma map_of_engine_windows:
  assumes "engine \<noteq> []"
  shows "map_of (engine_windows es) engine =
     (let ts = times_in (filter (\<lambda>e. ev_engine_id e = engine) es)
      in if ts = [] then None else Some (Min (set ts), Max (set ts)))"
proof (induction es rule: rev_induct)
  case Nil
  then show ?case by (simp add: engine_windows_def)
next
  case (snoc e es)
  show ?case
  proof (cases "ev_wall_time_ms e")
    case None
    then show ?thesis using snoc.IH by (simp add: engine_windows_snoc)
  next
    case (Some t)
    then show ?thesis using snoc.IH assms
      by (auto simp: engine_windows_snoc map_of_widen Let_def min.commute max.commute)
  qed
qed

subsection \<open>Traces\<close>

lemma group_by_inner:
  "dd_get [] (fold (\<lambda>m. dd_append m e) ms d) k = dd_get [] d k @ replicate (count_list ms k) e"
  "fst ` set (fold (\<lambda>m. dd_append m e) ms d) = fst ` set d \<union> set ms"
  "distinct (map fst d) \<Longrightarrow> distinct (map fst (fold (\<lambda>m. dd_append m e) ms d))"
  by (induction ms arbitrary: d) (auto simp: distinct_dd replicate_app_Cons_same)

lemma group_by_message_snoc:
  "group_by_message (es @ [e]) = fold (\<lambda>m. dd_append m e) (event_message_ids e) (group_by_message es)"
  by (simp add: group_by_message_def)

lemma group_by_message_props:
  "distinct (map fst (group_by_message es))"
  "fst ` set (group_by_message es) = {m. \<exists>e \<in> set es. carries m e}"
  "set (dd_get [] (group_by_message es) m) = set (filter (carries m) es)"
proof (induction es rule: rev_induct)
  case Nil
  { case 1 show ?case by (simp add: group_by_message_def) }
  { case 2 show ?case by (simp add: group_by_message_def) }
  { case 3 show ?case by (simp add: group_by_message_def dd_get_def) }
next
  case (snoc e es)
  { case 1 show ?case using snoc(1) by (simp add: group_by_message_snoc group_by_inner) }
  { case 2 show ?case using snoc(2) by (auto simp: group_by_message_snoc group_by_inner carries_def) }
  { case 3 show ?case using snoc(3)
      by (auto simp: group_by_message_snoc group_by_inner carries_def count_list_0_iff) }
qed

lemma group_by_message_item:
  assumes "(m, es') \<in> set (group_by_message es)"
  shows "set es' = set (filter (carries m) es)"
proof -
  have "map_of (group_by_message es) m = Some es'"
    using assms group_by_message_props(1) by simp
  then show ?thesis using group_by_message_props(3) [of es m] by (simp add: dd_get_def)
qed

definition trace_messages :: "audit_event list \<Rightarrow> string list" where
  "trace_messages es = map fst (sort_key fst (group_by_message es))"

definition trace_observers :: "audit_event list \<Rightarrow> string \<Rightarrow> string set" where
  "trace_observers es m = observers_of (dd_get [] (group_by_message es) m)"

definition trace_reference :: "audit_event list \<Rightarrow> string \<Rightarrow> int option" where
  "trace_reference es m = opt_min (the_list (map ev_wall_time_ms (dd_get [] (group_by_message es) m)))"

definition trace_engines :: "audit_event list \<Rightarrow> string set" where
  "trace_engines es = set (filter (\<lambda>s. s \<noteq> []) (map ev_engine_id es))"

lemma observers_of_cong: "set es = set fs \<Longrightarrow> observers_of es = observers_of fs"
  by (simp add: observers_of_def)

lemma observers_of_engines_in: "observers_of es = engines_in es"
  by (auto simp: observers_of_def engines_in_def tagged_def)

lemma trace_engines_eq: "trace_engines es = engines_in es"
  by (auto simp: trace_engines_def engines_in_def tagged_def)

lemma opt_min_times_cong: "set es = set fs \<Longrightarrow> opt_min (times_in es) = opt_min (times_in fs)"
  by (rule opt_min_cong) (auto simp: times_in_def)

interpretation traces: observation_index "\<lambda>es. es" trace_messages trace_observers trace_reference
  engine_windows trace_engines
proof unfold_locales
  fix es m engine
  show "distinct (trace_messages es)"
    using group_by_message_props(1) [of es]
    by (simp add: trace_messages_def distinct_map)
  show "set (trace_messages es) = {m. \<exists>e \<in> set es. carries m e}"
    using group_by_message_props(2) [of es] by (simp add: trace_messages_def)
  show "trace_observers es m = observers_in es m"
    using group_by_message_props(3) [of es m]
    by (simp add: trace_observers_def observers_in_def observers_of_engines_in engines_in_def)
  show "trace_reference es m = opt_min (times_in (filter (carries m) es))"
    using opt_min_times_cong [OF group_by_message_props(3)] by (simp add: trace_reference_def times_in_def)
  show "engine \<noteq> [] \<Longrightarrow> map_of (engine_windows es) engine =
          (let ts = times_in (filter (\<lambda>e. ev_engine_id e = engine) es)
           in if ts = [] then None else Some (Min (set ts), Max (set ts)))"
    by (rule map_of_engine_windows)
  show "trace_engines es = engines_in es" by (rule trace_engines_eq)
qed

subsection \<open>Row aggregation\<close>

text \<open>What one group's slice of the accumulator holds after the rows were folded in.\<close>

definition row_engines :: "audit_event list \<Rightarrow> (string \<times> string set) list" where
  "row_engines es = fold (\<lambda>e d. fold (\<lambda>m. dd_add m (ev_engine_id e)) (event_message_ids e) d) es []"

definition row_references :: "audit_event list \<Rightarrow> (string \<times> int) list" where
  "row_references es = fold (\<lambda>e d. case ev_wall_time_ms e of None \<Rightarrow> d
     | Some t \<Rightarrow> fold (\<lambda>m. note_reference m t) (event_message_ids e) d) es []"

definition group_rows :: "nat \<Rightarrow> audit_event list \<Rightarrow> audit_event list" where
  "group_rows g = filter (\<lambda>e. ev_group e = Some g \<and> tagged e)"

lemma aggregate_messages:
  "dc_engines (fold (aggregate_message g engine wall) ms acc) = dc_engines acc"
  "dc_windows (fold (aggregate_message g engine wall) ms acc) = dc_windows acc"
  "dd_get [] (dc_message_engines (fold (aggregate_message g engine wall) ms acc)) k =
     (if k = g then fold (\<lambda>m. dd_add m engine) ms (dd_get [] (dc_message_engines acc) g)
      else dd_get [] (dc_message_engines acc) k)"
  "dd_get [] (dc_references (fold (aggregate_message g engine wall) ms acc)) k =
     (if k = g then (case wall of None \<Rightarrow> dd_get [] (dc_references acc) g
        | Some t \<Rightarrow> fold (\<lambda>m. note_reference m t) ms (dd_get [] (dc_references acc) g))
      else dd_get [] (dc_references acc) k)"
  by (induction ms arbitrary: acc) (simp_all add: aggregate_message_def Let_def split: option.splits)

lemma aggregate_row_skip: "ev_group e = None \<or> \<not> tagged e \<Longrightarrow> aggregate_row e acc = acc"
  by (auto simp: aggregate_row_def tagged_def split: option.splits)

lemma aggregate_row_take:
  assumes "ev_group e = Some g" "tagged e"
  shows "dd_get {} (dc_engines (aggregate_row e acc)) k =
      (if k = g then insert (ev_engine_id e) (dd_get {} (dc_engines acc) g) else dd_get {} (dc_engines acc) k)"
    and "dd_get [] (dc_windows (aggregate_row e acc)) k =
      (case ev_wall_time_ms e of None \<Rightarrow> dd_get [] (dc_windows acc) k
       | Some t \<Rightarrow> if k = g then widen (ev_engine_id e) t (dd_get [] (dc_windows acc) g)
                    else dd_get [] (dc_windows acc) k)"
    and "dd_get [] (dc_message_engines (aggregate_row e acc)) k =
      (if k = g then fold (\<lambda>m. dd_add m (ev_engine_id e)) (event_message_ids e) (dd_get [] (dc_message_engines acc) g)
       else dd_get [] (dc_message_engines acc) k)"
    and "dd_get [] (dc_references (aggregate_row e acc)) k =
      (if k = g then (case ev_wall_time_ms e of None \<Rightarrow> dd_get [] (dc_references acc) g
         | Some t \<Rightarrow> fold (\<lambda>m. note_reference m t) (event_message_ids e) (dd_get [] (dc_references acc) g))
       else dd_get [] (dc_references acc) k)"
  using assms by (auto simp: aggregate_row_def tagged_def aggregate_messages Let_def split: option.splits)

lemma aggregate_rows:
  "dd_get {} (dc_engines (fold aggregate_row es empty_acc)) g = ev_engine_id ` set (group_rows g es)"
  "dd_get [] (dc_windows (fold aggregate_row es empty_acc)) g = engine_windows (group_rows g es)"
  "dd_get [] (dc_message_engines (fold aggregate_row es empty_acc)) g = row_engines (group_rows g es)"
  "dd_get [] (dc_references (fold aggregate_row es empty_acc)) g = row_references (group_rows g es)"
proof (induction es rule: rev_induct)
  case Nil
  { case 1 show ?case by (simp add: empty_acc_def group_rows_def dd_get_def) }
  { case 2 show ?case by (simp add: empty_acc_def group_rows_def dd_get_def engine_windows_def) }
  { case 3 show ?case by (simp add: empty_acc_def group_rows_def dd_get_def row_engines_def) }
  { case 4 show ?case by (simp add: empty_acc_def group_rows_def dd_get_def row_references_def) }
next
  case (snoc e es)
  consider (skip) "ev_group e = None \<or> \<not> tagged e" | (take) h where "ev_group e = Some h" "tagged e"
    by (cases "ev_group e"; cases "tagged e") simp_all
  note row_cases = this
  { case 1 show ?case using row_cases snoc(1)
      by cases (auto simp: aggregate_row_skip aggregate_row_take group_rows_def)+ }
  { case 2 show ?case using row_cases snoc(2)
      by cases (auto simp: aggregate_row_skip aggregate_row_take group_rows_def engine_windows_snoc tagged_def
          split: option.splits)+ }
  { case 3 show ?case using row_cases snoc(3)
      by cases (auto simp: aggregate_row_skip aggregate_row_take group_rows_def row_engines_def)+ }
  { case 4 show ?case using row_cases snoc(4)
      by cases (auto simp: aggregate_row_skip aggregate_row_take group_rows_def row_references_def
          split: option.splits)+ }
qed

lemma row_engines_inner:
  "dd_get {} (fold (\<lambda>m. dd_add m engine) ms d) k = (if k \<in> set ms then insert engine (dd_get {} d k) else dd_get {} d k)"
  "fst ` set (fold (\<lambda>m. dd_add m engine) ms d) = fst ` set d \<union> set ms"
  "distinct (map fst d) \<Longrightarrow> distinct (map fst (fold (\<lambda>m. dd_add m engine) ms d))"
  by (induction ms arbitrary: d) (auto simp: distinct_dd)

lemma row_engines_snoc:
  "row_engines (es @ [e]) = fold (\<lambda>m. dd_add m (ev_engine_id e)) (event_message_ids e) (row_engines es)"
  by (simp add: row_engines_def)

lemma row_engines_props:
  "distinct (map fst (row_engines es))"
  "fst ` set (row_engines es) = {m. \<exists>e \<in> set es. carries m e}"
  "dd_get {} (row_engines es) m = ev_engine_id ` set (filter (carries m) es)"
proof (induction es rule: rev_induct)
  case Nil
  { case 1 show ?case by (simp add: row_engines_def) }
  { case 2 show ?case by (simp add: row_engines_def) }
  { case 3 show ?case by (simp add: row_engines_def dd_get_def) }
next
  case (snoc e es)
  { case 1 show ?case using snoc(1) by (simp add: row_engines_snoc row_engines_inner) }
  { case 2 show ?case using snoc(2) by (auto simp: row_engines_snoc row_engines_inner carries_def) }
  { case 3 show ?case using snoc(3) by (auto simp: row_engines_snoc row_engines_inner carries_def) }
qed

lemma map_of_note_reference:
  "map_of (note_reference m t d) k = (if k = m then upd_first (map_of d m) (Some t) else map_of d k)"
  by (auto simp: note_reference_def upd_first_def update_conv' split: option.splits)

lemma upd_first_idem: "upd_first (upd_first c t) t = upd_first c t"
  by (auto simp: upd_first_def split: option.splits)

lemma row_references_inner:
  "map_of (fold (\<lambda>m. note_reference m t) ms d) k =
     (if k \<in> set ms then upd_first (map_of d k) (Some t) else map_of d k)"
  by (induction ms arbitrary: d) (auto simp: map_of_note_reference upd_first_idem)

lemma map_of_row_references: "map_of (row_references es) m = opt_min (times_in (filter (carries m) es))"
proof (induction es rule: rev_induct)
  case Nil
  then show ?case by (simp add: row_references_def)
next
  case (snoc e es)
  have "row_references (es @ [e]) = (case ev_wall_time_ms e of None \<Rightarrow> row_references es
     | Some t \<Rightarrow> fold (\<lambda>m. note_reference m t) (event_message_ids e) (row_references es))"
    by (simp add: row_references_def split: option.splits)
  then show ?case using snoc.IH
    by (auto simp: row_references_inner carries_def opt_min_snoc split: option.splits)
qed

text \<open>The index of one group's rows; an event with no engine id is not looked at.\<close>

definition row_messages :: "audit_event list \<Rightarrow> string list" where
  "row_messages es = map fst (row_engines (filter tagged es))"

definition row_observers :: "audit_event list \<Rightarrow> string \<Rightarrow> string set" where
  "row_observers es m = dd_get {} (row_engines (filter tagged es)) m"

definition row_reference :: "audit_event list \<Rightarrow> string \<Rightarrow> int option" where
  "row_reference es m = map_of (row_references (filter tagged es)) m"

definition row_windows :: "audit_event list \<Rightarrow> windows" where
  "row_windows es = engine_windows (filter tagged es)"

lemma tagged_engines: "list_all tagged es \<Longrightarrow> engines_in es = ev_engine_id ` set es"
  by (auto simp: engines_in_def list_all_iff)

lemma filter_tagged_all: "list_all tagged (filter P (filter tagged es))"
  by (auto simp: list_all_iff)

interpretation rows: observation_index "filter tagged" row_messages row_observers row_reference
  row_windows engines_in
proof unfold_locales
  fix es m engine
  show "distinct (row_messages es)"
    by (simp add: row_messages_def row_engines_props)
  show "set (row_messages es) = {m. \<exists>e \<in> set (filter tagged es). carries m e}"
    using row_engines_props(2) [of "filter tagged es"] by (simp add: row_messages_def)
  show "row_observers es m = observers_in (filter tagged es) m"
    unfolding row_observers_def observers_in_def row_engines_props(3) tagged_engines [OF filter_tagged_all] ..
  show "row_reference es m = opt_min (times_in (filter (carries m) (filter tagged es)))"
    unfolding row_reference_def map_of_row_references ..
  show "engine \<noteq> [] \<Longrightarrow> map_of (row_windows es) engine =
          (let ts = times_in (filter (\<lambda>e. ev_engine_id e = engine) (filter tagged es))
           in if ts = [] then None else Some (Min (set ts), Max (set ts)))"
    unfolding row_windows_def by (rule map_of_engine_windows)
  show "engines_in es = engines_in (filter tagged es)" by (simp add: engines_in_def)
qed

section \<open>Counts, traces and their parity\<close>

lemma message_diverges_cong:
  assumes "set es = set fs"
  shows "message_diverges es m = message_diverges fs m"
proof -
  have "set (times_in (filter P es)) = set (times_in (filter P fs))" for P
    using assms by (auto simp: times_in_def)
  moreover have "engines_in (filter P es) = engines_in (filter P fs)" for P
    using assms by (auto simp: engines_in_def)
  moreover have "engines_in es = engines_in fs" using assms by (auto simp: engines_in_def)
  ultimately show ?thesis
    by (simp add: message_diverges_def observers_in_def first_observed_def active_at_def)
qed

lemma filter_items:
  assumes "distinct (map fst d)"
  shows "length (filter (\<lambda>(k, v). P k v) d) = length (filter (\<lambda>k. P k (dd_get z d k)) (map fst d))"
proof -
  have "filter (\<lambda>(k, v). P k v) d = filter (\<lambda>kv. P (fst kv) (dd_get z d (fst kv))) d"
    using assms by (intro filter_cong) (auto simp: dd_get_def)
  then show ?thesis by (simp add: filter_map o_def)
qed

lemma count_group_rows:
  "count_group (fold aggregate_row es empty_acc) g =
     card {m. message_diverges (filter tagged (filter (\<lambda>e. ev_group e = Some g) es)) m}"
proof -
  define gs where "gs = filter (\<lambda>e. ev_group e = Some g) es"
  have rows: "group_rows g es = filter tagged gs" by (simp add: group_rows_def gs_def conj_commute)
  have "count_group (fold aggregate_row es empty_acc) g = length (filter (rows.diverges gs) (row_messages gs))"
    unfolding count_group_def Let_def aggregate_rows rows
    by (subst filter_items [OF row_engines_props(1), where z = "{}"])
      (simp add: rows.diverges_def rows.missed_def row_messages_def row_observers_def row_reference_def
        row_windows_def engines_in_def o_def)
  then show ?thesis by (simp add: rows.divergent_count gs_def)
qed

lemma set_valid_events: "set (valid_events_for_group files events g) =
    set (filter (\<lambda>e. counted_event files e \<and> ev_group e = Some g) events)"
  by (simp add: valid_events_for_group_def)

lemma divergent_counts_card:
  assumes "g \<in> set group_ids" "g \<noteq> 0"
  shows "map_of (divergent_counts_for_group_ids files events group_ids) g =
    Some (card {m. message_diverges (filter tagged (valid_events_for_group files events g)) m})"
proof -
  define ids where "ids = rev (remdups (rev (filter (\<lambda>g. g \<noteq> 0) group_ids)))"
  define rs where "rs = filter (\<lambda>e. counted_event files e \<and> (\<exists>g \<in> set ids. ev_group e = Some g)) events"
  have g: "g \<in> set ids" using assms by (simp add: ids_def)
  have "set (filter tagged (filter (\<lambda>e. ev_group e = Some g) rs)) =
      set (filter tagged (valid_events_for_group files events g))"
    using g by (auto simp: rs_def set_valid_events)
  then have "message_diverges (filter tagged (filter (\<lambda>e. ev_group e = Some g) rs)) =
      message_diverges (filter tagged (valid_events_for_group files events g))"
    by (intro ext message_diverges_cong)
  then have "count_group (fold aggregate_row rs empty_acc) g =
      card {m. message_diverges (filter tagged (valid_events_for_group files events g)) m}"
    by (simp only: count_group_rows)
  moreover have "divergent_counts_for_group_ids files events group_ids =
      map (\<lambda>g. (g, count_group (fold aggregate_row rs empty_acc) g)) ids"
    by (simp only: divergent_counts_for_group_ids_def Let_def ids_def rs_def)
  ultimately show ?thesis using g by (simp add: map_of_map_restrict restrict_map_def)
qed

text \<open>
  C4: the persisted count of a group is the number of messages that diverge by the specification:
  some engine holds an event for the message, and another engine of the group holds none although it
  has evidence at or before and at or after the moment the message was first seen. The events that
  count are the group's valid events from files without a structural error; those with no engine id
  are left out.
\<close>

theorem divergent_counts_exact:
  assumes "g \<in> set group_ids" "g \<noteq> 0"
  shows "map_of (divergent_counts_for_group_ids files events group_ids) g =
    Some (card {m. message_diverges (filter tagged (valid_events_for_group files events g)) m})"
  using assms by (rule divergent_counts_card)

theorem divergent_counts_exact_witness:
  "map_of (divergent_counts_for_group_ids [example_file] example_events [1]) (1::nat) = Some 1 \<and>
   card {m. message_diverges (filter tagged (valid_events_for_group [example_file] example_events 1)) m} = 1"
proof
  show counted: "map_of (divergent_counts_for_group_ids [example_file] example_events [1]) (1::nat) = Some 1"
    by code_simp
  show "card {m. message_diverges (filter tagged (valid_events_for_group [example_file] example_events 1)) m} = 1"
    using divergent_counts_exact [of 1 "[1]" "[example_file]" example_events] counted by simp
qed

lemma message_traces_for_group_eq:
  "message_traces_for_group es =
     map (trace_of (engine_windows es) (trace_engines es)) (sort_key fst (group_by_message es))"
  by (simp add: message_traces_for_group_def message_traces_from_events_def trace_engines_def)

lemma trace_msg_ids: "map mt_msg_id (message_traces_for_group es) = trace_messages es"
  by (simp add: message_traces_for_group_eq trace_messages_def trace_of_def Let_def case_prod_beta o_def)

lemma trace_of_parts:
  assumes "item \<in> set (group_by_message es)"
  shows "mt_is_divergent (trace_of (engine_windows es) (trace_engines es) item) = traces.diverges es (fst item)"
    and "set (mt_engines (trace_of (engine_windows es) (trace_engines es) item)) = observers_in es (fst item)"
    and "set (mt_missed_by (trace_of (engine_windows es) (trace_engines es) item)) = traces.missed es (fst item)"
proof -
  obtain m ms where item: "item = (m, ms)" by (cases item)
  have "dd_get [] (group_by_message es) m = ms"
    using assms group_by_message_props(1) [of es] by (simp add: item dd_get_def)
  then have o1: "trace_observers es m = observers_of ms" and r: "trace_reference es m = opt_min (the_list (map ev_wall_time_ms ms))"
    by (simp_all add: trace_observers_def trace_reference_def)
  have fin: "finite (observers_of ms)" "finite (trace_engines es)"
    by (simp_all add: observers_of_def trace_engines_def)
  have fin2: "finite (engines_present_but_missing S w ws (trace_engines es))" for S w ws
    using fin(2) by (simp add: engines_present_but_missing_def split: option.splits)
  show "mt_is_divergent (trace_of (engine_windows es) (trace_engines es) item) = traces.diverges es (fst item)"
    by (simp add: item trace_of_def Let_def traces.diverges_def traces.missed_def o1 r)
  show "set (mt_engines (trace_of (engine_windows es) (trace_engines es) item)) = observers_in es (fst item)"
    using fin traces.observers_law [of es m] by (simp add: item trace_of_def Let_def set_sorted_def o1)
  show "set (mt_missed_by (trace_of (engine_windows es) (trace_engines es) item)) = traces.missed es (fst item)"
    using fin2 by (simp add: item trace_of_def Let_def set_sorted_def traces.missed_def o1 r)
qed

lemma divergent_traces:
  "map mt_msg_id (missing_observations_for_group (message_traces_for_group es)) =
     filter (traces.diverges es) (trace_messages es)"
proof -
  have "filter trace_is_divergent (message_traces_for_group es) =
      map (trace_of (engine_windows es) (trace_engines es))
        (filter (\<lambda>item. traces.diverges es (fst item)) (sort_key fst (group_by_message es)))"
    unfolding message_traces_for_group_eq filter_map o_def trace_is_divergent_def
    by (intro arg_cong [where f = "map _"] filter_cong) (simp_all add: trace_of_parts)
  then show ?thesis
    by (simp add: missing_observations_for_group_def trace_messages_def filter_map o_def trace_of_def Let_def
        case_prod_beta)
qed

text \<open>
  C9: the landing-page count and the detail-page count agree. When every counted event of the group
  names its engine, the row aggregation stores exactly the number the trace-based integrity summary
  reports for the same group.
\<close>

theorem landing_detail_parity:
  assumes "g \<in> set group_ids" "g \<noteq> 0"
    and "list_all (\<lambda>e. ev_engine_id e \<noteq> []) (valid_events_for_group files events g)"
  shows "map_of (divergent_counts_for_group_ids files events group_ids) g =
    Some (is_divergent_message_count (group_integrity_summary (valid_events_for_group files events g)
      (message_traces_for_group (valid_events_for_group files events g))))"
proof -
  define vs where "vs = valid_events_for_group files events g"
  have "filter tagged vs = vs"
    using assms(3) unfolding vs_def list_all_iff by (intro filter_True) (simp add: tagged_def)
  moreover have "length (missing_observations_for_group (message_traces_for_group vs)) =
      card {m. message_diverges vs m}"
    by (metis divergent_traces length_map traces.divergent_count)
  ultimately show ?thesis
    using divergent_counts_card [OF assms(1,2), of files events]
    by (simp add: group_integrity_summary_def Let_def flip: vs_def)
qed

theorem landing_detail_parity_witness:
  "map_of (divergent_counts_for_group_ids [example_file] example_events [1]) (1::nat) =
     Some (is_divergent_message_count (group_integrity_summary
       (valid_events_for_group [example_file] example_events 1)
       (message_traces_for_group (valid_events_for_group [example_file] example_events 1)))) \<and>
   map_of (divergent_counts_for_group_ids [example_file] example_events [1]) (1::nat) = Some 1"
proof
  have "list_all (\<lambda>e. ev_engine_id e \<noteq> []) (valid_events_for_group [example_file] example_events 1)"
    by (simp add: list_all_iff set_valid_events example_events_def)
  then show "map_of (divergent_counts_for_group_ids [example_file] example_events [1]) (1::nat) =
     Some (is_divergent_message_count (group_integrity_summary
       (valid_events_for_group [example_file] example_events 1)
       (message_traces_for_group (valid_events_for_group [example_file] example_events 1))))"
    by (intro landing_detail_parity) simp_all
  show "map_of (divergent_counts_for_group_ids [example_file] example_events [1]) (1::nat) = Some 1"
    by code_simp
qed

text \<open>
  The traces list every message id that a group's events mention once, in order, and the three
  engine lists of a trace split the group's engines: those that hold an event for the message, those
  that missed it although active at its first observation, and the absent ones. A trace is divergent
  just when the message diverges by the specification.
\<close>

theorem trace_partition:
  "sorted (map mt_msg_id (message_traces_for_group es)) \<and> distinct (map mt_msg_id (message_traces_for_group es)) \<and>
   set (map mt_msg_id (message_traces_for_group es)) = (\<Union>e \<in> set es. set (event_message_ids e)) \<and>
   list_all (\<lambda>t.
     set (mt_engines t) \<union> set (mt_missed_by t) \<union> set (mt_absent_engines t) = engines_in es \<and>
     distinct (mt_engines t @ mt_missed_by t @ mt_absent_engines t) \<and>
     set (mt_engines t) = observers_in es (mt_msg_id t) \<and>
     mt_is_divergent t = message_diverges es (mt_msg_id t)) (message_traces_for_group es)"
proof (intro conjI)
  show "sorted (map mt_msg_id (message_traces_for_group es))"
    by (simp add: trace_msg_ids trace_messages_def)
  show "distinct (map mt_msg_id (message_traces_for_group es))"
    by (simp add: trace_msg_ids traces.distinct_messages)
  show "set (map mt_msg_id (message_traces_for_group es)) = (\<Union>e \<in> set es. set (event_message_ids e))"
    using traces.messages_complete [of es] by (auto simp: trace_msg_ids carries_def simp del: set_map)
  show "list_all (\<lambda>t.
     set (mt_engines t) \<union> set (mt_missed_by t) \<union> set (mt_absent_engines t) = engines_in es \<and>
     distinct (mt_engines t @ mt_missed_by t @ mt_absent_engines t) \<and>
     set (mt_engines t) = observers_in es (mt_msg_id t) \<and>
     mt_is_divergent t = message_diverges es (mt_msg_id t)) (message_traces_for_group es)"
    unfolding list_all_iff
  proof
    fix t
    assume "t \<in> set (message_traces_for_group es)"
    then obtain m ms where item: "(m, ms) \<in> set (group_by_message es)"
      and t: "t = trace_of (engine_windows es) (trace_engines es) (m, ms)"
      by (auto simp: message_traces_for_group_eq)
    have sub: "traces.missed es m \<subseteq> engines_in es - observers_in es m" "observers_in es m \<subseteq> engines_in es"
      using traces.missed_iff [of _ es m] by (auto simp: observers_in_def engines_in_def)
    have fin: "finite (engines_in es)" by (simp add: engines_in_def)
    have id: "mt_msg_id t = m" by (simp add: t trace_of_def Let_def)
    note parts = trace_of_parts [OF item, folded t, simplified]
    have "mt_absent_engines t = set_sorted (trace_engines es - set (mt_engines t) - set (mt_missed_by t))"
      using fin item by (simp add: t trace_of_def Let_def set_sorted_def observers_of_def
          engines_present_but_missing_def trace_engines_eq split: option.splits)
    then have absent: "set (mt_absent_engines t) = engines_in es - observers_in es m - traces.missed es m"
      using fin by (simp add: parts set_sorted_def trace_engines_eq)
    moreover have "distinct (mt_engines t)" "distinct (mt_missed_by t)" "distinct (mt_absent_engines t)"
      by (simp_all add: t trace_of_def Let_def set_sorted_def)
    ultimately show "set (mt_engines t) \<union> set (mt_missed_by t) \<union> set (mt_absent_engines t) = engines_in es \<and>
     distinct (mt_engines t @ mt_missed_by t @ mt_absent_engines t) \<and>
     set (mt_engines t) = observers_in es (mt_msg_id t) \<and>
     mt_is_divergent t = message_diverges es (mt_msg_id t)"
      using sub by (auto simp: parts id traces.diverges_iff)
  qed
qed

end
