(* ===== verification/Convergence.thy ===== *)
theory Convergence
  imports Delivery Divergence
begin

text \<open>
  The convergence half of \<^verbatim>\<open>forensics/projections.py\<close>: stitching the events of one recorder into
  convergence runs. An event with an explicit \<^verbatim>\<open>run_id\<close> goes to the run of that id; one without goes
  to the recorder's active inferred run, or opens one. The active runs are a map from
  (group, engine id) to the primary key of the run (the program keeps the row object itself, which
  nothing else changes meanwhile).
\<close>

type_synonym active_runs = "((nat \<times> string) \<times> nat) list"

section \<open>Event classes\<close>

definition CONVERGENCE_EVENT_TYPES :: "string list" where
  "CONVERGENCE_EVENT_TYPES = [''convergence_run_state'', ''convergence_decision'']"

definition INFERRED_CONVERGENCE_TERMINAL_PHASES :: "string list" where
  "INFERRED_CONVERGENCE_TERMINAL_PHASES = [''applied'', ''blocked'', ''failed'', ''stable'', ''unrecoverable'']"

definition INFERRED_CONVERGENCE_TERMINAL_EPOCH_STATES :: "string list" where
  "INFERRED_CONVERGENCE_TERMINAL_EPOCH_STATES = [''committed'', ''failed'', ''stable'', ''unrecoverable'']"

definition context_convergence_of :: "audit_event \<Rightarrow> dict" where
  "context_convergence_of e =
     (if is_dict (ev_context_convergence e) then dict_of (ev_context_convergence e) else [])"

definition explicit_run_id :: "audit_event \<Rightarrow> string" where
  "explicit_run_id e = str_or_empty (dict_get (context_convergence_of e) ''run_id'')"

definition inferred_convergence_key :: "audit_event \<Rightarrow> nat \<Rightarrow> nat \<times> string" where
  "inferred_convergence_key e g = (g, ev_engine_id e)"

definition inferred_convergence_event_is_terminal :: "audit_event \<Rightarrow> string \<Rightarrow> bool" where
  "inferred_convergence_event_is_terminal e phase \<longleftrightarrow>
     (if ev_event_type e = ''epoch_state_changed''
      then ev_new_state e \<in> set INFERRED_CONVERGENCE_TERMINAL_EPOCH_STATES
      else if ev_event_type e = ''convergence_run_state''
      then phase \<in> set INFERRED_CONVERGENCE_TERMINAL_PHASES
      else False)"

definition should_project_convergence :: "audit_event \<Rightarrow> active_runs \<Rightarrow> bool" where
  "should_project_convergence e active \<longleftrightarrow>
     (if ev_event_type e \<in> set CONVERGENCE_EVENT_TYPES \<or> truthy (ev_context_convergence e) then True
      else ev_event_type e = ''epoch_state_changed'' \<and> ev_engine_id e \<noteq> [] \<and>
           (case ev_group e of
              None \<Rightarrow> False
            | Some g \<Rightarrow> map_of active (inferred_convergence_key e g) \<noteq> None))"

definition event_may_need_inferred_convergence_state :: "audit_event \<Rightarrow> bool" where
  "event_may_need_inferred_convergence_state e \<longleftrightarrow>
     ev_event_type e \<in> set CONVERGENCE_EVENT_TYPES \<or> ev_event_type e = ''epoch_state_changed'' \<or>
     (context_convergence_of e \<noteq> [] \<and> explicit_run_id e = [])"

section \<open>Runs\<close>

definition run_key :: "convergence_run \<Rightarrow> nat \<times> string \<times> string" where
  "run_key r = (cr_group r, cr_engine_id r, cr_run_id r)"

definition run_fresh :: "nat \<Rightarrow> nat \<Rightarrow> audit_event \<Rightarrow> string \<Rightarrow> bool \<Rightarrow> convergence_run" where
  "run_fresh pk g e run_id inferred = \<lparr> cr_id = pk, cr_group = g, cr_run_id = run_id,
     cr_engine_id = ev_engine_id e, cr_account_ref = ev_account_ref e, cr_inferred = inferred,
     cr_phase = [], cr_started_at_ms = None, cr_ended_at_ms = None, cr_current_tip_epoch = None,
     cr_selected_branch_id = [], cr_selected_fork_epoch = None, cr_selected_tip_epoch = None,
     cr_max_rewind_commits = None, cr_losing_branch_ids = [], cr_error_kinds = [],
     cr_evidence_events = [] \<rparr>"

definition inferred_phase_for_event :: "audit_event \<Rightarrow> string" where
  "inferred_phase_for_event e =
     (if ev_event_type e = ''convergence_decision''
      then (if ev_selected_branch_id e \<noteq> [] then ''selected'' else ''decision'')
      else if ev_event_type e = ''epoch_state_changed'' then ev_new_state e
      else [])"

definition phase_for_event :: "audit_event \<Rightarrow> dict \<Rightarrow> dict \<Rightarrow> string" where
  "phase_for_event e ctx kind =
     py_str (py_or (dict_get kind ''phase'') (py_or (dict_get ctx ''phase'')
       (py_or (JStr (inferred_phase_for_event e)) (JStr (ev_outcome e)))))"

definition opt_or :: "'a option \<Rightarrow> 'a option \<Rightarrow> 'a option" where
  "opt_or new old = (case new of None \<Rightarrow> old | Some _ \<Rightarrow> new)"

definition list_field_or :: "dict \<Rightarrow> string \<Rightarrow> json list \<Rightarrow> json list" where
  "list_field_or kind field old = (case dict_get kind field of JList xs \<Rightarrow> xs | _ \<Rightarrow> old)"

definition update_run_from_event :: "audit_event \<Rightarrow> dict \<Rightarrow> dict \<Rightarrow> convergence_run \<Rightarrow> convergence_run" where
  "update_run_from_event e ctx kind run =
     (let phase = phase_for_event e ctx kind
      in run\<lparr>
        cr_account_ref := (if ev_account_ref e \<noteq> [] \<and> cr_account_ref run = [] then ev_account_ref e
                           else cr_account_ref run),
        cr_phase := (if phase \<noteq> [] then phase else cr_phase run),
        cr_inferred := (if dict_get ctx ''inferred'' \<noteq> JNull then truthy (dict_get ctx ''inferred'')
                        else cr_inferred run),
        cr_started_at_ms := upd_first (cr_started_at_ms run) (ev_wall_time_ms e),
        cr_ended_at_ms := upd_last (cr_ended_at_ms run) (ev_wall_time_ms e),
        cr_current_tip_epoch := opt_or (ev_current_tip_epoch e) (cr_current_tip_epoch run),
        cr_selected_branch_id := (if ev_selected_branch_id e \<noteq> [] then ev_selected_branch_id e
                                  else cr_selected_branch_id run),
        cr_selected_fork_epoch := opt_or (ev_selected_fork_epoch e) (cr_selected_fork_epoch run),
        cr_selected_tip_epoch := opt_or (ev_selected_tip_epoch e) (cr_selected_tip_epoch run),
        cr_max_rewind_commits := opt_or (ev_max_rewind_commits e) (cr_max_rewind_commits run),
        cr_losing_branch_ids := list_field_or kind ''losing_branch_ids'' (cr_losing_branch_ids run),
        cr_error_kinds := list_field_or kind ''error_kinds'' (cr_error_kinds run) \<rparr>)"

text \<open>The change of the run's row by one event, its evidence relation included.\<close>

definition run_change :: "audit_event \<Rightarrow> convergence_run \<Rightarrow> convergence_run" where
  "run_change e run =
     (let run' = update_run_from_event e (context_convergence_of e) (raw_kind_of e) run
      in run'\<lparr>cr_evidence_events := m2m_add (ev_id e) (cr_evidence_events run')\<rparr>)"

section \<open>Decisions\<close>

definition candidate_key :: "convergence_candidate \<Rightarrow> nat \<times> string" where
  "candidate_key c = (cc_run c, cc_branch_id c)"

definition candidate_row :: "nat \<Rightarrow> string \<Rightarrow> dict \<Rightarrow> convergence_candidate" where
  "candidate_row run branch c =
     (let str = (\<lambda>f. str_or_empty (dict_get c f))
      in \<lparr> cc_run = run, cc_branch_id = branch,
           cc_fork_epoch = int_or_none (dict_get c ''fork_epoch''),
           cc_tip_epoch = int_or_none (dict_get c ''tip_epoch''),
           cc_commit_ids = list_or_empty (dict_get c ''commit_ids''),
           cc_commit_count = int_or_none (dict_get c ''commit_count''),
           cc_state_digest = str ''state_digest'',
           cc_tip_digest = str ''tip_digest'',
           cc_tip_priority = str ''tip_priority'',
           cc_tip_committer_ref = str ''tip_committer_ref'',
           cc_tip_committer_pubkey_hex = str ''tip_committer_pubkey_hex'',
           cc_retained_anchor_status = str ''retained_anchor_status'',
           cc_last_input_time_ms = int_or_none (dict_get c ''last_input_time_ms''),
           cc_eligible = bool_or_none (dict_get c ''eligible''),
           cc_rejection_reasons = list_or_empty (dict_get c ''rejection_reasons''),
           cc_score = dict_or_empty (dict_get c ''score''),
           cc_app_witnesses = list_or_empty (dict_get c ''app_witnesses'') \<rparr>)"

definition put_candidate :: "nat \<Rightarrow> json \<Rightarrow> convergence_candidate list \<Rightarrow> convergence_candidate list" where
  "put_candidate run candidate rows =
     (let c = dict_of candidate; branch = str_or_empty (dict_get c ''branch_id'')
      in if \<not> is_dict candidate \<or> branch = [] then rows
         else upsert candidate_key (run, branch) (candidate_row run branch c)
                (\<lambda>_. candidate_row run branch c) rows)"

definition rule_row :: "nat \<Rightarrow> nat \<Rightarrow> dict \<Rightarrow> rule_evaluation" where
  "rule_row run sequence rule =
     (let str = (\<lambda>f. str_or_empty (dict_get rule f))
      in \<lparr> ce_run = run,
           ce_rule_name = str ''rule_name'',
           ce_scope = str ''scope'',
           ce_candidate_branch_id = str ''candidate_branch_id'',
           ce_other_candidate_branch_id = str ''other_candidate_branch_id'',
           ce_inputs = dict_or_empty (dict_get rule ''inputs''),
           ce_result = (if dict_get rule ''result'' \<noteq> JNull then dict_get rule ''result'' else JObj []),
           ce_decisive = truthy (dict_get rule ''decisive''),
           ce_selected_branch_id = str ''selected_branch_id'',
           ce_rejected_branch_id = str ''rejected_branch_id'',
           ce_sequence = sequence \<rparr>)"

definition decisive_rule_row :: "nat \<Rightarrow> dict \<Rightarrow> rule_evaluation" where
  "decisive_rule_row run kind = \<lparr> ce_run = run, ce_rule_name = str_of (dict_get kind ''decisive_rule''),
     ce_scope = [], ce_candidate_branch_id = [], ce_other_candidate_branch_id = [], ce_inputs = [],
     ce_result = JObj [], ce_decisive = True,
     ce_selected_branch_id = str_or_empty (dict_get kind ''selected_branch_id''),
     ce_rejected_branch_id = [], ce_sequence = 0 \<rparr>"

definition project_convergence_decision :: "nat \<Rightarrow> dict \<Rightarrow> projections \<Rightarrow> projections option" where
  "project_convergence_decision run kind pj =
     (case iter_or_empty (dict_get kind ''candidates'') of
        None \<Rightarrow> None
      | Some candidates \<Rightarrow>
          (let rule_trace = list_or_empty (dict_get kind ''rule_trace'');
               rules = map (\<lambda>(i, rule). rule_row run i (dict_of rule))
                 (filter (\<lambda>(i, rule). is_dict rule) (enumerate 0 rule_trace));
               decisive_rule = dict_get kind ''decisive_rule'';
               extra = (if rule_trace = [] \<and> is_str decisive_rule \<and> str_of decisive_rule \<noteq> []
                        then [decisive_rule_row run kind] else [])
           in Some (pj\<lparr> pj_candidates := fold (put_candidate run) candidates (pj_candidates pj),
                        pj_rules := pj_rules pj @ rules @ extra \<rparr>)))"

section \<open>The run an event goes to\<close>

text \<open>
  The row that \<^verbatim>\<open>get_or_create\<close> returns for an explicit id, or the active inferred run of the
  recorder, or a new inferred run; \<open>None\<close> when that run's key is taken (\<^verbatim>\<open>IntegrityError\<close>).
\<close>

definition inferred_run_id :: "audit_event \<Rightarrow> string" where
  "inferred_run_id e = ''inferred-'' @ ev_engine_id e @ ''-'' @ nat_str (ev_id e)"

definition inferred_convergence_run_for_event ::
  "audit_event \<Rightarrow> nat \<Rightarrow> projections \<Rightarrow> active_runs \<Rightarrow> convergence_run option" where
  "inferred_convergence_run_for_event e g pj active =
     (case map_of active (inferred_convergence_key e g) of
        Some pk \<Rightarrow> find_row cr_id pk (pj_runs pj)
      | None \<Rightarrow>
          (let run = run_fresh (pj_next_run pj) g e (inferred_run_id e) True
           in if find_row run_key (run_key run) (pj_runs pj) = None then Some run else None))"

definition explicit_convergence_run_for_event :: "audit_event \<Rightarrow> nat \<Rightarrow> projections \<Rightarrow> convergence_run" where
  "explicit_convergence_run_for_event e g pj =
     (case find_row run_key (g, ev_engine_id e, explicit_run_id e) (pj_runs pj) of
        Some run \<Rightarrow> run
      | None \<Rightarrow> run_fresh (pj_next_run pj) g e (explicit_run_id e) False)"

definition save_run :: "audit_event \<Rightarrow> convergence_run \<Rightarrow> projections \<Rightarrow> projections" where
  "save_run e run pj = pj\<lparr>
     pj_runs := upsert cr_id (cr_id run) run (run_change e) (pj_runs pj),
     pj_next_run := (if find_row cr_id (cr_id run) (pj_runs pj) = None then Suc (cr_id run)
                     else pj_next_run pj) \<rparr>"

definition project_convergence ::
  "audit_event \<Rightarrow> projections \<times> active_runs \<Rightarrow> (projections \<times> active_runs) option" where
  "project_convergence e st =
     (let (pj, active) = st; kind = raw_kind_of e; is_explicit = (explicit_run_id e \<noteq> [])
      in (case ev_group e of
            None \<Rightarrow> Some st
          | Some g \<Rightarrow>
              (if ev_engine_id e = [] then Some st
               else (let key = inferred_convergence_key e g;
                         target = (if is_explicit then Some (explicit_convergence_run_for_event e g pj)
                                   else inferred_convergence_run_for_event e g pj active)
                     in (case target of
                           None \<Rightarrow> None
                         | Some run \<Rightarrow>
                             (let active1 = (if is_explicit then AList.delete key active
                                             else AList.update key (cr_id run) active);
                                  pj1 = save_run e run pj;
                                  phase = cr_phase (run_change e run);
                                  active2 = (if \<not> is_explicit \<and> inferred_convergence_event_is_terminal e phase
                                             then AList.delete key active1 else active1)
                              in (if ev_event_type e = ''convergence_decision''
                                  then (case project_convergence_decision (cr_id run) kind pj1 of
                                          None \<Rightarrow> None | Some pj2 \<Rightarrow> Some (pj2, active2))
                                  else Some (pj1, active2))))))))"

section \<open>The run and candidate tables\<close>

text \<open>
  An input to the run table: the key of the run, its group, the event, and what a new run would be
  created with.
\<close>

type_synonym run_input = "nat \<times> nat \<times> audit_event \<times> string \<times> bool"

definition run_row_key :: "convergence_run \<Rightarrow> nat \<times> nat" where
  "run_row_key r = (cr_group r, cr_id r)"

lemma run_change_simps [simp]:
  "cr_id (run_change e r) = cr_id r" "cr_group (run_change e r) = cr_group r"
  "cr_run_id (run_change e r) = cr_run_id r" "cr_engine_id (run_change e r) = cr_engine_id r"
  "run_row_key (run_change e r) = run_row_key r" "run_key (run_change e r) = run_key r"
  by (simp_all add: run_change_def update_run_from_event_def Let_def run_row_key_def run_key_def)

lemma run_fresh_simps [simp]:
  "cr_id (run_fresh pk g e rid infd) = pk" "cr_group (run_fresh pk g e rid infd) = g"
  "cr_run_id (run_fresh pk g e rid infd) = rid" "cr_engine_id (run_fresh pk g e rid infd) = ev_engine_id e"
  by (simp_all add: run_fresh_def)

interpretation runs: evidence_table run_row_key
  "\<lambda>(pk, g, e, rid, infd). (g, pk)" "\<lambda>(pk, g, e, rid, infd). run_fresh pk g e rid infd"
  "\<lambda>(pk, g, e, rid, infd). run_change e" cr_started_at_ms cr_ended_at_ms cr_evidence_events
  "\<lambda>(pk, g, e, rid, infd). ev_wall_time_ms e" "\<lambda>(pk, g, e, rid, infd). ev_id e"
  by unfold_locales
    (auto simp: run_row_key_def run_change_def update_run_from_event_def Let_def run_fresh_def)

interpretation candidates: keyed_table candidate_key "\<lambda>(run, branch, c). (run, branch)"
  "\<lambda>(run, branch, c). candidate_row run branch c"
  "\<lambda>(run, branch, c) r. (if candidate_key r = (run, branch) then candidate_row run branch c else r)"
  by unfold_locales (auto simp: candidate_key_def candidate_row_def Let_def)

lemma candidate_row_key [simp]: "candidate_key (candidate_row run branch c) = (run, branch)"
  by (simp add: candidate_key_def candidate_row_def Let_def)

lemma put_candidate_put:
  "put_candidate run candidate rows =
     (if is_dict candidate \<and> str_or_empty (dict_get (dict_of candidate) ''branch_id'') \<noteq> []
      then candidates.put (run, str_or_empty (dict_get (dict_of candidate) ''branch_id''), dict_of candidate) rows
      else rows)"
  by (auto simp: put_candidate_def candidates.put_def upsert_def Let_def cong: map_cong)

lemma distinct_put_candidates:
  "distinct (map candidate_key rows) \<Longrightarrow> distinct (map candidate_key (fold (put_candidate run) cs rows))"
  by (induction cs arbitrary: rows) (simp_all add: put_candidate_put candidates.distinct_put)

lemma decision_frame:
  assumes "project_convergence_decision run kind pj = Some pj'"
  shows "pj' = pj\<lparr>pj_candidates := pj_candidates pj', pj_rules := pj_rules pj'\<rparr>"
    and "distinct (map candidate_key (pj_candidates pj)) \<Longrightarrow> distinct (map candidate_key (pj_candidates pj'))"
  using assms by (auto simp: project_convergence_decision_def Let_def distinct_put_candidates split: option.splits)

section \<open>The invariant of the run tables\<close>

definition runs_ok :: "projections \<Rightarrow> bool" where
  "runs_ok pj \<longleftrightarrow> distinct (map cr_id (pj_runs pj)) \<and> distinct (map run_key (pj_runs pj)) \<and>
     list_all (\<lambda>r. cr_id r < pj_next_run pj) (pj_runs pj) \<and> distinct (map candidate_key (pj_candidates pj))"

definition active_ok :: "projections \<Rightarrow> active_runs \<Rightarrow> bool" where
  "active_ok pj active \<longleftrightarrow> list_all (\<lambda>((g, engine), pk).
     list_ex (\<lambda>r. cr_id r = pk \<and> cr_group r = g \<and> cr_engine_id r = engine) (pj_runs pj)) active"

text \<open>What \<open>project_convergence\<close> does to the run table, on every path that does not raise.\<close>

lemma find_row_key: "find_row key k rows = Some r \<Longrightarrow> key r = k"
  by (auto dest: find_row_SomeD)

lemma project_convergence_skip:
  "ev_group e = None \<or> ev_engine_id e = [] \<Longrightarrow> project_convergence e st = Some st"
  by (cases st) (auto simp: project_convergence_def Let_def split: option.splits)

lemma target_cases:
  assumes "active_ok pj active" "runs_ok pj"
    and "(if explicit_run_id e \<noteq> [] then Some (explicit_convergence_run_for_event e g pj)
          else inferred_convergence_run_for_event e g pj active) = Some run"
  shows "cr_group run = g \<and> cr_engine_id run = ev_engine_id e \<and>
    (find_row cr_id (cr_id run) (pj_runs pj) = Some run \<or>
     (\<exists>rid infd. run = run_fresh (pj_next_run pj) g e rid infd \<and> run_key run \<notin> run_key ` set (pj_runs pj)))"
proof (cases "explicit_run_id e \<noteq> []")
  case True
  show ?thesis
  proof (cases "find_row run_key (g, ev_engine_id e, explicit_run_id e) (pj_runs pj)")
    case None
    then have "run = run_fresh (pj_next_run pj) g e (explicit_run_id e) False"
      using True assms(3) by (simp add: explicit_convergence_run_for_event_def)
    with None show ?thesis by (auto simp: find_row_None_iff run_key_def)
  next
    case (Some r)
    then have "run = r" using True assms(3) by (simp add: explicit_convergence_run_for_event_def)
    with find_row_SomeD [OF Some] assms(2) show ?thesis
      by (auto simp: runs_ok_def run_key_def intro!: find_row_distinct)
  qed
next
  case False
  show ?thesis
  proof (cases "map_of active (inferred_convergence_key e g)")
    case None
    then have "run = run_fresh (pj_next_run pj) g e (inferred_run_id e) True"
      and "find_row run_key (run_key run) (pj_runs pj) = None"
      using False assms(3) by (auto simp: inferred_convergence_run_for_event_def Let_def split: if_splits)
    then show ?thesis by (auto simp: find_row_None_iff)
  next
    case (Some pk)
    then have found: "find_row cr_id pk (pj_runs pj) = Some run"
      using False assms(3) by (simp add: inferred_convergence_run_for_event_def)
    have "list_ex (\<lambda>r. cr_id r = pk \<and> cr_group r = g \<and> cr_engine_id r = ev_engine_id e) (pj_runs pj)"
      using assms(1) map_of_SomeD [OF Some] by (auto simp: active_ok_def list_all_iff inferred_convergence_key_def)
    then obtain r where r: "r \<in> set (pj_runs pj)" "cr_id r = pk" "cr_group r = g" "cr_engine_id r = ev_engine_id e"
      by (auto simp: list_ex_iff)
    have "find_row cr_id pk (pj_runs pj) = Some r"
      using find_row_distinct [OF _ r(1), of cr_id] assms(2) r(2) by (simp add: runs_ok_def)
    with found r show ?thesis by simp
  qed
qed

lemma project_convergence_run:
  assumes "project_convergence e (pj, active) = Some (pj', active')"
    and "ev_group e = Some g" "ev_engine_id e \<noteq> []"
  obtains run pj1 where
    "(if explicit_run_id e \<noteq> [] then Some (explicit_convergence_run_for_event e g pj)
      else inferred_convergence_run_for_event e g pj active) = Some run"
    "pj1 = save_run e run pj"
    "pj' = pj1\<lparr>pj_candidates := pj_candidates pj', pj_rules := pj_rules pj'\<rparr>"
    "distinct (map candidate_key (pj_candidates pj)) \<Longrightarrow> distinct (map candidate_key (pj_candidates pj'))"
    "set active' \<subseteq> insert ((g, ev_engine_id e), cr_id run) (set active)"
proof -
  let ?t = "if explicit_run_id e \<noteq> [] then Some (explicit_convergence_run_for_event e g pj)
      else inferred_convergence_run_for_event e g pj active"
  obtain run where run: "?t = Some run"
    using assms by (cases ?t) (simp_all add: project_convergence_def Let_def)
  let ?k = "inferred_convergence_key e g"
  have del: "set (AList.delete k al) \<subseteq> set al" for k and al :: active_runs
    by (auto simp: AList.delete_eq)
  have upd: "set (AList.update k v al) \<subseteq> insert (k, v) (set al)" for k v and al :: active_runs
    by (induction al) auto
  show thesis
  proof (rule that [OF run refl])
    have eq: "(if ev_event_type e = ''convergence_decision''
        then (case project_convergence_decision (cr_id run) (raw_kind_of e) (save_run e run pj) of
                None \<Rightarrow> None | Some pj2 \<Rightarrow> Some pj2)
        else Some (save_run e run pj)) = Some pj'"
      using assms run by (auto simp: project_convergence_def Let_def split: option.splits if_splits)
    then show "pj' = (save_run e run pj)\<lparr>pj_candidates := pj_candidates pj', pj_rules := pj_rules pj'\<rparr>"
      using decision_frame(1) by (auto split: if_splits option.splits)
    show "distinct (map candidate_key (pj_candidates pj)) \<Longrightarrow> distinct (map candidate_key (pj_candidates pj'))"
      using eq decision_frame(2) by (auto simp: save_run_def split: if_splits option.splits)
    have "active' \<in> {AList.delete ?k active, AList.update ?k (cr_id run) active,
        AList.delete ?k (AList.update ?k (cr_id run) active)}"
      using assms run by (auto simp: project_convergence_def Let_def split: option.splits if_splits)
    then show "set active' \<subseteq> insert ((g, ev_engine_id e), cr_id run) (set active)"
      using del [of ?k active] upd [of ?k "cr_id run" active] del [of ?k "AList.update ?k (cr_id run) active"]
      by (auto simp: inferred_convergence_key_def)
  qed
qed

lemma runs_ok_unique:
  "runs_ok pj \<Longrightarrow> r \<in> set (pj_runs pj) \<Longrightarrow> r' \<in> set (pj_runs pj) \<Longrightarrow> cr_id r = cr_id r' \<Longrightarrow> r = r'"
  unfolding runs_ok_def distinct_map by (meson inj_onD)

lemma save_run_put:
  assumes "runs_ok pj" "cr_group run = g"
    and "find_row cr_id (cr_id run) (pj_runs pj) = Some run \<or>
      (\<exists>rid infd. run = run_fresh (pj_next_run pj) g e rid infd \<and> run_key run \<notin> run_key ` set (pj_runs pj))"
  shows "\<exists>rid infd. pj_runs (save_run e run pj) = runs.put (cr_id run, g, e, rid, infd) (pj_runs pj)"
proof (cases "find_row cr_id (cr_id run) (pj_runs pj)")
  case (Some r)
  then have r: "r \<in> set (pj_runs pj)" "cr_id r = cr_id run" by (auto dest: find_row_SomeD)
  have "r = run"
    using assms(1,3) Some r by (auto simp: runs_ok_def list_all_iff)
  with r have run: "run \<in> set (pj_runs pj)" by simp
  have key: "cr_id q = cr_id run \<longleftrightarrow> run_row_key q = (g, cr_id run)" if "q \<in> set (pj_runs pj)" for q
    using runs_ok_unique [OF assms(1) that run] assms(2) by (auto simp: run_row_key_def)
  have "list_ex (\<lambda>q. cr_id q = cr_id run) (pj_runs pj)" "list_ex (\<lambda>q. run_row_key q = (g, cr_id run)) (pj_runs pj)"
    using run key [OF run] by (auto simp: list_ex_iff)
  then have "pj_runs (save_run e run pj) = runs.put (cr_id run, g, e, [], False) (pj_runs pj)"
    using key by (simp add: save_run_def runs.put_def upsert_def cong: map_cong)
  then show ?thesis by blast
next
  case None
  with assms(3) obtain rid infd where run: "run = run_fresh (pj_next_run pj) g e rid infd" by auto
  have "\<forall>q \<in> set (pj_runs pj). cr_id q \<noteq> cr_id run" using None by (auto simp: find_row_None_iff image_iff)
  then have "\<not> list_ex (\<lambda>q. cr_id q = cr_id run) (pj_runs pj)"
    "\<not> list_ex (\<lambda>q. run_row_key q = (g, cr_id run)) (pj_runs pj)"
    by (auto simp: list_ex_iff run_row_key_def)
  then have "pj_runs (save_run e run pj) = runs.put (cr_id run, g, e, rid, infd) (pj_runs pj)"
    using run by (simp add: save_run_def runs.put_def upsert_def)
  then show ?thesis by blast
qed

lemma save_run_ok:
  assumes "runs_ok pj"
    and "find_row cr_id (cr_id run) (pj_runs pj) = Some run \<or>
      (\<exists>rid infd. run = run_fresh (pj_next_run pj) g e rid infd \<and> run_key run \<notin> run_key ` set (pj_runs pj))"
  shows "runs_ok (save_run e run pj)"
proof (cases "find_row cr_id (cr_id run) (pj_runs pj)")
  case (Some r)
  then have "list_ex (\<lambda>q. cr_id q = cr_id run) (pj_runs pj)" by (simp add: list_ex_find_row)
  then have runs: "pj_runs (save_run e run pj) = map (\<lambda>q. if cr_id q = cr_id run then run_change e q else q) (pj_runs pj)"
    by (simp add: save_run_def upsert_def)
  have "map cr_id (pj_runs (save_run e run pj)) = map cr_id (pj_runs pj)"
    "map run_key (pj_runs (save_run e run pj)) = map run_key (pj_runs pj)"
    unfolding runs by (simp_all add: if_distrib cong: if_cong)
  moreover have ids: "list_all (\<lambda>r. cr_id r < n) rows = list_all (\<lambda>i. i < n) (map cr_id rows)" for n rows
    by (simp add: list_all_iff)
  moreover have "pj_next_run (save_run e run pj) = pj_next_run pj"
    "pj_candidates (save_run e run pj) = pj_candidates pj" using Some by (simp_all add: save_run_def)
  ultimately show ?thesis
    using assms(1) unfolding runs_ok_def ids by (simp only:)
next
  case None
  with assms(2) obtain rid infd where run: "run = run_fresh (pj_next_run pj) g e rid infd"
    and new: "run_key run \<notin> run_key ` set (pj_runs pj)" by auto
  have fresh: "\<forall>q \<in> set (pj_runs pj). cr_id q \<noteq> cr_id run" using None by (auto simp: find_row_None_iff image_iff)
  then have "pj_runs (save_run e run pj) = pj_runs pj @ [run_change e run]"
    by (auto simp: save_run_def upsert_def list_ex_iff)
  then show ?thesis
    using assms(1) new fresh run None
    by (auto simp: runs_ok_def save_run_def list_all_iff less_Suc_eq)
qed

text \<open>One convergence event: the run table receives one input, and both invariants hold again.\<close>

lemma convergence_step:
  assumes "runs_ok pj" "active_ok pj active"
    and "project_convergence e (pj, active) = Some (pj', active')"
    and "ev_group e = Some g" "ev_engine_id e \<noteq> []"
  obtains pk rid infd where
    "pj_runs pj' = runs.put (pk, g, e, rid, infd) (pj_runs pj)"
    "runs_ok pj'" "active_ok pj' active'"
    "\<And>r. r \<in> set (pj_runs pj') \<Longrightarrow> run_row_key r = (g, pk) \<Longrightarrow> cr_engine_id r = ev_engine_id e"
    "pj' = pj\<lparr>pj_runs := pj_runs pj', pj_next_run := pj_next_run pj', pj_candidates := pj_candidates pj',
       pj_rules := pj_rules pj'\<rparr>"
proof -
  obtain run where target: "(if explicit_run_id e \<noteq> [] then Some (explicit_convergence_run_for_event e g pj)
      else inferred_convergence_run_for_event e g pj active) = Some run"
    and frame: "pj' = (save_run e run pj)\<lparr>pj_candidates := pj_candidates pj', pj_rules := pj_rules pj'\<rparr>"
    and cand: "distinct (map candidate_key (pj_candidates pj)) \<Longrightarrow> distinct (map candidate_key (pj_candidates pj'))"
    and act: "set active' \<subseteq> insert ((g, ev_engine_id e), cr_id run) (set active)"
    using project_convergence_run [OF assms(3-5)] by metis
  note t = target_cases [OF assms(2,1) target]
  obtain rid infd where put: "pj_runs (save_run e run pj) = runs.put (cr_id run, g, e, rid, infd) (pj_runs pj)"
    using save_run_put [OF assms(1)] t by metis
  have runs_eq: "pj_runs pj' = pj_runs (save_run e run pj)" "pj_next_run pj' = pj_next_run (save_run e run pj)"
    by (subst frame, simp)+
  have ok: "runs_ok (save_run e run pj)" by (rule save_run_ok [OF assms(1)]) (use t in blast)
  then have ok': "runs_ok pj'"
    using cand assms(1) by (simp add: runs_ok_def runs_eq)
  obtain r0 where r0: "find_row run_row_key (g, cr_id run) (pj_runs pj') = Some r0" "cr_engine_id r0 = ev_engine_id e"
  proof -
    have "cr_engine_id (case find_row run_row_key (g, cr_id run) (pj_runs pj) of
        None \<Rightarrow> run_fresh (cr_id run) g e rid infd | Some r \<Rightarrow> r) = ev_engine_id e"
    proof (cases "find_row run_row_key (g, cr_id run) (pj_runs pj)")
      case (Some r)
      then have r: "r \<in> set (pj_runs pj)" "cr_id r = cr_id run" by (auto simp: run_row_key_def dest: find_row_SomeD)
      have "r = run"
      proof (cases "find_row cr_id (cr_id run) (pj_runs pj) = Some run")
        case True
        then have "run \<in> set (pj_runs pj)" by (auto dest: find_row_SomeD)
        then show ?thesis using runs_ok_unique [OF assms(1) r(1)] r(2) by simp
      next
        case False
        with t have "cr_id run = pj_next_run pj" by (metis run_fresh_simps(1))
        with r assms(1) show ?thesis by (auto simp: runs_ok_def list_all_iff)
      qed
      with Some t show ?thesis by simp
    qed simp
    moreover have "find_row run_row_key (g, cr_id run) (pj_runs pj') = Some (run_change e
        (case find_row run_row_key (g, cr_id run) (pj_runs pj) of
          None \<Rightarrow> run_fresh (cr_id run) g e rid infd | Some r \<Rightarrow> r))"
      by (simp add: runs_eq put runs.find_put cong: option.case_cong)
    ultimately show thesis using that by simp
  qed
  have member: "cr_engine_id r = ev_engine_id e" if "r \<in> set (pj_runs pj')" "run_row_key r = (g, cr_id run)" for r
  proof -
    have "r0 \<in> set (pj_runs pj')" "cr_id r0 = cr_id r"
      using r0(1) that(2) by (auto simp: run_row_key_def dest!: find_row_SomeD)
    then show ?thesis using runs_ok_unique [OF ok' that(1)] r0(2) by metis
  qed
  have keep: "list_ex (\<lambda>q. cr_id q = cr_id r \<and> cr_group q = cr_group r \<and> cr_engine_id q = cr_engine_id r) (pj_runs pj')"
    if r: "r \<in> set (pj_runs pj)" for r
  proof (rule list_ex_iff [THEN iffD2], rule bexI)
    let ?q = "if cr_id r = cr_id run then run_change e r else r"
    show "cr_id ?q = cr_id r \<and> cr_group ?q = cr_group r \<and> cr_engine_id ?q = cr_engine_id r" by simp
    have "?q \<in> set (upsert cr_id (cr_id run) run (run_change e) (pj_runs pj))"
      using r by (auto simp: upsert_def list_ex_iff)
    then show "?q \<in> set (pj_runs pj')" by (simp add: runs_eq save_run_def)
  qed
  have "active_ok pj' active'"
    unfolding active_ok_def list_all_iff
  proof (clarify)
    fix h engine pk
    assume "((h, engine), pk) \<in> set active'"
    with act consider "h = g" "engine = ev_engine_id e" "pk = cr_id run" | "((h, engine), pk) \<in> set active" by auto
    then show "list_ex (\<lambda>r. cr_id r = pk \<and> cr_group r = h \<and> cr_engine_id r = engine) (pj_runs pj')"
    proof cases
      case 1
      then show ?thesis using r0 by (auto simp: list_ex_iff run_row_key_def dest!: find_row_SomeD)
    next
      case 2
      with assms(2) obtain r where "r \<in> set (pj_runs pj)" "cr_id r = pk" "cr_group r = h" "cr_engine_id r = engine"
        by (auto simp: active_ok_def list_all_iff list_ex_iff)
      with keep [of r] show ?thesis by auto
    qed
  qed
  moreover have "pj' = pj\<lparr>pj_runs := pj_runs pj', pj_next_run := pj_next_run pj', pj_candidates := pj_candidates pj',
       pj_rules := pj_rules pj'\<rparr>"
    by (subst (1) frame) (simp add: save_run_def runs_eq)
  ultimately show thesis
    using that [of "cr_id run" rid infd] put ok' member by (simp add: runs_eq)
qed

end
