(* ===== verification/Projections.thy ===== *)
theory Projections
  imports Convergence "HOL-Library.Sublist"
begin

text \<open>
  The projection driver of \<^verbatim>\<open>forensics/projections.py\<close>: one event, one file's new events onto the
  tables of its groups, the rebuild of a group from its whole evidence, and the group selection of
  the rebuild command (\<^verbatim>\<open>management/commands/rebuild_audit_projections.py\<close>). \<open>None\<close> is an exception
  inside the atomic block, on which the caller keeps the tables it had.
\<close>

section \<open>One event\<close>

definition project_artifact :: "audit_event \<Rightarrow> delivery_artifact \<Rightarrow> projections \<Rightarrow> projections option" where
  "project_artifact e a pj = project_recipient_expectations e a (project_delivery_observation e a pj)"

text \<open>\<open>only_if b f\<close> runs \<open>f\<close> if \<open>b\<close> holds.\<close>

definition only_if :: "bool \<Rightarrow> ('s \<Rightarrow> 's option) \<Rightarrow> 's \<Rightarrow> 's option" where
  "only_if b f s = (if b then f s else Some s)"

definition project_event :: "audit_event \<Rightarrow> projections \<times> active_runs \<Rightarrow> (projections \<times> active_runs) option" where
  "project_event e st =
     (let (pj, active) = st
      in (case message_refs_for_event e of
            None \<Rightarrow> None
          | Some refs \<Rightarrow>
              (let (pj1, artifacts) = artifacts_for_refs e refs pj
               in (case fold_opt (project_artifact e) artifacts pj1 of
                     None \<Rightarrow> None
                   | Some pj2 \<Rightarrow>
                 (case only_if (ev_event_type e \<in> set NETWORK_EVENT_TYPES)
                         (project_network_observation e (case artifacts of [] \<Rightarrow> None | a # _ \<Rightarrow> Some a)) pj2 of
                     None \<Rightarrow> None
                   | Some pj3 \<Rightarrow>
                 (case only_if (should_project_convergence e active) (project_convergence e) (pj3, active) of
                     None \<Rightarrow> None
                   | Some (pj4, active') \<Rightarrow>
                 (case only_if (ev_event_type e = ''group_state_changed'') (project_state_delta e) pj4 of
                     None \<Rightarrow> None
                   | Some pj5 \<Rightarrow>
                 (case only_if (ev_event_type e = ''epoch_state_changed'') (project_epoch_transition e) pj5 of
                     None \<Rightarrow> None
                   | Some pj6 \<Rightarrow> Some (pj6, active')))))))))"

section \<open>Rebuilding a group\<close>

text \<open>
  Deleting an artifact deletes its observations and expectations and clears the reference of a
  network observation; deleting a run deletes its candidates and rule evaluations.
\<close>

definition clear_group_projections :: "nat \<Rightarrow> projections \<Rightarrow> projections" where
  "clear_group_projections g pj =
     (let gone = map da_id (filter (\<lambda>a. da_group a = g) (pj_artifacts pj));
          runs = map cr_id (filter (\<lambda>r. cr_group r = g) (pj_runs pj))
      in pj\<lparr>
        pj_network := map (\<lambda>n. if \<exists>a \<in> set gone. no_artifact n = Some a then n\<lparr>no_artifact := None\<rparr> else n)
          (filter (\<lambda>n. no_group n \<noteq> Some g) (pj_network pj)),
        pj_deltas := filter (\<lambda>d. sd_group d \<noteq> Some g) (pj_deltas pj),
        pj_transitions := filter (\<lambda>t. et_group t \<noteq> Some g) (pj_transitions pj),
        pj_artifacts := filter (\<lambda>a. da_group a \<noteq> g) (pj_artifacts pj),
        pj_observations := filter (\<lambda>d. dv_artifact d \<notin> set gone) (pj_observations pj),
        pj_expectations := filter (\<lambda>x. re_artifact x \<notin> set gone) (pj_expectations pj),
        pj_runs := filter (\<lambda>r. cr_group r \<noteq> g) (pj_runs pj),
        pj_candidates := filter (\<lambda>c. cc_run c \<notin> set runs) (pj_candidates pj),
        pj_rules := filter (\<lambda>c. ce_run c \<notin> set runs) (pj_rules pj) \<rparr>)"

definition rebuild_locked_group_projections ::
  "audit_file list \<Rightarrow> audit_event list \<Rightarrow> nat \<Rightarrow> projections \<Rightarrow> projections option" where
  "rebuild_locked_group_projections files events g pj =
     map_option fst (fold_opt project_event (valid_events_for_group files events g)
       (clear_group_projections g pj, []))"

text \<open>The group is fetched again under its lock: \<^verbatim>\<open>DoesNotExist\<close> if it is gone.\<close>

definition rebuild_group_projections :: "database \<Rightarrow> nat \<Rightarrow> database option" where
  "rebuild_group_projections db g =
     (if list_ex (\<lambda>x. g_id x = g) (db_groups db)
      then map_option (\<lambda>pj. db\<lparr>db_projections := pj\<rparr>)
             (rebuild_locked_group_projections (db_files db) (db_events db) g (db_projections db))
      else None)"

section \<open>Projecting one file's events\<close>

definition convergence_order_key :: "audit_event \<Rightarrow> bool \<times> int \<times> string \<times> nat" where
  "convergence_order_key e = (ev_wall_time_ms e = None,
     (case ev_wall_time_ms e of None \<Rightarrow> 0 | Some t \<Rightarrow> t), ev_engine_id e, ev_line_number e)"

type_synonym earliest = "((nat \<times> string) \<times> (bool \<times> int \<times> string \<times> nat)) list"

definition note_earliest :: "audit_event \<Rightarrow> earliest \<Rightarrow> earliest" where
  "note_earliest e d =
     (case ev_group e of
        None \<Rightarrow> d
      | Some g \<Rightarrow>
          (if \<not> event_may_need_inferred_convergence_state e then d
           else (let key = convergence_order_key e; recorder = (g, ev_engine_id e)
                 in (case map_of d recorder of
                       None \<Rightarrow> AList.update recorder key d
                     | Some current \<Rightarrow> if key < current then AList.update recorder key d else d))))"

definition note_backfilled :: "earliest \<Rightarrow> audit_event \<Rightarrow> nat list \<Rightarrow> nat list" where
  "note_backfilled earliest_uploaded e backfilled =
     (case ev_group e of
        None \<Rightarrow> backfilled
      | Some g \<Rightarrow>
          (case map_of earliest_uploaded (g, ev_engine_id e) of
             None \<Rightarrow> backfilled
           | Some key \<Rightarrow>
               (if g \<in> set backfilled \<or> \<not> event_may_need_inferred_convergence_state e then backfilled
                else if key < convergence_order_key e then backfilled @ [g] else backfilled)))"

definition groups_with_out_of_order_convergence_backfill ::
  "audit_event list \<Rightarrow> nat \<Rightarrow> audit_event list \<Rightarrow> nat list" where
  "groups_with_out_of_order_convergence_backfill stored_events file events =
     (let earliest_uploaded = fold note_earliest events [];
          recorders = map fst earliest_uploaded;
          stored = filter (\<lambda>e.
            (ev_event_type e \<in> set CONVERGENCE_EVENT_TYPES \<or> ev_event_type e = ''epoch_state_changed'' \<or>
             ev_context_convergence e \<noteq> JObj []) \<and>
            (\<exists>g \<in> fst ` set recorders. ev_group e = Some g) \<and> ev_engine_id e \<in> snd ` set recorders \<and>
            ev_parse_status e = STATUS_VALID \<and> ev_audit_file e \<noteq> file) stored_events
      in fold (note_backfilled earliest_uploaded) stored [])"

definition evidence_order_last :: "audit_event list \<Rightarrow> audit_event option" where
  "evidence_order_last es = (case sort_key db_order_key es of [] \<Rightarrow> None | xs \<Rightarrow> Some (last xs))"

definition run_is_active_inferred :: "audit_event list \<Rightarrow> convergence_run \<Rightarrow> bool" where
  "run_is_active_inferred events run =
     (case evidence_order_last (filter (\<lambda>e. ev_id e \<in> set (cr_evidence_events run)) events) of
        None \<Rightarrow> True
      | Some e \<Rightarrow> \<not> inferred_convergence_event_is_terminal e (cr_phase run))"

text \<open>The latest inferred run: no start time first, then the latest start, then the latest key.\<close>

definition run_recency :: "convergence_run \<Rightarrow> bool \<times> int \<times> nat" where
  "run_recency r = (cr_started_at_ms r = None,
     (case cr_started_at_ms r of None \<Rightarrow> 0 | Some t \<Rightarrow> t), cr_id r)"

definition latest_inferred_run :: "convergence_run list \<Rightarrow> nat \<Rightarrow> string \<Rightarrow> convergence_run option" where
  "latest_inferred_run runs g engine =
     (case sort_key run_recency (filter (\<lambda>r. cr_group r = g \<and> cr_engine_id r = engine \<and> cr_inferred r) runs) of
        [] \<Rightarrow> None | rs \<Rightarrow> Some (last rs))"

definition inferred_keys :: "audit_event list \<Rightarrow> (nat \<times> string) list" where
  "inferred_keys events = sorted_set (concat (map (\<lambda>e.
     (case ev_group e of
        None \<Rightarrow> []
      | Some g \<Rightarrow> if ev_engine_id e \<noteq> [] \<and> event_may_need_inferred_convergence_state e
                   then [(g, ev_engine_id e)] else [])) events))"

definition active_inferred_runs_for_events ::
  "audit_event list \<Rightarrow> convergence_run list \<Rightarrow> audit_event list \<Rightarrow> active_runs" where
  "active_inferred_runs_for_events stored_events runs events =
     concat (map (\<lambda>(g, engine).
       (case latest_inferred_run runs g engine of
          None \<Rightarrow> []
        | Some run \<Rightarrow> if run_is_active_inferred stored_events run then [((g, engine), cr_id run)] else []))
       (inferred_keys events))"

definition file_events_to_project :: "database \<Rightarrow> audit_file \<Rightarrow> nat list \<Rightarrow> audit_event list" where
  "file_events_to_project db f group_ids =
     sort_key db_order_key (filter (\<lambda>e. counted_event (db_files db) e \<and> ev_audit_file e = af_id f \<and>
       (\<exists>g \<in> set group_ids. ev_group e = Some g)) (db_events db))"

definition project_file_events :: "database \<Rightarrow> audit_file \<Rightarrow> nat list \<Rightarrow> projections option" where
  "project_file_events db f group_ids =
     (let locked = filter (\<lambda>g. g_id g \<in> set group_ids) (db_groups db);
          events = file_events_to_project db f group_ids;
          backfilled = groups_with_out_of_order_convergence_backfill (db_events db) (af_id f) events;
          rest = filter (\<lambda>e. \<forall>g \<in> set backfilled. ev_group e \<noteq> Some g) events
      in (case fold_opt (\<lambda>g. only_if (g \<in> g_id ` set locked)
                 (rebuild_locked_group_projections (db_files db) (db_events db) g))
               (sort backfilled) (db_projections db) of
            None \<Rightarrow> None
          | Some pj \<Rightarrow> map_option fst (fold_opt project_event rest
              (pj, active_inferred_runs_for_events (db_events db) (pj_runs pj) rest))))"

definition PROJECTION_AUDIT_SCHEMA_VERSIONS :: "string list" where
  "PROJECTION_AUDIT_SCHEMA_VERSIONS = [''marmot-forensics-audit/v4'']"

definition groups_of_file :: "database \<Rightarrow> audit_file \<Rightarrow> nat list" where
  "groups_of_file db f = sorted_set (af_groups f @
     the_list (map ev_group (filter (\<lambda>e. ev_audit_file e = af_id f) (db_events db))))"

definition rebuild_file_projections :: "database \<Rightarrow> audit_file \<Rightarrow> database option" where
  "rebuild_file_projections db f =
     (let group_ids = groups_of_file db f
      in if \<not> list_ex (\<lambda>v. v \<in> set PROJECTION_AUDIT_SCHEMA_VERSIONS) (af_schema_versions f) then Some db
         else if group_ids = [] then Some db
         else map_option (\<lambda>pj. db\<lparr>db_projections := pj\<rparr>) (project_file_events db f group_ids))"

section \<open>The rebuild command\<close>

text \<open>
  By slug, which is unique, or by group ref, which is not: no match and several matches both raise.
\<close>

definition group_by_selector :: "audit_group list \<Rightarrow> string \<Rightarrow> audit_group option" where
  "group_by_selector groups selector =
     (case find_row g_slug selector groups of
        Some g \<Rightarrow> Some g
      | None \<Rightarrow> (case filter (\<lambda>g. g_group_ref g = selector) groups of [g] \<Rightarrow> Some g | _ \<Rightarrow> None))"

definition add_unseen :: "audit_group \<Rightarrow> audit_group list \<Rightarrow> audit_group list" where
  "add_unseen g groups = (if g_id g \<in> g_id ` set groups then groups else groups @ [g])"

definition groups_from_selectors :: "database \<Rightarrow> string list \<Rightarrow> audit_group list option" where
  "groups_from_selectors db selectors =
     fold_opt (\<lambda>selector groups. map_option (\<lambda>g. add_unseen g groups)
       (group_by_selector (db_groups db) selector)) selectors []"

definition groups_from_audit_file_ids :: "database \<Rightarrow> nat list \<Rightarrow> audit_group list option" where
  "groups_from_audit_file_ids db ids =
     fold_opt (\<lambda>i groups. map_option (\<lambda>f. fold add_unseen
         (sort_key g_id (filter (\<lambda>g. g_id g \<in> set (groups_of_file db f)) (db_groups db))) groups)
       (find_row af_id i (db_files db))) ids []"

definition groups_with_projection_evidence :: "database \<Rightarrow> audit_group list" where
  "groups_with_projection_evidence db =
     sort_key g_id (filter (\<lambda>g. list_ex (\<lambda>e. ev_parse_status e = STATUS_VALID \<and>
         ev_schema_version e \<in> set PROJECTION_AUDIT_SCHEMA_VERSIONS \<and> ev_group e = Some (g_id g)) (db_events db))
       (db_groups db))"

definition selected_groups :: "database \<Rightarrow> string list \<Rightarrow> nat list \<Rightarrow> audit_group list option" where
  "selected_groups db selectors ids =
     (if selectors \<noteq> [] then groups_from_selectors db selectors
      else if ids \<noteq> [] then groups_from_audit_file_ids db ids
      else Some (groups_with_projection_evidence db))"

text \<open>One transaction per group: a group that fails leaves the earlier ones rebuilt.\<close>

fun rebuild_groups :: "nat list \<Rightarrow> database \<Rightarrow> database \<times> bool" where
  "rebuild_groups [] db = (db, True)"
| "rebuild_groups (g # gs) db =
     (case rebuild_group_projections db g of
        None \<Rightarrow> (db, False)
      | Some db' \<Rightarrow> rebuild_groups gs db')"

definition rebuild_audit_projections :: "database \<Rightarrow> string list \<Rightarrow> nat list \<Rightarrow> database \<times> bool" where
  "rebuild_audit_projections db selectors ids =
     (case selected_groups db selectors ids of
        None \<Rightarrow> (db, False)
      | Some groups \<Rightarrow> rebuild_groups (map g_id groups) db)"

section \<open>An example history\<close>

text \<open>
  One recorder in group 1: file 1 holds an event of an inferred run and an event of the explicit run
  \<open>r\<close>; file 2 a later event of an inferred run. All refer to the message \<open>ab\<close>.
\<close>

definition example_v4_file :: "nat \<Rightarrow> audit_file" where
  "example_v4_file n = example_file\<lparr>af_id := n, af_schema_versions := [''marmot-forensics-audit/v4'']\<rparr>"

definition example_run_event :: "nat \<Rightarrow> nat \<Rightarrow> dict \<Rightarrow> audit_event" where
  "example_run_event n file ctx = (example_row n ''aa'' (int n) ''ab'')\<lparr>ev_audit_file := file,
     ev_event_type := ''convergence_run_state'', ev_outcome := ''open'', ev_context_convergence := JObj ctx\<rparr>"

definition example_db :: database where
  "example_db = empty_database\<lparr>
     db_groups := [\<lparr> g_id = 1, g_name = ''g'', g_slug = ''g'', g_group_ref = ''01'', g_divergent_message_count = 0,
       g_notes = [], g_created_at = 0, g_updated_at = 0 \<rparr>],
     db_files := [example_v4_file 1],
     db_events := [example_run_event 1 1 [], example_run_event 2 1 [(''run_id'', JStr ''r'')]] \<rparr>"

definition example_projected :: database where
  "example_projected = the (rebuild_file_projections example_db (example_v4_file 1))"

definition example_append :: "database \<Rightarrow> database" where
  "example_append db = db\<lparr>db_files := db_files db @ [example_v4_file 2],
     db_events := db_events db @ [example_run_event 3 2 []]\<rparr>"

section \<open>What one event changes\<close>

text \<open>The tables of the two halves, with their key sequences.\<close>

definition artifact_part :: "projections \<Rightarrow> delivery_artifact list \<times> nat" where
  "artifact_part pj = (pj_artifacts pj, pj_next_artifact pj)"

definition run_part ::
  "projections \<Rightarrow> convergence_run list \<times> nat \<times> convergence_candidate list \<times> rule_evaluation list" where
  "run_part pj = (pj_runs pj, pj_next_run pj, pj_candidates pj, pj_rules pj)"

definition observation_part :: "projections \<Rightarrow> delivery_observation list" where
  "observation_part pj = pj_observations pj"

lemmas part_defs = artifact_part_def run_part_def observation_part_def

lemma runs_ok_cong: "run_part pj = run_part pj' \<Longrightarrow> runs_ok pj = runs_ok pj'"
  by (simp add: run_part_def runs_ok_def)

lemma active_ok_cong: "run_part pj = run_part pj' \<Longrightarrow> active_ok pj active = active_ok pj' active"
  by (simp add: run_part_def active_ok_def)

lemma artifacts_for_refs_parts:
  assumes "artifacts_for_refs e refs pj = (pj', as)"
  shows "run_part pj' = run_part pj" "observation_part pj' = observation_part pj"
  by (subst artifacts_for_refs_frame [OF assms], simp add: part_defs)+

lemma project_artifact_parts:
  assumes "project_artifact e a pj = Some pj'"
  shows "artifact_part pj' = artifact_part pj" "run_part pj' = run_part pj"
    "observation_part pj' = observation_part (project_delivery_observation e a pj)"
  using assms
  by (auto simp: project_artifact_def project_recipient_expectations_def project_delivery_observation_def
      part_defs Let_def split: option.splits if_splits)

lemma project_artifacts_parts:
  assumes "fold_opt (project_artifact e) as pj = Some pj'"
  shows "artifact_part pj' = artifact_part pj \<and> run_part pj' = run_part pj"
  by (rule fold_opt_invariant [OF assms]) (auto simp: project_artifact_parts)

lemma single_parts:
  "project_network_observation e a pj = Some pj' \<Longrightarrow> artifact_part pj' = artifact_part pj \<and>
     run_part pj' = run_part pj \<and> observation_part pj' = observation_part pj"
  "project_state_delta e pj = Some pj' \<Longrightarrow> artifact_part pj' = artifact_part pj \<and>
     run_part pj' = run_part pj \<and> observation_part pj' = observation_part pj"
  "project_epoch_transition e pj = Some pj' \<Longrightarrow> artifact_part pj' = artifact_part pj \<and>
     run_part pj' = run_part pj \<and> observation_part pj' = observation_part pj"
  by (auto simp: project_network_observation_def project_state_delta_def project_epoch_transition_def
      part_defs Let_def split: if_splits)

lemma only_if_cases:
  "only_if b f s = Some s' \<Longrightarrow> (b \<Longrightarrow> f s = Some s' \<Longrightarrow> thesis) \<Longrightarrow> (\<not> b \<Longrightarrow> s' = s \<Longrightarrow> thesis) \<Longrightarrow> thesis"
  by (simp add: only_if_def split: if_splits)

lemma only_if_parts:
  assumes "only_if b f pj = Some pj'"
    and "\<And>pj pj'. f pj = Some pj' \<Longrightarrow> artifact_part pj' = artifact_part pj \<and>
      run_part pj' = run_part pj \<and> observation_part pj' = observation_part pj"
  shows "artifact_part pj' = artifact_part pj \<and> run_part pj' = run_part pj \<and> observation_part pj' = observation_part pj"
  using assms(1) by (rule only_if_cases) (simp_all add: assms(2))

text \<open>
  The anatomy of \<open>project_event\<close>: the artifact half is that of \<open>artifacts_for_refs\<close>, the observations
  come from the loop over the artifacts, and the run half is that of \<open>project_convergence\<close>.
\<close>

lemma project_event_anatomy:
  assumes "project_event e (pj, active) = Some (pj', active')"
  obtains refs pj1 as pj2 pj3 pj4 where
    "message_refs_for_event e = Some refs" "artifacts_for_refs e refs pj = (pj1, as)"
    "fold_opt (project_artifact e) as pj1 = Some pj2"
    "artifact_part pj3 = artifact_part pj1" "run_part pj3 = run_part pj"
    "only_if (should_project_convergence e active) (project_convergence e) (pj3, active) = Some (pj4, active')"
    "artifact_part pj' = artifact_part pj4" "run_part pj' = run_part pj4"
    "observation_part pj3 = observation_part pj2" "observation_part pj' = observation_part pj4"
proof -
  obtain refs where refs: "message_refs_for_event e = Some refs"
    using assms by (auto simp: project_event_def split: option.splits)
  obtain pj1 as where as: "artifacts_for_refs e refs pj = (pj1, as)" by (cases "artifacts_for_refs e refs pj")
  obtain pj2 where p2: "fold_opt (project_artifact e) as pj1 = Some pj2"
    using assms refs as by (auto simp: project_event_def split: option.splits)
  let ?net = "project_network_observation e (case as of [] \<Rightarrow> None | a # _ \<Rightarrow> Some a)"
  obtain pj3 where p3: "only_if (ev_event_type e \<in> set NETWORK_EVENT_TYPES) ?net pj2 = Some pj3"
    using assms refs as p2 by (auto simp: project_event_def split: option.splits)
  obtain pj4 where p4: "only_if (should_project_convergence e active) (project_convergence e) (pj3, active) = Some (pj4, active')"
    and rest: "(case only_if (ev_event_type e = ''group_state_changed'') (project_state_delta e) pj4 of
        None \<Rightarrow> None
      | Some pj5 \<Rightarrow> only_if (ev_event_type e = ''epoch_state_changed'') (project_epoch_transition e) pj5) = Some pj'"
    using assms refs as p2 p3 by (auto simp: project_event_def split: option.splits)
  from rest obtain pj5 where p5: "only_if (ev_event_type e = ''group_state_changed'') (project_state_delta e) pj4 = Some pj5"
    and p6: "only_if (ev_event_type e = ''epoch_state_changed'') (project_epoch_transition e) pj5 = Some pj'"
    by (auto split: option.splits)
  have "artifact_part pj3 = artifact_part pj2 \<and> run_part pj3 = run_part pj2 \<and> observation_part pj3 = observation_part pj2"
    by (rule only_if_parts [OF p3]) (rule single_parts)
  moreover have "artifact_part pj5 = artifact_part pj4 \<and> run_part pj5 = run_part pj4 \<and> observation_part pj5 = observation_part pj4"
    by (rule only_if_parts [OF p5]) (rule single_parts)
  moreover have "artifact_part pj' = artifact_part pj5 \<and> run_part pj' = run_part pj5 \<and> observation_part pj' = observation_part pj5"
    by (rule only_if_parts [OF p6]) (rule single_parts)
  moreover note project_artifacts_parts [OF p2] artifacts_for_refs_parts [OF as]
  ultimately show thesis using that [OF refs as p2 _ _ p4] by simp
qed

section \<open>Unique keys\<close>

definition artifacts_ok :: "projections \<Rightarrow> bool" where
  "artifacts_ok pj \<longleftrightarrow> distinct (map artifact_key (pj_artifacts pj)) \<and> distinct (map da_id (pj_artifacts pj)) \<and>
     list_all (\<lambda>i. i < pj_next_artifact pj) (map da_id (pj_artifacts pj))"

definition tables_ok :: "projections \<Rightarrow> bool" where
  "tables_ok pj \<longleftrightarrow> artifacts_ok pj \<and> distinct (map observation_key (pj_observations pj)) \<and> runs_ok pj"

lemma artifact_for_message_ok:
  assumes "artifacts_ok pj" "artifact_for_message e ref pj = (pj', a)"
  shows "artifacts_ok pj'"
proof (cases "ev_group e")
  case None
  then show ?thesis using assms by (simp add: artifact_for_message_def)
next
  case (Some g)
  let ?k = "(g, mr_msg_id ref)"
  let ?rows = "upsert artifact_key ?k (artifact_fresh (pj_next_artifact pj) g e ref) (artifact_change e ref) (pj_artifacts pj)"
  have rows: "pj_artifacts pj' = ?rows"
    and nxt: "pj_next_artifact pj' = (if find_row artifact_key ?k (pj_artifacts pj) = None
      then Suc (pj_next_artifact pj) else pj_next_artifact pj)"
    using assms(2) Some by (auto simp: artifact_for_message_def Let_def)
  have key: "distinct (map artifact_key (pj_artifacts pj'))"
    using assms(1) unfolding rows
    by (intro distinct_upsert) (simp_all add: artifacts_ok_def artifact_key_def)
  show ?thesis
  proof (cases "find_row artifact_key ?k (pj_artifacts pj)")
    case None
    then have "\<forall>x \<in> set (pj_artifacts pj). artifact_key x \<noteq> ?k" by (auto simp: find_row_None_iff image_iff)
    then have "pj_artifacts pj' = pj_artifacts pj @ [artifact_change e ref (artifact_fresh (pj_next_artifact pj) g e ref)]"
      by (auto simp: rows upsert_def list_ex_iff)
    then show ?thesis
      using key nxt None assms(1) by (auto simp: artifacts_ok_def list_all_iff)
  next
    case (Some x)
    then have "list_ex (\<lambda>r. artifact_key r = ?k) (pj_artifacts pj)" by (simp add: list_ex_find_row)
    then have "map da_id (pj_artifacts pj') = map da_id (pj_artifacts pj)"
      by (simp add: rows upsert_def if_distrib cong: if_cong)
    then show ?thesis using key nxt Some assms(1) unfolding artifacts_ok_def by simp
  qed
qed

lemma artifacts_for_refs_ok:
  "artifacts_ok pj \<Longrightarrow> artifacts_for_refs e refs pj = (pj', as) \<Longrightarrow> artifacts_ok pj'"
  by (induction refs arbitrary: pj pj' as)
    (auto simp: Let_def split: prod.splits dest: artifact_for_message_ok)

lemma artifacts_ok_cong: "artifact_part pj = artifact_part pj' \<Longrightarrow> artifacts_ok pj = artifacts_ok pj'"
  by (simp add: artifact_part_def artifacts_ok_def)

lemma observation_put:
  "ev_engine_id e \<noteq> [] \<Longrightarrow> pj_observations (project_delivery_observation e a pj) =
     observations.put (pj_next_observation pj, da_id a, e) (pj_observations pj)"
  by (simp add: project_delivery_observation_def observations.put_def Let_def)

lemma observation_skip: "ev_engine_id e = [] \<Longrightarrow> project_delivery_observation e a pj = pj"
  by (simp add: project_delivery_observation_def)

lemma observation_distinct:
  "distinct (map observation_key (pj_observations pj)) \<Longrightarrow>
   distinct (map observation_key (pj_observations (project_delivery_observation e a pj)))"
  by (cases "ev_engine_id e = []")
    (simp_all add: observation_put observation_skip observations.distinct_put)

lemma project_artifacts_distinct:
  assumes "fold_opt (project_artifact e) as pj = Some pj'" "distinct (map observation_key (pj_observations pj))"
  shows "distinct (map observation_key (pj_observations pj'))"
  using fold_opt_invariant [OF assms(1), of "\<lambda>pj. distinct (map observation_key (pj_observations pj))"] assms(2)
    project_artifact_parts(3) observation_distinct by (metis observation_part_def)

lemma convergence_parts:
  assumes "runs_ok pj" "active_ok pj active" "project_convergence e (pj, active) = Some (pj', active')"
  shows "artifact_part pj' = artifact_part pj \<and> observation_part pj' = observation_part pj \<and>
    runs_ok pj' \<and> active_ok pj' active'"
proof (cases "\<exists>g. ev_group e = Some g \<and> ev_engine_id e \<noteq> []")
  case True
  then obtain g where g: "ev_group e = Some g" "ev_engine_id e \<noteq> []" by blast
  obtain pk rid infd where "runs_ok pj'" "active_ok pj' active'"
    and frame: "pj' = pj\<lparr>pj_runs := pj_runs pj', pj_next_run := pj_next_run pj', pj_candidates := pj_candidates pj',
       pj_rules := pj_rules pj'\<rparr>"
    using convergence_step [OF assms g] by metis
  moreover have "artifact_part pj' = artifact_part pj" "observation_part pj' = observation_part pj"
    by (subst frame, simp add: part_defs)+
  ultimately show ?thesis by simp
next
  case False
  then have "ev_group e = None \<or> ev_engine_id e = []" by (cases "ev_group e") auto
  with assms show ?thesis by (simp add: project_convergence_skip)
qed

lemma project_event_ok:
  assumes "project_event e (pj, active) = Some (pj', active')" "tables_ok pj" "active_ok pj active"
  shows "tables_ok pj' \<and> active_ok pj' active'"
proof -
  obtain refs pj1 as pj2 pj3 pj4 where
    as: "artifacts_for_refs e refs pj = (pj1, as)" and p2: "fold_opt (project_artifact e) as pj1 = Some pj2"
    and p3: "artifact_part pj3 = artifact_part pj1" "run_part pj3 = run_part pj" "observation_part pj3 = observation_part pj2"
    and p4: "only_if (should_project_convergence e active) (project_convergence e) (pj3, active) = Some (pj4, active')"
    and p6: "artifact_part pj' = artifact_part pj4" "run_part pj' = run_part pj4" "observation_part pj' = observation_part pj4"
    using project_event_anatomy [OF assms(1)] by metis
  have "runs_ok pj3" "active_ok pj3 active"
    using assms(2,3) runs_ok_cong [OF p3(2)] active_ok_cong [OF p3(2)] by (simp_all add: tables_ok_def)
  then have "artifact_part pj4 = artifact_part pj3 \<and> observation_part pj4 = observation_part pj3 \<and>
      runs_ok pj4 \<and> active_ok pj4 active'"
    using p4 by (auto elim!: only_if_cases dest: convergence_parts)
  moreover have "artifacts_ok pj1"
    using artifacts_for_refs_ok [OF _ as] assms(2) by (simp add: tables_ok_def)
  moreover have "distinct (map observation_key (pj_observations pj2))"
    using project_artifacts_distinct [OF p2] artifacts_for_refs_parts(2) [OF as] assms(2)
    by (simp add: tables_ok_def observation_part_def)
  ultimately show ?thesis
    using p3 p6 runs_ok_cong [OF p6(2)] active_ok_cong [OF p6(2)] artifacts_ok_cong [of pj' pj1]
    by (simp add: tables_ok_def observation_part_def)
qed

lemma project_events_ok:
  assumes "fold_opt project_event es (pj, active) = Some (pj', active')" "tables_ok pj" "active_ok pj active"
  shows "tables_ok pj' \<and> active_ok pj' active'"
  using fold_opt_invariant [OF assms(1), of "\<lambda>(pj, active). tables_ok pj \<and> active_ok pj active"]
    assms(2,3) project_event_ok by auto

lemma distinct_map_filter: "distinct (map f xs) \<Longrightarrow> distinct (map f (filter P xs))"
  by (induction xs) auto

lemma clear_ok: "tables_ok pj \<Longrightarrow> tables_ok (clear_group_projections g pj)"
  by (auto simp: tables_ok_def artifacts_ok_def runs_ok_def clear_group_projections_def Let_def list_all_iff
      intro!: distinct_map_filter)

lemma rebuild_locked_ok:
  assumes "rebuild_locked_group_projections files events g pj = Some pj'" "tables_ok pj"
  shows "tables_ok pj'"
proof -
  obtain active' where "fold_opt project_event (valid_events_for_group files events g)
      (clear_group_projections g pj, []) = Some (pj', active')"
    using assms(1) by (auto simp: rebuild_locked_group_projections_def)
  from project_events_ok [OF this clear_ok [OF assms(2)]] show ?thesis by (simp add: active_ok_def)
qed

lemma active_inferred_runs_ok:
  "active_ok pj (active_inferred_runs_for_events stored (pj_runs pj) events)"
proof -
  have "run \<in> set runs \<and> cr_group run = g \<and> cr_engine_id run = engine"
    if "latest_inferred_run runs g engine = Some run" for runs g engine run
  proof -
    let ?rs = "sort_key run_recency (filter (\<lambda>r. cr_group r = g \<and> cr_engine_id r = engine \<and> cr_inferred r) runs)"
    have "?rs \<noteq> []" "run = last ?rs" using that by (auto simp: latest_inferred_run_def split: list.splits)
    then have "run \<in> set ?rs" using last_in_set by metis
    then show ?thesis by simp
  qed
  then show ?thesis
    by (auto simp: active_ok_def list_all_iff list_ex_iff active_inferred_runs_for_events_def
        split: option.splits if_splits)
qed

lemma project_file_ok:
  assumes "project_file_events db f group_ids = Some pj'" "tables_ok (db_projections db)"
  shows "tables_ok pj'"
proof -
  let ?es = "file_events_to_project db f group_ids"
  let ?bf = "groups_with_out_of_order_convergence_backfill (db_events db) (af_id f) ?es"
  let ?rest = "filter (\<lambda>e. \<forall>g \<in> set ?bf. ev_group e \<noteq> Some g) ?es"
  let ?step = "\<lambda>g. only_if (g \<in> g_id ` set (filter (\<lambda>g. g_id g \<in> set group_ids) (db_groups db)))
     (rebuild_locked_group_projections (db_files db) (db_events db) g)"
  obtain pj active' where pj: "fold_opt ?step (sort ?bf) (db_projections db) = Some pj"
    and rest: "fold_opt project_event ?rest (pj, active_inferred_runs_for_events (db_events db) (pj_runs pj) ?rest)
      = Some (pj', active')"
    using assms(1) by (auto simp: project_file_events_def Let_def split: option.splits)
  have "tables_ok pj"
    using pj assms(2) by (rule fold_opt_invariant) (auto elim!: only_if_cases dest: rebuild_locked_ok)
  with project_events_ok [OF rest] active_inferred_runs_ok show ?thesis by blast
qed

lemma rebuild_groups_ok: "tables_ok (db_projections db) \<Longrightarrow> tables_ok (db_projections (fst (rebuild_groups gs db)))"
  by (induction gs arbitrary: db)
    (auto simp: rebuild_group_projections_def dest: rebuild_locked_ok split: option.splits if_splits)

lemma rebuild_file_ok:
  "rebuild_file_projections db f = Some db' \<Longrightarrow> tables_ok (db_projections db) \<Longrightarrow> tables_ok (db_projections db')"
  by (auto simp: rebuild_file_projections_def Let_def dest: project_file_ok split: if_splits)

text \<open>
  The unique constraints of the derived tables hold throughout. Projecting a file and the
  rebuild command keep at most one artifact per group and message id, one observation per artifact and
  engine, one run per group, engine and run id, one candidate per run and branch, and distinct primary
  keys below the sequences, whatever the evidence.
\<close>

theorem projection_keys_unique:
  assumes "tables_ok (db_projections db)"
  shows "(case rebuild_file_projections db f of None \<Rightarrow> True | Some db' \<Rightarrow> tables_ok (db_projections db')) \<and>
    tables_ok (db_projections (fst (rebuild_audit_projections db selectors ids)))"
  using assms
  by (auto simp: rebuild_audit_projections_def intro: rebuild_file_ok rebuild_groups_ok split: option.splits)

theorem projection_keys_unique_witness:
  "tables_ok (db_projections example_db) \<and>
   (case rebuild_file_projections example_db (example_v4_file 1) of None \<Rightarrow> True | Some db' \<Rightarrow> tables_ok (db_projections db')) \<and>
   tables_ok (db_projections (fst (rebuild_audit_projections example_db [''g''] [])))"
proof -
  have "tables_ok (db_projections example_db)" by code_simp
  then show ?thesis
    using projection_keys_unique [of example_db "example_v4_file 1" "[''g'']" "[]"] by (intro conjI) simp_all
qed

section \<open>Artifacts summarise the evidence\<close>

definition refs_of :: "audit_event \<Rightarrow> string set" where
  "refs_of e = (case message_refs_for_event e of None \<Rightarrow> {} | Some refs \<Rightarrow> mr_msg_id ` set refs)"

text \<open>
  The artifacts of a group are exactly those the events refer to, each with the earliest and latest
  time of the events that refer to it and with those events as its evidence.
\<close>

definition artifacts_exact :: "nat \<Rightarrow> audit_event list \<Rightarrow> projections \<Rightarrow> bool" where
  "artifacts_exact g es pj \<longleftrightarrow>
     (let rows = filter (\<lambda>a. da_group a = g) (pj_artifacts pj) in
      distinct (map da_artifact_id rows) \<and>
      set (map da_artifact_id rows) = (\<Union>e \<in> set es. refs_of e) \<and>
      list_all (\<lambda>a. (let refs = filter (\<lambda>e. da_artifact_id a \<in> refs_of e) es in
        da_first_seen_ms a = opt_min (times_in refs) \<and> da_last_seen_ms a = opt_max (times_in refs) \<and>
        set (da_evidence_events a) = ev_id ` set refs)) rows)"

definition inputs_of :: "audit_event list \<Rightarrow> artifact_input list" where
  "inputs_of es = concat (map artifact_inputs es)"

lemma artifact_inputs_key:
  assumes "ev_group e = Some g"
  shows "(\<lambda>(pk, g, e, ref). (ev_wall_time_ms e, ev_id e)) ` set (artifacts.inputs_for (g, m) (artifact_inputs e)) =
    (if m \<in> refs_of e then {(ev_wall_time_ms e, ev_id e)} else {})"
proof (cases "message_refs_for_event e")
  case None
  then show ?thesis using assms by (simp add: artifact_inputs_def refs_of_def artifacts.inputs_for_def)
next
  case (Some refs)
  then show ?thesis using assms
    by (auto simp: artifact_inputs_def refs_of_def artifacts.inputs_for_def image_iff)
qed

lemma inputs_of_view:
  assumes "list_all (\<lambda>e. ev_group e = Some g) es"
  shows "(\<lambda>(pk, g, e, ref). (ev_wall_time_ms e, ev_id e)) ` set (artifacts.inputs_for (g, m) (inputs_of es)) =
    (\<lambda>e. (ev_wall_time_ms e, ev_id e)) ` set (filter (\<lambda>e. m \<in> refs_of e) es)"
proof -
  have "artifacts.inputs_for (g, m) (inputs_of es) = concat (map (\<lambda>e. artifacts.inputs_for (g, m) (artifact_inputs e)) es)"
    by (simp add: artifacts.inputs_for_def inputs_of_def filter_concat o_def)
  then have "(\<lambda>(pk, g, e, ref). (ev_wall_time_ms e, ev_id e)) ` set (artifacts.inputs_for (g, m) (inputs_of es)) =
      (\<Union>e \<in> set es. (\<lambda>(pk, g, e, ref). (ev_wall_time_ms e, ev_id e)) ` set (artifacts.inputs_for (g, m) (artifact_inputs e)))"
    by (simp add: image_UN)
  also have "\<dots> = (\<Union>e \<in> set es. if m \<in> refs_of e then {(ev_wall_time_ms e, ev_id e)} else {})"
    using assms by (intro SUP_cong refl artifact_inputs_key) (simp add: list_all_iff)
  finally show ?thesis by auto
qed

text \<open>Facts that depend on the times and the identities of a set of inputs only.\<close>

lemma extrema_by_view:
  assumes "(\<lambda>x. (t x, i x)) ` set xs = (\<lambda>y. (t' y, i' y)) ` set ys"
  shows "opt_min (the_list (map t xs)) = opt_min (the_list (map t' ys))"
    and "opt_max (the_list (map t xs)) = opt_max (the_list (map t' ys))"
    and "i ` set xs = i' ` set ys"
    and "xs = [] \<longleftrightarrow> ys = []"
proof -
  have times: "set (map t xs) = set (map t' ys)"
    using arg_cong [OF assms, of "\<lambda>S. fst ` S"] by (simp add: image_image)
  then have "set (the_list (map t xs)) = set (the_list (map t' ys))" by (auto simp del: set_map)
  then show "opt_min (the_list (map t xs)) = opt_min (the_list (map t' ys))"
    "opt_max (the_list (map t xs)) = opt_max (the_list (map t' ys))"
    by (auto simp: opt_min_eq opt_max_eq)
  show "i ` set xs = i' ` set ys"
    using arg_cong [OF assms, of "\<lambda>S. snd ` S"] by (simp add: image_image)
  show "xs = [] \<longleftrightarrow> ys = []" using assms by auto
qed

lemma summarises_exact:
  assumes group: "list_all (\<lambda>e. ev_group e = Some g) es"
    and sum: "artifacts.summarises (filter (\<lambda>a. da_group a = g) (pj_artifacts pj)) (inputs_of es)"
  shows "artifacts_exact g es pj"
proof -
  let ?rows = "filter (\<lambda>a. da_group a = g) (pj_artifacts pj)"
  have key: "artifact_key a = (g, da_artifact_id a)" if "a \<in> set ?rows" for a
    using that by (simp add: artifact_key_def)
  have "distinct (map artifact_key ?rows)" using sum by (simp add: artifacts.summarises_def)
  moreover have "map artifact_key ?rows = map (Pair g) (map da_artifact_id ?rows)" using key by simp
  ultimately have dist: "distinct (map da_artifact_id ?rows)" using distinct_map by metis
  let ?view = "\<lambda>x :: artifact_input. (\<lambda>(pk, g, e, ref). (ev_wall_time_ms e, ev_id e)) x"
  have view: "(\<lambda>x. (case x of (pk, g, e, ref) \<Rightarrow> ev_wall_time_ms e, case x of (pk, g, e, ref) \<Rightarrow> ev_id e)) `
      set (artifacts.inputs_for (g, m) (inputs_of es)) =
      (\<lambda>e. (ev_wall_time_ms e, ev_id e)) ` set (filter (\<lambda>e. m \<in> refs_of e) es)" for m
    using inputs_of_view [OF group, of m] by (simp add: case_prod_beta)
  note by_view = extrema_by_view [OF view]
  have ids: "set (map da_artifact_id ?rows) = (\<Union>e \<in> set es. refs_of e)"
  proof (intro set_eqI iffI)
    fix m
    assume "m \<in> set (map da_artifact_id ?rows)"
    then obtain a where a: "a \<in> set ?rows" "da_artifact_id a = m" by auto
    have "artifacts.inputs_for (g, m) (inputs_of es) \<noteq> []"
      using artifacts.summarised_row(1) [OF sum a(1)] a(2) key [OF a(1)] by simp
    then show "m \<in> (\<Union>e \<in> set es. refs_of e)" using by_view(4) [of m] by (auto simp: filter_empty_conv)
  next
    fix m
    assume "m \<in> (\<Union>e \<in> set es. refs_of e)"
    then have "artifacts.inputs_for (g, m) (inputs_of es) \<noteq> []"
      using by_view(4) [of m] by (auto simp: filter_empty_conv)
    then have "find_row artifact_key (g, m) ?rows \<noteq> None"
      using artifacts.summarised_at(1) [OF sum] by blast
    then show "m \<in> set (map da_artifact_id ?rows)"
      by (auto simp: artifact_key_def dest!: find_row_SomeD)
  qed
  have "da_first_seen_ms a = opt_min (times_in (filter (\<lambda>e. da_artifact_id a \<in> refs_of e) es)) \<and>
      da_last_seen_ms a = opt_max (times_in (filter (\<lambda>e. da_artifact_id a \<in> refs_of e) es)) \<and>
      set (da_evidence_events a) = ev_id ` set (filter (\<lambda>e. da_artifact_id a \<in> refs_of e) es)"
    if a: "a \<in> set ?rows" for a
    using artifacts.summarised_row(2-4) [OF sum a] by_view(1-3) [of "da_artifact_id a"] key [OF a]
    by (simp add: times_in_def)
  with dist ids show ?thesis by (simp add: artifacts_exact_def list_all_iff)
qed

lemma exact_summarises:
  assumes group: "list_all (\<lambda>e. ev_group e = Some g) es" and exact: "artifacts_exact g es pj"
  shows "artifacts.summarises (filter (\<lambda>a. da_group a = g) (pj_artifacts pj)) (inputs_of es)"
proof -
  let ?rows = "filter (\<lambda>a. da_group a = g) (pj_artifacts pj)"
  have key: "artifact_key a = (g, da_artifact_id a)" if "a \<in> set ?rows" for a
    using that by (simp add: artifact_key_def)
  have view: "(\<lambda>x. (case x of (pk, g, e, ref) \<Rightarrow> ev_wall_time_ms e, case x of (pk, g, e, ref) \<Rightarrow> ev_id e)) `
      set (artifacts.inputs_for (g, m) (inputs_of es)) =
      (\<lambda>e. (ev_wall_time_ms e, ev_id e)) ` set (filter (\<lambda>e. m \<in> refs_of e) es)" for m
    using inputs_of_view [OF group, of m] by (simp add: case_prod_beta)
  note by_view = extrema_by_view [OF view]
  have "map artifact_key ?rows = map (Pair g) (map da_artifact_id ?rows)" using key by simp
  moreover have "distinct (map (Pair g) (map da_artifact_id ?rows))"
    using exact by (auto simp: artifacts_exact_def Let_def distinct_map inj_on_def)
  ultimately have dist: "distinct (map artifact_key ?rows)" by (simp only:)
  have "case find_row artifact_key k ?rows of
      None \<Rightarrow> artifacts.inputs_for k (inputs_of es) = []
    | Some a \<Rightarrow> artifacts.inputs_for k (inputs_of es) \<noteq> [] \<and>
        da_first_seen_ms a = opt_min (the_list (map (\<lambda>(pk, g, e, ref). ev_wall_time_ms e) (artifacts.inputs_for k (inputs_of es)))) \<and>
        da_last_seen_ms a = opt_max (the_list (map (\<lambda>(pk, g, e, ref). ev_wall_time_ms e) (artifacts.inputs_for k (inputs_of es)))) \<and>
        set (da_evidence_events a) = (\<lambda>(pk, g, e, ref). ev_id e) ` set (artifacts.inputs_for k (inputs_of es))" for k
  proof (cases "find_row artifact_key k ?rows")
    case None
    have "fst (case x of (pk, g, e, ref) \<Rightarrow> (g, mr_msg_id ref)) = g" if "x \<in> set (inputs_of es)" for x
      using that group by (auto simp: inputs_of_def artifact_inputs_def list_all_iff split: option.splits)
    then have other: "artifacts.inputs_for k (inputs_of es) = []" if "fst k \<noteq> g"
      using that unfolding artifacts.inputs_for_def filter_empty_conv by metis
    have "artifacts.inputs_for k (inputs_of es) = []" if "fst k = g"
    proof -
      define m where "m = snd k"
      have k: "k = (g, m)" using that by (cases k) (simp add: m_def)
      have "m \<notin> set (map da_artifact_id ?rows)"
        using None by (auto simp: k find_row_None_iff artifact_key_def image_iff)
      then have "filter (\<lambda>e. m \<in> refs_of e) es = []"
        using exact by (auto simp: artifacts_exact_def Let_def filter_empty_conv)
      then show ?thesis using by_view(4) [of m] k by simp
    qed
    with other None show ?thesis by (cases "fst k = g") simp_all
  next
    case (Some a)
    then have a: "a \<in> set ?rows" "k = (g, da_artifact_id a)" by (auto simp: artifact_key_def dest!: find_row_SomeD)
    have ids: "set (map da_artifact_id ?rows) = (\<Union>e \<in> set es. refs_of e)"
      using exact unfolding artifacts_exact_def Let_def by blast
    have "da_artifact_id a \<in> (\<Union>e \<in> set es. refs_of e)"
      unfolding ids [symmetric] set_map using a(1) by (rule imageI)
    then have "filter (\<lambda>e. da_artifact_id a \<in> refs_of e) es \<noteq> []" by (auto simp: filter_empty_conv)
    with exact a Some by_view [of "da_artifact_id a"] show ?thesis
      by (simp add: artifacts_exact_def Let_def list_all_iff times_in_def)
  qed
  with dist show ?thesis unfolding artifacts.summarises_def by blast
qed

lemma artifacts_exact_cong:
  assumes "set es = set fs"
  shows "artifacts_exact g es pj = artifacts_exact g fs pj"
proof -
  have "opt_min (times_in (filter P es)) = opt_min (times_in (filter P fs))"
    "opt_max (times_in (filter P es)) = opt_max (times_in (filter P fs))" for P
    using assms by (auto simp: times_in_def intro!: extrema_by_view [where i = id and i' = id])
  with assms show ?thesis by (simp add: artifacts_exact_def Let_def)
qed

lemma project_event_artifacts:
  assumes "project_event e (pj, active) = Some (pj', active')" "tables_ok pj" "active_ok pj active"
    and "artifacts.summarises (filter (\<lambda>a. da_group a = g) (pj_artifacts pj)) xs"
  shows "artifacts.summarises (filter (\<lambda>a. da_group a = g) (pj_artifacts pj'))
    (xs @ (if ev_group e = Some g then artifact_inputs e else []))"
proof -
  obtain refs pj1 as pj3 pj4 where
    refs: "message_refs_for_event e = Some refs" and as: "artifacts_for_refs e refs pj = (pj1, as)"
    and p3: "artifact_part pj3 = artifact_part pj1" "run_part pj3 = run_part pj"
    and p4: "only_if (should_project_convergence e active) (project_convergence e) (pj3, active) = Some (pj4, active')"
    and p6: "artifact_part pj' = artifact_part pj4"
    using project_event_anatomy [OF assms(1)] by metis
  have "runs_ok pj3" "active_ok pj3 active"
    using assms(2,3) runs_ok_cong [OF p3(2)] active_ok_cong [OF p3(2)] by (simp_all add: tables_ok_def)
  then have "artifact_part pj4 = artifact_part pj3"
    using p4 by (auto elim!: only_if_cases dest: convergence_parts)
  then have arts: "pj_artifacts pj' = pj_artifacts pj1" using p3 p6 by (simp add: artifact_part_def)
  show ?thesis
  proof (cases "ev_group e")
    case None
    have "artifacts_for_refs e refs' pj' = (pj', [])" for refs' pj'
      using None by (induction refs') (simp_all add: artifact_for_message_def)
    with None as arts assms(4) show ?thesis by simp
  next
    case (Some h)
    have "artifacts.summarises (filter (\<lambda>a. da_group a = g) (pj_artifacts pj1))
      (xs @ filter (\<lambda>(pk, h, e, ref). fst (h, mr_msg_id ref) = g) (map (\<lambda>ref. (0, h, e, ref)) refs))"
      by (rule artifacts_for_refs_summarises [OF Some as, where Q = "\<lambda>k. fst k = g"])
        (simp_all add: artifact_key_def assms(4))
    moreover have "filter (\<lambda>(pk, h, e, ref). fst (h, mr_msg_id ref) = g) (map (\<lambda>ref. (0::nat, h, e, ref)) refs) =
        (if h = g then artifact_inputs e else [])"
      using Some refs by (simp add: artifact_inputs_def filter_map o_def)
    ultimately show ?thesis using Some arts by simp
  qed
qed

lemma project_events_artifacts:
  assumes "fold_opt project_event es (pj, active) = Some (pj', active')" "tables_ok pj" "active_ok pj active"
    and "artifacts.summarises (filter (\<lambda>a. da_group a = g) (pj_artifacts pj)) xs"
  shows "artifacts.summarises (filter (\<lambda>a. da_group a = g) (pj_artifacts pj'))
    (xs @ inputs_of (filter (\<lambda>e. ev_group e = Some g) es))"
  using assms
proof (induction es arbitrary: pj active xs)
  case Nil
  then show ?case by (simp add: inputs_of_def)
next
  case (Cons e es)
  obtain pj1 active1 where step: "project_event e (pj, active) = Some (pj1, active1)"
    and rest: "fold_opt project_event es (pj1, active1) = Some (pj', active')"
    using Cons.prems(1) by (auto split: option.splits)
  have "artifacts.summarises (filter (\<lambda>a. da_group a = g) (pj_artifacts pj'))
      ((xs @ (if ev_group e = Some g then artifact_inputs e else [])) @ inputs_of (filter (\<lambda>e. ev_group e = Some g) es))"
    using Cons.IH [OF rest] project_event_ok [OF step Cons.prems(2,3)]
      project_event_artifacts [OF step Cons.prems(2-4)] by blast
  then show ?case by (simp add: inputs_of_def split: if_splits)
qed

lemma valid_events_group: "list_all (\<lambda>e. ev_group e = Some g) (valid_events_for_group files events g)"
  by (simp add: list_all_iff set_valid_events)

lemma rebuild_artifacts:
  assumes "rebuild_locked_group_projections files events g pj = Some pj'" "tables_ok pj"
  shows "artifacts_exact g (valid_events_for_group files events g) pj'"
    and "h \<noteq> g \<Longrightarrow> artifacts.summarises (filter (\<lambda>a. da_group a = h) (pj_artifacts pj)) xs \<Longrightarrow>
      artifacts.summarises (filter (\<lambda>a. da_group a = h) (pj_artifacts pj')) xs"
proof -
  obtain active' where run: "fold_opt project_event (valid_events_for_group files events g)
      (clear_group_projections g pj, []) = Some (pj', active')"
    using assms(1) by (auto simp: rebuild_locked_group_projections_def)
  note go = project_events_artifacts [OF run clear_ok [OF assms(2)], unfolded active_ok_def, simplified]
  have same: "filter (\<lambda>e. ev_group e = Some g) (valid_events_for_group files events g) = valid_events_for_group files events g"
    and none: "h \<noteq> g \<Longrightarrow> filter (\<lambda>e. ev_group e = Some h) (valid_events_for_group files events g) = []" for h
    using valid_events_group [of g files events] by (auto simp: list_all_iff filter_empty_conv)
  have "filter (\<lambda>a. da_group a = g) (pj_artifacts (clear_group_projections g pj)) = []"
    by (simp add: clear_group_projections_def Let_def filter_empty_conv)
  then show "artifacts_exact g (valid_events_for_group files events g) pj'"
    using go [of g "[]"] artifacts.summarises_empty same summarises_exact [OF valid_events_group] by simp
  assume "h \<noteq> g"
  moreover have "filter (\<lambda>a. da_group a = h) (pj_artifacts (clear_group_projections g pj)) =
      filter (\<lambda>a. da_group a = h) (pj_artifacts pj)" if "h \<noteq> g"
    using that by (auto simp: clear_group_projections_def Let_def intro: filter_cong)
  moreover assume "artifacts.summarises (filter (\<lambda>a. da_group a = h) (pj_artifacts pj)) xs"
  ultimately show "artifacts.summarises (filter (\<lambda>a. da_group a = h) (pj_artifacts pj')) xs"
    using go [of h xs] none [of h] by (simp add: inputs_of_def)
qed

section \<open>Incremental projection and rebuild agree on artifacts\<close>

lemma file_events_complete:
  assumes "g \<in> set group_ids"
  shows "set (filter (\<lambda>e. ev_audit_file e \<noteq> af_id f) (valid_events_for_group (db_files db) (db_events db) g)) \<union>
      set (filter (\<lambda>e. ev_group e = Some g) (file_events_to_project db f group_ids)) =
    set (valid_events_for_group (db_files db) (db_events db) g)"
  using assms by (auto simp: set_valid_events file_events_to_project_def)

lemma filter_rest:
  "filter (\<lambda>e. ev_group e = Some g) (filter (\<lambda>e. \<forall>h \<in> set bf. ev_group e \<noteq> Some h) es) =
     (if g \<in> set bf then [] else filter (\<lambda>e. ev_group e = Some g) es)"
  by (auto simp: filter_empty_conv intro!: filter_cong)

lemma project_file_artifacts:
  assumes run: "project_file_events db f group_ids = Some pj'" and ok: "tables_ok (db_projections db)"
    and g: "g \<in> set group_ids" "g \<in> g_id ` set (db_groups db)"
    and before: "artifacts_exact g (filter (\<lambda>e. ev_audit_file e \<noteq> af_id f)
      (valid_events_for_group (db_files db) (db_events db) g)) (db_projections db)"
  shows "artifacts_exact g (valid_events_for_group (db_files db) (db_events db) g) pj'"
proof -
  let ?all = "valid_events_for_group (db_files db) (db_events db) g"
  let ?old = "filter (\<lambda>e. ev_audit_file e \<noteq> af_id f) ?all"
  let ?es = "file_events_to_project db f group_ids"
  let ?bf = "groups_with_out_of_order_convergence_backfill (db_events db) (af_id f) ?es"
  let ?rest = "filter (\<lambda>e. \<forall>g \<in> set ?bf. ev_group e \<noteq> Some g) ?es"
  let ?step = "\<lambda>g. only_if (g \<in> g_id ` set (filter (\<lambda>g. g_id g \<in> set group_ids) (db_groups db)))
     (rebuild_locked_group_projections (db_files db) (db_events db) g)"
  let ?rows = "\<lambda>pj. filter (\<lambda>a. da_group a = g) (pj_artifacts pj)"
  obtain pj active' where pj: "fold_opt ?step (sort ?bf) (db_projections db) = Some pj"
    and rest: "fold_opt project_event ?rest (pj, active_inferred_runs_for_events (db_events db) (pj_runs pj) ?rest)
      = Some (pj', active')"
    using run by (auto simp: project_file_events_def Let_def split: option.splits)
  have lock: "g \<in> g_id ` set (filter (\<lambda>g. g_id g \<in> set group_ids) (db_groups db))" using g by auto
  have olds: "list_all (\<lambda>e. ev_group e = Some g) ?old" "list_all (\<lambda>e. ev_group e = Some g) ?all"
    using valid_events_group [of g "db_files db" "db_events db"] by (auto simp: list_all_iff)
  define inv where "inv done pj \<longleftrightarrow> tables_ok pj \<and>
    artifacts.summarises (?rows pj) (inputs_of (if g \<in> set done then ?all else ?old))" for "done" pj
  have "inv ([] @ sort ?bf) pj"
    using pj
  proof (rule fold_opt_trace)
    show "inv [] (db_projections db)"
      using ok exact_summarises [OF olds(1) before] by (simp add: inv_def)
  next
    fix ys h s s'
    assume inv: "inv ys s" and step: "?step h s = Some s'"
    from step show "inv (ys @ [h]) s'"
    proof (rule only_if_cases)
      assume re: "rebuild_locked_group_projections (db_files db) (db_events db) h s = Some s'"
      have "tables_ok s'" using rebuild_locked_ok [OF re] inv by (simp add: inv_def)
      moreover have "artifacts.summarises (?rows s') (inputs_of (if g \<in> set (ys @ [h]) then ?all else ?old))"
      proof (cases "h = g")
        case True
        then show ?thesis using rebuild_artifacts(1) [OF re] inv exact_summarises [OF olds(2)] by (simp add: inv_def)
      next
        case False
        then show ?thesis using rebuild_artifacts(2) [OF re, of g] inv by (simp add: inv_def)
      qed
      ultimately show "inv (ys @ [h]) s'" by (simp add: inv_def)
    next
      assume "h \<notin> g_id ` set (filter (\<lambda>g. g_id g \<in> set group_ids) (db_groups db))" "s' = s"
      with lock inv show "inv (ys @ [h]) s'" by (auto simp: inv_def)
    qed
  qed
  then have "tables_ok pj" and sum: "artifacts.summarises (?rows pj) (inputs_of (if g \<in> set ?bf then ?all else ?old))"
    by (simp_all add: inv_def)
  from project_events_artifacts [OF rest this(1) active_inferred_runs_ok this(2)]
  have final: "artifacts.summarises (?rows pj')
      (inputs_of ((if g \<in> set ?bf then ?all else ?old) @ filter (\<lambda>e. ev_group e = Some g) ?rest))"
    by (simp add: inputs_of_def)
  let ?seen = "(if g \<in> set ?bf then ?all else ?old) @ filter (\<lambda>e. ev_group e = Some g) ?rest"
  have "list_all (\<lambda>e. ev_group e = Some g) ?seen" using olds by (auto simp: list_all_iff)
  from summarises_exact [OF this final] have "artifacts_exact g ?seen pj'" .
  moreover have "set ?seen = set ?all"
    unfolding filter_rest using file_events_complete [OF g(1), of f db] by simp
  ultimately show ?thesis using artifacts_exact_cong by blast
qed

text \<open>
  C8: a rebuild reflects the evidence and nothing else. After a group was rebuilt, its artifacts are
  exactly the messages its counted events refer to, one row each, first and last seen at the earliest
  and latest time of those events, with exactly those events as evidence, whatever the table held
  before.
\<close>

theorem rebuild_artifacts_exact:
  assumes "tables_ok (db_projections db)" "rebuild_group_projections db g = Some db'"
  shows "artifacts_exact g (valid_events_for_group (db_files db) (db_events db) g) (db_projections db')"
  using assms by (auto simp: rebuild_group_projections_def dest: rebuild_artifacts(1) split: if_splits)

theorem rebuild_artifacts_exact_witness:
  "artifacts_exact 1 (valid_events_for_group (db_files example_db) (db_events example_db) 1)
     (db_projections (the (rebuild_group_projections example_db 1)))"
proof (rule rebuild_artifacts_exact)
  show "tables_ok (db_projections example_db)" by code_simp
  have "rebuild_group_projections example_db 1 \<noteq> None" by code_simp
  then show "rebuild_group_projections example_db 1 = Some (the (rebuild_group_projections example_db 1))" by simp
qed

text \<open>
  C7: projecting uploads one file at a time is as good as a rebuild for artifacts. If the artifacts
  of a group reflect its counted events from all other files, then after a v4 file with events in
  the group was projected they reflect all of them, also when the file was found to backfill
  convergence history and groups were rebuilt on the way.
\<close>

theorem incremental_artifacts_exact:
  assumes "tables_ok (db_projections db)" "rebuild_file_projections db f = Some db'"
    and "list_ex (\<lambda>v. v \<in> set PROJECTION_AUDIT_SCHEMA_VERSIONS) (af_schema_versions f)"
    and "g \<in> set (groups_of_file db f)" "g \<in> g_id ` set (db_groups db)"
    and "artifacts_exact g (filter (\<lambda>e. ev_audit_file e \<noteq> af_id f)
      (valid_events_for_group (db_files db) (db_events db) g)) (db_projections db)"
  shows "artifacts_exact g (valid_events_for_group (db_files db) (db_events db) g) (db_projections db')"
proof -
  have "groups_of_file db f \<noteq> []" using assms(4) by force
  then have "rebuild_file_projections db f =
      map_option (\<lambda>pj. db\<lparr>db_projections := pj\<rparr>) (project_file_events db f (groups_of_file db f))"
    unfolding rebuild_file_projections_def Let_def using assms(3) by (simp only: if_False not_True_eq_False)
  then obtain pj' where "project_file_events db f (groups_of_file db f) = Some pj'" "db' = db\<lparr>db_projections := pj'\<rparr>"
    using assms(2) by (cases "project_file_events db f (groups_of_file db f)") simp_all
  with project_file_artifacts [OF _ assms(1,4,5,6)] show ?thesis by simp
qed

theorem incremental_artifacts_exact_witness:
  "let db = example_append example_projected in
   artifacts_exact 1 (valid_events_for_group (db_files db) (db_events db) 1)
     (db_projections (the (rebuild_file_projections db (example_v4_file 2))))"
  unfolding Let_def
proof (rule incremental_artifacts_exact)
  let ?db = "example_append example_projected"
  show "tables_ok (db_projections ?db)" by code_simp
  have "rebuild_file_projections ?db (example_v4_file 2) \<noteq> None" by code_simp
  then show "rebuild_file_projections ?db (example_v4_file 2) = Some (the (rebuild_file_projections ?db (example_v4_file 2)))"
    by simp
  show "list_ex (\<lambda>v. v \<in> set PROJECTION_AUDIT_SCHEMA_VERSIONS) (af_schema_versions (example_v4_file 2))" by code_simp
  show "1 \<in> set (groups_of_file ?db (example_v4_file 2))" by code_simp
  show "1 \<in> g_id ` set (db_groups ?db)" by code_simp
  show "artifacts_exact 1 (filter (\<lambda>e. ev_audit_file e \<noteq> af_id (example_v4_file 2))
      (valid_events_for_group (db_files ?db) (db_events ?db) 1)) (db_projections ?db)" by code_simp
qed

section \<open>Every convergence event is evidence of exactly one run\<close>

definition convergence_event :: "audit_event \<Rightarrow> bool" where
  "convergence_event e \<longleftrightarrow> ev_engine_id e \<noteq> [] \<and>
     (ev_event_type e \<in> set CONVERGENCE_EVENT_TYPES \<or> truthy (ev_context_convergence e))"

definition input_event :: "run_input \<Rightarrow> audit_event" where
  "input_event x = (case x of (pk, g, e, rid, infd) \<Rightarrow> e)"

definition rows_of :: "nat \<Rightarrow> projections \<Rightarrow> convergence_run list" where
  "rows_of g pj = filter (\<lambda>r. cr_group r = g) (pj_runs pj)"

text \<open>
  The runs of a group account for its events: no event is evidence of two runs, every convergence
  event is evidence of one, a run has only events of its own engine, and it starts and ends with them.
\<close>

definition runs_exact :: "nat \<Rightarrow> audit_event list \<Rightarrow> projections \<Rightarrow> bool" where
  "runs_exact g es pj \<longleftrightarrow>
     (\<forall>e \<in> set es. convergence_event e \<longrightarrow> (\<exists>r \<in> set (rows_of g pj). ev_id e \<in> set (cr_evidence_events r))) \<and>
     (\<forall>r \<in> set (rows_of g pj). \<forall>r' \<in> set (rows_of g pj).
        set (cr_evidence_events r) \<inter> set (cr_evidence_events r') \<noteq> {} \<longrightarrow> r = r') \<and>
     (\<forall>r \<in> set (rows_of g pj). (let own = filter (\<lambda>e. ev_id e \<in> set (cr_evidence_events r)) es in
        own \<noteq> [] \<and> set (cr_evidence_events r) = ev_id ` set own \<and>
        (\<forall>e \<in> set own. ev_engine_id e = cr_engine_id r) \<and>
        cr_started_at_ms r = opt_min (times_in own) \<and> cr_ended_at_ms r = opt_max (times_in own)))"

definition runs_trace :: "nat \<Rightarrow> audit_event list \<Rightarrow> projections \<Rightarrow> run_input list \<Rightarrow> bool" where
  "runs_trace g es pj xs \<longleftrightarrow> runs.summarises (rows_of g pj) xs \<and> subseq (map input_event xs) es \<and>
     (\<forall>e \<in> set es. convergence_event e \<longrightarrow> e \<in> input_event ` set xs) \<and>
     (\<forall>r \<in> set (rows_of g pj). \<forall>x \<in> set (runs.inputs_for (run_row_key r) xs). ev_engine_id (input_event x) = cr_engine_id r)"

lemma rows_of_put: "pj_runs pj' = runs.put (pk, g, e, rid, infd) (pj_runs pj) \<Longrightarrow>
    rows_of g pj' = runs.put (pk, g, e, rid, infd) (rows_of g pj)"
  unfolding rows_of_def using runs.filter_put [of "\<lambda>r. cr_group r = g" "\<lambda>k. fst k = g" "(pk, g, e, rid, infd)"]
  by (simp add: run_row_key_def)

lemma runs_trace_skip:
  assumes "runs_trace g es pj xs" "pj_runs pj' = pj_runs pj" "\<not> convergence_event e"
  shows "runs_trace g (es @ [e]) pj' xs"
proof -
  have "subseq (map input_event xs) (es @ [e])"
    using assms(1) by (auto simp: runs_trace_def intro: list_emb_append2)
  then show ?thesis using assms by (auto simp: runs_trace_def rows_of_def)
qed

lemma runs_trace_put:
  assumes inv: "runs_trace g es pj xs" and put: "pj_runs pj' = runs.put (pk, g, e, rid, infd) (pj_runs pj)"
    and engine: "\<And>r. r \<in> set (pj_runs pj') \<Longrightarrow> run_row_key r = (g, pk) \<Longrightarrow> cr_engine_id r = ev_engine_id e"
  shows "runs_trace g (es @ [e]) pj' (xs @ [(pk, g, e, rid, infd)])"
proof -
  let ?x = "(pk, g, e, rid, infd)"
  note rows = rows_of_put [OF put]
  have sum: "runs.summarises (rows_of g pj') (xs @ [?x])"
    unfolding rows by (rule runs.summarises_put) (use inv in \<open>simp add: runs_trace_def\<close>)
  have sub: "subseq (map input_event (xs @ [?x])) (es @ [e])"
    using inv by (auto simp: runs_trace_def input_event_def intro: list_emb_append_mono)
  have dist: "distinct (map run_row_key (rows_of g pj'))" using sum by (simp add: runs.summarises_def)
  have "ev_engine_id (input_event x) = cr_engine_id r"
    if r: "r \<in> set (rows_of g pj')" and x: "x \<in> set (runs.inputs_for (run_row_key r) (xs @ [?x]))" for r x
  proof (cases "run_row_key r = (g, pk)")
    case True
    have eng: "cr_engine_id r = ev_engine_id e" using engine r True by (simp add: rows_of_def)
    show ?thesis
    proof (cases "x = ?x")
      case True
      then show ?thesis using eng by (simp add: input_event_def)
    next
      case False
      then have old: "x \<in> set (runs.inputs_for (g, pk) xs)"
        using x \<open>run_row_key r = (g, pk)\<close> by (auto simp: runs.inputs_for_def)
      then obtain r0 where r0: "find_row run_row_key (g, pk) (rows_of g pj) = Some r0"
        using runs.summarised_at(1) [of "rows_of g pj" xs "(g, pk)"] inv
        by (cases "find_row run_row_key (g, pk) (rows_of g pj)") (auto simp: runs_trace_def)
      have "find_row run_row_key (g, pk) (rows_of g pj') = Some (run_change e r0)"
        unfolding rows using r0 by (simp add: runs.find_put)
      moreover have "find_row run_row_key (g, pk) (rows_of g pj') = Some r"
        using find_row_distinct [OF dist r] True by simp
      ultimately have "cr_engine_id r = cr_engine_id r0" by auto
      moreover have "r0 \<in> set (rows_of g pj)" "run_row_key r0 = (g, pk)" using r0 by (auto dest: find_row_SomeD)
      ultimately show ?thesis using inv old unfolding runs_trace_def by metis
    qed
  next
    case False
    then have "r \<in> set (rows_of g pj)" using runs.put_other [of r ?x "rows_of g pj"] r rows by simp
    moreover have "x \<in> set (runs.inputs_for (run_row_key r) xs)" using x False by (auto simp: runs.inputs_for_def)
    ultimately show ?thesis using inv by (simp add: runs_trace_def)
  qed
  moreover have "\<forall>q \<in> set (es @ [e]). convergence_event q \<longrightarrow> q \<in> input_event ` set (xs @ [?x])"
    using inv by (auto simp: runs_trace_def input_event_def)
  ultimately show ?thesis using sum sub unfolding runs_trace_def by blast
qed

lemma project_event_runs:
  assumes "project_event e (pj, active) = Some (pj', active')" "tables_ok pj" "active_ok pj active"
    and g: "ev_group e = Some g" and inv: "runs_trace g es pj xs"
  shows "\<exists>xs'. runs_trace g (es @ [e]) pj' xs'"
proof -
  obtain pj3 pj4 where p3: "run_part pj3 = run_part pj"
    and p4: "only_if (should_project_convergence e active) (project_convergence e) (pj3, active) = Some (pj4, active')"
    and p6: "run_part pj' = run_part pj4"
    using project_event_anatomy [OF assms(1)] by metis
  have runs: "pj_runs pj3 = pj_runs pj" "pj_runs pj' = pj_runs pj4" using p3 p6 by (simp_all add: run_part_def)
  have ok3: "runs_ok pj3" "active_ok pj3 active"
    using assms(2,3) runs_ok_cong [OF p3] active_ok_cong [OF p3] by (simp_all add: tables_ok_def)
  show ?thesis
  proof (cases "should_project_convergence e active \<and> ev_engine_id e \<noteq> []")
    case True
    then have conv: "project_convergence e (pj3, active) = Some (pj4, active')" using p4 by (simp add: only_if_def)
    show ?thesis
    proof (rule convergence_step [OF ok3 conv g conjunct2 [OF True]])
      fix pk rid infd
      assume put: "pj_runs pj4 = runs.put (pk, g, e, rid, infd) (pj_runs pj3)"
        and eng: "\<And>r. r \<in> set (pj_runs pj4) \<Longrightarrow> run_row_key r = (g, pk) \<Longrightarrow> cr_engine_id r = ev_engine_id e"
      have "pj_runs pj' = runs.put (pk, g, e, rid, infd) (pj_runs pj)" using put runs by simp
      moreover have "r \<in> set (pj_runs pj') \<Longrightarrow> run_row_key r = (g, pk) \<Longrightarrow> cr_engine_id r = ev_engine_id e" for r
        unfolding runs(2) by (rule eng)
      ultimately have "runs_trace g (es @ [e]) pj' (xs @ [(pk, g, e, rid, infd)])"
        by (rule runs_trace_put [OF inv])
      then show ?thesis by blast
    qed
  next
    case False
    then have "(pj4, active') = (pj3, active)"
      using p4 by (auto simp: only_if_def project_convergence_skip split: if_splits)
    moreover have "\<not> convergence_event e"
      using False by (auto simp: convergence_event_def should_project_convergence_def)
    ultimately have "runs_trace g (es @ [e]) pj' xs" using runs inv by (intro runs_trace_skip) simp_all
    then show ?thesis by blast
  qed
qed

lemma filter_ids: "inj_on f (set es) \<Longrightarrow> A \<subseteq> set es \<Longrightarrow> set (filter (\<lambda>e. f e \<in> f ` A) es) = A"
  using inj_on_image_mem_iff [of f "set es"] by (simp add: set_eq_iff subset_iff) blast

lemma runs_trace_exact:
  assumes inv: "runs_trace g es pj xs" and ids: "distinct (map ev_id es)"
  shows "runs_exact g es pj"
proof -
  have sum: "runs.summarises (rows_of g pj) xs" using inv by (simp add: runs_trace_def)
  have sub: "subseq (map input_event xs) es" using inv by (simp add: runs_trace_def)
  have inj: "inj_on ev_id (set es)" using ids by (simp add: distinct_map)
  have in_es: "input_event x \<in> set es" if "x \<in> set xs" for x
    using list_emb_set [OF sub, of "input_event x"] that by auto
  have "subseq (map ev_id (map input_event xs)) (map ev_id es)" using sub by (rule subseq_map)
  then have "distinct (map ev_id (map input_event xs))" using ids subseqs_distinctD in_set_subseqs by blast
  then have distx: "x = y" if "x \<in> set xs" "y \<in> set xs" "ev_id (input_event x) = ev_id (input_event y)" for x y
    using that by (metis (mono_tags, lifting) distinct_map inj_onD list.map_comp comp_apply)
  have event: "(\<lambda>(pk, g, e, rid, infd). ev_id e) = (\<lambda>x :: run_input. ev_id (input_event x))"
    by (auto simp: input_event_def)
  have time: "(\<lambda>(pk, g, e, rid, infd). ev_wall_time_ms e) = (\<lambda>x :: run_input. ev_wall_time_ms (input_event x))"
    by (auto simp: input_event_def)
  note row = runs.summarised_row [OF sum, unfolded event time]
  let ?in = "\<lambda>r. runs.inputs_for (run_row_key r) xs"
  have own: "set (filter (\<lambda>e. ev_id e \<in> set (cr_evidence_events r)) es) = input_event ` set (?in r)"
    if r: "r \<in> set (rows_of g pj)" for r
  proof -
    have ev: "set (cr_evidence_events r) = ev_id ` (input_event ` set (?in r))"
      using row(4) [OF r] by (simp add: image_image)
    have sub: "input_event ` set (?in r) \<subseteq> set es" using in_es by (auto simp: runs.inputs_for_def)
    then show ?thesis unfolding ev by (rule filter_ids [OF inj])
  qed
  have "\<exists>r \<in> set (rows_of g pj). ev_id e \<in> set (cr_evidence_events r)" if e: "e \<in> set es" "convergence_event e" for e
  proof -
    have "e \<in> input_event ` set xs" using inv e by (simp add: runs_trace_def)
    then obtain x where x: "x \<in> set xs" "e = input_event x" by blast
    obtain r where r: "r \<in> set (rows_of g pj)" "run_row_key r = (case x of (pk, g, e, rid, infd) \<Rightarrow> (g, pk))"
      using runs.summarised_key [OF sum x(1)] by blast
    have "x \<in> set (?in r)" unfolding runs.inputs_for_def r(2) using x(1) by auto
    then show ?thesis using row(4) [OF r(1)] x(2) r(1) by auto
  qed
  moreover have "r = r'" if r: "r \<in> set (rows_of g pj)" "r' \<in> set (rows_of g pj)"
    "set (cr_evidence_events r) \<inter> set (cr_evidence_events r') \<noteq> {}" for r r'
  proof -
    obtain x y where "x \<in> set (?in r)" "y \<in> set (?in r')" "ev_id (input_event x) = ev_id (input_event y)"
      using r(3) row(4) [OF r(1)] row(4) [OF r(2)] by auto
    then have "run_row_key r = run_row_key r'" using distx [of x y] by (auto simp: runs.inputs_for_def)
    moreover have "distinct (map run_row_key (rows_of g pj))" using sum by (simp add: runs.summarises_def)
    ultimately show ?thesis using r(1,2) by (simp add: distinct_map inj_on_def)
  qed
  moreover have "(let own = filter (\<lambda>e. ev_id e \<in> set (cr_evidence_events r)) es in
        own \<noteq> [] \<and> set (cr_evidence_events r) = ev_id ` set own \<and>
        (\<forall>e \<in> set own. ev_engine_id e = cr_engine_id r) \<and>
        cr_started_at_ms r = opt_min (times_in own) \<and> cr_ended_at_ms r = opt_max (times_in own))"
    if r: "r \<in> set (rows_of g pj)" for r
  proof -
    let ?own = "filter (\<lambda>e. ev_id e \<in> set (cr_evidence_events r)) es"
    have view: "(\<lambda>x. (ev_wall_time_ms (input_event x), ev_id (input_event x))) ` set (?in r) =
        (\<lambda>e. (ev_wall_time_ms e, ev_id e)) ` set ?own"
      unfolding own [OF r] by (simp add: image_image)
    have "\<forall>e \<in> set ?own. ev_engine_id e = cr_engine_id r"
      unfolding own [OF r] using inv r by (auto simp: runs_trace_def)
    moreover have "?own \<noteq> []" using row(1) [OF r] extrema_by_view(4) [OF view] by blast
    moreover have "set (cr_evidence_events r) = ev_id ` set ?own"
      by (rule trans [OF row(4) [OF r] extrema_by_view(3) [OF view]])
    moreover have "cr_started_at_ms r = opt_min (times_in ?own)" "cr_ended_at_ms r = opt_max (times_in ?own)"
      unfolding times_in_def
      by (rule trans [OF row(2) [OF r] extrema_by_view(1) [OF view]],
        rule trans [OF row(3) [OF r] extrema_by_view(2) [OF view]])
    ultimately show ?thesis unfolding Let_def by blast
  qed
  ultimately show ?thesis unfolding runs_exact_def by blast
qed

lemma rebuild_runs:
  assumes "rebuild_locked_group_projections files events g pj = Some pj'" "tables_ok pj"
    and "distinct (map ev_id events)"
  shows "runs_exact g (valid_events_for_group files events g) pj'"
proof -
  let ?es = "valid_events_for_group files events g"
  obtain active' where run: "fold_opt project_event ?es (clear_group_projections g pj, []) = Some (pj', active')"
    using assms(1) by (auto simp: rebuild_locked_group_projections_def)
  define inv where "inv = (\<lambda>done (st :: projections \<times> active_runs). list_all (\<lambda>e. ev_group e = Some g) done \<longrightarrow>
    tables_ok (fst st) \<and> active_ok (fst st) (snd st) \<and> (\<exists>xs. runs_trace g done (fst st) xs))"
  have "inv ([] @ ?es) (pj', active')"
    using run
  proof (rule fold_opt_trace)
    have "rows_of g (clear_group_projections g pj) = []"
      by (simp add: rows_of_def clear_group_projections_def Let_def filter_empty_conv)
    then have "runs_trace g [] (clear_group_projections g pj) []"
      using runs.summarises_empty by (simp add: runs_trace_def)
    then show "inv [] (clear_group_projections g pj, [])"
      using clear_ok [OF assms(2)] by (auto simp: inv_def active_ok_def)
  next
    fix ys e s s'
    assume "inv ys s" "project_event e s = Some s'"
    then show "inv (ys @ [e]) s'"
      using project_event_ok [of e "fst s" "snd s" "fst s'" "snd s'"]
        project_event_runs [of e "fst s" "snd s" "fst s'" "snd s'" g ys]
      by (simp add: inv_def) blast
  qed
  then obtain xs where "runs_trace g ?es pj' xs"
    using valid_events_group [of g files events] by (auto simp: inv_def)
  moreover have "distinct (map ev_id ?es)"
    using assms(3) by (simp add: valid_events_for_group_def distinct_map inj_on_def)
  ultimately show ?thesis by (rule runs_trace_exact)
qed

text \<open>
  C5: convergence evidence is never lost and never counted twice. After a group was rebuilt, every
  counted event of a convergence type or with a convergence context is evidence of a run, no event is
  evidence of two, and every run has only events of its own engine, among which it starts at the
  earliest and ends at the latest time.
\<close>

theorem rebuild_runs_exact:
  assumes "tables_ok (db_projections db)" "distinct (map ev_id (db_events db))"
    and "rebuild_group_projections db g = Some db'"
  shows "runs_exact g (valid_events_for_group (db_files db) (db_events db) g) (db_projections db')"
  using assms by (auto simp: rebuild_group_projections_def intro: rebuild_runs split: if_splits)

theorem rebuild_runs_exact_witness:
  "runs_exact 1 (valid_events_for_group (db_files example_db) (db_events example_db) 1)
     (db_projections (the (rebuild_group_projections example_db 1)))"
proof (rule rebuild_runs_exact)
  show "tables_ok (db_projections example_db)" by code_simp
  show "distinct (map ev_id (db_events example_db))" by code_simp
  have "rebuild_group_projections example_db 1 \<noteq> None" by code_simp
  then show "rebuild_group_projections example_db 1 = Some (the (rebuild_group_projections example_db 1))" by simp
qed


end
