(* ===== verification/Ingest.thy ===== *)
theory Ingest
  imports Upload_Validation Projections
begin

text \<open>
  The ingestion transaction of \<^verbatim>\<open>forensics/ingest.py\<close>: group resolution, line deduplication, the
  event rows, the file's group links, the group rollups, and \<^verbatim>\<open>ingest_audit_log_bytes\<close> around them.
  Everything in \<^verbatim>\<open>transaction.atomic()\<close> is one function into \<open>option\<close>; when it is \<open>None\<close>, or the
  environment fails it, the caller goes on with the database it had before. What the environment
  decides (a held recorder lock, a lock timeout, another failure of the database, what a concurrent
  request committed) is the record \<open>circumstances\<close>. The clock is an argument.
\<close>

section \<open>Groups\<close>

datatype group_key = RefKey string | SlugKey string

definition declared_invalid_group_ref :: "parsed_line \<Rightarrow> bool" where
  "declared_invalid_group_ref parsed =
     (case pl_data parsed of
        None \<Rightarrow> False
      | Some data \<Rightarrow>
          (let declared = dict_get data ''group_ref''
           in if declared = JNull then False
              else \<not> (is_str declared \<and> valid_group_ref declared)))"

text \<open>No fallback slug and an empty one are alike.\<close>

definition group_key_for_parsed_line :: "parsed_line \<Rightarrow> string \<Rightarrow> group_key option" where
  "group_key_for_parsed_line parsed fallback_group_slug =
     (let group_ref = py_or (dict_get (pl_normalized parsed) ''group_ref'') (JStr [])
      in if valid_group_ref group_ref then Some (RefKey (str_of group_ref))
         else if declared_invalid_group_ref parsed then None
         else if fallback_group_slug \<noteq> [] then Some (SlugKey fallback_group_slug)
         else None)"

definition group_slug_for_ref :: "runtime \<Rightarrow> string \<Rightarrow> string" where
  "group_slug_for_ref rt group_ref =
     (let slug = (if slugify rt group_ref \<noteq> [] then slugify rt group_ref else ''incoming'');
          digest = take 32 (sha256_hexdigest rt (utf8_encode group_ref));
          prefix_length = group_slug_max_length - length digest - 1
      in if length slug \<le> group_slug_max_length then slug
         else take prefix_length slug @ ''-'' @ digest)"

definition new_group :: "nat \<Rightarrow> int \<Rightarrow> string \<Rightarrow> string \<Rightarrow> string \<Rightarrow> audit_group" where
  "new_group pk now slug name group_ref = \<lparr> g_id = pk, g_name = name, g_slug = slug, g_group_ref = group_ref,
     g_divergent_message_count = 0, g_notes = [], g_created_at = now, g_updated_at = now \<rparr>"

text \<open>The first row in the model's default order: latest update, then latest creation.\<close>

definition first_group :: "audit_group list \<Rightarrow> audit_group option" where
  "first_group groups =
     (case sort_key (\<lambda>g. (- g_updated_at g, - g_created_at g)) groups of [] \<Rightarrow> None | g # _ \<Rightarrow> Some g)"

definition insert_group :: "audit_group \<Rightarrow> database \<Rightarrow> database" where
  "insert_group g db = db\<lparr>db_groups := db_groups db @ [g], db_next_group := Suc (db_next_group db)\<rparr>"

definition group_for_ref :: "runtime \<Rightarrow> int \<Rightarrow> string \<Rightarrow> database \<Rightarrow> database \<times> audit_group" where
  "group_for_ref rt now group_ref db =
     (case first_group (filter (\<lambda>g. g_group_ref g = group_ref) (db_groups db)) of
        Some g \<Rightarrow> (db, g)
      | None \<Rightarrow>
          (let slug = group_slug_for_ref rt group_ref
           in (case find_row g_slug slug (db_groups db) of
                 None \<Rightarrow>
                   (let g = new_group (db_next_group db) now slug (''Group '' @ take 12 group_ref) group_ref
                    in (insert_group g db, g))
               | Some g \<Rightarrow>
                   (if group_ref \<noteq> [] \<and> g_group_ref g = []
                    then (db\<lparr>db_groups := map (\<lambda>x. if g_id x = g_id g then x\<lparr>g_group_ref := group_ref\<rparr> else x)
                                (db_groups db)\<rparr>, g\<lparr>g_group_ref := group_ref\<rparr>)
                    else (db, g)))))"

definition group_name_from_slug :: "string \<Rightarrow> string" where
  "group_name_from_slug slug =
     (let name = py_title False (py_strip (map (\<lambda>c. if c = CHR ''-'' then CHR '' '' else c) slug))
      in if name \<noteq> [] then name else ''Incoming'')"

definition group_for_slug :: "int \<Rightarrow> string \<Rightarrow> string \<Rightarrow> database \<Rightarrow> database \<times> audit_group" where
  "group_for_slug now slug name db =
     (case find_row g_slug slug (db_groups db) of
        Some g \<Rightarrow> (db, g)
      | None \<Rightarrow>
          (let g = new_group (db_next_group db) now slug (if name \<noteq> [] then name else group_name_from_slug slug) []
           in (insert_group g db, g)))"

definition group_for_key :: "runtime \<Rightarrow> int \<Rightarrow> string \<Rightarrow> group_key \<Rightarrow> database \<Rightarrow> database \<times> audit_group" where
  "group_for_key rt now name key db =
     (case key of RefKey r \<Rightarrow> group_for_ref rt now r db | SlugKey s \<Rightarrow> group_for_slug now s name db)"

text \<open>The keys in Python's order of the tuples \<^verbatim>\<open>("ref", r)\<close> and \<^verbatim>\<open>("slug", s)\<close>.\<close>

definition sorted_keys :: "group_key option list \<Rightarrow> group_key list" where
  "sorted_keys keys =
     map RefKey (sorted_set (concat (map (\<lambda>k. case k of Some (RefKey r) \<Rightarrow> [r] | _ \<Rightarrow> []) keys))) @
     map SlugKey (sorted_set (concat (map (\<lambda>k. case k of Some (SlugKey s) \<Rightarrow> [s] | _ \<Rightarrow> []) keys)))"

fun resolve_groups ::
  "runtime \<Rightarrow> int \<Rightarrow> string \<Rightarrow> group_key list \<Rightarrow> database \<Rightarrow> database \<times> (group_key \<times> nat) list" where
  "resolve_groups rt now name [] db = (db, [])"
| "resolve_groups rt now name (key # keys) db =
     (let (db1, g) = group_for_key rt now name key db;
          (db2, rest) = resolve_groups rt now name keys db1
      in (db2, (key, g_id g) # rest))"

definition groups_for_parsed_lines ::
  "runtime \<Rightarrow> int \<Rightarrow> parsed_line list \<Rightarrow> string \<Rightarrow> string \<Rightarrow> database \<Rightarrow> database \<times> (group_key \<times> nat) list" where
  "groups_for_parsed_lines rt now parsed_lines fallback_group_slug fallback_group_name db =
     resolve_groups rt now fallback_group_name
       (sorted_keys (map (\<lambda>p. group_key_for_parsed_line p fallback_group_slug) parsed_lines)) db"

section \<open>Event rows\<close>

text \<open>The values of the typed columns as the normalized dictionary holds them; a missing key leaves the default.\<close>

definition str_col :: "dict \<Rightarrow> string \<Rightarrow> string" where
  "str_col n f = str_of (dict_get n f)"

definition int_col :: "dict \<Rightarrow> string \<Rightarrow> int option" where
  "int_col n f = (case dict_get n f of JInt i \<Rightarrow> Some i | _ \<Rightarrow> None)"

definition bool_col :: "dict \<Rightarrow> string \<Rightarrow> bool option" where
  "bool_col n f = (case dict_get n f of JBool b \<Rightarrow> Some b | _ \<Rightarrow> None)"

definition list_col :: "dict \<Rightarrow> string \<Rightarrow> json list" where
  "list_col n f = list_of (dict_get n f)"

definition strs_col :: "dict \<Rightarrow> string \<Rightarrow> string list" where
  "strs_col n f = map str_of (list_col n f)"

definition obj_col :: "dict \<Rightarrow> string \<Rightarrow> json" where
  "obj_col n f = (if dict_has n f then dict_get n f else JObj [])"

definition event_values :: "nat \<Rightarrow> nat \<Rightarrow> parsed_line \<Rightarrow> nat option \<Rightarrow> audit_event" where
  "event_values pk file parsed grp =
     (let base = blank_event\<lparr> ev_id := pk, ev_group := grp, ev_audit_file := file,
            ev_line_number := pl_line_number parsed, ev_line_hash := pl_line_hash parsed,
            ev_raw_line := pl_raw_line parsed, ev_raw_event := map_option JObj (pl_data parsed),
            ev_parse_status := (if pl_errors parsed \<noteq> [] then STATUS_INVALID else STATUS_VALID),
            ev_validation_error := str_join ''; '' (pl_errors parsed) \<rparr>;
          n = pl_normalized parsed
      in if pl_data parsed = None then base
         else base\<lparr>
     ev_raw_kind := py_or (dict_get n ''raw_kind'') (JObj []),
     ev_raw_context := py_or (dict_get n ''raw_context'') (JObj []),
     ev_schema_version := str_col n ''schema_version'',
     ev_recorder_session_id := str_col n ''recorder_session_id'',
     ev_audit_data_mode := str_col n ''audit_data_mode'',
     ev_seq := int_col n ''seq'',
     ev_wall_time_ms := int_col n ''wall_time_ms'',
     ev_account_ref := str_col n ''account_ref'',
     ev_engine_id := str_col n ''engine_id'',
     ev_group_ref := str_col n ''group_ref'',
     ev_event_type := str_col n ''event_type'',
     ev_context_operation_id := str_col n ''context_operation_id'',
     ev_context_human_action := obj_col n ''context_human_action'',
     ev_context_transport := obj_col n ''context_transport'',
     ev_context_engine := obj_col n ''context_engine'',
     ev_context_group := obj_col n ''context_group'',
     ev_context_convergence := obj_col n ''context_convergence'',
     ev_context_source := obj_col n ''context_source'',
     ev_human_action_action := str_col n ''human_action_action'',
     ev_human_action_origin := str_col n ''human_action_origin'',
     ev_human_action_phase := str_col n ''human_action_phase'',
     ev_human_action_fields := strs_col n ''human_action_fields'',
     ev_human_action_component_ids := list_col n ''human_action_component_ids'',
     ev_human_action_target_count := int_col n ''human_action_target_count'',
     ev_human_action_message_ids := strs_col n ''human_action_message_ids'',
     ev_msg_id := str_col n ''msg_id'',
     ev_outbound_msg_id := str_col n ''outbound_msg_id'',
     ev_outbound_welcome_msg_ids := strs_col n ''outbound_welcome_msg_ids'',
     ev_target_kind := str_col n ''target_kind'',
     ev_relay_urls := strs_col n ''relay_urls'',
     ev_accepted_relay_urls := strs_col n ''accepted_relay_urls'',
     ev_failed_relays := list_col n ''failed_relays'',
     ev_required_acks := int_col n ''required_acks'',
     ev_met_required_acks := bool_col n ''met_required_acks'',
     ev_epoch := int_col n ''epoch'',
     ev_source_epoch := int_col n ''source_epoch'',
     ev_from_epoch := int_col n ''from_epoch'',
     ev_to_epoch := int_col n ''to_epoch'',
     ev_pending_epoch := int_col n ''pending_epoch'',
     ev_restored_epoch := int_col n ''restored_epoch'',
     ev_current_tip_epoch := int_col n ''current_tip_epoch'',
     ev_selected_fork_epoch := int_col n ''selected_fork_epoch'',
     ev_selected_tip_epoch := int_col n ''selected_tip_epoch'',
     ev_payload_len := int_col n ''payload_len'',
     ev_payload_digest := str_col n ''payload_digest'',
     ev_candidate_digest := str_col n ''candidate_digest'',
     ev_incumbent_digest := str_col n ''incumbent_digest'',
     ev_envelope_kind := str_col n ''envelope_kind'',
     ev_outcome := str_col n ''outcome'',
     ev_outcome_kind := str_col n ''outcome_kind'',
     ev_stale_reason := str_col n ''stale_reason'',
     ev_decision := str_col n ''decision'',
     ev_reason := str_col n ''reason'',
     ev_winner := str_col n ''winner'',
     ev_new_state := str_col n ''new_state'',
     ev_pending_kind := str_col n ''pending_kind'',
     ev_intent_kind := str_col n ''intent_kind'',
     ev_result_kind := str_col n ''result_kind'',
     ev_proposal_kind := str_col n ''proposal_kind'',
     ev_snapshot_name := str_col n ''snapshot_name'',
     ev_selected_branch_id := str_col n ''selected_branch_id'',
     ev_detail := str_col n ''detail'',
     ev_fallback_snapshot_used := bool_col n ''fallback_snapshot_used'',
     ev_invalidated_msg_id := str_col n ''invalidated_msg_id'',
     ev_max_rewind_commits := int_col n ''max_rewind_commits'',
     ev_candidate_count := int_col n ''candidate_count'',
     ev_eligible_count := int_col n ''eligible_count'' \<rparr>)"

section \<open>Deduplication\<close>

type_synonym seen = "(string \<times> string set) list"

text \<open>
  The stored (line hash, engine id) pairs among the upload's hashes, from files that are valid when
  \<open>ignore_invalid_files\<close>.
\<close>

definition file_is_valid :: "audit_file list \<Rightarrow> nat \<Rightarrow> bool" where
  "file_is_valid files i \<longleftrightarrow> list_ex (\<lambda>f. af_id f = i \<and> af_validation_status f = STATUS_VALID) files"

definition existing_duplicate_events :: "database \<Rightarrow> parsed_line list \<Rightarrow> bool \<Rightarrow> seen" where
  "existing_duplicate_events db parsed_lines ignore_invalid_files =
     fold (\<lambda>e d. dd_add (ev_line_hash e) (ev_engine_id e) d)
       (filter (\<lambda>e. ev_line_hash e \<in> pl_line_hash ` set parsed_lines \<and>
          (ignore_invalid_files \<longrightarrow> file_is_valid (db_files db) (ev_audit_file e))) (db_events db)) []"

definition line_engine :: "parsed_line \<Rightarrow> string" where
  "line_engine parsed = str_of (dict_get (pl_normalized parsed) ''engine_id'')"

definition duplicate_event_exists :: "parsed_line \<Rightarrow> seen \<Rightarrow> bool" where
  "duplicate_event_exists parsed existing_duplicates =
     (let existing_engines = dd_get {} existing_duplicates (pl_line_hash parsed)
      in if existing_engines = {} then False
         else if line_engine parsed \<noteq> [] then line_engine parsed \<in> existing_engines
         else True)"

definition remember_duplicate_event :: "parsed_line \<Rightarrow> seen \<Rightarrow> seen" where
  "remember_duplicate_event parsed d = dd_add (pl_line_hash parsed) (line_engine parsed) d"

text \<open>One pass over the lines: the new rows, the duplicates, the groups of all lines.\<close>

fun event_loop ::
  "nat \<Rightarrow> nat \<Rightarrow> string \<Rightarrow> (group_key \<times> nat) list \<Rightarrow> parsed_line list \<Rightarrow> seen
     \<Rightarrow> audit_event list \<times> nat \<times> nat list" where
  "event_loop pk file slug groups_by_key [] d = ([], 0, [])"
| "event_loop pk file slug groups_by_key (parsed # rest) d =
     (let grp = (case group_key_for_parsed_line parsed slug of
                     None \<Rightarrow> None | Some k \<Rightarrow> map_of groups_by_key k);
          ids = (case grp of None \<Rightarrow> [] | Some g \<Rightarrow> [g])
      in if duplicate_event_exists parsed d
         then (let (es, dups, gs) = event_loop pk file slug groups_by_key rest d
               in (es, Suc dups, ids @ gs))
         else (let (es, dups, gs) = event_loop (Suc pk) file slug groups_by_key rest (remember_duplicate_event parsed d)
               in (event_values pk file parsed grp # es, dups, ids @ gs)))"

definition POSTGRES_MAX_BIND_PARAMS :: nat where
  "POSTGRES_MAX_BIND_PARAMS = 65535"

definition bound_columns :: nat where
  "bound_columns = length (filter (\<lambda>c. snd c \<noteq> AutoField) audit_event_columns)"

definition audit_event_batch_size :: nat where
  "audit_event_batch_size =
     (let fields_per_row = max bound_columns 1
      in max (POSTGRES_MAX_BIND_PARAMS div (fields_per_row * 2)) 1)"

text \<open>\<^verbatim>\<open>bulk_create\<close>: the rows go in as consecutive statements of at most a batch each.\<close>

definition bulk_create :: "audit_event list \<Rightarrow> database \<Rightarrow> database" where
  "bulk_create rows db = fold (\<lambda>batch db. db\<lparr>db_events := db_events db @ batch,
     db_next_event := db_next_event db + length batch\<rparr>) (batches audit_event_batch_size rows) db"

definition link_groups :: "nat \<Rightarrow> nat list \<Rightarrow> database \<Rightarrow> database" where
  "link_groups file ids db = db\<lparr>db_files := map (\<lambda>f. if af_id f = file
     then f\<lparr>af_groups := fold m2m_add ids (af_groups f)\<rparr> else f) (db_files db)\<rparr>"

definition create_events ::
  "audit_file \<Rightarrow> parsed_line list \<Rightarrow> string \<Rightarrow> (group_key \<times> nat) list \<Rightarrow> database
     \<Rightarrow> (database \<times> nat \<times> nat list) option" where
  "create_events f parsed_lines slug groups_by_key db =
     (let d = existing_duplicate_events db parsed_lines (af_validation_status f = STATUS_VALID);
          (es, duplicate_count, ids) = event_loop (db_next_event db) (af_id f) slug groups_by_key parsed_lines d;
          group_ids = sorted_set ids;
          db1 = bulk_create es db;
          db2 = link_groups (af_id f) group_ids db1
      in map_option (\<lambda>db3. (db3, duplicate_count, group_ids))
           (rebuild_file_projections db2 (f\<lparr>af_groups := fold m2m_add group_ids (af_groups f)\<rparr>)))"

section \<open>Rollups\<close>

definition refresh_group_rollups :: "int \<Rightarrow> nat list \<Rightarrow> database \<Rightarrow> database" where
  "refresh_group_rollups now group_ids db =
     (let ids = rev (remdups (rev (filter (\<lambda>g. g \<noteq> 0) group_ids)));
          counts = divergent_counts_for_group_ids (db_files db) (db_events db) ids
      in if ids = [] then db
         else db\<lparr>db_groups := map (\<lambda>g. if g_id g \<in> set ids
                then g\<lparr>g_divergent_message_count := dd_get 0 counts (g_id g), g_updated_at := now\<rparr> else g)
              (db_groups db)\<rparr>)"

section \<open>The transaction\<close>

record upload_args =
  ua_dump_bytes :: "byte list"
  ua_fallback_group_slug :: string
  ua_fallback_group_name :: string
  ua_upload_token :: "nat option"
  ua_uploaded_by :: "nat option"
  ua_now :: int

definition new_file :: "nat \<Rightarrow> upload_args \<Rightarrow> string \<Rightarrow> string \<Rightarrow> file_meta \<Rightarrow> dict \<Rightarrow> audit_file" where
  "new_file pk args sha raw_text m source =
     (let src = (\<lambda>k. if dict_has source k then py_str (dict_get source k) else [])
      in \<lparr> af_id = pk, af_upload_token = ua_upload_token args, af_uploaded_by = ua_uploaded_by args,
           af_source_name = [],
           af_source_hardware_model = src ''source_hardware_model'',
           af_source_device_id = src ''source_device_id'',
           af_source_platform = src ''source_platform'',
           af_source_app_version = src ''source_app_version'',
           af_source_upload_trigger = src ''source_upload_trigger'',
           af_source_local_member_ref = src ''source_local_member_ref'',
           af_content_type = ''application/x-ndjson'',
           af_file_sha256 = sha, af_byte_size = length (ua_dump_bytes args), af_raw_text = raw_text,
           af_validation_status = STATUS_VALID, af_validation_error = [],
           af_total_line_count = fm_total_line_count m, af_valid_event_count = fm_valid_event_count m,
           af_invalid_event_count = fm_invalid_event_count m, af_duplicate_event_count = 0,
           af_first_line_number = fm_first_line_number m, af_last_line_number = fm_last_line_number m,
           af_first_seq = fm_first_seq m, af_last_seq = fm_last_seq m,
           af_first_wall_time_ms = fm_first_wall_time_ms m, af_last_wall_time_ms = fm_last_wall_time_ms m,
           af_account_refs = fm_account_refs m, af_engine_ids = fm_engine_ids m,
           af_group_refs = fm_group_refs m, af_schema_versions = fm_schema_versions m,
           af_audit_data_modes = fm_audit_data_modes m, af_created_at = ua_now args, af_groups = [] \<rparr>)"

definition insert_file :: "audit_file \<Rightarrow> database \<Rightarrow> database" where
  "insert_file f db = db\<lparr>db_files := db_files db @ [f], db_next_file := Suc (db_next_file db)\<rparr>"

definition set_duplicates :: "nat \<Rightarrow> nat \<Rightarrow> database \<Rightarrow> database" where
  "set_duplicates file n db = db\<lparr>db_files := map (\<lambda>f. if af_id f = file
     then f\<lparr>af_duplicate_event_count := n\<rparr> else f) (db_files db)\<rparr>"

text \<open>The body of the atomic block, with the id of the file it stored; \<open>None\<close> is an exception in it.\<close>

definition ingest_transaction ::
  "runtime \<Rightarrow> upload_args \<Rightarrow> string \<Rightarrow> parsed_line list \<Rightarrow> dict \<Rightarrow> database \<Rightarrow> (database \<times> nat) option" where
  "ingest_transaction rt args raw_text parsed_lines source db =
     (let slug = ua_fallback_group_slug args;
          (db1, groups_by_key) = groups_for_parsed_lines rt (ua_now args) parsed_lines slug
             (ua_fallback_group_name args) db;
          f = new_file (db_next_file db1) args (sha256_hexdigest rt (ua_dump_bytes args)) raw_text
                (file_metadata parsed_lines) source
      in (case create_events f parsed_lines slug groups_by_key (insert_file f db1) of
            None \<Rightarrow> None
          | Some (db2, duplicate_count, group_ids) \<Rightarrow>
              (let db3 = (if duplicate_count \<noteq> 0 then set_duplicates (af_id f) duplicate_count db2 else db2);
                   locked = sort (filter (\<lambda>i. i \<in> set group_ids) (map g_id (db_groups db3)))
               in Some (refresh_group_rollups (ua_now args) locked db3, af_id f))))"

record circumstances =
  ci_busy :: bool
  ci_lock_conflict :: bool
  ci_failure :: bool
  ci_integrity_error :: bool
  ci_committed :: "audit_file list"
  ci_rejection_lost :: bool

datatype ingest_outcome =
    Ingested nat bool
  | Refused upload_rejected
  | Crashed

definition record_ingestion_rejection ::
  "bool \<Rightarrow> int \<Rightarrow> nat option \<Rightarrow> nat \<Rightarrow> string \<Rightarrow> nat option \<Rightarrow> database \<Rightarrow> database" where
  "record_ingestion_rejection lost now token byte_size code line_number db =
     (if lost then db
      else db\<lparr>db_rejections := db_rejections db @ [\<lparr> ur_upload_token = token, ur_reason = code,
        ur_line_number = line_number, ur_status_code = status_code code, ur_declared_content_length = None,
        ur_received_bytes = Some byte_size, ur_created_at = now \<rparr>]\<rparr>)"

definition file_with_sha :: "string \<Rightarrow> audit_file list \<Rightarrow> audit_file option" where
  "file_with_sha sha files = find_row af_file_sha256 sha files"

text \<open>
  The handler of an exception of the atomic block: a lock conflict is reported as busy, an integrity
  error may be a concurrent upload of the same bytes, anything else is recorded and refused.
\<close>

definition ingest_failed ::
  "upload_args \<Rightarrow> string \<Rightarrow> circumstances \<Rightarrow> database \<Rightarrow> database \<times> ingest_outcome" where
  "ingest_failed args sha ci db =
     (if ci_lock_conflict ci then (db, Refused (rejected ''ingest_busy'' None))
      else (case (if ci_integrity_error ci then file_with_sha sha (db_files db @ ci_committed ci) else None) of
              Some f \<Rightarrow> (db, Ingested (af_id f) False)
            | None \<Rightarrow> (record_ingestion_rejection (ci_rejection_lost ci) (ua_now args) (ua_upload_token args)
                          (length (ua_dump_bytes args)) ''ingest_failed'' None db,
                       Refused (rejected ''ingest_failed'' None))))"

definition ingest_audit_log_bytes ::
  "runtime \<Rightarrow> circumstances \<Rightarrow> upload_args \<Rightarrow> database \<Rightarrow> database \<times> ingest_outcome" where
  "ingest_audit_log_bytes rt ci args db =
     (case validate_upload rt (ua_dump_bytes args) of
        Inl r \<Rightarrow> (record_ingestion_rejection (ci_rejection_lost ci) (ua_now args) (ua_upload_token args)
                    (length (ua_dump_bytes args)) (rj_code r) (rj_line_number r) db, Refused r)
      | Inr (raw_text, parsed_lines) \<Rightarrow>
          (let sha = sha256_hexdigest rt (ua_dump_bytes args)
           in (case file_with_sha sha (db_files db) of
                 Some f \<Rightarrow> (db, Ingested (af_id f) False)
               | None \<Rightarrow>
                   (case body_source_metadata parsed_lines of
                      None \<Rightarrow> (db, Crashed)
                    | Some source \<Rightarrow>
                        (if ci_busy ci then (db, Refused (rejected ''ingest_busy'' None))
                         else if ci_lock_conflict ci \<or> ci_failure ci \<or> ci_integrity_error ci
                         then ingest_failed args sha ci db
                         else (case ingest_transaction rt args raw_text parsed_lines source db of
                                 None \<Rightarrow> ingest_failed args sha ci db
                               | Some (db', i) \<Rightarrow> (db', Ingested i True)))))))"

section \<open>Group resolution\<close>

text \<open>
  The key columns of the group table. Resolving keys adds groups under new keys with a zero count;
  the ids and counts of the others stay.
\<close>

definition groups_keyed :: "database \<Rightarrow> bool" where
  "groups_keyed db \<longleftrightarrow> distinct (map g_id (db_groups db)) \<and> distinct (map g_slug (db_groups db)) \<and>
     list_all (\<lambda>i. 0 < i \<and> i < db_next_group db) (map g_id (db_groups db)) \<and> 0 < db_next_group db"

definition id_counts :: "database \<Rightarrow> (nat \<times> nat) list" where
  "id_counts db = map (\<lambda>g. (g_id g, g_divergent_message_count g)) (db_groups db)"

definition outside_groups ::
  "database \<Rightarrow> audit_file list \<times> audit_event list \<times> upload_rejection list \<times> projections \<times> nat \<times> nat" where
  "outside_groups db = (db_files db, db_events db, db_rejections db, db_projections db, db_next_file db, db_next_event db)"

definition grows :: "database \<Rightarrow> database \<Rightarrow> bool" where
  "grows db db' \<longleftrightarrow> groups_keyed db' \<and> db_next_group db \<le> db_next_group db' \<and>
     outside_groups db' = outside_groups db \<and>
     (\<exists>new. id_counts db' = id_counts db @ new \<and> list_all (\<lambda>(i, n). db_next_group db \<le> i \<and> n = 0) new)"

lemma grows_refl: "groups_keyed db \<Longrightarrow> grows db db"
  by (simp add: grows_def)

lemma grows_trans:
  assumes "grows db db1" "grows db1 db2"
  shows "grows db db2"
proof -
  obtain new new' where "id_counts db1 = id_counts db @ new" "id_counts db2 = id_counts db1 @ new'"
    "list_all (\<lambda>(i, n). db_next_group db \<le> i \<and> n = 0) new"
    "list_all (\<lambda>(i, n). db_next_group db1 \<le> i \<and> n = 0) new'" "db_next_group db \<le> db_next_group db1"
    using assms by (auto simp: grows_def)
  then have "id_counts db2 = id_counts db @ (new @ new') \<and>
      list_all (\<lambda>(i, n). db_next_group db \<le> i \<and> n = 0) (new @ new')"
    by (auto simp: list_all_iff)
  then show ?thesis using assms unfolding grows_def by auto
qed

lemma insert_group_grows:
  assumes "groups_keyed db" "g_id g = db_next_group db" "g_slug g \<notin> g_slug ` set (db_groups db)"
    and "g_divergent_message_count g = 0"
  shows "grows db (insert_group g db)"
  using assms by (auto simp: grows_def insert_group_def groups_keyed_def id_counts_def outside_groups_def list_all_iff)

lemma regroup_grows:
  assumes "groups_keyed db" "map g_id gs = map g_id (db_groups db)" "map g_slug gs = map g_slug (db_groups db)"
    and "map (\<lambda>g. (g_id g, g_divergent_message_count g)) gs = id_counts db"
  shows "grows db (db\<lparr>db_groups := gs\<rparr>)"
  using assms by (simp add: grows_def groups_keyed_def id_counts_def outside_groups_def del: list.pred_map)

lemma set_group_ref_grows:
  assumes "groups_keyed db"
  shows "grows db (db\<lparr>db_groups := map (\<lambda>x. if g_id x = i then x\<lparr>g_group_ref := r\<rparr> else x) (db_groups db)\<rparr>)"
  using assms by (rule regroup_grows) (simp_all add: id_counts_def if_distrib cong: if_cong)

lemma new_group_simps [simp]:
  "g_id (new_group pk now slug name r) = pk" "g_slug (new_group pk now slug name r) = slug"
  "g_divergent_message_count (new_group pk now slug name r) = 0"
  by (simp_all add: new_group_def)

lemma first_group_mem: "first_group gs = Some g \<Longrightarrow> g \<in> set gs"
  by (metis (no_types, lifting) first_group_def list.case_eq_if list.set_sel(1) option.distinct(1) option.inject
      set_sort)

lemma grows_ids: "grows db db' \<Longrightarrow> g_id ` set (db_groups db) \<subseteq> g_id ` set (db_groups db')"
proof -
  assume "grows db db'"
  then obtain new where "id_counts db' = id_counts db @ new" by (auto simp: grows_def)
  then have "map fst (id_counts db') = map fst (id_counts db) @ map fst new" by simp
  then have "map g_id (db_groups db') = map g_id (db_groups db) @ map fst new"
    by (simp add: id_counts_def o_def)
  then have "set (map g_id (db_groups db)) \<subseteq> set (map g_id (db_groups db'))" by simp
  then show ?thesis by simp
qed

lemma group_for_key_grows:
  assumes "groups_keyed db" "group_for_key rt now name key db = (db', g)"
  shows "grows db db' \<and> g_id g \<in> g_id ` set (db_groups db')"
proof (cases key)
  case (RefKey r)
  let ?slug = "group_slug_for_ref rt r"
  show ?thesis
  proof (cases "first_group (filter (\<lambda>g. g_group_ref g = r) (db_groups db))")
    case (Some h)
    then show ?thesis using assms RefKey first_group_mem [OF Some] grows_refl
      by (auto simp: group_for_key_def group_for_ref_def)
  next
    case None
    show ?thesis
    proof (cases "find_row g_slug ?slug (db_groups db)")
      case fresh: None
      let ?g = "new_group (db_next_group db) now ?slug (''Group '' @ take 12 r) r"
      have "db' = insert_group ?g db" "g = ?g"
        using assms(2) RefKey None fresh by (auto simp: group_for_key_def group_for_ref_def Let_def)
      moreover have "grows db (insert_group ?g db)"
        using fresh by (intro insert_group_grows assms(1)) (simp_all add: find_row_None_iff)
      ultimately show ?thesis by (simp add: insert_group_def)
    next
      case (Some h)
      then have h: "h \<in> set (db_groups db)" by (auto dest: find_row_SomeD)
      show ?thesis
      proof (cases "r \<noteq> [] \<and> g_group_ref h = []")
        case True
        then have "db' = db\<lparr>db_groups := map (\<lambda>x. if g_id x = g_id h then x\<lparr>g_group_ref := r\<rparr> else x) (db_groups db)\<rparr>"
          "g = h\<lparr>g_group_ref := r\<rparr>"
          using assms(2) RefKey None Some by (auto simp: group_for_key_def group_for_ref_def Let_def)
        moreover from this(1) have "grows db db'" using set_group_ref_grows [OF assms(1)] by simp
        ultimately show ?thesis using grows_ids [of db db'] h by auto
      next
        case False
        then have "db' = db" "g = h"
          using assms(2) RefKey None Some by (auto simp: group_for_key_def group_for_ref_def Let_def)
        then show ?thesis using grows_refl [OF assms(1)] h by simp
      qed
    qed
  qed
next
  case (SlugKey s)
  show ?thesis
  proof (cases "find_row g_slug s (db_groups db)")
    case None
    let ?g = "new_group (db_next_group db) now s (if name \<noteq> [] then name else group_name_from_slug s) []"
    have "db' = insert_group ?g db" "g = ?g"
      using assms(2) SlugKey None by (auto simp: group_for_key_def group_for_slug_def Let_def)
    moreover have "grows db (insert_group ?g db)"
      using None by (intro insert_group_grows assms(1)) (simp_all add: find_row_None_iff)
    ultimately show ?thesis by (simp add: insert_group_def)
  next
    case (Some h)
    then have "h \<in> set (db_groups db)" by (auto dest: find_row_SomeD)
    then show ?thesis using assms SlugKey Some grows_refl by (auto simp: group_for_key_def group_for_slug_def)
  qed
qed

lemma resolve_groups_grows:
  assumes "groups_keyed db" "resolve_groups rt now name keys db = (db', gs)"
  shows "grows db db' \<and> snd ` set gs \<subseteq> g_id ` set (db_groups db') \<and> map fst gs = keys"
  using assms
proof (induction keys arbitrary: db db' gs)
  case Nil
  then show ?case by (simp add: grows_refl)
next
  case (Cons key keys)
  obtain db1 g where step: "group_for_key rt now name key db = (db1, g)" by (cases "group_for_key rt now name key db")
  obtain rest where rest: "resolve_groups rt now name keys db1 = (db', rest)" "gs = (key, g_id g) # rest"
    using Cons.prems(2) step by (auto split: prod.splits)
  have g1: "grows db db1" "g_id g \<in> g_id ` set (db_groups db1)" using group_for_key_grows [OF Cons.prems(1) step] by auto
  then have "groups_keyed db1" by (simp add: grows_def)
  from Cons.IH [OF this rest(1)] g1 show ?case
    using grows_trans [OF g1(1)] grows_ids [of db1 db'] rest(2) by auto
qed

lemma sorted_keys_complete: "Some k \<in> set keys \<Longrightarrow> k \<in> set (sorted_keys keys)"
  by (cases k) (auto simp: sorted_keys_def split: option.splits group_key.splits)

section \<open>The event loop\<close>

definition line_key :: "parsed_line \<Rightarrow> string \<times> string" where
  "line_key parsed = (pl_line_hash parsed, line_engine parsed)"

definition event_key :: "audit_event \<Rightarrow> string \<times> string" where
  "event_key e = (ev_line_hash e, ev_engine_id e)"

lemma event_values_simps [simp]:
  "ev_id (event_values pk file l g) = pk" "ev_group (event_values pk file l g) = g"
  "ev_audit_file (event_values pk file l g) = file" "ev_line_hash (event_values pk file l g) = pl_line_hash l"
  "ev_parse_status (event_values pk file l g) = (if pl_errors l \<noteq> [] then STATUS_INVALID else STATUS_VALID)"
  "ev_line_number (event_values pk file l g) = pl_line_number l"
  "ev_raw_line (event_values pk file l g) = pl_raw_line l"
  "pl_data l \<noteq> None \<Longrightarrow> ev_engine_id (event_values pk file l g) = line_engine l"
  by (auto simp: event_values_def Let_def line_engine_def str_col_def)

lemma event_values_key: "pl_data l \<noteq> None \<Longrightarrow> event_key (event_values pk file l g) = line_key l"
  by (simp add: event_key_def line_key_def)

text \<open>The dictionary of seen pairs holds, for the hashes of the upload, exactly the pairs of \<open>S\<close>.\<close>

definition remembers :: "string set \<Rightarrow> (string \<times> string) set \<Rightarrow> seen \<Rightarrow> bool" where
  "remembers H S d \<longleftrightarrow> (\<forall>h \<in> H. dd_get {} d h = {engine. (h, engine) \<in> S})"

lemma remembers_add: "remembers H S d \<Longrightarrow> pl_line_hash l \<in> H \<Longrightarrow>
    remembers H (insert (line_key l) S) (remember_duplicate_event l d)"
  by (auto simp: remembers_def remember_duplicate_event_def line_key_def)

lemma remembers_existing:
  "remembers (pl_line_hash ` set ls)
     (event_key ` {e \<in> set (db_events db). v \<longrightarrow> file_is_valid (db_files db) (ev_audit_file e)})
     (existing_duplicate_events db ls v)"
proof -
  have fold: "dd_get {} (fold (\<lambda>e d. dd_add (ev_line_hash e) (ev_engine_id e) d) es d) h =
      dd_get {} d h \<union> {engine. (h, engine) \<in> event_key ` set es}" for es d h
    by (induction es arbitrary: d) (auto simp: event_key_def)
  show ?thesis
    unfolding remembers_def existing_duplicate_events_def fold
    by (force simp: dd_get_def event_key_def)
qed

lemma duplicate_iff:
  assumes "remembers H S d" "pl_line_hash l \<in> H"
  shows "duplicate_event_exists l d \<longleftrightarrow>
    (line_key l \<in> S \<or> (line_engine l = [] \<and> (\<exists>engine. (pl_line_hash l, engine) \<in> S)))"
  using assms by (auto simp: duplicate_event_exists_def remembers_def Let_def line_key_def)

text \<open>
  What the loop returns: new rows with fresh consecutive keys and new pairs, and every line is either
  stored or a duplicate of a pair that is stored.
\<close>

definition loop_ok ::
  "nat \<Rightarrow> parsed_line list \<Rightarrow> (string \<times> string) set \<Rightarrow> audit_event list \<Rightarrow> nat \<Rightarrow> bool" where
  "loop_ok pk ls S es dups \<longleftrightarrow> length es + dups = length ls \<and> map ev_id es = [pk..<pk + length es] \<and>
     distinct (map event_key es) \<and> event_key ` set es \<inter> S = {} \<and>
     list_all (\<lambda>l. \<exists>engine. (pl_line_hash l, engine) \<in> S \<union> event_key ` set es \<and>
       (line_engine l \<noteq> [] \<longrightarrow> engine = line_engine l)) ls"

lemma loop_ok_skip:
  assumes "loop_ok pk ls S es dups" "line_key l \<in> S \<or> (line_engine l = [] \<and> (\<exists>engine. (pl_line_hash l, engine) \<in> S))"
  shows "loop_ok pk (l # ls) S es (Suc dups)"
  using assms by (auto simp: loop_ok_def line_key_def)

lemma loop_ok_take:
  assumes "loop_ok (Suc pk) ls (insert (line_key l) S) es dups" "line_key l \<notin> S"
    and "ev_id e = pk" "event_key e = line_key l"
  shows "loop_ok pk (l # ls) S (e # es) dups"
proof -
  have sets: "insert (line_key l) S \<union> event_key ` set es = S \<union> event_key ` set (e # es)" using assms(4) by auto
  have "map ev_id es = [Suc pk..<Suc pk + length es]" using assms(1) unfolding loop_ok_def by blast
  then have "map ev_id (e # es) = [pk..<pk + length (e # es)]"
    using assms(3) by (simp add: upt_conv_Cons del: upt_Suc)
  moreover have "list_all (\<lambda>l. \<exists>engine. (pl_line_hash l, engine) \<in> S \<union> event_key ` set (e # es) \<and>
       (line_engine l \<noteq> [] \<longrightarrow> engine = line_engine l)) (l # ls)"
    using assms(1) unfolding loop_ok_def sets by (auto simp: assms(4) line_key_def)
  ultimately show ?thesis using assms unfolding loop_ok_def by auto
qed

lemma event_loop_ok:
  assumes "event_loop pk file slug gk ls d = (es, dups, gs)"
    and "remembers H S d" "pl_line_hash ` set ls \<subseteq> H" "list_all (\<lambda>l. pl_data l \<noteq> None) ls"
  shows "loop_ok pk ls S es dups"
  using assms
proof (induction ls arbitrary: pk d S es dups gs)
  case Nil
  then show ?case by (simp add: loop_ok_def)
next
  case (Cons l ls)
  let ?g = "case group_key_for_parsed_line l slug of None \<Rightarrow> None | Some k \<Rightarrow> map_of gk k"
  have hash: "pl_line_hash l \<in> H" "pl_line_hash ` set ls \<subseteq> H" "list_all (\<lambda>l. pl_data l \<noteq> None) ls" "pl_data l \<noteq> None"
    using Cons.prems(3,4) by auto
  note dup = duplicate_iff [OF Cons.prems(2) hash(1)]
  show ?case
  proof (cases "duplicate_event_exists l d")
    case True
    then obtain dups' gs' where "event_loop pk file slug gk ls d = (es, dups', gs')" "dups = Suc dups'"
      using Cons.prems(1) by (auto simp: Let_def split: prod.splits)
    with Cons.IH [OF _ Cons.prems(2) hash(2,3)] True dup show ?thesis by (auto intro: loop_ok_skip)
  next
    case False
    then obtain es' gs' where rest: "event_loop (Suc pk) file slug gk ls (remember_duplicate_event l d) = (es', dups, gs')"
      and es: "es = event_values pk file l ?g # es'"
      using Cons.prems(1) by (auto simp: Let_def split: prod.splits)
    from Cons.IH [OF rest remembers_add [OF Cons.prems(2) hash(1)] hash(2,3)] False dup show ?thesis
      unfolding es by (intro loop_ok_take event_values_key hash(4)) auto
  qed
qed

text \<open>Every new row comes from a line, under the group its key resolved to; the group list covers all lines.\<close>

definition line_group :: "(group_key \<times> nat) list \<Rightarrow> string \<Rightarrow> parsed_line \<Rightarrow> nat option" where
  "line_group gk slug l = (case group_key_for_parsed_line l slug of None \<Rightarrow> None | Some k \<Rightarrow> map_of gk k)"

lemma event_loop_rows:
  assumes "event_loop pk file slug gk ls d = (es, dups, gs)"
  shows "gs = the_list (map (line_group gk slug) ls) \<and>
    list_all (\<lambda>e. \<exists>l \<in> set ls. \<exists>i. e = event_values i file l (line_group gk slug l)) es"
  using assms
proof (induction ls arbitrary: pk d es dups gs)
  case Nil
  then show ?case by simp
next
  case (Cons l ls)
  let ?ids = "case line_group gk slug l of None \<Rightarrow> [] | Some g \<Rightarrow> [g]"
  have ids: "?ids @ the_list xs = the_list (line_group gk slug l # xs)" for xs
    by (cases "line_group gk slug l") simp_all
  show ?case
  proof (cases "duplicate_event_exists l d")
    case True
    then obtain dups' gs' where "event_loop pk file slug gk ls d = (es, dups', gs')" "gs = ?ids @ gs'"
      using Cons.prems(1) by (auto simp: Let_def line_group_def split: prod.splits)
    with Cons.IH [OF this(1)] ids show ?thesis by (auto simp: list_all_iff)
  next
    case False
    then obtain es' gs' where rest: "event_loop (Suc pk) file slug gk ls (remember_duplicate_event l d) = (es', dups, gs')"
      "gs = ?ids @ gs'" and es: "es = event_values pk file l (line_group gk slug l) # es'"
      using Cons.prems(1) by (auto simp: Let_def line_group_def split: prod.splits)
    have "list_all (\<lambda>e. \<exists>m \<in> set (l # ls). \<exists>i. e = event_values i file m (line_group gk slug m)) es'"
      using Cons.IH [OF rest(1)] by (auto simp: list_all_iff)
    with Cons.IH [OF rest(1)] rest(2) ids show ?thesis unfolding es by auto
  qed
qed

section \<open>Bulk insertion\<close>

lemma bound_columns_eq: "bound_columns = 76"
  by code_simp

lemma audit_event_batch_size_eq [code]: "audit_event_batch_size = 431"
  by (simp add: audit_event_batch_size_def bound_columns_eq POSTGRES_MAX_BIND_PARAMS_def)

lemma batch_size_pos: "0 < audit_event_batch_size"
  by (simp add: audit_event_batch_size_eq)

lemma bulk_create_eq: "bulk_create rows db =
    db\<lparr>db_events := db_events db @ rows, db_next_event := db_next_event db + length rows\<rparr>"
proof -
  have "fold (\<lambda>batch db. db\<lparr>db_events := db_events db @ batch, db_next_event := db_next_event db + length batch\<rparr>) bs db =
      db\<lparr>db_events := db_events db @ concat bs, db_next_event := db_next_event db + length (concat bs)\<rparr>" for bs
    by (induction bs arbitrary: db) (simp_all add: add.assoc)
  then show ?thesis unfolding bulk_create_def by (simp add: concat_batches [OF batch_size_pos])
qed

section \<open>The invariant of the database\<close>

definition group_divergence :: "audit_file list \<Rightarrow> audit_event list \<Rightarrow> nat \<Rightarrow> nat" where
  "group_divergence files events g =
     card {m. message_diverges (filter tagged (valid_events_for_group files events g)) m}"

definition evidence_ok :: "database \<Rightarrow> bool" where
  "evidence_ok db \<longleftrightarrow>
     distinct (map af_id (db_files db)) \<and> list_all (\<lambda>f. af_id f < db_next_file db) (db_files db) \<and>
     distinct (map af_file_sha256 (db_files db)) \<and>
     distinct (map ev_id (db_events db)) \<and>
     list_all (\<lambda>e. ev_id e < db_next_event db \<and> ev_audit_file e \<in> af_id ` set (db_files db) \<and>
       (case ev_group e of None \<Rightarrow> True | Some g \<Rightarrow> g \<in> g_id ` set (db_groups db))) (db_events db)"

text \<open>No two events of valid files have the same line hash and engine id.\<close>

definition dedup_ok :: "database \<Rightarrow> bool" where
  "dedup_ok db \<longleftrightarrow>
     distinct (map event_key (filter (\<lambda>e. file_is_valid (db_files db) (ev_audit_file e)) (db_events db)))"

text \<open>Every persisted rollup is the divergence of the group's counted events.\<close>

definition rollups_ok :: "database \<Rightarrow> bool" where
  "rollups_ok db \<longleftrightarrow> list_all (\<lambda>(i, n). n = group_divergence (db_files db) (db_events db) i) (id_counts db)"

definition db_ok :: "database \<Rightarrow> bool" where
  "db_ok db \<longleftrightarrow> groups_keyed db \<and> evidence_ok db \<and> dedup_ok db \<and> rollups_ok db \<and> tables_ok (db_projections db)"

lemma group_divergence_cong:
  assumes "set (valid_events_for_group files events g) = set (valid_events_for_group files' events' g)"
  shows "group_divergence files events g = group_divergence files' events' g"
proof -
  have "message_diverges (filter tagged (valid_events_for_group files events g)) =
      message_diverges (filter tagged (valid_events_for_group files' events' g))"
    using assms by (intro ext message_diverges_cong) auto
  then show ?thesis by (simp add: group_divergence_def)
qed

lemma group_divergence_none:
  assumes "valid_events_for_group files events g = []"
  shows "group_divergence files events g = 0"
proof -
  have "{m. message_diverges [] m} = {}" by (auto simp: message_diverges_def observers_in_def engines_in_def)
  then show ?thesis unfolding group_divergence_def assms by (simp only: filter.simps card.empty)
qed

lemma file_lookup_append:
  assumes "i \<noteq> af_id f"
  shows "file_is_valid (fs @ [f]) i = file_is_valid fs i"
    and "event_file_ok (fs @ [f]) e = event_file_ok fs e \<or> ev_audit_file e = af_id f"
  using assms by (auto simp: file_is_valid_def event_file_ok_def)

lemma counted_append: "ev_audit_file e \<noteq> af_id f \<Longrightarrow> counted_event (fs @ [f]) e = counted_event fs e"
  by (auto simp: counted_event_def event_file_ok_def)

lemma refresh_group_rollups_eq:
  assumes "0 \<notin> set ids"
  shows "refresh_group_rollups now ids db = db\<lparr>db_groups := map (\<lambda>g. if g_id g \<in> set ids
     then g\<lparr>g_divergent_message_count := group_divergence (db_files db) (db_events db) (g_id g), g_updated_at := now\<rparr>
     else g) (db_groups db)\<rparr>"
proof -
  define ks where "ks = rev (remdups (rev (filter (\<lambda>g. g \<noteq> 0) ids)))"
  have "filter (\<lambda>g. g \<noteq> 0) ids = ids" using assms by (intro filter_True) metis
  then have ks: "set ks = set ids" by (simp add: ks_def)
  have count: "dd_get 0 (divergent_counts_for_group_ids (db_files db) (db_events db) ks) i =
      group_divergence (db_files db) (db_events db) i" if "i \<in> set ids" for i
  proof -
    have "i \<in> set ks" "i \<noteq> 0" using that assms ks by metis+
    then show ?thesis by (simp add: dd_get_def divergent_counts_card group_divergence_def)
  qed
  have "refresh_group_rollups now ids db = (if ks = [] then db
      else db\<lparr>db_groups := map (\<lambda>g. if g_id g \<in> set ks
        then g\<lparr>g_divergent_message_count := dd_get 0 (divergent_counts_for_group_ids (db_files db) (db_events db) ks) (g_id g),
          g_updated_at := now\<rparr> else g) (db_groups db)\<rparr>)"
    unfolding refresh_group_rollups_def ks_def Let_def by (rule refl)
  also have "\<dots> = db\<lparr>db_groups := map (\<lambda>g. if g_id g \<in> set ids
     then g\<lparr>g_divergent_message_count := group_divergence (db_files db) (db_events db) (g_id g), g_updated_at := now\<rparr>
     else g) (db_groups db)\<rparr>"
    using ks by (cases "ks = []") (simp_all add: count cong: map_cong if_cong)
  finally show ?thesis .
qed

section \<open>The shape of a successful transaction\<close>

lemma rebuild_file_projections_frame:
  "rebuild_file_projections db f = Some db' \<Longrightarrow> db' = db\<lparr>db_projections := db_projections db'\<rparr>"
  by (auto simp: rebuild_file_projections_def Let_def split: if_splits)

lemma upd_other_files:
  "list_all (\<lambda>g. af_id g \<noteq> i) fs \<Longrightarrow> map (\<lambda>g. if af_id g = i then h g else g) fs = fs"
  by (induction fs) auto

definition stored_file :: "audit_file \<Rightarrow> nat list \<Rightarrow> nat \<Rightarrow> audit_file" where
  "stored_file f group_ids dups = f\<lparr>af_groups := fold m2m_add group_ids [], af_duplicate_event_count := dups\<rparr>"

lemma stored_file_simps [simp]:
  "af_id (stored_file f gs n) = af_id f" "af_file_sha256 (stored_file f gs n) = af_file_sha256 f"
  "af_validation_status (stored_file f gs n) = af_validation_status f"
  "af_validation_error (stored_file f gs n) = af_validation_error f"
  "af_duplicate_event_count (stored_file f gs n) = n"
  "af_total_line_count (stored_file f gs n) = af_total_line_count f"
  "af_raw_text (stored_file f gs n) = af_raw_text f" "af_byte_size (stored_file f gs n) = af_byte_size f"
  by (simp_all add: stored_file_def)

lemma stored_file_zero:
  "af_duplicate_event_count f = 0 \<Longrightarrow> stored_file f gs 0 = f\<lparr>af_groups := fold m2m_add gs []\<rparr>"
  by (cases f) (simp add: stored_file_def)

lemma set_m2m_adds: "set (fold m2m_add xs ys) = set xs \<union> set ys"
  by (induction xs arbitrary: ys) auto

lemma new_file_simps [simp]:
  "af_id (new_file pk args sha t m src) = pk" "af_file_sha256 (new_file pk args sha t m src) = sha"
  "af_validation_status (new_file pk args sha t m src) = STATUS_VALID"
  "af_groups (new_file pk args sha t m src) = []" "af_duplicate_event_count (new_file pk args sha t m src) = 0"
  "af_total_line_count (new_file pk args sha t m src) = fm_total_line_count m"
  "af_raw_text (new_file pk args sha t m src) = t"
  "af_byte_size (new_file pk args sha t m src) = length (ua_dump_bytes args)"
  by (simp_all add: new_file_def Let_def)

text \<open>
  What a successful transaction did: the groups \<open>db1\<close> it resolved, the loop over the lines with its new
  rows \<open>es\<close>, and the database it leaves.
\<close>

definition commits ::
  "runtime \<Rightarrow> upload_args \<Rightarrow> string \<Rightarrow> parsed_line list \<Rightarrow> dict \<Rightarrow> database \<Rightarrow> database \<Rightarrow> database \<Rightarrow>
   (group_key \<times> nat) list \<Rightarrow> audit_event list \<Rightarrow> nat \<Rightarrow> nat list \<Rightarrow> audit_file \<Rightarrow> bool" where
  "commits rt args raw lines src db db' db1 gk es dups gs f \<longleftrightarrow>
     groups_for_parsed_lines rt (ua_now args) lines (ua_fallback_group_slug args) (ua_fallback_group_name args) db = (db1, gk) \<and>
     f = new_file (db_next_file db) args (sha256_hexdigest rt (ua_dump_bytes args)) raw (file_metadata lines) src \<and>
     event_loop (db_next_event db) (af_id f) (ua_fallback_group_slug args) gk lines
       (existing_duplicate_events (insert_file f db1) lines True) = (es, dups, gs) \<and>
     grows db db1 \<and>
     db_files db' = db_files db @ [stored_file f (sorted_set gs) dups] \<and>
     db_events db' = db_events db @ es \<and> db_rejections db' = db_rejections db \<and>
     db_next_file db' = Suc (db_next_file db) \<and> db_next_event db' = db_next_event db + length es \<and>
     db_next_group db' = db_next_group db1 \<and>
     db_groups db' = map (\<lambda>g. if g_id g \<in> set gs
       then g\<lparr>g_divergent_message_count := group_divergence (db_files db') (db_events db') (g_id g),
              g_updated_at := ua_now args\<rparr> else g) (db_groups db1) \<and>
     (tables_ok (db_projections db) \<longrightarrow> tables_ok (db_projections db')) \<and>
     set gs \<subseteq> g_id ` set (db_groups db1)"

lemma commitsD:
  assumes "commits rt args raw lines src db db' db1 gk es dups gs f"
  shows "event_loop (db_next_event db) (af_id f) (ua_fallback_group_slug args) gk lines
       (existing_duplicate_events (insert_file f db1) lines True) = (es, dups, gs)"
    and "f = new_file (db_next_file db) args (sha256_hexdigest rt (ua_dump_bytes args)) raw (file_metadata lines) src"
    and "af_id f = db_next_file db"
    and "grows db db1"
  using assms unfolding commits_def by (blast, blast, auto)

lemma ingest_transaction_shape:
  assumes run: "ingest_transaction rt args text lines src db = Some (db', i)"
    and ok: "groups_keyed db" "evidence_ok db"
  shows "i = db_next_file db \<and> (\<exists>db1 gk es dups gs f. commits rt args text lines src db db' db1 gk es dups gs f)"
proof -
  let ?slug = "ua_fallback_group_slug args"
  obtain db1 gk where g: "groups_for_parsed_lines rt (ua_now args) lines ?slug (ua_fallback_group_name args) db = (db1, gk)"
    by (cases "groups_for_parsed_lines rt (ua_now args) lines ?slug (ua_fallback_group_name args) db")
  have grow: "grows db db1" and gk: "snd ` set gk \<subseteq> g_id ` set (db_groups db1)"
    using resolve_groups_grows [OF ok(1) g [unfolded groups_for_parsed_lines_def]] by auto
  have same: "db_files db1 = db_files db" "db_events db1 = db_events db" "db_rejections db1 = db_rejections db"
    "db_projections db1 = db_projections db" "db_next_file db1 = db_next_file db" "db_next_event db1 = db_next_event db"
    using grow by (simp_all add: grows_def outside_groups_def)
  define f where "f = new_file (db_next_file db) args (sha256_hexdigest rt (ua_dump_bytes args)) text (file_metadata lines) src"
  let ?d = "existing_duplicate_events (insert_file f db1) lines True"
  obtain es dups gs where loop: "event_loop (db_next_event db) (af_id f) ?slug gk lines ?d = (es, dups, gs)"
    by (cases "event_loop (db_next_event db) (af_id f) ?slug gk lines ?d") auto
  let ?gids = "sorted_set gs"
  let ?db2 = "link_groups (af_id f) ?gids (bulk_create es (insert_file f db1))"
  let ?f = "f\<lparr>af_groups := fold m2m_add ?gids (af_groups f)\<rparr>"
  have valid: "af_validation_status f = STATUS_VALID" by (simp add: f_def)
  have next1: "db_next_event (insert_file f db1) = db_next_event db" by (simp add: insert_file_def same)
  have create: "create_events f lines ?slug gk (insert_file f db1) =
      map_option (\<lambda>db3. (db3, dups, ?gids)) (rebuild_file_projections ?db2 ?f)"
    unfolding create_events_def using loop by (simp add: valid next1 Let_def)
  have f1: "new_file (db_next_file db1) args (sha256_hexdigest rt (ua_dump_bytes args)) text (file_metadata lines) src = f"
    by (simp add: f_def same)
  have body: "ingest_transaction rt args text lines src db =
      (case create_events f lines ?slug gk (insert_file f db1) of
         None \<Rightarrow> None
       | Some (db2, duplicate_count, group_ids) \<Rightarrow>
           (let db3 = (if duplicate_count \<noteq> 0 then set_duplicates (af_id f) duplicate_count db2 else db2);
                locked = sort (filter (\<lambda>i. i \<in> set group_ids) (map g_id (db_groups db3)))
            in Some (refresh_group_rollups (ua_now args) locked db3, af_id f)))"
    unfolding ingest_transaction_def Let_def g prod.case f1 by (rule refl)
  obtain db3 where db3: "rebuild_file_projections ?db2 ?f = Some db3"
    using run unfolding body create by (cases "rebuild_file_projections ?db2 ?f") simp_all
  define db4 where "db4 = (if dups \<noteq> 0 then set_duplicates (af_id f) dups db3 else db3)"
  let ?locked = "sort (filter (\<lambda>i. i \<in> set ?gids) (map g_id (db_groups db4)))"
  have res: "db' = refresh_group_rollups (ua_now args) ?locked db4" "i = af_id f"
    using run unfolding body create db3 option.map option.case prod.case Let_def db4_def [symmetric] by simp_all
  have fs: "list_all (\<lambda>h. af_id h \<noteq> af_id f) (db_files db)"
    using ok(2) by (auto simp: evidence_ok_def list_all_iff f_def)
  have files2: "db_files ?db2 = db_files db @ [?f]"
    using fs by (simp add: link_groups_def bulk_create_eq insert_file_def same upd_other_files)
  have db2: "db_events ?db2 = db_events db @ es" "db_groups ?db2 = db_groups db1"
    "db_rejections ?db2 = db_rejections db" "db_projections ?db2 = db_projections db"
    "db_next_file ?db2 = Suc (db_next_file db)" "db_next_event ?db2 = db_next_event db + length es"
    "db_next_group ?db2 = db_next_group db1"
    by (simp_all add: link_groups_def bulk_create_eq insert_file_def same)
  note frame = rebuild_file_projections_frame [OF db3]
  have db3_eq: "db_files db3 = db_files ?db2" "db_events db3 = db_events ?db2" "db_groups db3 = db_groups ?db2"
    "db_rejections db3 = db_rejections ?db2" "db_next_file db3 = db_next_file ?db2"
    "db_next_event db3 = db_next_event ?db2" "db_next_group db3 = db_next_group ?db2"
    by (subst frame, simp)+
  have stored: "stored_file f ?gids dups = ?f\<lparr>af_duplicate_event_count := dups\<rparr>"
    by (simp add: stored_file_def f_def)
  have files4: "db_files db4 = db_files db @ [stored_file f ?gids dups]"
  proof (cases "dups = 0")
    case True
    moreover have "stored_file f ?gids 0 = ?f" by (subst stored_file_zero) (simp_all add: f_def)
    ultimately show ?thesis by (simp add: db4_def db3_eq files2)
  next
    case False
    have "map (\<lambda>h. if af_id h = af_id f then h\<lparr>af_duplicate_event_count := dups\<rparr> else h) (db_files db @ [?f]) =
        db_files db @ [?f\<lparr>af_duplicate_event_count := dups\<rparr>]"
      using fs by (simp add: upd_other_files)
    with False show ?thesis by (simp add: db4_def set_duplicates_def db3_eq files2 stored)
  qed
  have db4_eq: "db_events db4 = db_events db @ es" "db_groups db4 = db_groups db1" "db_rejections db4 = db_rejections db"
    "db_next_file db4 = Suc (db_next_file db)" "db_next_event db4 = db_next_event db + length es"
    "db_next_group db4 = db_next_group db1" "db_projections db4 = db_projections db3"
    by (simp_all add: db4_def set_duplicates_def db3_eq db2)
  have gs: "gs = the_list (map (line_group gk ?slug) lines)" using event_loop_rows [OF loop] by simp
  have "g \<in> g_id ` set (db_groups db1)" if mem: "g \<in> set gs" for g
  proof -
    have "Some g \<in> set (map (line_group gk ?slug) lines)" using mem unfolding gs by (simp del: set_map)
    then obtain l where "line_group gk ?slug l = Some g" by auto
    then have "g \<in> snd ` set gk" by (force simp: line_group_def dest: map_of_SomeD split: option.splits)
    with gk show ?thesis by blast
  qed
  then have sub: "set gs \<subseteq> g_id ` set (db_groups db1)" by blast
  have locked: "set ?locked = set gs" using sub by (auto simp: db4_eq)
  have "groups_keyed db1" using grow by (simp add: grows_def)
  then have zero: "0 \<notin> set ?locked" unfolding locked using sub by (fastforce simp: groups_keyed_def list_all_iff)
  note final = res(1) [unfolded refresh_group_rollups_eq [OF zero] locked]
  have fe: "db_files db' = db_files db4" "db_events db' = db_events db4" unfolding final by simp_all
  have tables: "tables_ok (db_projections db) \<Longrightarrow> tables_ok (db_projections db')"
    using rebuild_file_ok [OF db3] by (simp add: db2 db4_eq final)
  have groups: "db_groups db' = map (\<lambda>g. if g_id g \<in> set gs
       then g\<lparr>g_divergent_message_count := group_divergence (db_files db') (db_events db') (g_id g),
              g_updated_at := ua_now args\<rparr> else g) (db_groups db1)"
    unfolding fe by (subst final) (simp add: db4_eq cong: if_cong)
  have "commits rt args text lines src db db' db1 gk es dups gs f"
    unfolding commits_def by (intro conjI g f_def loop grow groups impI tables sub)
      (simp_all add: fe files4 db4_eq final)
  moreover have "af_id f = db_next_file db" by (simp add: f_def)
  ultimately show ?thesis using res(2) by blast
qed

section \<open>A transaction keeps the invariant\<close>

lemma valid_append_other:
  assumes "evidence_ok db" "af_id f = db_next_file db"
  shows "filter (\<lambda>e. file_is_valid (db_files db @ [f]) (ev_audit_file e)) (db_events db) =
      filter (\<lambda>e. file_is_valid (db_files db) (ev_audit_file e)) (db_events db)"
    and "e \<in> set (db_events db) \<Longrightarrow> counted_event (db_files db @ [f]) e = counted_event (db_files db) e"
proof -
  have other: "ev_audit_file e \<noteq> af_id f" if "e \<in> set (db_events db)" for e
    using assms that by (fastforce simp: evidence_ok_def list_all_iff)
  then show "filter (\<lambda>e. file_is_valid (db_files db @ [f]) (ev_audit_file e)) (db_events db) =
      filter (\<lambda>e. file_is_valid (db_files db) (ev_audit_file e)) (db_events db)"
    by (intro filter_cong refl) (simp add: file_lookup_append(1))
  show "e \<in> set (db_events db) \<Longrightarrow> counted_event (db_files db @ [f]) e = counted_event (db_files db) e"
    using other by (simp add: counted_append)
qed

text \<open>Groups the new rows do not belong to have the counted events they had.\<close>

lemma divergence_untouched:
  assumes "evidence_ok db" "af_id f = db_next_file db" "list_all (\<lambda>e. ev_group e \<noteq> Some g) es"
  shows "group_divergence (db_files db @ [f]) (db_events db @ es) g = group_divergence (db_files db) (db_events db) g"
proof (rule group_divergence_cong)
  show "set (valid_events_for_group (db_files db @ [f]) (db_events db @ es) g) =
      set (valid_events_for_group (db_files db) (db_events db) g)"
    using valid_append_other(2) [OF assms(1,2)] assms(3)
    by (auto simp: set_valid_events list_all_iff)
qed

lemma divergence_fresh:
  assumes "evidence_ok db" "groups_keyed db" "db_next_group db \<le> g"
  shows "group_divergence (db_files db) (db_events db) g = 0"
proof (rule group_divergence_none)
  have "ev_group e \<noteq> Some g" if "e \<in> set (db_events db)" for e
    using assms that by (fastforce simp: evidence_ok_def groups_keyed_def list_all_iff)
  then have "set (valid_events_for_group (db_files db) (db_events db) g) = {}" by (auto simp: set_valid_events)
  then show "valid_events_for_group (db_files db) (db_events db) g = []" by simp
qed

lemma commits_loop:
  assumes c: "commits rt args raw lines src db db' db1 gk es dups gs f"
    and data: "list_all (\<lambda>l. pl_data l \<noteq> None) lines"
  shows "loop_ok (db_next_event db) lines
      (event_key ` {e \<in> set (db_events db). file_is_valid (db_files db @ [f]) (ev_audit_file e)}) es dups"
proof -
  have old: "db_files (insert_file f db1) = db_files db @ [f]" "db_events (insert_file f db1) = db_events db"
    using commitsD(4) [OF c] by (simp_all add: insert_file_def grows_def outside_groups_def)
  have "remembers (pl_line_hash ` set lines)
      (event_key ` {e \<in> set (db_events db). file_is_valid (db_files db @ [f]) (ev_audit_file e)})
      (existing_duplicate_events (insert_file f db1) lines True)"
    using remembers_existing [of lines "insert_file f db1" True] by (simp add: old)
  from event_loop_ok [OF commitsD(1) [OF c] this subset_refl data] show ?thesis .
qed

lemma commits_rows:
  assumes "commits rt args raw lines src db db' db1 gk es dups gs f"
  shows "gs = the_list (map (line_group gk (ua_fallback_group_slug args)) lines)"
    and "e \<in> set es \<Longrightarrow> \<exists>l \<in> set lines. \<exists>i. e = event_values i (db_next_file db) l
        (line_group gk (ua_fallback_group_slug args) l)"
    and "e \<in> set es \<Longrightarrow> ev_audit_file e = db_next_file db"
    and "e \<in> set es \<Longrightarrow> ev_group e = Some g \<Longrightarrow> g \<in> set gs"
proof -
  note rows = event_loop_rows [OF commitsD(1) [OF assms], unfolded commitsD(3) [OF assms]]
  show gs: "gs = the_list (map (line_group gk (ua_fallback_group_slug args)) lines)" using rows by blast
  show origin: "\<exists>l \<in> set lines. \<exists>i. e = event_values i (db_next_file db) l
        (line_group gk (ua_fallback_group_slug args) l)" if "e \<in> set es" for e
    using rows that by (auto simp: list_all_iff)
  show "e \<in> set es \<Longrightarrow> ev_audit_file e = db_next_file db" using origin by fastforce
  show "g \<in> set gs" if new: "e \<in> set es" "ev_group e = Some g"
  proof -
    obtain l where "l \<in> set lines" "line_group gk (ua_fallback_group_slug args) l = Some g"
      using origin [OF new(1)] new(2) by auto
    then have "Some g \<in> set (map (line_group gk (ua_fallback_group_slug args)) lines)" by force
    then show ?thesis unfolding gs by (simp del: set_map)
  qed
qed

lemma commits_group_ids:
  assumes "commits rt args raw lines src db db' db1 gk es dups gs f"
  shows "map g_id (db_groups db') = map g_id (db_groups db1)" "map g_slug (db_groups db') = map g_slug (db_groups db1)"
    and "g_id ` set (db_groups db) \<subseteq> g_id ` set (db_groups db')"
    and "set gs \<subseteq> g_id ` set (db_groups db')" "groups_keyed db'"
proof -
  have groups: "db_groups db' = map (\<lambda>g. if g_id g \<in> set gs
       then g\<lparr>g_divergent_message_count := group_divergence (db_files db') (db_events db') (g_id g),
              g_updated_at := ua_now args\<rparr> else g) (db_groups db1)"
    and grow: "grows db db1" and sub: "set gs \<subseteq> g_id ` set (db_groups db1)"
    and nextg: "db_next_group db' = db_next_group db1"
    using assms unfolding commits_def by blast+
  show ids: "map g_id (db_groups db') = map g_id (db_groups db1)" "map g_slug (db_groups db') = map g_slug (db_groups db1)"
    by (subst groups, simp add: if_distrib cong: if_cong)+
  have same: "g_id ` set (db_groups db') = g_id ` set (db_groups db1)" using ids(1) by (metis set_map)
  show "g_id ` set (db_groups db) \<subseteq> g_id ` set (db_groups db')" "set gs \<subseteq> g_id ` set (db_groups db')"
    unfolding same using grows_ids [OF grow] sub by blast+
  show "groups_keyed db'" using grow unfolding groups_keyed_def grows_def ids nextg by blast
qed

lemma commits_evidence:
  assumes c: "commits rt args raw lines src db db' db1 gk es dups gs f"
    and ok: "evidence_ok db" and data: "list_all (\<lambda>l. pl_data l \<noteq> None) lines"
    and new: "sha256_hexdigest rt (ua_dump_bytes args) \<notin> af_file_sha256 ` set (db_files db)"
  shows "evidence_ok db'"
proof -
  have files: "db_files db' = db_files db @ [stored_file f (sorted_set gs) dups]" "af_id f = db_next_file db"
      "af_file_sha256 f = sha256_hexdigest rt (ua_dump_bytes args)"
    and events: "db_events db' = db_events db @ es"
    and nexts: "db_next_file db' = Suc (db_next_file db)" "db_next_event db' = db_next_event db + length es"
    using c by (auto simp: commits_def)
  have "map ev_id es = [db_next_event db..<db_next_event db + length es]"
    using commits_loop [OF c data] by (simp add: loop_ok_def)
  then have new_ids: "distinct (map ev_id es)" "ev_id ` set es = {db_next_event db..<db_next_event db + length es}"
    by (metis distinct_upt, metis set_map set_upt)
  have old_ids: "\<forall>e \<in> set (db_events db). ev_id e < db_next_event db \<and> ev_audit_file e \<in> af_id ` set (db_files db) \<and>
     (case ev_group e of None \<Rightarrow> True | Some g \<Rightarrow> g \<in> g_id ` set (db_groups db))"
    using ok by (simp add: evidence_ok_def list_all_iff)
  have "distinct (map ev_id (db_events db'))"
    using ok new_ids old_ids unfolding events by (fastforce simp: evidence_ok_def)
  moreover have "ev_id e < db_next_event db' \<and> ev_audit_file e \<in> af_id ` set (db_files db') \<and>
      (case ev_group e of None \<Rightarrow> True | Some g \<Rightarrow> g \<in> g_id ` set (db_groups db'))"
    if "e \<in> set (db_events db')" for e
  proof (cases "e \<in> set es")
    case True
    have "ev_id e \<in> ev_id ` set es" using True by simp
    then show ?thesis
      using commits_rows(3,4) [OF c True] commits_group_ids(4) [OF c] unfolding nexts files new_ids
      by (auto simp: files split: option.splits)
  next
    case False
    then have "e \<in> set (db_events db)" using that unfolding events by auto
    with old_ids commits_group_ids(3) [OF c] show ?thesis
      unfolding nexts files by (fastforce split: option.splits)
  qed
  moreover have "distinct (map af_id (db_files db'))" "list_all (\<lambda>f. af_id f < db_next_file db') (db_files db')"
    using ok unfolding files nexts by (auto simp: evidence_ok_def list_all_iff files)
  moreover have "distinct (map af_file_sha256 (db_files db'))"
    using ok new unfolding files by (simp add: evidence_ok_def files)
  ultimately show ?thesis by (simp add: evidence_ok_def list_all_iff)
qed

lemma commits_dedup:
  assumes c: "commits rt args raw lines src db db' db1 gk es dups gs f"
    and ok: "evidence_ok db" "dedup_ok db" and data: "list_all (\<lambda>l. pl_data l \<noteq> None) lines"
  shows "dedup_ok db'"
proof -
  let ?sf = "stored_file f (sorted_set gs) dups"
  let ?old = "filter (\<lambda>e. file_is_valid (db_files db) (ev_audit_file e)) (db_events db)"
  have f: "af_id f = db_next_file db" "af_validation_status f = STATUS_VALID"
    and new: "db_files db' = db_files db @ [?sf]" "db_events db' = db_events db @ es"
    using c by (auto simp: commits_def)
  have sf: "af_id ?sf = db_next_file db" by (simp add: f)
  have "file_is_valid (db_files db @ [?sf]) (db_next_file db)" by (simp add: file_is_valid_def f)
  then have "filter (\<lambda>e. file_is_valid (db_files db @ [?sf]) (ev_audit_file e)) es = es"
    using commits_rows(3) [OF c] by (intro filter_True) simp
  then have split: "filter (\<lambda>e. file_is_valid (db_files db') (ev_audit_file e)) (db_events db') = ?old @ es"
    unfolding new by (simp add: valid_append_other(1) [OF ok(1) sf])
  have "event_key ` {e \<in> set (db_events db). file_is_valid (db_files db @ [f]) (ev_audit_file e)} = event_key ` set ?old"
    using arg_cong [OF valid_append_other(1) [OF ok(1) f(1)], of "\<lambda>xs. event_key ` set xs"] by simp
  then have "event_key ` set es \<inter> event_key ` set ?old = {}" "distinct (map event_key es)"
    using commits_loop [OF c data] by (simp_all add: loop_ok_def)
  then show ?thesis using ok(2) unfolding dedup_ok_def split by auto
qed

lemma commits_rollups:
  assumes c: "commits rt args raw lines src db db' db1 gk es dups gs f"
    and ok: "groups_keyed db" "evidence_ok db" "rollups_ok db"
  shows "rollups_ok db'"
  unfolding rollups_ok_def list_all_iff
proof (clarify)
  fix j n
  assume mem: "(j, n) \<in> set (id_counts db')"
  have groups: "db_groups db' = map (\<lambda>g. if g_id g \<in> set gs
       then g\<lparr>g_divergent_message_count := group_divergence (db_files db') (db_events db') (g_id g),
              g_updated_at := ua_now args\<rparr> else g) (db_groups db1)"
    and grow: "grows db db1"
    using c unfolding commits_def by blast+
  have new: "db_files db' = db_files db @ [stored_file f (sorted_set gs) dups]" "db_events db' = db_events db @ es"
      "af_id (stored_file f (sorted_set gs) dups) = db_next_file db"
    using c by (auto simp: commits_def)
  show "n = group_divergence (db_files db') (db_events db') j"
  proof (cases "j \<in> set gs")
    case True
    then show ?thesis using mem unfolding id_counts_def by (subst (asm) groups) auto
  next
    case False
    then have old: "(j, n) \<in> set (id_counts db1)"
      using mem unfolding id_counts_def by (subst (asm) groups) (auto split: if_splits)
    obtain added where "id_counts db1 = id_counts db @ added"
      "list_all (\<lambda>(i, n). db_next_group db \<le> i \<and> n = 0) added" using grow by (auto simp: grows_def)
    then have "n = group_divergence (db_files db) (db_events db) j"
      using old ok(3) divergence_fresh [OF ok(2,1), of j] by (auto simp: rollups_ok_def list_all_iff)
    moreover have "list_all (\<lambda>e. ev_group e \<noteq> Some j) es"
      using False commits_rows(4) [OF c] by (auto simp: list_all_iff)
    ultimately show ?thesis by (simp add: new(1,2) divergence_untouched [OF ok(2) new(3)])
  qed
qed

lemma commits_ok:
  assumes "commits rt args raw lines src db db' db1 gk es dups gs f" "db_ok db"
    and "list_all (\<lambda>l. pl_data l \<noteq> None) lines"
    and "sha256_hexdigest rt (ua_dump_bytes args) \<notin> af_file_sha256 ` set (db_files db)"
  shows "db_ok db'"
proof -
  have "tables_ok (db_projections db) \<longrightarrow> tables_ok (db_projections db')" using assms(1) by (simp add: commits_def)
  then show ?thesis
    using assms commits_group_ids(5) [OF assms(1)] commits_evidence [OF assms(1)] commits_dedup [OF assms(1)]
      commits_rollups [OF assms(1)] unfolding db_ok_def by blast
qed

section \<open>The whole request\<close>

lemma accepted_lines_data:
  assumes "validate_upload rt d = Inr (raw, lines)"
  shows "list_all (\<lambda>l. pl_data l \<noteq> None) lines" "list_all (\<lambda>l. pl_errors l = []) lines"
    "list_all (\<lambda>l. pl_line_hash l = sha256_hexdigest rt (utf8_encode (pl_raw_line l))) lines"
  using assms parse_line_ok unfolding validate_upload_Inr_iff by (fastforce simp: list_all_iff)+

lemma refused_not_busy: "validate_upload rt d = Inl r \<Longrightarrow> rj_code r \<noteq> ''ingest_busy''"
  by (auto simp: validate_upload_def rejected_def line_codes_def dest: first_line_error_Some
      split: option.splits sum.splits if_splits)

lemma file_with_sha_None: "file_with_sha sha files = None \<longleftrightarrow> sha \<notin> af_file_sha256 ` set files"
  by (simp add: file_with_sha_def find_row_None_iff)

text \<open>A request that stored a file went through validation and one successful transaction.\<close>

lemma ingest_created:
  assumes "ingest_audit_log_bytes rt ci args db = (db', Ingested i True)"
  obtains raw lines src where "validate_upload rt (ua_dump_bytes args) = Inr (raw, lines)"
    "file_with_sha (sha256_hexdigest rt (ua_dump_bytes args)) (db_files db) = None"
    "body_source_metadata lines = Some src" "ingest_transaction rt args raw lines src db = Some (db', i)"
  using assms unfolding ingest_audit_log_bytes_def ingest_failed_def
  by (auto simp: Let_def split: sum.splits option.splits if_splits prod.splits)

lemma ingest_not_created:
  assumes "ingest_audit_log_bytes rt ci args db = (db', out)" "\<And>i. out \<noteq> Ingested i True"
  shows "db' = db \<or> (\<exists>row. db' = db\<lparr>db_rejections := db_rejections db @ [row]\<rparr>)"
  using assms unfolding ingest_audit_log_bytes_def ingest_failed_def record_ingestion_rejection_def
  by (auto simp: Let_def split: sum.splits option.splits if_splits prod.splits)

lemma ingest_commits:
  assumes "ingest_audit_log_bytes rt ci args db = (db', Ingested i True)" "groups_keyed db" "evidence_ok db"
  obtains raw lines src db1 gk es dups gs f where
    "validate_upload rt (ua_dump_bytes args) = Inr (raw, lines)"
    "sha256_hexdigest rt (ua_dump_bytes args) \<notin> af_file_sha256 ` set (db_files db)"
    "i = db_next_file db" "commits rt args raw lines src db db' db1 gk es dups gs f"
proof -
  obtain raw lines src where parts: "validate_upload rt (ua_dump_bytes args) = Inr (raw, lines)"
    "file_with_sha (sha256_hexdigest rt (ua_dump_bytes args)) (db_files db) = None"
    "ingest_transaction rt args raw lines src db = Some (db', i)"
    using ingest_created [OF assms(1)] by metis
  with ingest_transaction_shape [OF parts(3) assms(2,3)] that show thesis
    unfolding file_with_sha_None by blast
qed

lemma rejection_ok: "db_ok (db\<lparr>db_rejections := rs\<rparr>) = db_ok db"
  by (simp add: db_ok_def groups_keyed_def evidence_ok_def dedup_ok_def rollups_ok_def id_counts_def cong: option.case_cong)

lemma ingest_ok:
  assumes "db_ok db"
  shows "db_ok (fst (ingest_audit_log_bytes rt ci args db))"
proof (cases "\<exists>i. snd (ingest_audit_log_bytes rt ci args db) = Ingested i True")
  case True
  then obtain i where "ingest_audit_log_bytes rt ci args db = (fst (ingest_audit_log_bytes rt ci args db), Ingested i True)"
    by (metis prod.collapse)
  moreover have "groups_keyed db" "evidence_ok db" using assms by (simp_all add: db_ok_def)
  ultimately show ?thesis by (metis ingest_commits commits_ok [OF _ assms] accepted_lines_data(1))
next
  case False
  then show ?thesis
    using ingest_not_created [of rt ci args db "fst (ingest_audit_log_bytes rt ci args db)"] assms rejection_ok
    by (metis prod.collapse)
qed

section \<open>Properties\<close>

text \<open>A database with one valid line's upload in front of it, and the circumstances of a quiet day.\<close>

definition example_args :: upload_args where
  "example_args = \<lparr> ua_dump_bytes = example_upload, ua_fallback_group_slug = ''incoming'', ua_fallback_group_name = [],
     ua_upload_token = None, ua_uploaded_by = None, ua_now = 7 \<rparr>"

definition quiet :: circumstances where
  "quiet = \<lparr> ci_busy = False, ci_lock_conflict = False, ci_failure = False, ci_integrity_error = False,
     ci_committed = [], ci_rejection_lost = False \<rparr>"

definition example_ingested :: database where
  "example_ingested = fst (ingest_audit_log_bytes example_runtime quiet example_args empty_database)"

lemma empty_database_ok: "db_ok empty_database"
proof -
  have "tables_ok (db_projections empty_database)" by code_simp
  then show ?thesis
    by (simp add: db_ok_def groups_keyed_def evidence_ok_def dedup_ok_def rollups_ok_def id_counts_def empty_database_def)
qed

lemma example_ingest:
  "ingest_audit_log_bytes example_runtime quiet example_args empty_database = (example_ingested, Ingested 1 True)"
proof -
  have "snd (ingest_audit_log_bytes example_runtime quiet example_args empty_database) = Ingested 1 True" by code_simp
  then show ?thesis by (simp add: example_ingested_def prod_eq_iff)
qed

text \<open>
  C1: an upload keeps the database consistent, whatever its bytes and whatever the environment does to
  it: primary keys, group slugs and file hashes stay unique and below their sequences; every event
  belongs to a stored file and group; no two events of valid files are the same line of the same
  engine; every projection table keeps its keys; and the divergence counter of every group is the
  number of messages that diverge in its counted events.
\<close>

theorem ingest_preserves_invariant:
  assumes "db_ok db"
  shows "db_ok (fst (ingest_audit_log_bytes rt ci args db))"
  using assms by (rule ingest_ok)

theorem ingest_preserves_invariant_witness:
  "db_ok example_ingested \<and> length (db_events example_ingested) = 1 \<and> length (db_groups example_ingested) = 1"
proof (intro conjI)
  show "db_ok example_ingested"
    unfolding example_ingested_def using empty_database_ok by (rule ingest_preserves_invariant)
  show "length (db_events example_ingested) = 1" by code_simp
  show "length (db_groups example_ingested) = 1" by code_simp
qed

text \<open>
  C6: a request that does not store its file leaves no evidence behind. Unless a new file is
  reported, files, events, groups, projections and key sequences are as before; a known file and an
  unhandled exception change nothing at all, and a refusal adds one rejection row, with the code, the
  status, the line and the size of the body, or none when the recorder was busy or the row could not
  be written.
\<close>

theorem ingest_all_or_nothing:
  "(case ingest_audit_log_bytes rt ci args db of
      (db', Ingested i created) \<Rightarrow> created \<or> db' = db
    | (db', Crashed) \<Rightarrow> db' = db
    | (db', Refused r) \<Rightarrow> db' = (if rj_code r = ''ingest_busy'' \<or> ci_rejection_lost ci then db
        else db\<lparr>db_rejections := db_rejections db @ [\<lparr> ur_upload_token = ua_upload_token args, ur_reason = rj_code r,
          ur_line_number = rj_line_number r, ur_status_code = status_code (rj_code r), ur_declared_content_length = None,
          ur_received_bytes = Some (length (ua_dump_bytes args)), ur_created_at = ua_now args \<rparr>]\<rparr>))"
  using refused_not_busy unfolding ingest_audit_log_bytes_def ingest_failed_def record_ingestion_rejection_def
  by (auto simp: Let_def rejected_def split: sum.splits option.splits if_splits prod.splits)

text \<open>
  C2: a request that reports a new file has stored all of it. One file is appended, under the next
  key, with the body's hash and its decoded text, and one event for each line that was not stored
  before: stored and duplicate lines add up to the lines of the body, every line's hash is found in
  the events of valid files (under the line's engine, if it names one), and each new event is a line
  of the body, verbatim, of the new file and of a group linked to it.
\<close>

theorem ingest_stores_upload:
  assumes "ingest_audit_log_bytes rt ci args db = (db', Ingested i True)" "db_ok db"
  shows "\<exists>raw lines f es. validate_upload rt (ua_dump_bytes args) = Inr (raw, lines) \<and>
    db_files db' = db_files db @ [f] \<and> db_events db' = db_events db @ es \<and> db_rejections db' = db_rejections db \<and>
    af_id f = i \<and> i = db_next_file db \<and> af_file_sha256 f = sha256_hexdigest rt (ua_dump_bytes args) \<and>
    af_raw_text f = raw \<and> af_validation_status f = STATUS_VALID \<and> af_total_line_count f = length lines \<and>
    length es + af_duplicate_event_count f = length lines \<and>
    (\<forall>l \<in> set lines. \<exists>e \<in> set (db_events db'). file_is_valid (db_files db') (ev_audit_file e) \<and>
       ev_line_hash e = pl_line_hash l \<and> (line_engine l \<noteq> [] \<longrightarrow> ev_engine_id e = line_engine l)) \<and>
    (\<forall>e \<in> set es. ev_audit_file e = i \<and> ev_parse_status e = STATUS_VALID \<and>
       (\<forall>g. ev_group e = Some g \<longrightarrow> g \<in> set (af_groups f)) \<and>
       (\<exists>l \<in> set lines. ev_line_number e = pl_line_number l \<and> ev_raw_line e = pl_raw_line l \<and>
          ev_line_hash e = sha256_hexdigest rt (utf8_encode (pl_raw_line l))))"
proof -
  have ok: "groups_keyed db" "evidence_ok db" using assms(2) by (simp_all add: db_ok_def)
  obtain raw lines src db1 gk es dups gs f where up: "validate_upload rt (ua_dump_bytes args) = Inr (raw, lines)"
    and i: "i = db_next_file db" and c: "commits rt args raw lines src db db' db1 gk es dups gs f"
    by (rule ingest_commits [OF assms(1) ok])
  let ?f = "stored_file f (sorted_set gs) dups"
  have db': "db_files db' = db_files db @ [?f]" "db_events db' = db_events db @ es" "db_rejections db' = db_rejections db"
    using c unfolding commits_def by blast+
  note f = commitsD(2,3) [OF c] and rows = commits_rows [OF c] and data = accepted_lines_data [OF up]
  have lp: "loop_ok (db_next_event db) lines
      (event_key ` {e \<in> set (db_events db). file_is_valid (db_files db @ [f]) (ev_audit_file e)}) es dups"
    by (rule commits_loop [OF c data(1)])
  have valid: "file_is_valid (db_files db') j = file_is_valid (db_files db @ [f]) j" for j
    by (auto simp: db' file_is_valid_def)
  have new: "file_is_valid (db_files db') (ev_audit_file e)" if "e \<in> set es" for e
    using rows(3) [OF that] f unfolding valid by (simp add: file_is_valid_def)
  have lines: "\<exists>e \<in> set (db_events db'). file_is_valid (db_files db') (ev_audit_file e) \<and>
      ev_line_hash e = pl_line_hash l \<and> (line_engine l \<noteq> [] \<longrightarrow> ev_engine_id e = line_engine l)"
    if "l \<in> set lines" for l
  proof -
    have "\<exists>engine. (pl_line_hash l, engine) \<in>
        event_key ` {e \<in> set (db_events db). file_is_valid (db_files db @ [f]) (ev_audit_file e)} \<union> event_key ` set es \<and>
        (line_engine l \<noteq> [] \<longrightarrow> engine = line_engine l)"
      using lp that unfolding loop_ok_def list_all_iff by blast
    then show ?thesis using new unfolding db'(2) valid by (fastforce simp: event_key_def)
  qed
  have event: "ev_audit_file e = i \<and> ev_parse_status e = STATUS_VALID \<and>
      (\<forall>g. ev_group e = Some g \<longrightarrow> g \<in> set (af_groups ?f)) \<and>
      (\<exists>l \<in> set lines. ev_line_number e = pl_line_number l \<and> ev_raw_line e = pl_raw_line l \<and>
         ev_line_hash e = sha256_hexdigest rt (utf8_encode (pl_raw_line l)))" if "e \<in> set es" for e
    using rows(2-4) [OF that] data(2,3) by (auto simp: i stored_file_def set_m2m_adds list_all_iff)
  have count: "length es + dups = length lines" using lp by (simp add: loop_ok_def)
  have meta: "af_id ?f = i" "af_file_sha256 ?f = sha256_hexdigest rt (ua_dump_bytes args)" "af_raw_text ?f = raw"
    "af_validation_status ?f = STATUS_VALID" "af_total_line_count ?f = length lines"
    "length es + af_duplicate_event_count ?f = length lines"
    using count by (simp_all add: f i file_metadata_def Let_def)
  show ?thesis
    by (rule exI [of _ raw], rule exI [of _ lines], rule exI [of _ ?f], rule exI [of _ es])
      (intro conjI ballI up db' i meta lines event)
qed

theorem ingest_stores_upload_witness:
  "\<exists>f es. db_files example_ingested = [f] \<and> db_events example_ingested = es \<and>
     length es + af_duplicate_event_count f = af_total_line_count f \<and> af_id f = 1"
  using ingest_stores_upload [OF example_ingest empty_database_ok]
  by (auto simp: empty_database_def)

text \<open>
  Uploading the same bytes again is harmless. After a request that stored a file, any further
  request with these bytes, by whomever and in whatever circumstances, answers with that file as
  already known and changes nothing.
\<close>

theorem reupload_idempotent:
  assumes "ingest_audit_log_bytes rt ci args db = (db', Ingested i True)" "db_ok db"
    and "ua_dump_bytes again = ua_dump_bytes args"
  shows "ingest_audit_log_bytes rt ci' again db' = (db', Ingested i False)"
proof -
  have ok: "groups_keyed db" "evidence_ok db" using assms(2) by (simp_all add: db_ok_def)
  let ?sha = "sha256_hexdigest rt (ua_dump_bytes args)"
  obtain raw lines src db1 gk es dups gs f where up: "validate_upload rt (ua_dump_bytes args) = Inr (raw, lines)"
    and i: "i = db_next_file db" and c: "commits rt args raw lines src db db' db1 gk es dups gs f"
    and new: "?sha \<notin> af_file_sha256 ` set (db_files db)"
    by (rule ingest_commits [OF assms(1) ok])
  have files: "db_files db' = db_files db @ [stored_file f (sorted_set gs) dups]" using c unfolding commits_def by blast
  have "file_with_sha ?sha (db_files db') = Some (stored_file f (sorted_set gs) dups)"
    using new commitsD(2) [OF c] unfolding files file_with_sha_def find_row_append
    by (simp add: find_row_None_iff [symmetric]) (simp add: find_row_def)
  then show ?thesis
    using up i commitsD(3) [OF c] by (simp add: ingest_audit_log_bytes_def assms(3))
qed

theorem reupload_idempotent_witness:
  "ingest_audit_log_bytes example_runtime (quiet\<lparr>ci_busy := True\<rparr>) example_args example_ingested =
     (example_ingested, Ingested 1 False)"
  using example_ingest empty_database_ok refl by (rule reupload_idempotent)

text \<open>
  No insert statement exceeds the wire protocol's limit. However many rows an upload has, the
  batches are non-empty, hold all rows in order, and each binds at most 65535 parameters; and a group
  slug made from a reference fits the slug column.
\<close>

theorem inserts_within_limits:
  "list_all (\<lambda>b. b \<noteq> [] \<and> length b * bound_columns \<le> POSTGRES_MAX_BIND_PARAMS) (batches audit_event_batch_size rows) \<and>
   concat (batches audit_event_batch_size rows) = rows \<and>
   db_events (bulk_create rows db) = db_events db @ rows \<and>
   length (group_slug_for_ref rt group_ref) \<le> group_slug_max_length"
proof (intro conjI)
  have size: "audit_event_batch_size * bound_columns \<le> POSTGRES_MAX_BIND_PARAMS"
    by (simp add: audit_event_batch_size_eq bound_columns_eq POSTGRES_MAX_BIND_PARAMS_def)
  show "list_all (\<lambda>b. b \<noteq> [] \<and> length b * bound_columns \<le> POSTGRES_MAX_BIND_PARAMS) (batches audit_event_batch_size rows)"
    using length_batches [of _ audit_event_batch_size rows] batches_nonempty [of _ audit_event_batch_size rows]
      le_trans [OF mult_le_mono1 size] by (auto simp: list_all_iff)
  show "concat (batches audit_event_batch_size rows) = rows" by (rule concat_batches [OF batch_size_pos])
  show "db_events (bulk_create rows db) = db_events db @ rows" by (simp add: bulk_create_eq)
  show "length (group_slug_for_ref rt group_ref) \<le> group_slug_max_length"
    by (simp add: group_slug_for_ref_def group_slug_max_length_def Let_def)
qed

end
