(* ===== verification/Event_View.thy ===== *)
theory Event_View
  imports Divergence
begin

text \<open>
  How \<^verbatim>\<open>forensics/analysis.py\<close> presents one event (\<^verbatim>\<open>event_row\<close>, \<^verbatim>\<open>event_summary\<close>, \<^verbatim>\<open>event_tone\<close> and the
  accessors they share), the rows of the fork and peeler tabs, and the grouping of events into human
  actions. A row is a dictionary of JSON values. The separator that the code writes between the parts
  of a summary is the character U+00B7.
\<close>

section \<open>Constants\<close>

definition FORK_EVENT_TYPES :: "string list" where
  "FORK_EVENT_TYPES = [''fork_resolution'', ''convergence_decision'', ''epoch_confirmed'', ''epoch_rolled_back'']"

definition FAILED_MESSAGE_STATES :: "string list" where
  "FAILED_MESSAGE_STATES = [''failed'', ''epoch_invalidated'']"

definition DEFERRED_MESSAGE_STATES :: "string list" where
  "DEFERRED_MESSAGE_STATES = [''peel_deferred'']"

definition ATTENTION_MESSAGE_STATES :: "string list" where
  "ATTENTION_MESSAGE_STATES = FAILED_MESSAGE_STATES @ DEFERRED_MESSAGE_STATES"

definition PEELER_WARNING_OUTCOMES :: "string list" where
  "PEELER_WARNING_OUTCOMES = [''decrypt_failed'', ''stale_epoch'']"

section \<open>Accessors\<close>

text \<open>\<^verbatim>\<open>a or b or ...\<close> of strings: the first that is not empty, else the last.\<close>

fun first_str :: "string list \<Rightarrow> string" where
  "first_str [] = []"
| "first_str [s] = s"
| "first_str (s # t # rest) = (if s \<noteq> [] then s else first_str (t # rest))"

fun first_present :: "'a option list \<Rightarrow> 'a option" where
  "first_present [] = None"
| "first_present (v # vs) = (case v of Some x \<Rightarrow> Some x | None \<Rightarrow> first_present vs)"

definition str_int :: "int option \<Rightarrow> string" where
  "str_int v = (case v of None \<Rightarrow> ''None'' | Some i \<Rightarrow> int_str i)"

definition int_or_dash :: "int option \<Rightarrow> string" where
  "int_or_dash v = (case v of None \<Rightarrow> ''-'' | Some i \<Rightarrow> int_str i)"

definition event_epoch :: "audit_event \<Rightarrow> int option" where
  "event_epoch e = first_present [ev_epoch e, ev_source_epoch e, ev_to_epoch e, ev_pending_epoch e,
     ev_current_tip_epoch e, ev_selected_tip_epoch e]"

text \<open>The first of a list of ids as \<^verbatim>\<open>(ids or [None])[0]\<close> gives it.\<close>

definition first_id :: "string list \<Rightarrow> json" where
  "first_id ids = (case ids of [] \<Rightarrow> JNull | i # _ \<Rightarrow> JStr i)"

definition primary_msg_id :: "audit_event \<Rightarrow> json" where
  "primary_msg_id e = py_or (JStr (first_str [ev_msg_id e, ev_outbound_msg_id e, ev_invalidated_msg_id e]))
     (first_id (ev_human_action_message_ids e))"

definition primary_digest :: "audit_event \<Rightarrow> string" where
  "primary_digest e = first_str [ev_candidate_digest e, ev_payload_digest e, ev_incumbent_digest e]"

definition primary_outcome :: "audit_event \<Rightarrow> string" where
  "primary_outcome e = first_str [ev_outcome e, ev_outcome_kind e, ev_decision e, ev_winner e, ev_new_state e]"

definition primary_reason :: "audit_event \<Rightarrow> string" where
  "primary_reason e = first_str [ev_reason e, ev_stale_reason e, ev_detail e, ev_pending_kind e]"

section \<open>Labels\<close>

definition middot :: string where
  "middot = '' '' @ [char_of (183 :: nat)] @ '' ''"

definition action_label :: "string \<Rightarrow> string" where
  "action_label v = (if v \<noteq> [] then py_title False (py_strip (map (\<lambda>c. if c = CHR ''_'' then CHR '' '' else c) v)) else [])"

definition secondary_action_label :: "audit_event \<Rightarrow> string" where
  "secondary_action_label e = str_join middot
     ((if ev_human_action_origin e \<noteq> [] then [ev_human_action_origin e] else []) @
      (if ev_human_action_phase e \<noteq> [] then [ev_human_action_phase e] else []) @
      (if ev_human_action_fields e \<noteq> [] then [str_join '', '' (ev_human_action_fields e)] else []) @
      (if ev_from_epoch e \<noteq> None \<or> ev_to_epoch e \<noteq> None
       then [''epoch '' @ int_or_dash (ev_from_epoch e) @ '' -> '' @ int_or_dash (ev_to_epoch e)] else []))"

definition plural :: "nat \<Rightarrow> string" where
  "plural n = (if n = 1 then [] else ''s'')"

definition relay_summary :: "audit_event \<Rightarrow> string" where
  "relay_summary e =
     (if ev_event_type e = ''publish_attempt''
      then (let relay_count = length (ev_relay_urls e)
            in if relay_count = 0 then [] else nat_str relay_count @ '' target relay'' @ plural relay_count)
      else if ev_event_type e = ''publish_outcome''
      then nat_str (length (ev_accepted_relay_urls e)) @ '' accepted, '' @ nat_str (length (ev_failed_relays e)) @ '' failed'' @
        (case ev_required_acks e of None \<Rightarrow> [] | Some n \<Rightarrow> '' / '' @ int_str n @ '' required'')
      else if ev_event_type e = ''publish_failure''
      then (if ev_relay_urls e \<noteq> []
            then ''failed on '' @ nat_str (length (ev_relay_urls e)) @ '' relay'' @ plural (length (ev_relay_urls e))
            else first_str [ev_reason e, ev_detail e])
      else [])"

definition event_summary :: "audit_event \<Rightarrow> string" where
  "event_summary e =
     (let t = ev_event_type e in
      if t = ''human_action''
      then (let suffix = secondary_action_label e
            in action_label (ev_human_action_action e) @ (if suffix \<noteq> [] then middot @ suffix else []))
      else if t = ''publish_attempt''
      then ''publish attempt'' @ middot @ nat_str (length (ev_relay_urls e)) @ '' relay'' @ plural (length (ev_relay_urls e))
      else if t = ''publish_outcome''
      then ''publish outcome'' @ middot @ nat_str (length (ev_accepted_relay_urls e)) @ '' accepted / '' @
        nat_str (length (ev_failed_relays e)) @ '' failed''
      else if t = ''publish_failure''
      then ''publish failure'' @ (if ev_reason e \<noteq> [] then middot @ ev_reason e else [])
      else if ev_human_action_action e \<noteq> [] then t @ middot @ action_label (ev_human_action_action e)
      else if t = ''fork_resolution'' then ev_winner e @ '' at source epoch '' @ str_int (ev_source_epoch e)
      else if t = ''convergence_decision''
      then ''tip '' @ str_int (ev_current_tip_epoch e) @ '' -> '' @ int_or_dash (ev_selected_tip_epoch e)
      else if t = ''epoch_confirmed'' then ''epoch '' @ str_int (ev_from_epoch e) @ '' -> '' @ str_int (ev_to_epoch e)
      else if t = ''epoch_rolled_back''
      then ''rollback '' @ str_int (ev_pending_epoch e) @ '' -> '' @ str_int (ev_restored_epoch e)
      else if t = ''peeler_outcome''
      then ev_outcome e @ (if ev_fallback_snapshot_used e = Some True then '' with snapshot fallback'' else [])
      else if t = ''message_state_changed'' then ev_msg_id e @ '' -> '' @ ev_new_state e
      else if t = ''ingest_outcome'' then ev_outcome_kind e @ '' epoch '' @ int_or_dash (ev_epoch e)
      else if t = ''send_outcome'' then ev_intent_kind e @ '' -> '' @ ev_result_kind e
      else t)"

definition starts_with :: "string \<Rightarrow> string \<Rightarrow> bool" where
  "starts_with p s \<longleftrightarrow> take (length p) s = p"

definition event_tone :: "audit_event \<Rightarrow> string" where
  "event_tone e =
     (let t = ev_event_type e in
      if t = ''human_action'' then (if ev_human_action_origin e = ''local_user'' then ''send'' else ''receive'')
      else if t = ''publish_failure'' then ''error''
      else if t = ''publish_outcome'' \<and> ev_failed_relays e \<noteq> []
      then (if ev_met_required_acks e \<noteq> Some True then ''error'' else ''send'')
      else (let tone = (if starts_with ''send_'' t then ''send'' else ''receive'');
                tone = (if t \<in> {''fork_resolution'', ''convergence_decision''} then ''fork'' else tone)
            in if t = ''peeler_outcome'' \<and> ev_outcome e \<in> set PEELER_WARNING_OUTCOMES then ''warning''
               else if t = ''peeler_outcome'' \<and> ev_outcome e \<noteq> [] \<and> ev_outcome e \<noteq> ''success'' then ''error''
               else (let tone = (if t = ''rejection'' then ''error'' else tone)
                     in if t = ''message_state_changed''
                        then (if ev_new_state e \<in> set FAILED_MESSAGE_STATES then ''error''
                              else if ev_new_state e \<in> set DEFERRED_MESSAGE_STATES then ''warning'' else tone)
                        else tone)))"

section \<open>Rows\<close>

definition j_int :: "int option \<Rightarrow> json" where
  "j_int v = (case v of None \<Rightarrow> JNull | Some i \<Rightarrow> JInt i)"

definition j_nat :: "nat \<Rightarrow> json" where
  "j_nat n = JInt (int n)"

definition j_strs :: "string list \<Rightarrow> json" where
  "j_strs xs = JList (map JStr xs)"

definition status_str :: "status \<Rightarrow> string" where
  "status_str s = (case s of STATUS_VALID \<Rightarrow> ''valid'' | STATUS_INVALID \<Rightarrow> ''invalid'')"

definition event_row :: "audit_event \<Rightarrow> dict" where
  "event_row e = [
     (''id'', j_nat (ev_id e)),
     (''line_number'', j_nat (ev_line_number e)),
     (''parse_status'', JStr (status_str (ev_parse_status e))),
     (''validation_error'', JStr (ev_validation_error e)),
     (''engine_id'', JStr (ev_engine_id e)),
     (''account_ref'', JStr (ev_account_ref e)),
     (''event_type'', JStr (ev_event_type e)),
     (''wall_time_ms'', j_int (ev_wall_time_ms e)),
     (''seq'', j_int (ev_seq e)),
     (''group_ref'', JStr (ev_group_ref e)),
     (''operation_id'', JStr (ev_context_operation_id e)),
     (''human_action'', JStr (ev_human_action_action e)),
     (''human_action_label'', JStr (action_label (ev_human_action_action e))),
     (''human_action_origin'', JStr (ev_human_action_origin e)),
     (''human_action_phase'', JStr (ev_human_action_phase e)),
     (''human_action_fields'', j_strs (ev_human_action_fields e)),
     (''human_action_component_ids'', JList (ev_human_action_component_ids e)),
     (''human_action_target_count'', j_int (ev_human_action_target_count e)),
     (''msg_id'', primary_msg_id e),
     (''message_ids'', j_strs (event_message_ids e)),
     (''epoch'', j_int (event_epoch e)),
     (''digest'', JStr (primary_digest e)),
     (''target_kind'', JStr (ev_target_kind e)),
     (''relay_summary'', JStr (relay_summary e)),
     (''outcome'', JStr (primary_outcome e)),
     (''reason'', JStr (primary_reason e)),
     (''summary'', JStr (event_summary e))]"

definition fork_and_convergence_events :: "audit_event list \<Rightarrow> dict list" where
  "fork_and_convergence_events events =
     map event_row (filter (\<lambda>e. ev_event_type e \<in> set FORK_EVENT_TYPES) events)"

definition needs_attention :: "audit_event \<Rightarrow> bool" where
  "needs_attention e \<longleftrightarrow>
     (ev_event_type e = ''peeler_outcome'' \<and> (ev_outcome e \<noteq> ''success'' \<or> ev_fallback_snapshot_used e = Some True)) \<or>
     ev_event_type e = ''rejection'' \<or>
     (ev_event_type e = ''message_state_changed'' \<and> ev_new_state e \<in> set ATTENTION_MESSAGE_STATES)"

definition peeler_and_rejection_events :: "audit_event list \<Rightarrow> dict list" where
  "peeler_and_rejection_events events = map event_row (filter needs_attention events)"

section \<open>Human actions\<close>

text \<open>
  The key of a group: the operation id, or the event itself when it names none. \<open>act_key\<close> and
  \<open>act_order\<close> are the entries \<^verbatim>\<open>key\<close> and \<^verbatim>\<open>order\<close>; the other fields are the entries of these names.
\<close>

datatype action_key = OpKey string | EventKey nat

record action_group =
  act_order :: nat
  act_key :: action_key
  act_operation_id :: string
  act_action :: string
  act_action_label :: string
  act_origin :: string
  act_phase :: string
  act_fields :: "string list"
  act_component_ids :: "json list"
  act_target_count :: "int option"
  act_from_epoch :: "int option"
  act_to_epoch :: "int option"
  act_message_ids :: "string list"
  act_events :: "dict list"
  act_relay_rows :: "dict list"
  act_first_wall_time_ms :: "int option"
  act_last_wall_time_ms :: "int option"

definition action_key_of :: "audit_event \<Rightarrow> action_key" where
  "action_key_of e = (if ev_context_operation_id e \<noteq> [] then OpKey (ev_context_operation_id e) else EventKey (ev_id e))"

definition new_action_group :: "nat \<Rightarrow> audit_event \<Rightarrow> action_group" where
  "new_action_group n e = \<lparr> act_order = n, act_key = action_key_of e, act_operation_id = ev_context_operation_id e,
     act_action = ev_human_action_action e, act_action_label = action_label (ev_human_action_action e),
     act_origin = ev_human_action_origin e, act_phase = ev_human_action_phase e, act_fields = ev_human_action_fields e,
     act_component_ids = ev_human_action_component_ids e, act_target_count = ev_human_action_target_count e,
     act_from_epoch = ev_from_epoch e, act_to_epoch = ev_to_epoch e, act_message_ids = [], act_events = [],
     act_relay_rows = [], act_first_wall_time_ms = ev_wall_time_ms e, act_last_wall_time_ms = ev_wall_time_ms e \<rparr>"

text \<open>
  \<^verbatim>\<open>sorted(set(xs))\<close> of JSON values when they are all integers, or all strings. \<open>None\<close> stands for every
  other list, on which Python raises unless the values happen to be comparable; the v4 schema admits
  integers only.
\<close>

fun as_int :: "json \<Rightarrow> int option" where
  "as_int (JInt i) = Some i"
| "as_int _ = None"

definition sorted_json_set :: "json list \<Rightarrow> json list option" where
  "sorted_json_set xs =
     (if list_all (\<lambda>x. as_int x \<noteq> None) xs then Some (map JInt (sorted_set (map (\<lambda>x. the (as_int x)) xs)))
      else if list_all is_str xs then Some (map JStr (sorted_set (map str_of xs)))
      else None)"

definition merge_times :: "int option \<Rightarrow> int option \<Rightarrow> int option \<Rightarrow> int option \<times> int option" where
  "merge_times wall first_ms last_ms =
     (case wall of
        None \<Rightarrow> (first_ms, last_ms)
      | Some t \<Rightarrow> (Some (case first_ms of None \<Rightarrow> t | Some f \<Rightarrow> f),
                   Some (max (case last_ms of None \<Rightarrow> t | Some l \<Rightarrow> if l = 0 then t else l) t)))"

definition merge_fields :: "audit_event \<Rightarrow> json list \<Rightarrow> action_group \<Rightarrow> action_group" where
  "merge_fields e component_ids g =
     (let row = event_row e;
          times = merge_times (ev_wall_time_ms e) (act_first_wall_time_ms g) (act_last_wall_time_ms g)
      in g\<lparr>
        act_origin := first_str [act_origin g, ev_human_action_origin e],
        act_phase := first_str [act_phase g, ev_human_action_phase e],
        act_fields := sorted_set (act_fields g @ ev_human_action_fields e),
        act_component_ids := component_ids,
        act_target_count := first_present [act_target_count g, ev_human_action_target_count e],
        act_from_epoch := first_present [act_from_epoch g, ev_from_epoch e],
        act_to_epoch := first_present [act_to_epoch g, ev_to_epoch e],
        act_message_ids := sorted_set (act_message_ids g @ event_message_ids e),
        act_first_wall_time_ms := fst times, act_last_wall_time_ms := snd times,
        act_events := act_events g @ [row],
        act_relay_rows := act_relay_rows g @ (if relay_summary e \<noteq> [] then [row] else []) \<rparr>)"

definition merge_action :: "audit_event \<Rightarrow> action_group \<Rightarrow> action_group option" where
  "merge_action e g = map_option (\<lambda>component_ids. merge_fields e component_ids g)
     (sorted_json_set (act_component_ids g @ ev_human_action_component_ids e))"

text \<open>One event: the group of its key is created when it is the first of it, then updated in place.\<close>

fun merge_into :: "audit_event \<Rightarrow> action_group list \<Rightarrow> action_group list option" where
  "merge_into e [] = None"
| "merge_into e (g # gs) =
     (if act_key g = action_key_of e then map_option (\<lambda>g'. g' # gs) (merge_action e g)
      else map_option (\<lambda>gs'. g # gs') (merge_into e gs))"

definition add_action :: "audit_event \<Rightarrow> action_group list \<Rightarrow> action_group list option" where
  "add_action e groups =
     (if ev_human_action_action e = [] then Some groups
      else if action_key_of e \<in> act_key ` set groups then merge_into e groups
      else merge_into e (groups @ [new_action_group (length groups) e]))"

fun collect_actions :: "audit_event list \<Rightarrow> action_group list \<Rightarrow> action_group list option" where
  "collect_actions [] groups = Some groups"
| "collect_actions (e # es) groups =
     (case add_action e groups of None \<Rightarrow> None | Some groups' \<Rightarrow> collect_actions es groups')"

definition action_sort_key :: "action_group \<Rightarrow> bool \<times> int \<times> nat" where
  "action_sort_key g = (act_first_wall_time_ms g = None,
     (case act_first_wall_time_ms g of None \<Rightarrow> 0 | Some t \<Rightarrow> t), act_order g)"

definition human_action_groups_for_group :: "audit_event list \<Rightarrow> action_group list option" where
  "human_action_groups_for_group events = map_option (sort_key action_sort_key) (collect_actions events [])"

section \<open>What a group of actions summarises\<close>

definition int_components :: "audit_event \<Rightarrow> bool" where
  "int_components e \<longleftrightarrow> list_all (\<lambda>x. as_int x \<noteq> None) (ev_human_action_component_ids e)"

definition component_ints :: "json list \<Rightarrow> int list" where
  "component_ints xs = the_list (map as_int xs)"

text \<open>The events \<open>es\<close>, in order, are what the group \<open>g\<close> was made of.\<close>

definition action_summary :: "audit_event list \<Rightarrow> action_group \<Rightarrow> bool" where
  "action_summary es g \<longleftrightarrow>
     act_events g = map event_row es \<and>
     act_relay_rows g = map event_row (filter (\<lambda>e. relay_summary e \<noteq> []) es) \<and>
     act_message_ids g = sorted_set (concat (map event_message_ids es)) \<and>
     act_fields g = sorted_set (concat (map ev_human_action_fields es)) \<and>
     act_component_ids g = map JInt (sorted_set (component_ints (concat (map ev_human_action_component_ids es)))) \<and>
     act_target_count g = first_present (map ev_human_action_target_count es) \<and>
     act_from_epoch g = first_present (map ev_from_epoch es) \<and>
     act_to_epoch g = first_present (map ev_to_epoch es) \<and>
     act_first_wall_time_ms g = first_present (map ev_wall_time_ms es) \<and>
     act_last_wall_time_ms g = opt_max (times_in es)"

definition acts :: "audit_event list \<Rightarrow> action_key \<Rightarrow> audit_event list" where
  "acts es k = filter (\<lambda>e. ev_human_action_action e \<noteq> [] \<and> action_key_of e = k) es"

lemma first_present_append [simp]:
  "first_present (xs @ ys) = (case first_present xs of Some x \<Rightarrow> Some x | None \<Rightarrow> first_present ys)"
  by (induction xs) (auto split: option.splits)

lemma first_present_None_iff: "first_present xs = None \<longleftrightarrow> the_list xs = []"
  by (induction xs) (auto split: option.splits)

lemma component_ints_simps [simp]:
  "component_ints (xs @ ys) = component_ints xs @ component_ints ys" "component_ints (map JInt is) = is"
  by (simp_all add: component_ints_def o_def the_list_def)

lemma the_ints: "list_all (\<lambda>x. as_int x \<noteq> None) xs \<Longrightarrow> map (\<lambda>x. the (as_int x)) xs = component_ints xs"
  by (induction xs) (auto simp: component_ints_def)

lemma sorted_json_set_ints:
  "list_all (\<lambda>x. as_int x \<noteq> None) xs \<Longrightarrow> sorted_json_set xs = Some (map JInt (sorted_set (component_ints xs)))"
  by (simp add: sorted_json_set_def the_ints)

lemma sorted_set_idem [simp]: "sorted_set (sorted_set xs @ ys) = sorted_set (xs @ ys)"
  by (rule sorted_set_cong) simp

lemma sorted_set_twice [simp]: "sorted_set (xs @ xs) = sorted_set xs" "sorted_set (xs @ xs @ ys) = sorted_set (xs @ ys)"
  by (rule sorted_set_cong, simp)+

lemma merged_key [simp]:
  "act_key (merge_fields e c g) = act_key g" "act_order (merge_fields e c g) = act_order g"
  by (simp_all add: merge_fields_def Let_def)

lemma new_group_keys [simp]:
  "act_key (new_action_group n e) = action_key_of e" "act_order (new_action_group n e) = n"
  by (simp_all add: new_action_group_def)

text \<open>Merging the event that opened a group, and merging a later one.\<close>

lemma merge_fields_simps [simp]:
  "act_events (merge_fields e c g) = act_events g @ [event_row e]"
  "act_relay_rows (merge_fields e c g) = act_relay_rows g @ (if relay_summary e \<noteq> [] then [event_row e] else [])"
  "act_message_ids (merge_fields e c g) = sorted_set (act_message_ids g @ event_message_ids e)"
  "act_fields (merge_fields e c g) = sorted_set (act_fields g @ ev_human_action_fields e)"
  "act_component_ids (merge_fields e c g) = c"
  "act_target_count (merge_fields e c g) = first_present [act_target_count g, ev_human_action_target_count e]"
  "act_from_epoch (merge_fields e c g) = first_present [act_from_epoch g, ev_from_epoch e]"
  "act_to_epoch (merge_fields e c g) = first_present [act_to_epoch g, ev_to_epoch e]"
  "act_first_wall_time_ms (merge_fields e c g) =
     fst (merge_times (ev_wall_time_ms e) (act_first_wall_time_ms g) (act_last_wall_time_ms g))"
  "act_last_wall_time_ms (merge_fields e c g) =
     snd (merge_times (ev_wall_time_ms e) (act_first_wall_time_ms g) (act_last_wall_time_ms g))"
  by (simp_all add: merge_fields_def Let_def)

lemma merge_opening:
  assumes "int_components e"
  shows "\<exists>g'. merge_action e (new_action_group n e) = Some g' \<and> action_summary [e] g' \<and>
    act_key g' = action_key_of e \<and> act_order g' = n"
proof -
  let ?g = "new_action_group n e"
  have "list_all (\<lambda>x. as_int x \<noteq> None) (act_component_ids ?g @ ev_human_action_component_ids e)"
    using assms by (simp add: int_components_def new_action_group_def)
  from sorted_json_set_ints [OF this]
  have "merge_action e ?g = Some (merge_fields e (map JInt (sorted_set (component_ints (ev_human_action_component_ids e)))) ?g)"
    by (simp add: merge_action_def new_action_group_def)
  moreover have "fst (merge_times w w w) = w" "snd (merge_times w w w) = w" for w
    by (simp_all add: merge_times_def split: option.splits)
  ultimately show ?thesis
    by (auto simp: action_summary_def new_action_group_def split: option.splits)
qed

lemma merge_later:
  assumes "int_components e" "action_summary es g" "list_all (\<lambda>t. 0 \<le> t) (times_in (es @ [e]))"
  shows "\<exists>g'. merge_action e g = Some g' \<and> action_summary (es @ [e]) g' \<and> act_key g' = act_key g \<and> act_order g' = act_order g"
proof -
  have ints: "list_all (\<lambda>x. as_int x \<noteq> None) (act_component_ids g @ ev_human_action_component_ids e)"
    using assms(1,2) by (auto simp: int_components_def action_summary_def list_all_iff)
  have "act_component_ids g = map JInt (sorted_set (component_ints (concat (map ev_human_action_component_ids es))))"
    using assms(2) by (simp add: action_summary_def)
  then have merge: "merge_action e g = Some (merge_fields e (map JInt (sorted_set (component_ints
      (concat (map ev_human_action_component_ids (es @ [e])))))) g)"
    using sorted_json_set_ints [OF ints] by (simp add: merge_action_def)
  have "opt_max (times_in es) = None \<longleftrightarrow> first_present (map ev_wall_time_ms es) = None"
    by (simp add: first_present_None_iff times_in_def opt_max_eq)
  moreover have "max (if l = 0 then t else l) t = max l t" if "ev_wall_time_ms e = Some t" for t l
    using assms(3) that by (auto simp: list_all_iff)
  ultimately have times: "merge_times (ev_wall_time_ms e) (first_present (map ev_wall_time_ms es)) (opt_max (times_in es)) =
      (first_present (map ev_wall_time_ms (es @ [e])), opt_max (times_in (es @ [e])))"
    unfolding times_in_simps opt_max_snoc [symmetric]
    by (cases "ev_wall_time_ms e") (auto simp: merge_times_def upd_last_def split: option.splits)
  show ?thesis
    using merge assms(2) times by (auto simp: action_summary_def split: option.splits)
qed

definition actions_ok :: "audit_event list \<Rightarrow> action_group list \<Rightarrow> bool" where
  "actions_ok es gs \<longleftrightarrow> distinct (map act_key gs) \<and>
     act_key ` set gs = action_key_of ` set (filter (\<lambda>e. ev_human_action_action e \<noteq> []) es) \<and>
     map act_order gs = [0..<length gs] \<and> list_all (\<lambda>g. action_summary (acts es (act_key g)) g) gs"

lemma map_other_keys: "k \<notin> act_key ` set gs \<Longrightarrow> map (\<lambda>h. if act_key h = k then g' else h) gs = gs"
  by (induction gs) auto

lemma merge_into_eq:
  assumes "distinct (map act_key gs)" "g \<in> set gs" "act_key g = action_key_of e" "merge_action e g = Some g'"
  shows "merge_into e gs = Some (map (\<lambda>h. if act_key h = action_key_of e then g' else h) gs)"
  using assms
proof (induction gs)
  case (Cons h hs)
  have rest: "map (\<lambda>x. if act_key x = action_key_of e then g' else x) hs = hs" if "act_key h = action_key_of e"
    using Cons.prems(1) that by (intro map_other_keys) simp
  show ?case
  proof (cases "act_key h = action_key_of e")
    case True
    then have "g = h" using Cons.prems by (auto simp: image_iff)
    with True Cons.prems(4) rest show ?thesis by simp
  next
    case False
    then show ?thesis using Cons by auto
  qed
qed simp

lemma acts_snoc:
  "acts (es @ [e]) k = acts es k @ (if ev_human_action_action e \<noteq> [] \<and> action_key_of e = k then [e] else [])"
  by (simp add: acts_def)

lemma actions_okD:
  assumes "actions_ok es gs"
  shows "g \<in> set gs \<Longrightarrow> action_summary (acts es (act_key g)) g"
    and "k \<notin> act_key ` set gs \<Longrightarrow> acts es k = []"
    and "distinct (map act_key gs)"
proof -
  have keys: "act_key ` set gs = action_key_of ` set (filter (\<lambda>e. ev_human_action_action e \<noteq> []) es)"
    using assms by (simp add: actions_ok_def)
  show "k \<notin> act_key ` set gs \<Longrightarrow> acts es k = []" unfolding keys acts_def filter_empty_conv by auto
qed (use assms in \<open>simp_all add: actions_ok_def list_all_iff\<close>)

lemma add_action_later:
  assumes "actions_ok es gs" "int_components e" "ev_human_action_action e \<noteq> []" "action_key_of e \<in> act_key ` set gs"
    and "list_all (\<lambda>t. 0 \<le> t) (times_in (es @ [e]))"
  shows "\<exists>gs'. add_action e gs = Some gs' \<and> actions_ok (es @ [e]) gs'"
proof -
  obtain g where g: "g \<in> set gs" "act_key g = action_key_of e" using assms(4) by auto
  have "list_all (\<lambda>t. 0 \<le> t) (times_in (acts es (act_key g) @ [e]))"
    using assms(5) by (fastforce simp: list_all_iff acts_def times_in_def)
  moreover have "action_summary (acts es (act_key g)) g"
    using actions_okD(1) [OF assms(1) g(1)] .
  ultimately obtain g' where g': "merge_action e g = Some g'" "action_summary (acts es (act_key g) @ [e]) g'"
    "act_key g' = act_key g" "act_order g' = act_order g"
    using merge_later [OF assms(2)] by blast
  let ?gs = "map (\<lambda>h. if act_key h = action_key_of e then g' else h) gs"
  have dist: "distinct (map act_key gs)" using assms(1) by (simp add: actions_ok_def)
  have same: "h = g" if "h \<in> set gs" "act_key h = action_key_of e" for h
    using dist g that by (simp add: distinct_map inj_on_def)
  have "act_key (if act_key h = action_key_of e then g' else h) = act_key h"
    "act_order (if act_key h = action_key_of e then g' else h) = act_order h" if "h \<in> set gs" for h
    using g g' same [OF that] by simp_all
  then have keys: "map act_key ?gs = map act_key gs" "map act_order ?gs = map act_order gs" by (simp_all cong: map_cong)
  from keys(1) have "act_key ` set ?gs = act_key ` set gs" by (metis set_map)
  moreover have "list_all (\<lambda>g. action_summary (acts (es @ [e]) (act_key g)) g) ?gs"
    unfolding list_all_iff
  proof
    fix h
    assume "h \<in> set ?gs"
    then consider "h = g'" | "h \<in> set gs" "act_key h \<noteq> action_key_of e" by (auto split: if_splits)
    then show "action_summary (acts (es @ [e]) (act_key h)) h"
      by cases (use g(2) g'(2,3) assms(3) actions_okD(1) [OF assms(1)] in \<open>simp_all add: acts_snoc\<close>)
  qed
  moreover have "distinct (map act_key ?gs)" "map act_order ?gs = [0..<length ?gs]"
    unfolding keys using assms(1) by (simp_all add: actions_ok_def)
  moreover have "act_key ` set gs = action_key_of ` set (filter (\<lambda>e. ev_human_action_action e \<noteq> []) (es @ [e]))"
    using assms(1,3,4) by (auto simp: actions_ok_def)
  ultimately have "actions_ok (es @ [e]) ?gs" unfolding actions_ok_def by blast
  then show ?thesis
    using merge_into_eq [OF dist g g'(1)] assms(3,4) by (simp add: add_action_def)
qed

lemma add_action_first:
  assumes "actions_ok es gs" "int_components e" "ev_human_action_action e \<noteq> []" "action_key_of e \<notin> act_key ` set gs"
  shows "\<exists>gs'. add_action e gs = Some gs' \<and> actions_ok (es @ [e]) gs'"
proof -
  let ?g = "new_action_group (length gs) e"
  obtain g' where g': "merge_action e ?g = Some g'" "action_summary [e] g'" "act_key g' = action_key_of e"
    "act_order g' = length gs"
    using merge_opening [OF assms(2)] by blast
  have dist: "distinct (map act_key (gs @ [?g]))" using assms(1,4) by (simp add: actions_ok_def)
  have "merge_into e (gs @ [?g]) = Some (map (\<lambda>h. if act_key h = action_key_of e then g' else h) (gs @ [?g]))"
    by (rule merge_into_eq [OF dist _ _ g'(1)]) simp_all
  moreover have "map (\<lambda>h. if act_key h = action_key_of e then g' else h) gs = gs"
    using assms(4) by (rule map_other_keys)
  ultimately have added: "add_action e gs = Some (gs @ [g'])" using assms(3,4) by (simp add: add_action_def)
  have none: "acts es (action_key_of e) = []" using actions_okD(2) [OF assms(1,4)] .
  have "action_summary (acts (es @ [e]) (act_key h)) h" if "h \<in> set gs" for h
  proof -
    have "act_key h \<noteq> action_key_of e" using assms(4) that by (metis imageI)
    then show ?thesis using actions_okD(1) [OF assms(1) that] by (simp add: acts_snoc)
  qed
  then have "actions_ok (es @ [e]) (gs @ [g'])"
    using assms(1,3,4) g' none by (auto simp: actions_ok_def acts_snoc list_all_iff)
  with added show ?thesis by blast
qed

lemma add_action_none:
  assumes "actions_ok es gs" "ev_human_action_action e = []"
  shows "add_action e gs = Some gs" "actions_ok (es @ [e]) gs"
  using assms by (auto simp: add_action_def actions_ok_def acts_snoc)

lemma collect_actions_append:
  "collect_actions (es @ fs) gs = (case collect_actions es gs of None \<Rightarrow> None | Some hs \<Rightarrow> collect_actions fs hs)"
  by (induction es arbitrary: gs) (auto split: option.splits)

lemma collect_actions_ok:
  assumes "list_all int_components es" "list_all (\<lambda>t. 0 \<le> t) (times_in es)"
  shows "\<exists>gs. collect_actions es [] = Some gs \<and> actions_ok es gs"
  using assms
proof (induction es rule: rev_induct)
  case Nil
  then show ?case by (simp add: actions_ok_def)
next
  case (snoc e es)
  then obtain gs where gs: "collect_actions es [] = Some gs" "actions_ok es gs" by auto
  have "\<exists>gs'. add_action e gs = Some gs' \<and> actions_ok (es @ [e]) gs'"
    using add_action_none [OF gs(2)] add_action_first [OF gs(2)] add_action_later [OF gs(2) _ _ _ snoc.prems(2)] snoc.prems(1)
    by (metis list.pred_inject(2) list_all_append)
  then show ?case using gs(1) by (auto simp: collect_actions_append)
qed

section \<open>Properties\<close>

text \<open>
  Every recorded human action is shown once. When the component ids are integers and the times not
  negative, as the v4 schema has them, the grouping succeeds; there is one card per key, a key being a
  non-empty operation id or a single event without one, so two actions share a card only through a
  common operation id; a card holds the rows of exactly the events of its key, in order, with the
  union of their message ids, fields and components, the first count and epochs, and the first and the
  latest time; the cards are in order of their first times.
\<close>

theorem action_groups_exact:
  assumes "list_all int_components es" "list_all (\<lambda>t. 0 \<le> t) (times_in es)"
  shows "\<exists>gs. human_action_groups_for_group es = Some gs \<and> sorted (map action_sort_key gs) \<and>
    distinct (map act_key gs) \<and>
    act_key ` set gs = action_key_of ` set (filter (\<lambda>e. ev_human_action_action e \<noteq> []) es) \<and>
    list_all (\<lambda>g. action_summary
      (filter (\<lambda>e. ev_human_action_action e \<noteq> [] \<and> action_key_of e = act_key g) es) g) gs"
proof -
  obtain gs where gs: "collect_actions es [] = Some gs" "actions_ok es gs"
    using collect_actions_ok [OF assms] by blast
  have "distinct (map act_key (sort_key action_sort_key gs))"
    using gs(2) by (simp add: actions_ok_def distinct_map)
  then show ?thesis
    using gs by (intro exI [of _ "sort_key action_sort_key gs"])
      (auto simp: human_action_groups_for_group_def actions_ok_def acts_def list_all_iff)
qed

definition example_action :: "nat \<Rightarrow> string \<Rightarrow> audit_event" where
  "example_action n op = blank_event\<lparr> ev_id := n, ev_wall_time_ms := Some (int n), ev_event_type := ''human_action'',
     ev_human_action_action := ''send_message'', ev_context_operation_id := op,
     ev_human_action_component_ids := [JInt 2, JInt 1] \<rparr>"

definition example_actions :: "audit_event list" where
  "example_actions = [example_action 1 ''op'', example_action 2 [], example_action 3 ''op'', example_action 4 []]"

theorem action_groups_exact_witness:
  "\<exists>gs. human_action_groups_for_group example_actions = Some gs \<and> length gs = 3 \<and> distinct (map act_key gs)"
proof -
  have "map_option length (human_action_groups_for_group example_actions) = Some 3" by code_simp
  moreover have "list_all int_components example_actions" "list_all (\<lambda>t. 0 \<le> t) (times_in example_actions)"
    by code_simp+
  ultimately show ?thesis using action_groups_exact [of example_actions] by auto
qed

end
