(* ===== verification/Timeline.thy ===== *)
theory Timeline
  imports Event_View Normalize "HOL-Library.Multiset"
begin

text \<open>
  The timeline of \<^verbatim>\<open>forensics/analysis.py\<close>: the order of events, the engine columns with their colours
  and labels, the per-epoch record of confirmations, forks, rollbacks and snapshots, and the placed
  items with bursts of peeler retries folded into one. \<^verbatim>\<open>session_source_contexts\<close> of
  \<^verbatim>\<open>forensics/source_metadata.py\<close>, which the engine labels read, is modelled here too; the text of a JSON
  value as the database renders it is a parameter \<open>key_text\<close>.
\<close>

section \<open>Order\<close>

definition timeline_key :: "audit_event \<Rightarrow> bool \<times> int \<times> nat \<times> nat" where
  "timeline_key e = (ev_wall_time_ms e = None, (case ev_wall_time_ms e of None \<Rightarrow> 0 | Some t \<Rightarrow> t),
     ev_line_number e, ev_id e)"

definition sorted_timeline_events :: "audit_event list \<Rightarrow> audit_event list" where
  "sorted_timeline_events events = sort_key timeline_key events"

section \<open>Engine columns\<close>

definition VIZ_PALETTE_SIZE :: nat where
  "VIZ_PALETTE_SIZE = 8"

definition color_index :: "string \<Rightarrow> nat" where
  "color_index value = unat (fold (\<lambda>c h. h * 31 + of_nat (of_char c)) value (0 :: 32 word)) mod VIZ_PALETTE_SIZE + 1"

text \<open>\<^verbatim>\<open>s.split(sep)[0]\<close> for a non-empty separator, and the words of \<^verbatim>\<open>s.split()\<close>.\<close>

fun before_sep :: "string \<Rightarrow> string \<Rightarrow> string" where
  "before_sep sep [] = []"
| "before_sep sep (c # cs) = (if starts_with sep (c # cs) then [] else c # before_sep sep cs)"

fun py_words :: "string \<Rightarrow> string \<Rightarrow> string list" where
  "py_words word [] = (if word = [] then [] else [word])"
| "py_words word (c # cs) =
     (if py_space c then (if word = [] then py_words [] cs else word # py_words [] cs)
      else py_words (word @ [c]) cs)"

definition engine_initials :: "string \<Rightarrow> string \<Rightarrow> string" where
  "engine_initials label engine_id =
     (let primary = (if label \<noteq> [] then py_strip (before_sep '' / '' label) else []);
          ws = py_words [] primary
      in if ws \<noteq> [] then map py_upper_char (map hd (take 2 ws))
         else map py_upper_char (if take 2 engine_id \<noteq> [] then take 2 engine_id else ''?''))"

definition SOURCE_KEYS :: "string list" where
  "SOURCE_KEYS = [''device_id'', ''hardware_model'', ''platform'', ''app_version'', ''upload_trigger'']"

definition source_max_length :: "string \<Rightarrow> nat" where
  "source_max_length key = (if key \<in> {''device_id'', ''hardware_model''} then 255
     else if key = ''upload_trigger'' then 160 else 120)"

type_synonym session = "string \<times> string \<times> string"

definition full_session :: "session \<Rightarrow> bool" where
  "full_session s \<longleftrightarrow> fst s \<noteq> [] \<and> fst (snd s) \<noteq> [] \<and> snd (snd s) \<noteq> []"

text \<open>Ascending order of a nullable column: NULL last.\<close>

definition seq_key :: "audit_event \<Rightarrow> bool \<times> int \<times> nat" where
  "seq_key e = (ev_seq e = None, (case ev_seq e of None \<Rightarrow> 0 | Some i \<Rightarrow> i), ev_id e)"

definition source_context :: "(json \<Rightarrow> string option) \<Rightarrow> audit_event \<Rightarrow> (string \<times> string option) list" where
  "source_context key_text e =
     map (\<lambda>key. (key, (case map_of (dict_of (ev_context_source e)) key of
          None \<Rightarrow> None
        | Some v \<Rightarrow> map_option (take (source_max_length key)) (key_text v)))) SOURCE_KEYS"

definition session_batch ::
  "(json \<Rightarrow> string option) \<Rightarrow> audit_file list \<Rightarrow> audit_event list \<Rightarrow> session list
     \<Rightarrow> (string \<times> (string \<times> string option) list) list" where
  "session_batch key_text files events sessions =
     map (\<lambda>e. (ev_engine_id e, source_context key_text e))
       (sort_key seq_key (filter (\<lambda>e.
          (ev_engine_id e, ev_account_ref e, ev_recorder_session_id e) \<in> set sessions \<and> counted_event files e \<and>
          ev_schema_version e = SCHEMA_VERSION \<and> ev_context_source e \<noteq> JObj []) events))"

definition session_source_contexts ::
  "(json \<Rightarrow> string option) \<Rightarrow> audit_file list \<Rightarrow> audit_event list \<Rightarrow> session list
     \<Rightarrow> (string \<times> (string \<times> string option) list) list" where
  "session_source_contexts key_text files events sessions =
     concat (map (session_batch key_text files events)
       (batches 100 (sorted_set (filter full_session sessions))))"

record engine_info =
  ei_engine_id :: string
  ei_account_ref :: string
  ei_label :: string
  ei_color_index :: nat
  ei_first_event_ms :: "int option"
  ei_last_event_ms :: "int option"
  ei_event_count :: nat
  ei_idx :: nat
  ei_short :: string
  ei_initials :: string
  ei_file_ids :: "nat list"

definition new_engine :: "audit_event \<Rightarrow> engine_info" where
  "new_engine e = \<lparr> ei_engine_id = ev_engine_id e, ei_account_ref = ev_account_ref e, ei_label = [],
     ei_color_index = color_index (ev_engine_id e), ei_first_event_ms = None, ei_last_event_ms = None,
     ei_event_count = 0, ei_idx = 0, ei_short = [], ei_initials = [], ei_file_ids = [] \<rparr>"

definition see_event :: "audit_event \<Rightarrow> engine_info \<Rightarrow> engine_info" where
  "see_event e info =
     info\<lparr> ei_event_count := Suc (ei_event_count info),
       ei_account_ref := (if ei_account_ref info = [] then ev_account_ref e else ei_account_ref info),
       ei_first_event_ms := (case ev_wall_time_ms e of
           None \<Rightarrow> ei_first_event_ms info
         | Some t \<Rightarrow> Some (case ei_first_event_ms info of None \<Rightarrow> t | Some f \<Rightarrow> f)),
       ei_last_event_ms := (case ev_wall_time_ms e of
           None \<Rightarrow> ei_last_event_ms info
         | Some t \<Rightarrow> Some (max (case ei_last_event_ms info of None \<Rightarrow> t | Some l \<Rightarrow> if l = 0 then t else l) t)) \<rparr>"

definition session_of :: "audit_event \<Rightarrow> session" where
  "session_of e = (ev_engine_id e, ev_account_ref e,
     if ev_schema_version e \<noteq> SCHEMA_VERSION then [] else ev_recorder_session_id e)"

text \<open>\<^verbatim>\<open>d[engine].setdefault(field, value)\<close> for a value that is not empty.\<close>

type_synonym metadata = "(string \<times> (string \<times> string) list) list"

definition set_meta :: "string \<Rightarrow> string \<Rightarrow> string \<Rightarrow> metadata \<Rightarrow> metadata" where
  "set_meta engine field value m =
     (let d = dd_get [] m engine
      in if value = [] \<or> map_of d field \<noteq> None then m else AList.update engine (AList.update field value d) m)"

definition file_source :: "audit_file list \<Rightarrow> audit_event \<Rightarrow> (string \<times> string) list" where
  "file_source files e = (case find (\<lambda>f. af_id f = ev_audit_file e) files of
     None \<Rightarrow> []
   | Some f \<Rightarrow> [(''source_platform'', af_source_platform f), (''source_hardware_model'', af_source_hardware_model f)])"

record engine_acc =
  ea_by_engine :: "(string \<times> engine_info) list"
  ea_file_ids :: "(string \<times> nat set) list"
  ea_sessions :: "session list"
  ea_fallback :: metadata

definition note_event :: "audit_file list \<Rightarrow> audit_event \<Rightarrow> engine_acc \<Rightarrow> engine_acc" where
  "note_event files e acc =
     (if ev_engine_id e = [] then acc
      else (let s = session_of e;
                info = dd_get (new_engine e) (ea_by_engine acc) (ev_engine_id e)
            in acc\<lparr> ea_sessions := ea_sessions acc @ [s],
                 ea_by_engine := AList.update (ev_engine_id e) (see_event e info) (ea_by_engine acc),
                 ea_fallback := (if full_session s then ea_fallback acc
                   else fold (\<lambda>(field, value). set_meta (ev_engine_id e) field value) (file_source files e) (ea_fallback acc)),
                 ea_file_ids := dd_add (ev_engine_id e) (ev_audit_file e) (ea_file_ids acc) \<rparr>))"

definition session_metadata :: "(string \<times> (string \<times> string option) list) list \<Rightarrow> metadata" where
  "session_metadata contexts =
     fold (\<lambda>(engine, source) m. fold (\<lambda>key. set_meta engine (''source_'' @ key)
         (case map_of source key of Some (Some v) \<Rightarrow> v | _ \<Rightarrow> [])) [''platform'', ''hardware_model''] m) contexts []"

definition with_fallback :: "metadata \<Rightarrow> metadata \<Rightarrow> metadata" where
  "with_fallback fallback m = fold (\<lambda>(engine, d). fold (\<lambda>(field, value). set_meta engine field value) d) fallback m"

definition engine_sort_key :: "engine_info \<Rightarrow> bool \<times> int \<times> string" where
  "engine_sort_key info = (ei_first_event_ms info = None,
     (case ei_first_event_ms info of None \<Rightarrow> 0 | Some t \<Rightarrow> t), ei_engine_id info)"

definition finish_engine :: "metadata \<Rightarrow> (string \<times> nat set) list \<Rightarrow> nat \<times> engine_info \<Rightarrow> engine_info" where
  "finish_engine m file_ids item =
     (let (idx, info) = item;
          engine_id = ei_engine_id info;
          d = dd_get [] m engine_id;
          label = str_join '' / '' (filter (\<lambda>s. s \<noteq> [])
            [dd_get [] d ''source_platform'', dd_get [] d ''source_hardware_model'', take 12 engine_id])
      in info\<lparr> ei_label := label, ei_idx := idx, ei_short := take 8 engine_id,
           ei_initials := engine_initials label engine_id,
           ei_file_ids := sorted_list_of_set (dd_get {} file_ids engine_id) \<rparr>)"

definition timeline_engines ::
  "(json \<Rightarrow> string option) \<Rightarrow> audit_file list \<Rightarrow> audit_event list \<Rightarrow> audit_event list
     \<Rightarrow> engine_info list \<times> (string \<times> nat) list" where
  "timeline_engines key_text files stored events =
     (let acc = fold (note_event files) events \<lparr> ea_by_engine = [], ea_file_ids = [], ea_sessions = [], ea_fallback = [] \<rparr>;
          m = with_fallback (ea_fallback acc)
                (session_metadata (session_source_contexts key_text files stored (ea_sessions acc)));
          engines = map (finish_engine m (ea_file_ids acc))
                (enumerate 0 (sort_key engine_sort_key (map snd (ea_by_engine acc))))
      in (engines, map (\<lambda>info. (ei_engine_id info, ei_idx info)) engines))"

section \<open>Epochs\<close>

definition MESSAGE_EVENT_TYPES :: "string list" where
  "MESSAGE_EVENT_TYPES = [''ingest_entry'', ''ingest_outcome'', ''send_entry'', ''send_outcome'', ''publish_attempt'',
     ''publish_outcome'', ''publish_failure'', ''human_action'', ''peeler_outcome'', ''message_state_changed'', ''rejection'']"

definition EPOCH_CHANGE_RESULT_KINDS :: "string list" where
  "EPOCH_CHANGE_RESULT_KINDS = [''group_created'', ''group_evolution'']"

record confirmation =
  cf_engine :: "nat option"
  cf_t :: "int option"
  cf_from_epoch :: "int option"
  cf_pending_kind :: string
  cf_human_action :: string
  cf_human_action_origin :: string
  cf_human_action_phase :: string
  cf_item_id :: nat
  cf_repeat :: bool

record initiator =
  in_engine :: nat
  in_t :: "int option"
  in_action :: string
  in_phase :: string
  in_result_kind :: string
  in_pending_kind :: string
  in_item_id :: nat
  in_source :: string

definition confirmation_of :: "nat option \<Rightarrow> audit_event \<Rightarrow> confirmation" where
  "confirmation_of engine e = \<lparr> cf_engine = engine, cf_t = ev_wall_time_ms e, cf_from_epoch = ev_from_epoch e,
     cf_pending_kind = ev_pending_kind e, cf_human_action = ev_human_action_action e,
     cf_human_action_origin = ev_human_action_origin e, cf_human_action_phase = ev_human_action_phase e,
     cf_item_id = ev_id e, cf_repeat = False \<rparr>"

definition initiator_of :: "nat \<Rightarrow> audit_event \<Rightarrow> initiator" where
  "initiator_of engine e = \<lparr> in_engine = engine, in_t = ev_wall_time_ms e, in_action = ev_human_action_action e,
     in_phase = ev_human_action_phase e, in_result_kind = ev_result_kind e, in_pending_kind = ev_pending_kind e,
     in_item_id = ev_id e, in_source = ev_event_type e \<rparr>"

definition epoch_initiators_for_event ::
  "audit_event \<Rightarrow> nat option \<Rightarrow> (string \<times> int set) list \<Rightarrow> (int \<times> initiator) list" where
  "epoch_initiators_for_event e engine message_epochs =
     (case engine of
        None \<Rightarrow> []
      | Some k \<Rightarrow>
          (if ev_human_action_origin e \<noteq> ''local_user'' then []
           else (case ev_to_epoch e of
                   Some n \<Rightarrow> [(n, initiator_of k e)]
                 | None \<Rightarrow>
                     (if ev_event_type e = ''send_outcome'' \<and> ev_result_kind e \<in> set EPOCH_CHANGE_RESULT_KINDS
                      then map (\<lambda>n. (n, initiator_of k e))
                        (sorted_list_of_set (\<Union>m \<in> set (event_message_ids e). dd_get {} message_epochs m))
                      else []))))"

definition dedupe_epoch_initiators :: "initiator list \<Rightarrow> initiator list" where
  "dedupe_epoch_initiators items =
     map snd (fold (\<lambda>i d. let k = (in_engine i, in_item_id i, in_source i)
        in if map_of d k = None then d @ [(k, i)] else d) items [])"

definition note_message_epochs :: "audit_event \<Rightarrow> (string \<times> int set) list \<Rightarrow> (string \<times> int set) list" where
  "note_message_epochs e d = (case event_epoch e of None \<Rightarrow> d | Some n \<Rightarrow> fold (\<lambda>m. dd_add m n) (event_message_ids e) d)"

record epoch_acc =
  ep_confirmations :: "(int \<times> confirmation list) list"
  ep_initiators :: "(int \<times> initiator list) list"
  ep_forks :: "(int \<times> dict list) list"
  ep_convergences :: "(int \<times> dict list) list"
  ep_rollbacks :: "(int \<times> dict list) list"
  ep_snapshots :: "(int \<times> dict list) list"
  ep_referenced :: "int list"
  ep_message_counts :: "(int \<times> nat) list"
  ep_roles :: "(nat \<times> string) list"

definition entry_of :: "nat option \<Rightarrow> audit_event \<Rightarrow> dict" where
  "entry_of engine e = [(''item_id'', j_nat (ev_id e)),
     (''engine'', (case engine of None \<Rightarrow> JNull | Some k \<Rightarrow> j_nat k)), (''t'', j_int (ev_wall_time_ms e))]"

definition fork_entry :: "nat option \<Rightarrow> audit_event \<Rightarrow> dict" where
  "fork_entry engine e = entry_of engine e @ [(''winner'', JStr (ev_winner e)),
     (''candidate_digest'', JStr (ev_candidate_digest e)), (''incumbent_digest'', JStr (ev_incumbent_digest e)),
     (''invalidated_msg_id'', JStr (ev_invalidated_msg_id e))]"

definition convergence_entry :: "nat option \<Rightarrow> audit_event \<Rightarrow> dict" where
  "convergence_entry engine e = entry_of engine e @ [(''current_tip_epoch'', j_int (ev_current_tip_epoch e)),
     (''selected_tip_epoch'', j_int (ev_selected_tip_epoch e)), (''selected_fork_epoch'', j_int (ev_selected_fork_epoch e)),
     (''selected_branch_id'', JStr (ev_selected_branch_id e)), (''candidate_count'', j_int (ev_candidate_count e)),
     (''eligible_count'', j_int (ev_eligible_count e)), (''max_rewind_commits'', j_int (ev_max_rewind_commits e))]"

definition rollback_entry :: "string \<Rightarrow> nat option \<Rightarrow> audit_event \<Rightarrow> dict" where
  "rollback_entry role engine e = entry_of engine e @ [(''pending_epoch'', j_int (ev_pending_epoch e)),
     (''restored_epoch'', j_int (ev_restored_epoch e)), (''pending_kind'', JStr (ev_pending_kind e)), (''role'', JStr role)]"

definition snapshot_entry :: "nat option \<Rightarrow> audit_event \<Rightarrow> dict" where
  "snapshot_entry engine e = entry_of engine e @ [(''snapshot_name'', JStr (ev_snapshot_name e)), (''reason'', JStr (ev_reason e))]"

text \<open>The branch of the event's type.\<close>

definition note_epoch_kind :: "nat option \<Rightarrow> audit_event \<Rightarrow> epoch_acc \<Rightarrow> epoch_acc" where
  "note_epoch_kind engine e acc =
     (let t = ev_event_type e in
      if t = ''epoch_confirmed'' \<and> ev_to_epoch e \<noteq> None
      then acc\<lparr>ep_confirmations := dd_append (the (ev_to_epoch e)) (confirmation_of engine e) (ep_confirmations acc)\<rparr>
      else if t = ''fork_resolution'' \<and> ev_source_epoch e \<noteq> None
      then acc\<lparr>ep_referenced := the (ev_source_epoch e) # ep_referenced acc,
               ep_forks := dd_append (the (ev_source_epoch e)) (fork_entry engine e) (ep_forks acc)\<rparr>
      else if t = ''convergence_decision''
      then (let acc1 = acc\<lparr>ep_referenced := the_list [ev_current_tip_epoch e, ev_selected_tip_epoch e] @ ep_referenced acc\<rparr>
            in (case ev_current_tip_epoch e of
                  None \<Rightarrow> acc1
                | Some n \<Rightarrow> acc1\<lparr>ep_convergences := dd_append n (convergence_entry engine e) (ep_convergences acc1)\<rparr>))
      else if t = ''epoch_rolled_back''
      then (let acc1 = acc\<lparr>ep_roles := AList.update (ev_id e) ''rollback'' (ep_roles acc)\<rparr>;
                acc2 = (case ev_pending_epoch e of
                    None \<Rightarrow> acc1
                  | Some n \<Rightarrow> acc1\<lparr>ep_referenced := n # ep_referenced acc1,
                      ep_rollbacks := dd_append n (rollback_entry ''abandoned'' engine e) (ep_rollbacks acc1)\<rparr>)
            in (case ev_restored_epoch e of
                  None \<Rightarrow> acc2
                | Some n \<Rightarrow> acc2\<lparr>ep_referenced := n # ep_referenced acc2,
                    ep_rollbacks := dd_append n (rollback_entry ''restored_to'' engine e) (ep_rollbacks acc2)\<rparr>))
      else if t = ''snapshot_created'' \<and> ev_source_epoch e \<noteq> None
      then acc\<lparr>ep_referenced := the (ev_source_epoch e) # ep_referenced acc,
               ep_snapshots := dd_append (the (ev_source_epoch e)) (snapshot_entry engine e) (ep_snapshots acc)\<rparr>
      else acc)"

definition note_epoch_event ::
  "(string \<times> nat) list \<Rightarrow> (string \<times> int set) list \<Rightarrow> audit_event \<Rightarrow> epoch_acc \<Rightarrow> epoch_acc" where
  "note_epoch_event engine_idx message_epochs e acc =
     (let engine = map_of engine_idx (ev_engine_id e);
          acc1 = acc\<lparr>ep_initiators := fold (\<lambda>(n, i). dd_append n i)
                   (epoch_initiators_for_event e engine message_epochs) (ep_initiators acc)\<rparr>;
          acc2 = note_epoch_kind engine e acc1
      in if ev_event_type e \<in> set MESSAGE_EVENT_TYPES
         then (case event_epoch e of
                 None \<Rightarrow> acc2
               | Some n \<Rightarrow> acc2\<lparr>ep_message_counts := AList.update n (Suc (dd_get 0 (ep_message_counts acc2) n)) (ep_message_counts acc2)\<rparr>)
         else acc2)"

record epoch_row =
  er_epoch :: int
  er_confirmed :: bool
  er_first_confirmed_ms :: "int option"
  er_first_confirmed_engine :: "nat option"
  er_commit_item_id :: "nat option"
  er_initiators :: "initiator list"
  er_initiator_engines :: "nat list"
  er_confirmations :: "confirmation list"
  er_unconfirmed_engines :: "nat list"
  er_spread_ms :: "int option"
  er_fork_status :: string
  er_forks :: "dict list"
  er_convergences :: "dict list"
  er_rollbacks :: "dict list"
  er_snapshots :: "dict list"
  er_message_event_count :: nat

definition timed_key :: "int option \<Rightarrow> nat \<Rightarrow> bool \<times> int \<times> nat" where
  "timed_key t item = (t = None, (case t of None \<Rightarrow> 0 | Some v \<Rightarrow> v), item)"

fun mark_repeats :: "nat set \<Rightarrow> confirmation list \<Rightarrow> confirmation list" where
  "mark_repeats seen [] = []"
| "mark_repeats seen (c # cs) =
     (case cf_engine c of
        None \<Rightarrow> c\<lparr>cf_repeat := False\<rparr> # mark_repeats seen cs
      | Some k \<Rightarrow> c\<lparr>cf_repeat := k \<in> seen\<rparr> # mark_repeats (insert k seen) cs)"

definition suspected_fork :: "dict list \<Rightarrow> dict list \<Rightarrow> bool" where
  "suspected_fork rollbacks convergences \<longleftrightarrow>
     list_ex (\<lambda>r. dict_get r ''role'' = JStr ''abandoned'') rollbacks \<or>
     list_ex (\<lambda>c. case dict_get c ''candidate_count'' of JInt n \<Rightarrow> n > 1 | _ \<Rightarrow> False) convergences"

definition epoch_row_of :: "nat \<Rightarrow> epoch_acc \<Rightarrow> int \<Rightarrow> epoch_row" where
  "epoch_row_of engine_count acc number =
     (let confs = mark_repeats {} (sort_key (\<lambda>c. timed_key (cf_t c) (cf_item_id c)) (dd_get [] (ep_confirmations acc) number));
          initiators = sort_key (\<lambda>i. timed_key (in_t i) (in_item_id i))
            (dedupe_epoch_initiators (dd_get [] (ep_initiators acc) number));
          seen_engines = set (the_list (map cf_engine confs));
          initiator_engines = set (map in_engine initiators);
          timed = filter (\<lambda>c. cf_t c \<noteq> None) confs;
          first = (case timed of [] \<Rightarrow> None | c # _ \<Rightarrow> Some c);
          forks = dd_get [] (ep_forks acc) number;
          rollbacks = dd_get [] (ep_rollbacks acc) number;
          convergences = dd_get [] (ep_convergences acc) number
      in \<lparr> er_epoch = number,
           er_confirmed = (confs \<noteq> []),
           er_first_confirmed_ms = (case first of None \<Rightarrow> None | Some c \<Rightarrow> cf_t c),
           er_first_confirmed_engine = (case first of None \<Rightarrow> None | Some c \<Rightarrow> cf_engine c),
           er_commit_item_id = map_option cf_item_id first,
           er_initiators = initiators,
           er_initiator_engines = sorted_list_of_set initiator_engines,
           er_confirmations = confs,
           er_unconfirmed_engines = (if confs \<noteq> []
              then filter (\<lambda>k. k \<notin> seen_engines \<and> k \<notin> initiator_engines) [0..<engine_count] else [0..<engine_count]),
           er_spread_ms = (if length timed > 1 then Some (the (cf_t (last timed)) - the (cf_t (hd timed))) else None),
           er_fork_status = (if forks \<noteq> [] then ''resolved''
              else if suspected_fork rollbacks convergences then ''suspected'' else ''none''),
           er_forks = forks, er_convergences = convergences, er_rollbacks = rollbacks,
           er_snapshots = dd_get [] (ep_snapshots acc) number,
           er_message_event_count = dd_get 0 (ep_message_counts acc) number \<rparr>)"

definition confirmation_roles :: "epoch_row \<Rightarrow> (nat \<times> string) list \<Rightarrow> (nat \<times> string) list" where
  "confirmation_roles row roles =
     fold (\<lambda>c. AList.update (cf_item_id c)
        (if er_commit_item_id row = Some (cf_item_id c) then ''commit'' else ''applied'')) (er_confirmations row) roles"

definition timeline_epochs ::
  "audit_event list \<Rightarrow> (string \<times> nat) list \<Rightarrow> nat \<Rightarrow> epoch_row list \<times> (nat \<times> string) list" where
  "timeline_epochs events engine_idx engine_count =
     (let message_epochs = fold note_message_epochs events [];
          acc = fold (note_epoch_event engine_idx message_epochs) events
            \<lparr> ep_confirmations = [], ep_initiators = [], ep_forks = [], ep_convergences = [], ep_rollbacks = [],
              ep_snapshots = [], ep_referenced = [], ep_message_counts = [], ep_roles = [] \<rparr>;
          numbers = sorted_set (map fst (ep_confirmations acc) @ ep_referenced acc @ map fst (ep_initiators acc));
          rows = map (epoch_row_of engine_count acc) numbers
      in (rows, fold confirmation_roles rows (ep_roles acc)))"

section \<open>Items\<close>

definition compact_item :: "dict \<Rightarrow> dict" where
  "compact_item item = filter (\<lambda>(k, v). v \<noteq> JNull \<and> v \<noteq> JStr []) item"

fun int_of :: "json \<Rightarrow> int" where
  "int_of (JInt i) = i"
| "int_of _ = 0"

definition timeline_item_sort_key :: "dict \<Rightarrow> int \<times> int \<times> int" where
  "timeline_item_sort_key item =
     (int_of (dict_get item ''t''), int_of (dict_get item ''line''), int_of (dict_get item ''id''))"

definition is_timeline_peeler_retry_event :: "audit_event \<Rightarrow> bool" where
  "is_timeline_peeler_retry_event e \<longleftrightarrow>
     (ev_event_type e = ''peeler_outcome'' \<and> ev_outcome e \<in> set PEELER_WARNING_OUTCOMES) \<or>
     (ev_event_type e = ''message_state_changed'' \<and> ev_new_state e \<in> set DEFERRED_MESSAGE_STATES)"

definition timeline_item_for_event :: "(nat \<times> string) list \<Rightarrow> nat \<Rightarrow> audit_event \<Rightarrow> dict" where
  "timeline_item_for_event roles engine e = compact_item [
     (''id'', j_nat (ev_id e)),
     (''engine'', j_nat engine),
     (''t'', j_int (ev_wall_time_ms e)),
     (''seq'', j_int (ev_seq e)),
     (''type'', JStr (ev_event_type e)),
     (''tone'', JStr (event_tone e)),
     (''role'', (case map_of roles (ev_id e) of None \<Rightarrow> JNull | Some r \<Rightarrow> JStr r)),
     (''epoch'', j_int (event_epoch e)),
     (''msg_id'', primary_msg_id e),
     (''message_ids'', j_strs (event_message_ids e)),
     (''related_key'', py_or (JStr (first_str [ev_msg_id e, ev_outbound_msg_id e]))
        (py_or (first_id (ev_human_action_message_ids e)) (JStr (first_str [ev_candidate_digest e, ev_payload_digest e])))),
     (''operation_id'', JStr (ev_context_operation_id e)),
     (''human_action'', JStr (ev_human_action_action e)),
     (''human_action_label'', JStr (action_label (ev_human_action_action e))),
     (''human_action_origin'', JStr (ev_human_action_origin e)),
     (''human_action_phase'', JStr (ev_human_action_phase e)),
     (''human_action_fields'', j_strs (ev_human_action_fields e)),
     (''target_kind'', JStr (ev_target_kind e)),
     (''relay_summary'', JStr (relay_summary e)),
     (''envelope_kind'', JStr (ev_envelope_kind e)),
     (''intent_kind'', JStr (ev_intent_kind e)),
     (''result_kind'', JStr (ev_result_kind e)),
     (''proposal_kind'', JStr (ev_proposal_kind e)),
     (''snapshot_name'', JStr (ev_snapshot_name e)),
     (''payload_len'', j_int (ev_payload_len e)),
     (''digest'', JStr (primary_digest e)),
     (''outcome'', JStr (primary_outcome e)),
     (''reason'', JStr (primary_reason e)),
     (''summary'', JStr (event_summary e)),
     (''line'', j_nat (ev_line_number e)),
     (''file_id'', j_nat (ev_audit_file e))]"

definition unique_in_order :: "string list \<Rightarrow> string list" where
  "unique_in_order values = rev (fold (\<lambda>v acc. if v = [] \<or> v \<in> set acc then acc else v # acc) values [])"

text \<open>\<^verbatim>\<open>Counter(values).most_common(3)\<close>: by falling count, the first met first among equals.\<close>

definition count_values :: "string list \<Rightarrow> (string \<times> nat) list" where
  "count_values values = fold (\<lambda>v d. AList.update v (Suc (dd_get 0 d v)) d) (filter (\<lambda>v. v \<noteq> []) values) []"

definition summarize_counts :: "string list \<Rightarrow> string" where
  "summarize_counts values =
     (let counts = count_values values;
          parts = map (\<lambda>(v, n). if n > 1 then v @ '' x'' @ nat_str n else v)
            (take 3 (sort_key (\<lambda>(v, n). - int n) counts))
      in str_join '', '' (parts @ (if length counts > 3 then [''+'' @ nat_str (length counts - 3) @ '' more''] else [])))"

definition burst_order_key :: "audit_event \<Rightarrow> int \<times> nat \<times> nat" where
  "burst_order_key e = ((case ev_wall_time_ms e of None \<Rightarrow> 0 | Some t \<Rightarrow> t), ev_line_number e, ev_id e)"

definition timeline_peeler_retry_burst_item :: "audit_event list \<Rightarrow> nat \<Rightarrow> dict" where
  "timeline_peeler_retry_burst_item events engine =
     (let ordered = sort_key burst_order_key events;
          first = hd ordered;
          message_ids = unique_in_order (concat (map event_message_ids ordered));
          outcomes = filter (\<lambda>s. s \<noteq> []) (map primary_outcome ordered);
          reasons = filter (\<lambda>s. s \<noteq> []) (map primary_reason ordered);
          message_count = length message_ids;
          event_count = length ordered
      in compact_item ([
           (''id'', j_nat (Min (set (map ev_id ordered)))),
           (''engine'', j_nat engine),
           (''t'', j_int (ev_wall_time_ms first)),
           (''seq'', j_int (ev_seq first)),
           (''type'', JStr ''peeler_retry_burst''),
           (''tone'', JStr ''warning''),
           (''msg_id'', JStr (if message_count = 1 then hd message_ids else [])),
           (''message_ids'', j_strs message_ids),
           (''message_count'', j_nat message_count),
           (''event_count'', j_nat event_count),
           (''source_event_ids'', JList (map (\<lambda>e. j_nat (ev_id e)) ordered)),
           (''outcome'', JStr ''deferred''),
           (''outcome_summary'', JStr (summarize_counts outcomes)),
           (''reason'', JStr (summarize_counts reasons)),
           (''summary'', JStr (''peeler retry/defer burst'' @ middot @ nat_str message_count @ '' message'' @ plural message_count @
              middot @ nat_str event_count @ '' event'' @ plural event_count)),
           (''line'', j_nat (Min (set (map ev_line_number ordered)))),
           (''file_id'', j_nat (ev_audit_file first))] @
         (if message_count = 1 then [(''related_key'', JStr (hd message_ids))] else [])))"

type_synonym bursts = "((nat \<times> int) \<times> audit_event list) list"

record items_acc =
  it_items :: "dict list"
  it_excluded_ids :: "nat list"
  it_no_wall_time :: nat
  it_no_engine :: nat
  it_bursts :: bursts

definition place_event :: "(string \<times> nat) list \<Rightarrow> (nat \<times> string) list \<Rightarrow> audit_event \<Rightarrow> items_acc \<Rightarrow> items_acc" where
  "place_event engine_idx roles e acc =
     (case ev_wall_time_ms e of
        None \<Rightarrow> acc\<lparr>it_no_wall_time := Suc (it_no_wall_time acc), it_excluded_ids := it_excluded_ids acc @ [ev_id e]\<rparr>
      | Some t \<Rightarrow>
          (case map_of engine_idx (ev_engine_id e) of
             None \<Rightarrow> acc\<lparr>it_no_engine := Suc (it_no_engine acc), it_excluded_ids := it_excluded_ids acc @ [ev_id e]\<rparr>
           | Some k \<Rightarrow>
               (if is_timeline_peeler_retry_event e
                then acc\<lparr>it_bursts := dd_append (k, t div 1000) e (it_bursts acc)\<rparr>
                else acc\<lparr>it_items := it_items acc @ [timeline_item_for_event roles k e]\<rparr>)))"

definition burst_item :: "(string \<times> nat) list \<Rightarrow> (nat \<times> string) list \<Rightarrow> (nat \<times> int) \<times> audit_event list \<Rightarrow> dict" where
  "burst_item engine_idx roles burst =
     (case snd burst of
        [e] \<Rightarrow> timeline_item_for_event roles (the (map_of engine_idx (ev_engine_id e))) e
      | es \<Rightarrow> timeline_peeler_retry_burst_item es (fst (fst burst)))"

record excluded_events =
  ex_count :: nat
  ex_no_wall_time :: nat
  ex_no_engine :: nat
  ex_event_ids :: "nat list"

definition timeline_items ::
  "audit_event list \<Rightarrow> (string \<times> nat) list \<Rightarrow> (nat \<times> string) list \<Rightarrow> dict list \<times> excluded_events" where
  "timeline_items events engine_idx roles =
     (let acc = fold (place_event engine_idx roles) events
            \<lparr> it_items = [], it_excluded_ids = [], it_no_wall_time = 0, it_no_engine = 0, it_bursts = [] \<rparr>;
          items = sort_key timeline_item_sort_key (it_items acc @ map (burst_item engine_idx roles) (it_bursts acc))
      in (items, \<lparr> ex_count = length (it_excluded_ids acc), ex_no_wall_time = it_no_wall_time acc,
                   ex_no_engine = it_no_engine acc, ex_event_ids = it_excluded_ids acc \<rparr>))"

section \<open>The payload\<close>

record timeline_payload =
  tp_group :: "string \<times> string \<times> string"
  tp_start_ms :: "int option"
  tp_end_ms :: "int option"
  tp_engines :: "engine_info list"
  tp_epochs :: "epoch_row list"
  tp_items :: "dict list"
  tp_excluded :: excluded_events
  tp_integrity :: "integrity_summary option"

definition timeline_payload_for_group ::
  "(json \<Rightarrow> string option) \<Rightarrow> audit_file list \<Rightarrow> audit_event list \<Rightarrow> audit_group \<Rightarrow> audit_event list \<Rightarrow> bool
     \<Rightarrow> timeline_payload" where
  "timeline_payload_for_group key_text files stored g events include_integrity =
     (let ordered = sorted_timeline_events events;
          (engines, engine_idx) = timeline_engines key_text files stored ordered;
          (epochs, roles) = timeline_epochs ordered engine_idx (length engines);
          (items, excluded) = timeline_items ordered engine_idx roles;
          placed = map (\<lambda>item. int_of (dict_get item ''t'')) items
      in \<lparr> tp_group = (g_name g, g_slug g, g_group_ref g),
           tp_start_ms = opt_min placed, tp_end_ms = opt_max placed,
           tp_engines = engines, tp_epochs = epochs, tp_items = items, tp_excluded = excluded,
           tp_integrity = (if include_integrity
             then Some (group_integrity_summary ordered (message_traces_from_events ordered (set (map ei_engine_id engines))))
             else None) \<rparr>)"

section \<open>Colours\<close>

text \<open>The hash without the 32-bit mask.\<close>

definition plain_hash :: "string \<Rightarrow> nat" where
  "plain_hash value = fold (\<lambda>c h. h * 31 + of_char c) value 0"

lemma hash_mod:
  fixes h :: "32 word"
  assumes "unat h mod 8 = n mod 8"
  shows "unat (fold (\<lambda>c h. h * 31 + of_nat (of_char c)) s h) mod 8 = fold (\<lambda>c h. h * 31 + of_char c) s n mod 8"
  using assms
proof (induction s arbitrary: h n)
  case Nil
  then show ?case by simp
next
  case (Cons c s)
  have "unat (h * 31 + of_nat (of_char c)) mod 8 = ((unat h * 31 + of_char c) mod 2 ^ 32) mod 8"
    by (simp add: unat_word_ariths unat_of_nat mod_simps)
  also have "\<dots> = (unat h * 31 + of_char c) mod 8" by (rule mod_mod_cancel) simp
  also have "\<dots> = (n * 31 + of_char c) mod 8" using Cons.prems by (metis mod_add_cong mod_mult_cong)
  finally show ?case using Cons.IH by simp
qed

section \<open>Items account for events\<close>

text \<open>The events an item stands for: those it lists, or the one it is made from.\<close>

definition item_events :: "dict \<Rightarrow> nat list" where
  "item_events item = (case map_of item ''source_event_ids'' of
     Some (JList ids) \<Rightarrow> map (\<lambda>j. nat (int_of j)) ids
   | _ \<Rightarrow> [nat (int_of (dict_get item ''id''))])"

lemma map_of_compact:
  "distinct (map fst d) \<Longrightarrow> map_of (compact_item d) k =
     (case map_of d k of Some v \<Rightarrow> if v \<noteq> JNull \<and> v \<noteq> JStr [] then Some v else None | None \<Rightarrow> None)"
proof (induction d)
  case Nil
  then show ?case by (simp add: compact_item_def)
next
  case (Cons x d)
  obtain a v where x: "x = (a, v)" by (cases x)
  have "map_of d a = None" using Cons.prems by (auto simp: x map_of_eq_None_iff)
  with Cons show ?case by (auto simp: compact_item_def x split: option.splits)
qed

lemma item_for_event: "item_events (timeline_item_for_event roles k e) = [ev_id e]"
  by (simp add: item_events_def timeline_item_for_event_def map_of_compact j_nat_def)

lemma item_for_burst:
  "mset (item_events (timeline_peeler_retry_burst_item es k)) = mset (map ev_id es)"
proof -
  let ?ids = "map (\<lambda>e. j_nat (ev_id e)) (sort_key burst_order_key es)"
  have "map_of (timeline_peeler_retry_burst_item es k) ''source_event_ids'' = Some (JList ?ids)"
    by (simp add: timeline_peeler_retry_burst_item_def Let_def map_of_compact)
  then have "item_events (timeline_peeler_retry_burst_item es k) = map ev_id (sort_key burst_order_key es)"
    by (simp add: item_events_def j_nat_def o_def)
  then show ?thesis by (simp add: mset_map)
qed

definition placed_in :: "(string \<times> nat) list \<Rightarrow> audit_event \<Rightarrow> bool" where
  "placed_in engine_idx e \<longleftrightarrow> ev_wall_time_ms e \<noteq> None \<and> map_of engine_idx (ev_engine_id e) \<noteq> None"

definition items_ok :: "(string \<times> nat) list \<Rightarrow> audit_event list \<Rightarrow> items_acc \<Rightarrow> bool" where
  "items_ok engine_idx es acc \<longleftrightarrow>
     mset (concat (map item_events (it_items acc))) + mset (map ev_id (concat (map snd (it_bursts acc)))) =
       mset (map ev_id (filter (placed_in engine_idx) es)) \<and>
     it_excluded_ids acc = map ev_id (filter (\<lambda>e. \<not> placed_in engine_idx e) es) \<and>
     it_no_wall_time acc = length (filter (\<lambda>e. ev_wall_time_ms e = None) es) \<and>
     it_no_engine acc = length (filter (\<lambda>e. ev_wall_time_ms e \<noteq> None \<and> map_of engine_idx (ev_engine_id e) = None) es)"

lemma dd_append_concat: "mset (concat (map snd (dd_append k v d))) = add_mset v (mset (concat (map snd d)))"
proof -
  have "mset (concat (map snd (AList.update k (dd_get [] d k @ [v]) d))) = add_mset v (mset (concat (map snd d)))"
    by (induction d) (auto simp: dd_get_def split: option.splits)
  then show ?thesis by (simp add: dd_append_def)
qed

lemma place_event_ok:
  assumes "items_ok engine_idx es acc"
  shows "items_ok engine_idx (es @ [e]) (place_event engine_idx roles e acc)"
proof (cases "ev_wall_time_ms e")
  case None
  with assms show ?thesis by (simp add: items_ok_def place_event_def placed_in_def)
next
  case (Some t)
  show ?thesis
  proof (cases "map_of engine_idx (ev_engine_id e)")
    case None
    with assms Some show ?thesis by (simp add: items_ok_def place_event_def placed_in_def)
  next
    case (Some k)
    have burst: "mset (map ev_id (concat (map snd (dd_append b e (it_bursts acc))))) =
        add_mset (ev_id e) (mset (map ev_id (concat (map snd (it_bursts acc)))))" for b
      using dd_append_concat [of b e "it_bursts acc"] by (metis image_mset_add_mset mset_map)
    show ?thesis
      using assms Some \<open>ev_wall_time_ms e = Some t\<close> burst [of "(k, t div 1000)"]
      by (auto simp: items_ok_def place_event_def placed_in_def item_for_event simp del: mset_map)
  qed
qed

lemma place_events_ok:
  "items_ok engine_idx es (fold (place_event engine_idx roles) es
     \<lparr> it_items = [], it_excluded_ids = [], it_no_wall_time = 0, it_no_engine = 0, it_bursts = [] \<rparr>)"
  by (induction es rule: rev_induct) (simp_all add: place_event_ok, simp add: items_ok_def)

lemma item_for_some_burst: "mset (item_events (burst_item engine_idx roles b)) = mset (map ev_id (snd b))"
proof (cases "snd b")
  case (Cons e es)
  then show ?thesis using item_for_burst [of "snd b" "fst (fst b)"]
    by (cases es) (simp_all add: burst_item_def item_for_event)
qed (use item_for_burst [of "[]" "fst (fst b)"] in \<open>simp add: burst_item_def\<close>)

lemma mset_concat_cong:
  "(\<And>x. x \<in> set xs \<Longrightarrow> mset (f x) = mset (g x)) \<Longrightarrow> mset (concat (map f xs)) = mset (concat (map g xs))"
  by (induction xs) auto

lemma mset_concat_sort: "mset (concat (map f (sort_key k xs))) = mset (concat (map f xs))"
  by (simp add: mset_concat sum_mset_sum_list [symmetric])

section \<open>Engine columns\<close>

definition mine :: "audit_event list \<Rightarrow> string \<Rightarrow> audit_event list" where
  "mine es k = filter (\<lambda>e. ev_engine_id e = k) es"

definition engine_of :: "audit_event list \<Rightarrow> engine_info" where
  "engine_of es = fold see_event es (new_engine (hd es))"

lemma see_events:
  "ei_engine_id (fold see_event es info) = ei_engine_id info"
  "ei_color_index (fold see_event es info) = ei_color_index info"
  "ei_event_count (fold see_event es info) = ei_event_count info + length es"
  "ei_first_event_ms (fold see_event es info) = first_present (ei_first_event_ms info # map ev_wall_time_ms es)"
  by (induction es arbitrary: info) (simp_all add: see_event_def split: option.splits)

lemma see_event_last:
  assumes "\<And>t. ev_wall_time_ms e = Some t \<Longrightarrow> 0 \<le> t"
    and "\<And>l. ei_last_event_ms info = Some l \<Longrightarrow> 0 \<le> l"
  shows "ei_last_event_ms (see_event e info) = upd_last (ei_last_event_ms info) (ev_wall_time_ms e)"
  using assms by (cases "ev_wall_time_ms e"; cases "ei_last_event_ms info") (auto simp: see_event_def upd_last_def)

lemma see_events_last:
  assumes "list_all (\<lambda>t. 0 \<le> t) (times_in es)" "ei_last_event_ms info = None"
  shows "ei_last_event_ms (fold see_event es info) = opt_max (times_in es)"
  using assms
proof (induction es rule: rev_induct)
  case (snoc e es)
  then have IH: "ei_last_event_ms (fold see_event es info) = opt_max (times_in es)" by simp
  have "0 \<le> l" if "opt_max (times_in es) = Some l" for l
    using snoc.prems(1) that by (simp add: opt_max_Some_iff list_all_iff)
  moreover have "0 \<le> t" if "ev_wall_time_ms e = Some t" for t using snoc.prems(1) that by (simp add: list_all_iff)
  ultimately have "ei_last_event_ms (see_event e (fold see_event es info)) = upd_last (opt_max (times_in es)) (ev_wall_time_ms e)"
    using see_event_last [of e "fold see_event es info"] by (simp add: IH)
  then show ?case by (simp add: opt_max_snoc)
qed simp

lemma note_events_index:
  fixes files
  defines "acc \<equiv> \<lambda>es. fold (note_event files) es \<lparr> ea_by_engine = [], ea_file_ids = [], ea_sessions = [], ea_fallback = [] \<rparr>"
  shows "map_of (ea_by_engine (acc es)) k = (if k = [] \<or> mine es k = [] then None else Some (engine_of (mine es k)))"
    and "distinct (map fst (ea_by_engine (acc es)))"
    and "k \<noteq> [] \<Longrightarrow> dd_get {} (ea_file_ids (acc es)) k = ev_audit_file ` set (mine es k)"
proof (induction es arbitrary: k rule: rev_induct)
  case Nil
  { case 1 show ?case by (simp add: acc_def mine_def) }
  { case 2 show ?case by (simp add: acc_def) }
  { case 3 show ?case by (simp add: acc_def mine_def dd_get_def) }
next
  case (snoc e es)
  have step: "acc (es @ [e]) = note_event files e (acc es)" by (simp add: acc_def)
  have own: "dd_get (new_engine e) (ea_by_engine (acc es)) (ev_engine_id e) =
      fold see_event (mine es (ev_engine_id e)) (new_engine (hd (mine es (ev_engine_id e) @ [e])))"
    if "ev_engine_id e \<noteq> []"
    using snoc.IH(1) [of "ev_engine_id e"] that by (auto simp: dd_get_def engine_of_def)
  { case 1
    show ?case unfolding step using snoc.IH(1) [of k] own
      by (auto simp: note_event_def Let_def mine_def engine_of_def update_conv' hd_append) }
  { case 2
    show ?case unfolding step using snoc.IH(2) by (simp add: note_event_def Let_def distinct_update) }
  { case 3
    then show ?case unfolding step using snoc.IH(3) by (auto simp: note_event_def Let_def mine_def) }
qed

lemma finish_engine_simps [simp]:
  "ei_engine_id (finish_engine m d x) = ei_engine_id (snd x)" "ei_idx (finish_engine m d x) = fst x"
  "ei_first_event_ms (finish_engine m d x) = ei_first_event_ms (snd x)"
  "ei_last_event_ms (finish_engine m d x) = ei_last_event_ms (snd x)"
  "ei_event_count (finish_engine m d x) = ei_event_count (snd x)"
  "ei_color_index (finish_engine m d x) = ei_color_index (snd x)"
  "ei_file_ids (finish_engine m d x) = sorted_list_of_set (dd_get {} d (ei_engine_id (snd x)))"
  "engine_sort_key (finish_engine m d x) = engine_sort_key (snd x)"
  by (simp_all add: finish_engine_def Let_def engine_sort_key_def split: prod.splits)

lemma in_times: "u \<in> set (times_in es) \<longleftrightarrow> (\<exists>f \<in> set es. ev_wall_time_ms f = Some u)"
  by (auto simp: times_in_def image_iff) metis

lemma first_is_least:
  "sorted (map timeline_key es) \<Longrightarrow> first_present (map ev_wall_time_ms es) = opt_min (times_in es)"
proof (induction es)
  case (Cons e es)
  show ?case
  proof (cases "ev_wall_time_ms e")
    case None
    have "f \<in> set es \<Longrightarrow> ev_wall_time_ms f = None" for f
      using Cons.prems None by (auto simp: timeline_key_def less_eq_prod_def)
    then have "times_in es = []" by (simp add: times_in_def the_list_def o_def)
    with None show ?thesis using Cons by (simp add: times_in_def)
  next
    case (Some t)
    have "t \<le> u" if u: "u \<in> set (times_in es)" for u
    proof -
      obtain f where "f \<in> set es" "ev_wall_time_ms f = Some u" using u by (auto simp: in_times)
      then show ?thesis using Cons.prems Some by (fastforce simp: timeline_key_def less_eq_prod_def)
    qed
    then have "Min (set (t # times_in es)) = t" by (intro Min_eqI) auto
    with Some show ?thesis using opt_min_eq [of "t # times_in es"] by (simp add: times_in_def)
  qed
qed (simp add: times_in_def)

section \<open>Epoch rows\<close>

definition confirms :: "int \<Rightarrow> audit_event \<Rightarrow> bool" where
  "confirms n e \<longleftrightarrow> ev_event_type e = ''epoch_confirmed'' \<and> ev_to_epoch e = Some n"

definition epoch_scan :: "(string \<times> nat) list \<Rightarrow> (string \<times> int set) list \<Rightarrow> audit_event list \<Rightarrow> epoch_acc" where
  "epoch_scan engine_idx message_epochs es = fold (note_epoch_event engine_idx message_epochs) es
     \<lparr> ep_confirmations = [], ep_initiators = [], ep_forks = [], ep_convergences = [], ep_rollbacks = [],
       ep_snapshots = [], ep_referenced = [], ep_message_counts = [], ep_roles = [] \<rparr>"

lemma note_confirmation:
  "ep_confirmations (note_epoch_event engine_idx message_epochs e acc) =
     (if ev_event_type e = ''epoch_confirmed'' \<and> ev_to_epoch e \<noteq> None
      then dd_append (the (ev_to_epoch e)) (confirmation_of (map_of engine_idx (ev_engine_id e)) e) (ep_confirmations acc)
      else ep_confirmations acc)"
proof -
  have "ep_confirmations (note_epoch_kind engine e a) = (if ev_event_type e = ''epoch_confirmed'' \<and> ev_to_epoch e \<noteq> None
      then dd_append (the (ev_to_epoch e)) (confirmation_of engine e) (ep_confirmations a) else ep_confirmations a)" for engine a
    by (cases "ev_to_epoch e") (simp_all add: note_epoch_kind_def Let_def split: option.splits)
  then show ?thesis by (cases "ev_to_epoch e") (simp_all add: note_epoch_event_def Let_def split: option.splits)
qed

lemma scan_confirmations:
  "dd_get [] (ep_confirmations (epoch_scan engine_idx message_epochs es)) n =
     map (\<lambda>e. confirmation_of (map_of engine_idx (ev_engine_id e)) e) (filter (confirms n) es)"
  "fst ` set (ep_confirmations (epoch_scan engine_idx message_epochs es)) = {n. \<exists>e \<in> set es. confirms n e}"
proof (induction es rule: rev_induct)
  case Nil
  { case 1 show ?case by (simp add: epoch_scan_def dd_get_def) }
  { case 2 show ?case by (simp add: epoch_scan_def) }
next
  case (snoc e es)
  have step: "ep_confirmations (epoch_scan engine_idx message_epochs (es @ [e])) =
    (if ev_event_type e = ''epoch_confirmed'' \<and> ev_to_epoch e \<noteq> None
      then dd_append (the (ev_to_epoch e)) (confirmation_of (map_of engine_idx (ev_engine_id e)) e)
        (ep_confirmations (epoch_scan engine_idx message_epochs es))
      else ep_confirmations (epoch_scan engine_idx message_epochs es))"
    unfolding epoch_scan_def fold_append by (simp only: comp_apply fold.simps id_apply note_confirmation)
  { case 1
    show ?case unfolding step using snoc.IH(1) by (auto simp: confirms_def) }
  { case 2
    show ?case unfolding step using snoc.IH(2) by (auto simp: confirms_def) }
qed

lemma mark_repeats_simps [simp]:
  "map cf_item_id (mark_repeats seen cs) = map cf_item_id cs" "map cf_t (mark_repeats seen cs) = map cf_t cs"
  "map cf_engine (mark_repeats seen cs) = map cf_engine cs" "mark_repeats seen cs = [] \<longleftrightarrow> cs = []"
  by (induction cs arbitrary: seen) (simp_all split: option.splits)

lemma times_sorted:
  "sorted (map (\<lambda>c. timed_key (cf_t c) (cf_item_id c)) cs) \<Longrightarrow> sorted (the_list (map cf_t cs))"
proof (induction cs)
  case (Cons c cs)
  show ?case
  proof (cases "cf_t c")
    case (Some t)
    have "t \<le> u" if u: "u \<in> set (the_list (map cf_t cs))" for u
    proof -
      obtain d where "d \<in> set cs" "cf_t d = Some u" using u by force
      then show ?thesis using Cons.prems Some by (fastforce simp: timed_key_def less_eq_prod_def)
    qed
    with Some Cons show ?thesis by simp
  qed (use Cons in simp)
qed simp

lemma sorted_extrema: "sorted xs \<Longrightarrow> xs \<noteq> [] \<Longrightarrow> opt_min xs = Some (hd xs) \<and> opt_max xs = Some (last xs)"
proof (induction xs rule: rev_induct)
  case (snoc x xs)
  then have "Max (set (xs @ [x])) = x" by (intro Max_eqI) (auto simp: sorted_append)
  moreover have "Min (set (xs @ [x])) = hd (xs @ [x])" using snoc.prems by (cases xs) (auto intro!: Min_eqI simp: sorted_append)
  ultimately show ?case by (simp add: opt_min_eq opt_max_eq)
qed simp

lemma timed_confirmations: "map (\<lambda>c. the (cf_t c)) (filter (\<lambda>c. cf_t c \<noteq> None) cs) = the_list (map cf_t cs)"
  by (induction cs) auto

lemma confirmation_of_simps [simp]:
  "cf_item_id (confirmation_of k e) = ev_id e" "cf_t (confirmation_of k e) = ev_wall_time_ms e"
  "cf_engine (confirmation_of k e) = k"
  by (simp_all add: confirmation_of_def)

text \<open>What a row claims of its epoch, read off the events.\<close>

definition epoch_row_exact :: "audit_event list \<Rightarrow> (string \<times> nat) list \<Rightarrow> nat \<Rightarrow> epoch_row \<Rightarrow> bool" where
  "epoch_row_exact es engine_idx n r \<longleftrightarrow>
     (let confs = filter (confirms (er_epoch r)) es;
          active = set (the_list (map (\<lambda>e. map_of engine_idx (ev_engine_id e)) confs)) \<union> set (er_initiator_engines r)
      in er_confirmed r = (confs \<noteq> []) \<and> mset (map cf_item_id (er_confirmations r)) = mset (map ev_id confs) \<and>
         er_first_confirmed_ms r = opt_min (times_in confs) \<and>
         er_spread_ms r = (case (opt_min (times_in confs), opt_max (times_in confs)) of
           (Some a, Some b) \<Rightarrow> if length (times_in confs) > 1 then Some (b - a) else None | _ \<Rightarrow> None) \<and>
         set (er_unconfirmed_engines r) = (if confs = [] then {0..<n} else {0..<n} - active))"

lemma epoch_row_facts:
  "epoch_row_exact es engine_idx n (epoch_row_of n (epoch_scan engine_idx me es) k)"
proof -
  define evs where "evs = filter (confirms k) es"
  define raw where "raw = map (\<lambda>e. confirmation_of (map_of engine_idx (ev_engine_id e)) e) evs"
  define cs where "cs = mark_repeats {} (sort_key (\<lambda>c. timed_key (cf_t c) (cf_item_id c)) raw)"
  define timed where "timed = filter (\<lambda>c. cf_t c \<noteq> None) cs"
  have get: "dd_get [] (ep_confirmations (epoch_scan engine_idx me es)) k = raw"
    by (simp add: scan_confirmations raw_def evs_def)
  have ts: "map (\<lambda>c. the (cf_t c)) timed = the_list (map cf_t cs)" unfolding timed_def by (rule timed_confirmations)
  have sorted: "sorted (the_list (map cf_t cs))" unfolding cs_def by (simp add: times_sorted)
  have "mset (map cf_t cs) = mset (map cf_t raw)" by (simp add: cs_def mset_map)
  then have mts: "mset (the_list (map cf_t cs)) = mset (times_in evs)"
    by (simp add: the_list_def times_in_def raw_def o_def mset_map)
  have ext: "opt_min (the_list (map cf_t cs)) = opt_min (times_in evs)" "opt_max (the_list (map cf_t cs)) = opt_max (times_in evs)"
      "length timed = length (times_in evs)"
    using mset_eq_setD [OF mts] mset_eq_length [OF mts] arg_cong [OF ts, of length]
    by (auto simp: opt_min_eq opt_max_eq)
  have none: "timed = [] \<longleftrightarrow> times_in evs = []" using ext(3) by auto
  have first: "(case (case timed of [] \<Rightarrow> None | c # _ \<Rightarrow> Some c) of None \<Rightarrow> None | Some c \<Rightarrow> cf_t c) = opt_min (times_in evs)"
  proof (cases timed)
    case (Cons c rest)
    then have "cf_t c \<noteq> None" unfolding timed_def by (metis (mono_tags, lifting) filter_eq_ConsD)
    moreover have "opt_min (times_in evs) = Some (the (cf_t c))"
      using sorted_extrema [OF sorted] ext(1) unfolding ts [symmetric] Cons by simp
    ultimately show ?thesis using Cons by simp
  qed (use none in \<open>simp add: opt_min_eq\<close>)
  have spread: "(if length timed > 1 then Some (the (cf_t (last timed)) - the (cf_t (hd timed))) else None) =
      (case (opt_min (times_in evs), opt_max (times_in evs)) of
         (Some a, Some b) \<Rightarrow> if length (times_in evs) > 1 then Some (b - a) else None | _ \<Rightarrow> None)"
  proof (cases "timed = []")
    case False
    then have "the_list (map cf_t cs) \<noteq> []" using ts by (metis map_is_Nil_conv)
    from sorted_extrema [OF sorted this] have "opt_min (times_in evs) = Some (the (cf_t (hd timed)))"
      "opt_max (times_in evs) = Some (the (cf_t (last timed)))"
      using False ext(1,2) unfolding ts [symmetric] by (simp_all add: hd_map last_map)
    then show ?thesis by (simp add: ext(3))
  qed (use none in \<open>simp add: opt_min_eq\<close>)
  have engines: "set (the_list (map cf_engine cs)) = set (the_list (map (\<lambda>e. map_of engine_idx (ev_engine_id e)) evs))"
    by (auto simp: cs_def raw_def image_image)
  have "length (map cf_t cs) = length evs" by (simp only: cs_def mark_repeats_simps(2) raw_def length_map length_sort)
  then have "cs = [] \<longleftrightarrow> evs = []" by auto
  moreover have "mset (map cf_item_id cs) = mset (map ev_id evs)" by (simp add: cs_def raw_def mset_map multiset.map_comp o_def)
  moreover
  define r where "r = epoch_row_of n (epoch_scan engine_idx me es) k"
  have row: "er_epoch r = k" "er_confirmed r = (cs \<noteq> [])" "er_confirmations r = cs"
    "er_first_confirmed_ms r = opt_min (times_in evs)"
    "er_spread_ms r = (if length timed > 1 then Some (the (cf_t (last timed)) - the (cf_t (hd timed))) else None)"
    "er_unconfirmed_engines r = (if cs \<noteq> [] then filter (\<lambda>j. j \<notin> set (the_list (map cf_engine cs)) \<and>
       j \<notin> set (er_initiator_engines r)) [0..<n] else [0..<n])"
    unfolding r_def epoch_row_of_def get cs_def [symmetric] timed_def [symmetric] Let_def using first by simp_all
  ultimately show ?thesis
    unfolding epoch_row_exact_def r_def [symmetric] row Let_def evs_def [symmetric] spread engines
    by (auto simp: evs_def [symmetric])
qed

section \<open>Properties\<close>

text \<open>
  C13: the timeline neither loses nor repeats an event. Counted with multiplicity, the events that the
  items stand for, those listed in a retry burst included, are exactly the events with a wall time and
  a known engine; the others are listed as excluded, each under one reason; and items are ordered by
  time, line and id.
\<close>

theorem timeline_accounts_for_events:
  "case timeline_items es engine_idx roles of (items, ex) \<Rightarrow>
     mset (concat (map item_events items)) = mset (map ev_id (filter (placed_in engine_idx) es)) \<and>
     ex_event_ids ex = map ev_id (filter (\<lambda>e. \<not> placed_in engine_idx e) es) \<and>
     ex_count ex = ex_no_wall_time ex + ex_no_engine ex \<and>
     ex_no_wall_time ex = length (filter (\<lambda>e. ev_wall_time_ms e = None) es) \<and>
     sorted (map timeline_item_sort_key items)"
proof -
  define acc where "acc = fold (place_event engine_idx roles) es
     \<lparr> it_items = [], it_excluded_ids = [], it_no_wall_time = 0, it_no_engine = 0, it_bursts = [] \<rparr>"
  have ok: "items_ok engine_idx es acc" unfolding acc_def by (rule place_events_ok)
  let ?bursts = "map (burst_item engine_idx roles) (it_bursts acc)"
  have "mset (concat (map item_events ?bursts)) = mset (concat (map (\<lambda>b. map ev_id (snd b)) (it_bursts acc)))"
    by (simp add: o_def) (rule mset_concat_cong, rule item_for_some_burst)
  also have "\<dots> = mset (map ev_id (concat (map snd (it_bursts acc))))" by (simp add: map_concat o_def)
  finally have "mset (concat (map item_events (sort_key timeline_item_sort_key (it_items acc @ ?bursts)))) =
      mset (map ev_id (filter (placed_in engine_idx) es))"
    using ok by (simp add: mset_concat_sort items_ok_def)
  moreover have "length (filter (\<lambda>e. \<not> placed_in engine_idx e) es) =
      length (filter (\<lambda>e. ev_wall_time_ms e = None) es) +
      length (filter (\<lambda>e. ev_wall_time_ms e \<noteq> None \<and> map_of engine_idx (ev_engine_id e) = None) es)"
    by (induction es) (auto simp: placed_in_def)
  ultimately show ?thesis
    using ok unfolding timeline_items_def acc_def [symmetric] Let_def by (simp add: items_ok_def)
qed

text \<open>
  The colour of an engine is one of the eight palette entries, and the 32-bit mask of the hash
  never changes it: it is the colour of the unbounded polynomial hash.
\<close>

theorem color_index_exact:
  "color_index engine = plain_hash engine mod 8 + 1 \<and> 1 \<le> color_index engine \<and> color_index engine \<le> VIZ_PALETTE_SIZE"
  using hash_mod [of 0 0 engine] by (simp add: color_index_def plain_hash_def VIZ_PALETTE_SIZE_def)

lemma sorted_times:
  "opt_min (times_in (sort_key f es)) = opt_min (times_in es)" "opt_max (times_in (sort_key f es)) = opt_max (times_in es)"
proof -
  have "set (times_in (sort_key f es)) = set (times_in es)" by (auto simp: in_times)
  moreover from this have "times_in (sort_key f es) = [] \<longleftrightarrow> times_in es = []" by (metis set_empty)
  ultimately show "opt_min (times_in (sort_key f es)) = opt_min (times_in es)"
    "opt_max (times_in (sort_key f es)) = opt_max (times_in es)" by (simp_all add: opt_min_eq opt_max_eq)
qed

lemma map_enumerate_snd: "map (\<lambda>x. g (snd x)) (enumerate n xs) = map g xs"
  by (induction xs arbitrary: n) simp_all

lemma engine_rows:
  fixes files es
  defines "by_engine \<equiv> ea_by_engine (fold (note_event files) es
    \<lparr> ea_by_engine = [], ea_file_ids = [], ea_sessions = [], ea_fallback = [] \<rparr>)"
  shows "x \<in> set by_engine \<Longrightarrow> snd x = engine_of (mine es (fst x)) \<and> ei_engine_id (snd x) = fst x \<and> fst x \<noteq> []"
    and "map ei_engine_id (map snd by_engine) = map fst by_engine"
    and "distinct (map fst by_engine)" "set (map fst by_engine) = engines_in es"
proof -
  note index = note_events_index [where files = files and es = es, folded by_engine_def]
  show row: "snd x = engine_of (mine es (fst x)) \<and> ei_engine_id (snd x) = fst x \<and> fst x \<noteq> []"
    if "x \<in> set by_engine" for x
  proof -
    have "map_of by_engine (fst x) = Some (snd x)" using index(2) that by simp
    then have k: "mine es (fst x) \<noteq> []" "snd x = engine_of (mine es (fst x))" "fst x \<noteq> []"
      by (simp_all add: index(1) split: if_splits)
    have "ev_engine_id (hd (mine es (fst x))) = fst x" using hd_in_set [OF k(1)] by (simp add: mine_def)
    with k show ?thesis by (simp add: engine_of_def see_events new_engine_def)
  qed
  then show "map ei_engine_id (map snd by_engine) = map fst by_engine"
    unfolding map_map o_def by (intro map_cong refl) blast
  show "distinct (map fst by_engine)" by (rule index(2))
  have "set (map fst by_engine) = dom (map_of by_engine)" by (simp add: dom_map_of_conv_image_fst)
  also have "\<dots> = engines_in es"
    using index(1) by (fastforce simp: dom_def mine_def engines_in_def tagged_def filter_empty_conv split: if_splits)
  finally show "set (map fst by_engine) = engines_in es" .
qed

lemma engine_of_own:
  assumes "list_all (\<lambda>t. 0 \<le> t) (times_in es)" "sorted (map timeline_key es)" "es \<noteq> []"
  shows "ei_event_count (engine_of es) = length es" "ei_first_event_ms (engine_of es) = opt_min (times_in es)"
    "ei_last_event_ms (engine_of es) = opt_max (times_in es)" "ei_color_index (engine_of es) = color_index (ev_engine_id (hd es))"
  using first_is_least [OF assms(2)] see_events_last [OF assms(1)]
  by (simp_all add: engine_of_def see_events new_engine_def)

text \<open>
  The columns of the timeline are the engines of the group. For the time-ordered events of a group
  (times not negative, as the column has them) each engine that is named has one column, numbered
  from left to right in the order of first events; a column's count, first and last time and files
  are those of the engine's events, and the index maps each engine to its column.
\<close>

theorem engine_columns_exact:
  assumes "list_all (\<lambda>t. 0 \<le> t) (times_in es)"
  shows "case timeline_engines key_text files stored (sorted_timeline_events es) of (engines, engine_idx) \<Rightarrow>
     map ei_idx engines = [0..<length engines] \<and> sorted (map engine_sort_key engines) \<and>
     distinct (map ei_engine_id engines) \<and> set (map ei_engine_id engines) = engines_in es \<and>
     engine_idx = map (\<lambda>i. (ei_engine_id i, ei_idx i)) engines \<and>
     list_all (\<lambda>i. let own = filter (\<lambda>e. ev_engine_id e = ei_engine_id i) es in
       ei_event_count i = length own \<and> ei_first_event_ms i = opt_min (times_in own) \<and>
       ei_last_event_ms i = opt_max (times_in own) \<and> ei_file_ids i = sorted_list_of_set (ev_audit_file ` set own) \<and>
       ei_color_index i = color_index (ei_engine_id i)) engines"
proof -
  define ord where "ord = sorted_timeline_events es"
  define acc where "acc = fold (note_event files) ord \<lparr> ea_by_engine = [], ea_file_ids = [], ea_sessions = [], ea_fallback = [] \<rparr>"
  define infos where "infos = sort_key engine_sort_key (map snd (ea_by_engine acc))"
  define m where "m = with_fallback (ea_fallback acc)
    (session_metadata (session_source_contexts key_text files stored (ea_sessions acc)))"
  define engines where "engines = map (finish_engine m (ea_file_ids acc)) (enumerate 0 infos)"
  have eng: "timeline_engines key_text files stored (sorted_timeline_events es) =
      (engines, map (\<lambda>i. (ei_engine_id i, ei_idx i)) engines)"
    by (simp add: timeline_engines_def Let_def engines_def m_def infos_def acc_def ord_def)
  note rows = engine_rows [where files = files and es = ord, folded acc_def]
  have ids: "map ei_engine_id engines = map ei_engine_id infos"
    by (simp add: engines_def o_def map_enumerate_snd)
  have perm: "set ord = set es" "engines_in ord = engines_in es"
    by (auto simp: ord_def sorted_timeline_events_def engines_in_def)
  have "set (map ei_engine_id infos) = set (map ei_engine_id (map snd (ea_by_engine acc)))"
    by (simp add: infos_def image_image)
  then have set: "set (map ei_engine_id engines) = engines_in es" unfolding ids rows(2) by (simp only: rows(4) perm)
  have "distinct (map ei_engine_id (map snd (ea_by_engine acc)))" unfolding rows(2) by (rule rows(3))
  then have dist: "distinct (map ei_engine_id engines)" unfolding ids infos_def by (metis mset_eq_imp_distinct_iff mset_map mset_sort)
  have order: "map ei_idx engines = [0..<length engines]" "sorted (map engine_sort_key engines)"
    by (simp_all add: engines_def o_def infos_def map_enumerate_snd)
  have own: "let own = filter (\<lambda>e. ev_engine_id e = ei_engine_id i) es in
       ei_event_count i = length own \<and> ei_first_event_ms i = opt_min (times_in own) \<and>
       ei_last_event_ms i = opt_max (times_in own) \<and> ei_file_ids i = sorted_list_of_set (ev_audit_file ` set own) \<and>
       ei_color_index i = color_index (ei_engine_id i)" if i: "i \<in> set engines" for i
  proof -
    obtain y where y: "y \<in> set (enumerate 0 infos)" "i = finish_engine m (ea_file_ids acc) y"
      using i by (auto simp: engines_def)
    then have "snd y \<in> set infos" by (metis image_eqI map_snd_enumerate set_map)
    then obtain x where x: "x \<in> set (ea_by_engine acc)" "snd y = snd x" by (auto simp: infos_def)
    then have fin: "i = finish_engine m (ea_file_ids acc) (fst y, snd x)" using y(2) by (metis prod.collapse)
    note row = rows(1) [OF x(1)]
    have id: "ei_engine_id i = fst x" using row by (metis fin finish_engine_simps(1) snd_conv)
    have own: "mine ord (fst x) = sort_key timeline_key (mine es (fst x))"
      by (simp add: mine_def ord_def sorted_timeline_events_def filter_sort_key)
    have "mine ord (fst x) \<noteq> []" using rows(4) x(1) perm(1) by (force simp: mine_def engines_in_def filter_empty_conv)
    moreover have "list_all (\<lambda>t. 0 \<le> t) (times_in (mine ord (fst x)))"
      using assms perm(1) unfolding list_all_iff mine_def by (metis (no_types, lifting) filter_is_subset in_times subsetD)
    moreover have "sorted (map timeline_key (mine ord (fst x)))" by (simp add: own)
    ultimately have "ei_event_count i = length (mine es (fst x))" "ei_first_event_ms i = opt_min (times_in (mine es (fst x)))"
      "ei_last_event_ms i = opt_max (times_in (mine es (fst x)))" "ei_color_index i = color_index (fst x)"
      using engine_of_own [of "mine ord (fst x)"] row sorted_times [of timeline_key "mine es (fst x)"]
      by (auto simp: fin own) (metis (mono_tags, lifting) hd_in_set mem_Collect_eq mine_def own set_filter)
    moreover have "ei_file_ids i = sorted_list_of_set (ev_audit_file ` set (mine es (fst x)))"
      using note_events_index(3) [where files = files and es = ord, folded acc_def, of "fst x"] row id
      by (metis fin finish_engine_simps(7) own set_sort snd_conv)
    ultimately show ?thesis unfolding Let_def id mine_def by blast
  qed
  show ?thesis unfolding eng prod.case using set dist order own by (simp add: list_all_iff)
qed

theorem engine_columns_exact_witness:
  "case timeline_engines (\<lambda>_. None) [example_file] [] (sorted_timeline_events example_events) of (engines, engine_idx) \<Rightarrow>
     map ei_idx engines = [0..<length engines] \<and> set (map ei_engine_id engines) = engines_in example_events"
proof -
  have "list_all (\<lambda>t. 0 \<le> t) (times_in example_events)" by code_simp
  from engine_columns_exact [OF this, of "\<lambda>_. None" "[example_file]" "[]"] show ?thesis by (auto split: prod.splits)
qed

text \<open>
  What the rail says of an epoch is what the events say. Rows are in strictly increasing order of
  the epoch and none that an event confirms is missing; the confirmations of a row are the events
  that confirm its epoch; its first time is the least of their times and its spread the distance to
  the latest; and for a confirmed epoch every column either confirmed it, initiated it, or is listed
  as unconfirmed, never two of these.
\<close>

theorem epoch_rows_exact:
  "case timeline_epochs es engine_idx n of (rows, roles) \<Rightarrow>
     sorted_wrt (<) (map er_epoch rows) \<and> {k. \<exists>e \<in> set es. confirms k e} \<subseteq> set (map er_epoch rows) \<and>
     list_all (epoch_row_exact es engine_idx n) rows"
proof -
  define me where "me = fold note_message_epochs es []"
  define acc where "acc = epoch_scan engine_idx me es"
  define numbers where "numbers = sorted_set (map fst (ep_confirmations acc) @ ep_referenced acc @ map fst (ep_initiators acc))"
  have rows: "fst (timeline_epochs es engine_idx n) = map (epoch_row_of n acc) numbers"
    by (simp add: timeline_epochs_def Let_def numbers_def acc_def me_def epoch_scan_def)
  have "er_epoch (epoch_row_of n acc k) = k" for k by (simp add: epoch_row_of_def Let_def)
  then have epochs: "map er_epoch (map (epoch_row_of n acc) numbers) = numbers" by (simp add: o_def)
  have "sorted_wrt (<) numbers" by (simp add: numbers_def strict_sorted_iff)
  moreover have "{k. \<exists>e \<in> set es. confirms k e} \<subseteq> set numbers"
    using scan_confirmations(2) [of engine_idx me es] by (auto simp: numbers_def acc_def)
  moreover have "list_all (epoch_row_exact es engine_idx n) (map (epoch_row_of n acc) numbers)"
    by (simp add: list_all_iff acc_def epoch_row_facts)
  ultimately show ?thesis using rows epochs by (metis (no_types, lifting) case_prod_beta)
qed

end
