(* ===== verification/Export.thy ===== *)
theory Export
  imports Ingest Timeline
begin

text \<open>
  The agent export of a group (\<^verbatim>\<open>forensics/analysis.py\<close>) and the two field lists it rests on
  (\<^verbatim>\<open>forensics/normalized_fields.py\<close>): what of a stored event is exported, and that a value goes from
  the normalized dictionary of a line through the columns of its row into the export unchanged.
\<close>

section \<open>Field lists\<close>

definition NON_NORMALIZED_AUDIT_EVENT_FIELDS :: "string list" where
  "NON_NORMALIZED_AUDIT_EVENT_FIELDS = [
     ''id'', ''group'', ''audit_file'', ''line_number'', ''line_hash'', ''raw_line'', ''raw_event'',
     ''raw_kind'', ''raw_context'', ''parse_status'', ''validation_error'', ''schema_version'',
     ''recorder_session_id'', ''audit_data_mode'', ''seq'', ''wall_time_ms'', ''account_ref'',
     ''engine_id'', ''group_ref'', ''event_type'', ''created_at'']"

definition AGENT_EXPORT_NORMALIZED_FIELD_EXCLUDE :: "string list" where
  "AGENT_EXPORT_NORMALIZED_FIELD_EXCLUDE = [
     ''context_human_action'', ''context_transport'', ''context_engine'', ''context_group'',
     ''context_convergence'', ''context_source'']"

definition EXPECTED_PERSISTED_NORMALIZED_FIELDS :: "string list" where
  "EXPECTED_PERSISTED_NORMALIZED_FIELDS = [
     ''context_operation_id'', ''context_human_action'', ''context_transport'', ''context_engine'',
     ''context_group'', ''context_convergence'', ''context_source'', ''human_action_action'',
     ''human_action_origin'', ''human_action_phase'', ''human_action_fields'',
     ''human_action_component_ids'', ''human_action_target_count'', ''human_action_message_ids'',
     ''msg_id'', ''outbound_msg_id'', ''outbound_welcome_msg_ids'', ''target_kind'', ''relay_urls'',
     ''accepted_relay_urls'', ''failed_relays'', ''required_acks'', ''met_required_acks'', ''epoch'',
     ''source_epoch'', ''from_epoch'', ''to_epoch'', ''pending_epoch'', ''restored_epoch'',
     ''current_tip_epoch'', ''selected_fork_epoch'', ''selected_tip_epoch'', ''payload_len'',
     ''payload_digest'', ''candidate_digest'', ''incumbent_digest'', ''envelope_kind'', ''outcome'',
     ''outcome_kind'', ''stale_reason'', ''decision'', ''reason'', ''winner'', ''new_state'',
     ''pending_kind'', ''intent_kind'', ''result_kind'', ''proposal_kind'', ''snapshot_name'',
     ''selected_branch_id'', ''detail'', ''fallback_snapshot_used'', ''invalidated_msg_id'',
     ''max_rewind_commits'', ''candidate_count'', ''eligible_count'']"

definition persisted_normalized_fields :: "string list" where
  "persisted_normalized_fields =
     filter (\<lambda>f. f \<notin> set NON_NORMALIZED_AUDIT_EVENT_FIELDS) (map fst audit_event_columns)"

definition agent_export_normalized_fields :: "string list" where
  "agent_export_normalized_fields =
     filter (\<lambda>f. f \<notin> set AGENT_EXPORT_NORMALIZED_FIELD_EXCLUDE) persisted_normalized_fields"

section \<open>Rows\<close>

definition j_bool :: "bool option \<Rightarrow> json" where
  "j_bool b = (case b of None \<Rightarrow> JNull | Some v \<Rightarrow> JBool v)"

text \<open>\<^verbatim>\<open>getattr(event, field)\<close> for the normalized columns.\<close>

definition column_values :: "audit_event \<Rightarrow> dict" where
  "column_values e = [
     (''context_operation_id'', JStr (ev_context_operation_id e)),
     (''context_human_action'', ev_context_human_action e),
     (''context_transport'', ev_context_transport e),
     (''context_engine'', ev_context_engine e),
     (''context_group'', ev_context_group e),
     (''context_convergence'', ev_context_convergence e),
     (''context_source'', ev_context_source e),
     (''human_action_action'', JStr (ev_human_action_action e)),
     (''human_action_origin'', JStr (ev_human_action_origin e)),
     (''human_action_phase'', JStr (ev_human_action_phase e)),
     (''human_action_fields'', j_strs (ev_human_action_fields e)),
     (''human_action_component_ids'', JList (ev_human_action_component_ids e)),
     (''human_action_target_count'', j_int (ev_human_action_target_count e)),
     (''human_action_message_ids'', j_strs (ev_human_action_message_ids e)),
     (''msg_id'', JStr (ev_msg_id e)),
     (''outbound_msg_id'', JStr (ev_outbound_msg_id e)),
     (''outbound_welcome_msg_ids'', j_strs (ev_outbound_welcome_msg_ids e)),
     (''target_kind'', JStr (ev_target_kind e)),
     (''relay_urls'', j_strs (ev_relay_urls e)),
     (''accepted_relay_urls'', j_strs (ev_accepted_relay_urls e)),
     (''failed_relays'', JList (ev_failed_relays e)),
     (''required_acks'', j_int (ev_required_acks e)),
     (''met_required_acks'', j_bool (ev_met_required_acks e)),
     (''epoch'', j_int (ev_epoch e)),
     (''source_epoch'', j_int (ev_source_epoch e)),
     (''from_epoch'', j_int (ev_from_epoch e)),
     (''to_epoch'', j_int (ev_to_epoch e)),
     (''pending_epoch'', j_int (ev_pending_epoch e)),
     (''restored_epoch'', j_int (ev_restored_epoch e)),
     (''current_tip_epoch'', j_int (ev_current_tip_epoch e)),
     (''selected_fork_epoch'', j_int (ev_selected_fork_epoch e)),
     (''selected_tip_epoch'', j_int (ev_selected_tip_epoch e)),
     (''payload_len'', j_int (ev_payload_len e)),
     (''payload_digest'', JStr (ev_payload_digest e)),
     (''candidate_digest'', JStr (ev_candidate_digest e)),
     (''incumbent_digest'', JStr (ev_incumbent_digest e)),
     (''envelope_kind'', JStr (ev_envelope_kind e)),
     (''outcome'', JStr (ev_outcome e)),
     (''outcome_kind'', JStr (ev_outcome_kind e)),
     (''stale_reason'', JStr (ev_stale_reason e)),
     (''decision'', JStr (ev_decision e)),
     (''reason'', JStr (ev_reason e)),
     (''winner'', JStr (ev_winner e)),
     (''new_state'', JStr (ev_new_state e)),
     (''pending_kind'', JStr (ev_pending_kind e)),
     (''intent_kind'', JStr (ev_intent_kind e)),
     (''result_kind'', JStr (ev_result_kind e)),
     (''proposal_kind'', JStr (ev_proposal_kind e)),
     (''snapshot_name'', JStr (ev_snapshot_name e)),
     (''selected_branch_id'', JStr (ev_selected_branch_id e)),
     (''detail'', JStr (ev_detail e)),
     (''fallback_snapshot_used'', j_bool (ev_fallback_snapshot_used e)),
     (''invalidated_msg_id'', JStr (ev_invalidated_msg_id e)),
     (''max_rewind_commits'', j_int (ev_max_rewind_commits e)),
     (''candidate_count'', j_int (ev_candidate_count e)),
     (''eligible_count'', j_int (ev_eligible_count e))]"

definition blank_value :: "json \<Rightarrow> bool" where
  "blank_value v \<longleftrightarrow> v = JNull \<or> v = JStr [] \<or> v = JList [] \<or> v = JObj []"

record agent_event =
  ae_id :: nat
  ae_source :: "nat \<times> nat \<times> string"
  ae_schema_version :: string
  ae_seq :: "int option"
  ae_wall_time_ms :: "int option"
  ae_account_ref :: string
  ae_engine_id :: string
  ae_group_ref :: string
  ae_event_type :: string
  ae_context :: json
  ae_kind :: json
  ae_normalized :: dict

definition agent_event_row :: "audit_event \<Rightarrow> agent_event" where
  "agent_event_row e = \<lparr> ae_id = ev_id e, ae_source = (ev_audit_file e, ev_line_number e, ev_line_hash e),
     ae_schema_version = ev_schema_version e, ae_seq = ev_seq e, ae_wall_time_ms = ev_wall_time_ms e,
     ae_account_ref = ev_account_ref e, ae_engine_id = ev_engine_id e, ae_group_ref = ev_group_ref e,
     ae_event_type = ev_event_type e, ae_context = py_or (ev_raw_context e) (JObj []),
     ae_kind = py_or (ev_raw_kind e) (JObj []),
     ae_normalized = concat (map (\<lambda>f. let v = dict_get (column_values e) f in if blank_value v then [] else [(f, v)])
       agent_export_normalized_fields) \<rparr>"

definition source_label_for_file :: "audit_file \<Rightarrow> string" where
  "source_label_for_file f = str_join '' / '' (filter (\<lambda>s. s \<noteq> [])
     [af_source_platform f, af_source_hardware_model f, take 12 (case af_engine_ids f of [] \<Rightarrow> [] | i # _ \<Rightarrow> i)])"

definition source_name_or_id :: "audit_file \<Rightarrow> string" where
  "source_name_or_id f = (if af_source_name f \<noteq> [] then af_source_name f else ''audit-file-'' @ nat_str (af_id f))"

text \<open>The stored events of the file in the group.\<close>

definition group_event_count :: "database \<Rightarrow> nat \<Rightarrow> audit_file \<Rightarrow> nat" where
  "group_event_count db g f = length (filter (\<lambda>e. ev_audit_file e = af_id f \<and> ev_group e = Some g) (db_events db))"

definition audit_files_for_group :: "database \<Rightarrow> nat \<Rightarrow> audit_file list" where
  "audit_files_for_group db g =
     rev (sort_key (\<lambda>f. (af_created_at f, af_id f)) (filter (\<lambda>f. g \<in> set (af_groups f)) (db_files db)))"

definition agent_source_row :: "database \<Rightarrow> nat \<Rightarrow> audit_file \<Rightarrow> dict" where
  "agent_source_row db g f = [
     (''id'', j_nat (af_id f)),
     (''source_name'', JStr (source_name_or_id f)),
     (''source_label'', JStr (source_label_for_file f)),
     (''source_hardware_model'', JStr (af_source_hardware_model f)),
     (''source_device_id'', JStr (af_source_device_id f)),
     (''source_platform'', JStr (af_source_platform f)),
     (''source_app_version'', JStr (af_source_app_version f)),
     (''source_local_member_ref'', py_or (JStr (af_source_local_member_ref f)) JNull),
     (''validation_status'', JStr (status_str (af_validation_status f))),
     (''validation_error'', JStr (af_validation_error f)),
     (''total_line_count'', j_nat (af_total_line_count f)),
     (''valid_event_count'', j_nat (af_valid_event_count f)),
     (''invalid_event_count'', j_nat (af_invalid_event_count f)),
     (''duplicate_event_count'', j_nat (af_duplicate_event_count f)),
     (''group_event_count'', j_nat (group_event_count db g f)),
     (''first_seq'', j_int (af_first_seq f)),
     (''last_seq'', j_int (af_last_seq f)),
     (''first_wall_time_ms'', j_int (af_first_wall_time_ms f)),
     (''last_wall_time_ms'', j_int (af_last_wall_time_ms f)),
     (''account_refs'', j_strs (af_account_refs f)),
     (''engine_ids'', j_strs (af_engine_ids f)),
     (''group_refs'', j_strs (af_group_refs f)),
     (''schema_versions'', j_strs (af_schema_versions f)),
     (''created_at'', JInt (af_created_at f))]"

definition file_rows_for_group :: "database \<Rightarrow> nat \<Rightarrow> audit_file list \<Rightarrow> dict list" where
  "file_rows_for_group db g files = map (\<lambda>f. [
     (''id'', j_nat (af_id f)),
     (''source_name'', JStr (source_name_or_id f)),
     (''source_label'', JStr (source_label_for_file f)),
     (''source_hardware_model'', JStr (af_source_hardware_model f)),
     (''source_platform'', JStr (af_source_platform f)),
     (''validation_status'', JStr (status_str (af_validation_status f))),
     (''total_line_count'', j_nat (af_total_line_count f)),
     (''valid_event_count'', j_nat (af_valid_event_count f)),
     (''invalid_event_count'', j_nat (af_invalid_event_count f)),
     (''duplicate_event_count'', j_nat (af_duplicate_event_count f)),
     (''group_event_count'', j_nat (group_event_count db g f)),
     (''account_refs'', j_strs (af_account_refs f)),
     (''engine_ids'', j_strs (af_engine_ids f)),
     (''group_refs'', j_strs (af_group_refs f)),
     (''created_at'', JInt (af_created_at f))]) files"

definition message_ids_from_events :: "audit_event list \<Rightarrow> string set" where
  "message_ids_from_events events = set (concat (map event_message_ids events))"

record summary_counts =
  sc_file_count :: nat
  sc_event_count :: nat
  sc_invalid_event_count :: nat
  sc_engine_count :: nat
  sc_group_count :: nat
  sc_message_count :: nat

definition group_summary :: "database \<Rightarrow> nat \<Rightarrow> audit_file list \<Rightarrow> audit_event list \<Rightarrow> summary_counts" where
  "group_summary db g files events = \<lparr>
     sc_file_count = length files,
     sc_event_count = length events,
     sc_invalid_event_count =
       length (filter (\<lambda>e. ev_group e = Some g \<and> ev_parse_status e = STATUS_INVALID) (db_events db)),
     sc_engine_count = card (set (filter (\<lambda>s. s \<noteq> []) (map ev_engine_id events))),
     sc_group_count = card (set (filter (\<lambda>s. s \<noteq> []) (map ev_group_ref events))),
     sc_message_count = card (message_ids_from_events events) \<rparr>"

definition AGENT_EXPORT_SCHEMA_VERSION :: string where
  "AGENT_EXPORT_SCHEMA_VERSION = ''goggles-agent-group-state/v1''"

definition EXPORT_CONTAINS :: "string list" where
  "EXPORT_CONTAINS = [''engine_ids'', ''account_refs'', ''member_refs'', ''group_refs'', ''message_ids'', ''payload_digests'', ''relay_urls'']"

definition EXPORT_OMITS :: "string list" where
  "EXPORT_OMITS = [''raw_upload_bodies'', ''bearer_tokens'', ''source_ips'', ''user_agents'']"

record agent_export =
  ax_schema_version :: string
  ax_generated_at :: int
  ax_group :: "string \<times> string \<times> string"
  ax_summary :: summary_counts
  ax_sources :: "dict list"
  ax_timeline :: timeline_payload
  ax_actions :: "action_group list"
  ax_messages :: "message_trace list"
  ax_events :: "agent_event list"

text \<open>\<open>None\<close> when the grouping of actions raises.\<close>

definition agent_state_export_for_group ::
  "(json \<Rightarrow> string option) \<Rightarrow> database \<Rightarrow> int \<Rightarrow> audit_group \<Rightarrow> audit_event list \<Rightarrow> audit_file list \<Rightarrow> agent_export option" where
  "agent_state_export_for_group key_text db now g events files =
     (let ordered = sorted_timeline_events events;
          timeline = timeline_payload_for_group key_text (db_files db) (db_events db) g ordered True
      in map_option (\<lambda>actions. \<lparr> ax_schema_version = AGENT_EXPORT_SCHEMA_VERSION, ax_generated_at = now,
           ax_group = tp_group timeline, ax_summary = group_summary db (g_id g) files ordered,
           ax_sources = map (agent_source_row db (g_id g)) files, ax_timeline = timeline, ax_actions = actions,
           ax_messages = message_traces_from_events ordered (set (map ei_engine_id (tp_engines timeline))),
           ax_events = map agent_event_row ordered \<rparr>) (human_action_groups_for_group ordered))"

section \<open>Through the columns\<close>

text \<open>The kinds of columns, and the JSON value of a column that was filled from the normalized dictionary.\<close>

datatype column_kind = KStr | KInt | KBool | KStrs | KList | KObj

definition kind_of_column :: "string \<Rightarrow> column_kind option" where
  "kind_of_column f =
     (case get_field f of
        Some (CharField _) \<Rightarrow> Some KStr
      | Some TextField \<Rightarrow> Some KStr
      | Some PositiveIntegerField \<Rightarrow> Some KInt
      | Some PositiveBigIntegerField \<Rightarrow> Some KInt
      | Some BooleanField \<Rightarrow> Some KBool
      | Some JSONField \<Rightarrow>
          (if f \<in> set (string_list_columns @ message_id_list_columns) then Some KStrs
           else if f \<in> set list_columns then Some KList else Some KObj)
      | _ \<Rightarrow> None)"

fun stored_value :: "column_kind \<Rightarrow> dict \<Rightarrow> string \<Rightarrow> json" where
  "stored_value KStr n f = JStr (str_col n f)"
| "stored_value KInt n f = j_int (int_col n f)"
| "stored_value KBool n f = j_bool (bool_col n f)"
| "stored_value KStrs n f = j_strs (strs_col n f)"
| "stored_value KList n f = JList (list_col n f)"
| "stored_value KObj n f = obj_col n f"

definition column_kinds :: "column_kind list" where
  "column_kinds = [
     KStr, KObj, KObj, KObj, KObj, KObj, KObj, KStr, KStr, KStr, KStrs, KList, KInt, KStrs, KStr, KStr,
     KStrs, KStr, KStrs, KStrs, KList, KInt, KBool, KInt, KInt, KInt, KInt, KInt, KInt, KInt, KInt,
     KInt, KInt, KStr, KStr, KStr, KStr, KStr, KStr, KStr, KStr, KStr, KStr, KStr, KStr, KStr, KStr,
     KStr, KStr, KStr, KStr, KBool, KStr, KInt, KInt, KInt]"

lemma persisted_fields: "persisted_normalized_fields = EXPECTED_PERSISTED_NORMALIZED_FIELDS"
  by code_simp

lemma kinds_of_columns: "map kind_of_column EXPECTED_PERSISTED_NORMALIZED_FIELDS = map Some column_kinds"
  by code_simp

lemma fields_kinds_length: "length EXPECTED_PERSISTED_NORMALIZED_FIELDS = length column_kinds"
  by (simp add: EXPECTED_PERSISTED_NORMALIZED_FIELDS_def column_kinds_def)

lemma zip_kinds:
  assumes "f \<in> set EXPECTED_PERSISTED_NORMALIZED_FIELDS"
  shows "\<exists>k. (f, k) \<in> set (zip EXPECTED_PERSISTED_NORMALIZED_FIELDS column_kinds) \<and> kind_of_column f = Some k"
proof -
  obtain i where i: "i < length EXPECTED_PERSISTED_NORMALIZED_FIELDS" "f = EXPECTED_PERSISTED_NORMALIZED_FIELDS ! i"
    using assms by (auto simp: in_set_conv_nth)
  have "kind_of_column f = Some (column_kinds ! i)"
    using arg_cong [OF kinds_of_columns, of "\<lambda>xs. xs ! i"] i fields_kinds_length by simp
  then show ?thesis using i fields_kinds_length by (auto simp: in_set_zip)
qed

lemma distinct_fields: "distinct (map fst (zip EXPECTED_PERSISTED_NORMALIZED_FIELDS column_kinds))"
  by code_simp

lemma column_values_stored:
  assumes "pl_data l = Some data"
  shows "column_values (event_values pk file l g) =
    map (\<lambda>(f, k). (f, stored_value k (pl_normalized l) f)) (zip EXPECTED_PERSISTED_NORMALIZED_FIELDS column_kinds)"
proof -
  define base where "base = blank_event\<lparr> ev_id := pk, ev_group := g, ev_audit_file := file,
            ev_line_number := pl_line_number l, ev_line_hash := pl_line_hash l,
            ev_raw_line := pl_raw_line l, ev_raw_event := map_option JObj (pl_data l),
            ev_parse_status := (if pl_errors l \<noteq> [] then STATUS_INVALID else STATUS_VALID),
            ev_validation_error := str_join ''; '' (pl_errors l) \<rparr>"
  show ?thesis
    using assms unfolding event_values_def Let_def base_def [symmetric] column_values_def
    by (simp add: EXPECTED_PERSISTED_NORMALIZED_FIELDS_def column_kinds_def)
qed

lemma conforms_lookup: "conforms n \<Longrightarrow> map_of n f = Some v \<Longrightarrow> column_ok f v"
  by (auto simp: conforms_def list_all_iff dest: map_of_SomeD)

lemma strs_back: "list_all is_str xs \<Longrightarrow> map (\<lambda>x. JStr (str_of x)) xs = xs"
proof (induction xs)
  case (Cons x xs)
  then show ?case by (cases x) simp_all
qed simp

lemma stored_value_faithful:
  assumes "kind_of_column f = Some k" "conforms n"
  shows "(blank_value (stored_value k n f) \<longleftrightarrow> blank_value (dict_get n f)) \<and>
    (\<not> blank_value (dict_get n f) \<longrightarrow> stored_value k n f = dict_get n f)"
proof (cases "map_of n f")
  case None
  then show ?thesis
    by (cases k) (simp_all add: blank_value_def str_col_def int_col_def bool_col_def strs_col_def list_col_def obj_col_def
        j_int_def j_bool_def j_strs_def)
next
  case (Some v)
  with conforms_lookup [OF assms(2)] have ok: "column_ok f v" by blast
  have strs: "is_list v \<and> list_all is_str (list_of v)" if "k = KStrs"
    using assms(1) that ok unfolding kind_of_column_def column_ok_def
    by (auto split: option.splits column_type.splits if_splits simp: list_all_iff is_valid_message_id_def dest: is_hex_length)
  have lst: "is_list v" if "k = KList"
    using assms(1) that ok unfolding kind_of_column_def column_ok_def by (auto split: option.splits column_type.splits if_splits)
  have fit: "(k = KStr \<longrightarrow> is_str v) \<and> (k = KInt \<longrightarrow> (\<exists>i. v = JInt i) \<or> v = JNull) \<and> (k = KBool \<longrightarrow> v = JNull \<or> is_bool v)"
    using assms(1) ok unfolding kind_of_column_def column_ok_def
    by (auto split: option.splits column_type.splits if_splits json.splits simp: int_fits_def)
  show ?thesis
    using Some strs lst fit strs_back
    by (cases k; cases v) (simp_all add: blank_value_def str_col_def int_col_def bool_col_def strs_col_def list_col_def obj_col_def
        j_int_def j_bool_def j_strs_def o_def)
qed

lemma map_of_kept:
  "map_of (concat (map (\<lambda>f. let v = h f in if P v then [] else [(f, v)]) fs)) f = (if f \<in> set fs \<and> \<not> P (h f) then Some (h f) else None)"
  by (induction fs) (auto simp: Let_def)

section \<open>Properties\<close>

text \<open>
  C14: what a device reported is what an agent reads. For an event that was normalized and stored, each
  field of the export's normalized part has the value the normalizer gave it, and is left out just
  when that value is absent or empty; the conversion into columns and back loses nothing. The two
  hypotheses on the event are the schema's bound on the account reference and a bound on a list.
\<close>

theorem export_roundtrip:
  assumes "pl_data l = Some data" "pl_normalized l = fst (normalize_event rt data)"
    and "length (value_if_str (dict_get data ''account_ref'')) \<le> 64"
    and "candidates_countable (dict_of (dict_get data ''kind''))"
  shows "list_all (\<lambda>f. dict_get (ae_normalized (agent_event_row (event_values pk file l g))) f =
      (if blank_value (dict_get (pl_normalized l) f) then JNull else dict_get (pl_normalized l) f)) agent_export_normalized_fields"
  unfolding list_all_iff
proof
  fix f
  assume f: "f \<in> set agent_export_normalized_fields"
  let ?n = "pl_normalized l"
  have conf: "conforms ?n" using normalize_event_conforms [OF assms(3,4)] assms(2) by simp
  have "f \<in> set EXPECTED_PERSISTED_NORMALIZED_FIELDS"
    using f by (simp add: agent_export_normalized_fields_def persisted_fields)
  then obtain k where k: "(f, k) \<in> set (zip EXPECTED_PERSISTED_NORMALIZED_FIELDS column_kinds)" "kind_of_column f = Some k"
    using zip_kinds by blast
  have dist: "distinct (map fst (map (\<lambda>(f, k). (f, stored_value k ?n f)) (zip EXPECTED_PERSISTED_NORMALIZED_FIELDS column_kinds)))"
    using distinct_fields by (simp add: o_def case_prod_beta)
  have "dict_get (column_values (event_values pk file l g)) f = stored_value k ?n f"
    unfolding column_values_stored [OF assms(1)] using map_of_is_SomeI [OF dist, of f "stored_value k ?n f"] k(1) by force
  then show "dict_get (ae_normalized (agent_event_row (event_values pk file l g))) f =
      (if blank_value (dict_get ?n f) then JNull else dict_get ?n f)"
    using f stored_value_faithful [OF k(2) conf] by (simp add: agent_event_row_def map_of_kept)
qed

theorem export_roundtrip_witness:
  "dict_get (ae_normalized (agent_event_row (event_values 1 1 (parse_line example_runtime 1 ''{send}'') None))) ''intent_kind'' =
     JStr ''text''"
proof -
  let ?l = "parse_line example_runtime 1 ''{send}''"
  have "pl_data ?l = Some example_event" "pl_normalized ?l = fst (normalize_event example_runtime example_event)"
    by code_simp+
  note rt = export_roundtrip [OF this example_event_small, of 1 1 None]
  have "''intent_kind'' \<in> set agent_export_normalized_fields" by code_simp
  moreover have "dict_get (pl_normalized ?l) ''intent_kind'' = JStr ''text''" by code_simp
  ultimately show ?thesis using rt by (simp add: list_all_iff blank_value_def)
qed

text \<open>
  The field lists agree. The persisted fields that the code derives from the columns of the model
  are exactly the pinned tuple, every one of them has a value in an event row, and the export leaves
  out just the context snapshots, which it carries verbatim elsewhere.
\<close>

theorem persisted_fields_pinned:
  "persisted_normalized_fields = EXPECTED_PERSISTED_NORMALIZED_FIELDS \<and>
   map fst (column_values e) = EXPECTED_PERSISTED_NORMALIZED_FIELDS \<and>
   set EXPECTED_PERSISTED_NORMALIZED_FIELDS = set agent_export_normalized_fields \<union> set AGENT_EXPORT_NORMALIZED_FIELD_EXCLUDE"
proof (intro conjI)
  show "map fst (column_values e) = EXPECTED_PERSISTED_NORMALIZED_FIELDS"
    by (simp add: column_values_def EXPECTED_PERSISTED_NORMALIZED_FIELDS_def)
  have "list_all (\<lambda>f. f \<in> set EXPECTED_PERSISTED_NORMALIZED_FIELDS) AGENT_EXPORT_NORMALIZED_FIELD_EXCLUDE" by code_simp
  then show "set EXPECTED_PERSISTED_NORMALIZED_FIELDS =
      set agent_export_normalized_fields \<union> set AGENT_EXPORT_NORMALIZED_FIELD_EXCLUDE"
    by (auto simp: agent_export_normalized_fields_def persisted_fields list_all_iff)
qed (rule persisted_fields)

end
