(* ===== verification/Overview.thy ===== *)
theory Overview
  imports Export
begin

text \<open>
  The groups home and the observation matrix of \<^verbatim>\<open>forensics/analysis.py\<close>: the per-group statistics that
  the landing page shows (\<^verbatim>\<open>group_list_rows\<close>, \<^verbatim>\<open>event_stats_for_groups\<close>) and the per-message,
  per-engine grid (\<^verbatim>\<open>message_observation_matrix\<close>).
\<close>

section \<open>Groups home\<close>

text \<open>The columns that carry an epoch, as selectors of the event row.\<close>

definition GROUP_EPOCH_RANGE_FIELDS :: "(audit_event \<Rightarrow> int option) list" where
  "GROUP_EPOCH_RANGE_FIELDS = [ev_epoch, ev_source_epoch, ev_from_epoch, ev_to_epoch, ev_pending_epoch,
     ev_restored_epoch, ev_current_tip_epoch, ev_selected_fork_epoch, ev_selected_tip_epoch]"

record group_stats =
  gs_event_count :: nat
  gs_engine_count :: nat
  gs_last_activity_ms :: "int option"
  gs_epoch_min :: "int option"
  gs_epoch_max :: "int option"

text \<open>One row of the aggregate query, and the minimum over its nine column minima.\<close>

definition stats_row :: "audit_event list \<Rightarrow> group_stats" where
  "stats_row rows =
     (let mins = map (\<lambda>f. opt_min (the_list (map f rows))) GROUP_EPOCH_RANGE_FIELDS;
          maxs = map (\<lambda>f. opt_max (the_list (map f rows))) GROUP_EPOCH_RANGE_FIELDS
      in \<lparr> gs_event_count = card (set (map ev_id rows)),
           gs_engine_count = card (set (filter (\<lambda>s. s \<noteq> []) (map ev_engine_id rows))),
           gs_last_activity_ms = opt_max (the_list (map ev_wall_time_ms rows)),
           gs_epoch_min = opt_min (the_list mins), gs_epoch_max = opt_max (the_list maxs) \<rparr>)"

definition event_stats_for_groups ::
  "audit_file list \<Rightarrow> audit_event list \<Rightarrow> audit_group list \<Rightarrow> (nat \<times> group_stats) list \<times> nat set" where
  "event_stats_for_groups files events groups =
     (let ids = filter (\<lambda>i. i \<noteq> 0) (map g_id groups);
          valid = filter (\<lambda>e. counted_event files e \<and> (\<exists>g \<in> set ids. ev_group e = Some g)) events;
          present = sorted_set (the_list (map ev_group valid))
      in if ids = [] then ([], {})
         else (map (\<lambda>g. (g, stats_row (filter (\<lambda>e. ev_group e = Some g) valid))) present,
               set (the_list (map ev_group
                 (filter (\<lambda>e. ev_event_type e \<in> {''fork_resolution'', ''epoch_rolled_back''}) valid)))))"

definition audit_file_counts_for_groups :: "audit_file list \<Rightarrow> audit_group list \<Rightarrow> (nat \<times> nat) list" where
  "audit_file_counts_for_groups files groups =
     (let ids = filter (\<lambda>i. i \<noteq> 0) (map g_id groups);
          linked = sorted_set (filter (\<lambda>g. g \<in> set ids) (concat (map af_groups files)))
      in map (\<lambda>g. (g, card (set (map af_id (filter (\<lambda>f. g \<in> set (af_groups f)) files))))) linked)"

definition GROUP_REF_FULL_DISPLAY_MAX :: nat where
  "GROUP_REF_FULL_DISPLAY_MAX = 80"

definition GROUP_REF_EDGE_DISPLAY_CHARS :: nat where
  "GROUP_REF_EDGE_DISPLAY_CHARS = 32"

definition display_group_ref :: "string \<Rightarrow> string" where
  "display_group_ref ref =
     (if length ref \<le> GROUP_REF_FULL_DISPLAY_MAX then ref
      else take GROUP_REF_EDGE_DISPLAY_CHARS ref @ ''...'' @ drop (length ref - GROUP_REF_EDGE_DISPLAY_CHARS) ref)"

text \<open>
  \<^verbatim>\<open>datetime.fromtimestamp\<close> in UTC covers the years 1 to 9999; the instant is given by its milliseconds.
\<close>

definition last_activity_datetime :: "int option \<Rightarrow> int option" where
  "last_activity_datetime ms = (case ms of
     None \<Rightarrow> None
   | Some t \<Rightarrow> if -62135596800000 \<le> t \<and> t \<le> 253402300799999 then Some t else None)"

record group_list_row =
  gl_group :: audit_group
  gl_search_ref :: string
  gl_display_ref :: string
  gl_audit_file_count :: nat
  gl_event_count :: nat
  gl_engine_count :: nat
  gl_epoch_min :: "int option"
  gl_epoch_max :: "int option"
  gl_last_activity_ms :: "int option"
  gl_has_fork_activity :: bool
  gl_divergent_count :: nat
  gl_last_activity :: "int option"

definition group_list_rows :: "database \<Rightarrow> group_list_row list" where
  "group_list_rows db =
     (let groups = sort_key (\<lambda>g. (- g_updated_at g, - g_created_at g)) (db_groups db);
          file_counts = audit_file_counts_for_groups (db_files db) groups;
          (stats, forks) = event_stats_for_groups (db_files db) (db_events db) groups
      in map (\<lambda>g. let s = map_of stats (g_id g);
                      ref = (if g_group_ref g \<noteq> [] then g_group_ref g else g_slug g);
                      last_ms = (case s of None \<Rightarrow> None | Some r \<Rightarrow> gs_last_activity_ms r)
             in \<lparr> gl_group = g, gl_search_ref = ref, gl_display_ref = display_group_ref ref,
                  gl_audit_file_count = dd_get 0 file_counts (g_id g),
                  gl_event_count = (case s of None \<Rightarrow> 0 | Some r \<Rightarrow> gs_event_count r),
                  gl_engine_count = (case s of None \<Rightarrow> 0 | Some r \<Rightarrow> gs_engine_count r),
                  gl_epoch_min = (case s of None \<Rightarrow> None | Some r \<Rightarrow> gs_epoch_min r),
                  gl_epoch_max = (case s of None \<Rightarrow> None | Some r \<Rightarrow> gs_epoch_max r),
                  gl_last_activity_ms = last_ms,
                  gl_has_fork_activity = (g_id g \<in> forks),
                  gl_divergent_count = g_divergent_message_count g,
                  gl_last_activity = last_activity_datetime last_ms \<rparr>) groups)"

section \<open>Observation matrix\<close>

datatype cell_status = Observed | Missed | Absent

record matrix_cell =
  mc_status :: cell_status
  mc_event_types :: "string list"
  mc_states :: "string list"

record matrix_row =
  mx_msg_id :: string
  mx_reference_ms :: "int option"
  mx_last_wall_time_ms :: "int option"
  mx_event_count :: nat
  mx_observers :: "string list"
  mx_missed_by :: "string list"
  mx_is_divergent :: bool
  mx_cells :: "matrix_cell list"

definition matrix_cell_of :: "string set \<Rightarrow> string set \<Rightarrow> audit_event list \<Rightarrow> string \<Rightarrow> matrix_cell" where
  "matrix_cell_of observers missed_by msg_events engine =
     (if engine \<in> observers
      then (let own = filter (\<lambda>e. ev_engine_id e = engine) msg_events
            in \<lparr> mc_status = Observed,
                 mc_event_types = sorted_set (filter (\<lambda>s. s \<noteq> []) (map ev_event_type own)),
                 mc_states = sorted_set (concat (map state_values own)) \<rparr>)
      else if engine \<in> missed_by then \<lparr> mc_status = Missed, mc_event_types = [], mc_states = [] \<rparr>
      else \<lparr> mc_status = Absent, mc_event_types = [], mc_states = [] \<rparr>)"

definition matrix_row_of :: "windows \<Rightarrow> string list \<Rightarrow> string \<times> audit_event list \<Rightarrow> matrix_row" where
  "matrix_row_of ws engines item =
     (let (m, msg_events) = item;
          observers = observers_of msg_events;
          wall_times = the_list (map ev_wall_time_ms msg_events);
          reference_ms = opt_min wall_times;
          missed_by = engines_present_but_missing observers reference_ms ws (set engines)
      in \<lparr> mx_msg_id = m, mx_reference_ms = reference_ms, mx_last_wall_time_ms = opt_max wall_times,
           mx_event_count = length msg_events, mx_observers = set_sorted observers, mx_missed_by = set_sorted missed_by,
           mx_is_divergent = is_divergent_message observers (observers \<union> missed_by),
           mx_cells = map (matrix_cell_of observers missed_by msg_events) engines \<rparr>)"

text \<open>The engine columns with their header, the first segment of the label.\<close>

definition display_name :: "engine_info \<Rightarrow> string" where
  "display_name info = (if ei_label info \<noteq> [] then before_sep '' / '' (ei_label info) else ei_short info)"

definition message_observation_matrix ::
  "(json \<Rightarrow> string option) \<Rightarrow> audit_file list \<Rightarrow> audit_event list \<Rightarrow> audit_event list
     \<Rightarrow> (engine_info \<times> string) list \<times> matrix_row list" where
  "message_observation_matrix key_text files stored events =
     (let (engines, _) = timeline_engines key_text files stored events
      in (map (\<lambda>i. (i, display_name i)) engines,
          map (matrix_row_of (engine_windows events) (map ei_engine_id engines)) (sort_key fst (group_by_message events))))"

section \<open>What the landing page shows\<close>

definition epochs_in :: "audit_event list \<Rightarrow> int list" where
  "epochs_in es = the_list (concat (map (\<lambda>e. map (\<lambda>f. f e) GROUP_EPOCH_RANGE_FIELDS) es))"

text \<open>
  An extremum: a function that picks from every non-empty list an element that is below all others.
  An extremum over column extrema is the extremum over all values, so the nine column minima of one
  aggregate row give the minimum of the group.
\<close>

locale extremum =
  fixes ext :: "'a list \<Rightarrow> 'a option" and below :: "'a \<Rightarrow> 'a \<Rightarrow> bool"
  assumes ext_Some: "ext xs = Some m \<longleftrightarrow> m \<in> set xs \<and> (\<forall>x \<in> set xs. below m x)"
    and ext_None: "ext xs = None \<longleftrightarrow> xs = []"
begin

lemma of_columns:
  "ext (the_list (map (\<lambda>f. ext (the_list (map f rows))) fs)) = ext (the_list (concat (map (\<lambda>e. map (\<lambda>f. f e) fs) rows)))"
  (is "ext ?cols = ext ?all")
proof (cases "ext ?all")
  case None
  then have "?all = []" by (simp add: ext_None)
  then have "Some x \<notin> set (map f rows)" if "f \<in> set fs" for x f
    using that set_the_list [of x "concat (map (\<lambda>e. map (\<lambda>f. f e) fs) rows)"] by fastforce
  then have "the_list (map f rows) = []" if "f \<in> set fs" for f
    using that by (metis list.set_intros(1) neq_Nil_conv set_the_list)
  then have "map (\<lambda>f. ext (the_list (map f rows))) fs = map (\<lambda>f. None) fs" by (simp add: ext_None)
  then have "?cols = []" by (simp add: the_list_def filter_empty_conv)
  with None show ?thesis by (simp add: ext_None)
next
  case (Some m)
  then have m: "m \<in> set ?all" "\<forall>x \<in> set ?all. below m x" by (simp_all add: ext_Some)
  have mem: "x \<in> set ?all \<longleftrightarrow> (\<exists>f \<in> set fs. x \<in> set (the_list (map f rows)))" for x
    by (auto simp: image_iff)
  obtain f where f: "f \<in> set fs" "m \<in> set (the_list (map f rows))" using m(1) mem by blast
  then have "ext (the_list (map f rows)) = Some m" using m(2) mem by (simp only: ext_Some) blast
  then have in1: "m \<in> set ?cols" using f(1) by (auto simp: image_iff eq_commute [of "Some m"])
  have "below m x" if "x \<in> set ?cols" for x
  proof -
    obtain h where "h \<in> set fs" "ext (the_list (map h rows)) = Some x" using \<open>x \<in> set ?cols\<close> by auto
    then have "x \<in> set ?all" using mem by (simp only: ext_Some) blast
    then show ?thesis using m(2) by blast
  qed
  with in1 have "ext ?cols = Some m" by (simp only: ext_Some) blast
  with Some show ?thesis by simp
qed

end

interpretation least: extremum "opt_min :: int list \<Rightarrow> int option" "(\<le>)"
  by unfold_locales (simp only: opt_min_Some_iff, simp add: opt_min_eq)

interpretation greatest: extremum "opt_max :: int list \<Rightarrow> int option" "(\<ge>)"
  by unfold_locales (simp only: opt_max_Some_iff, simp add: opt_max_eq)

lemma stats_row_exact:
  "stats_row rows = \<lparr> gs_event_count = card (ev_id ` set rows), gs_engine_count = card (engines_in rows),
     gs_last_activity_ms = opt_max (times_in rows), gs_epoch_min = opt_min (epochs_in rows),
     gs_epoch_max = opt_max (epochs_in rows) \<rparr>"
proof -
  have "set (filter (\<lambda>s. s \<noteq> []) (map ev_engine_id rows)) = engines_in rows"
    by (auto simp: engines_in_def tagged_def)
  then show ?thesis
    by (simp add: stats_row_def Let_def least.of_columns greatest.of_columns epochs_in_def times_in_def)
qed

lemma map_of_image_keys: "map_of (map (\<lambda>k. (k, f k)) ks) k = (if k \<in> set ks then Some (f k) else None)"
  by (induction ks) auto

text \<open>The statistics of one group, from the events it counts.\<close>

definition counted_for :: "database \<Rightarrow> nat \<Rightarrow> audit_event list" where
  "counted_for db g = filter (\<lambda>e. counted_event (db_files db) e \<and> ev_group e = Some g) (db_events db)"

lemma stats_for_group:
  fixes db groups
  defines "ids \<equiv> filter (\<lambda>i. i \<noteq> 0) (map g_id groups)"
  assumes g: "g \<in> set ids"
  shows "map_of (fst (event_stats_for_groups (db_files db) (db_events db) groups)) g =
     (if counted_for db g = [] then None else Some (stats_row (counted_for db g)))"
    and "g \<in> snd (event_stats_for_groups (db_files db) (db_events db) groups) \<longleftrightarrow>
     list_ex (\<lambda>e. ev_event_type e \<in> {''fork_resolution'', ''epoch_rolled_back''}) (counted_for db g)"
proof -
  define valid where "valid = filter (\<lambda>e. counted_event (db_files db) e \<and> (\<exists>g \<in> set ids. ev_group e = Some g)) (db_events db)"
  have own: "filter (\<lambda>e. ev_group e = Some g) valid = counted_for db g"
    using g by (auto simp: valid_def counted_for_def intro!: filter_cong)
  have ne: "ids \<noteq> []" using g by auto
  have stats: "event_stats_for_groups (db_files db) (db_events db) groups =
    (map (\<lambda>g. (g, stats_row (filter (\<lambda>e. ev_group e = Some g) valid))) (sorted_set (the_list (map ev_group valid))),
     set (the_list (map ev_group (filter (\<lambda>e. ev_event_type e \<in> {''fork_resolution'', ''epoch_rolled_back''}) valid))))"
    using ne by (simp add: event_stats_for_groups_def Let_def ids_def valid_def)
  have "g \<in> set (the_list (map ev_group valid)) \<longleftrightarrow> filter (\<lambda>e. ev_group e = Some g) valid \<noteq> []"
    by (auto simp: filter_empty_conv image_iff eq_commute [of "Some g"])
  then show "map_of (fst (event_stats_for_groups (db_files db) (db_events db) groups)) g =
     (if counted_for db g = [] then None else Some (stats_row (counted_for db g)))"
    unfolding stats fst_conv map_of_image_keys set_sorted_set own by simp
  have "g \<in> snd (event_stats_for_groups (db_files db) (db_events db) groups) \<longleftrightarrow>
     list_ex (\<lambda>e. ev_event_type e \<in> {''fork_resolution'', ''epoch_rolled_back''}) (filter (\<lambda>e. ev_group e = Some g) valid)"
    unfolding stats snd_conv set_the_list list_ex_iff by (auto simp: image_iff)
  then show "g \<in> snd (event_stats_for_groups (db_files db) (db_events db) groups) \<longleftrightarrow>
     list_ex (\<lambda>e. ev_event_type e \<in> {''fork_resolution'', ''epoch_rolled_back''}) (counted_for db g)"
    by (simp only: own)
qed

lemma file_count_for_group:
  assumes "distinct (map af_id files)" "g \<in> set (filter (\<lambda>i. i \<noteq> 0) (map g_id groups))"
  shows "dd_get 0 (audit_file_counts_for_groups files groups) g = length (filter (\<lambda>f. g \<in> set (af_groups f)) files)"
proof -
  have "card (set (map af_id (filter (\<lambda>f. g \<in> set (af_groups f)) files))) =
      length (map af_id (filter (\<lambda>f. g \<in> set (af_groups f)) files))"
    by (rule distinct_card) (rule distinct_map_filter [OF assms(1)])
  moreover have "filter (\<lambda>f. g \<in> set (af_groups f)) files = []" if "g \<notin> set (concat (map af_groups files))"
    using that by (auto simp: filter_empty_conv)
  ultimately show ?thesis
    using assms(2) by (auto simp: audit_file_counts_for_groups_def Let_def dd_get_def map_of_image_keys)
qed

lemma length_display_group_ref: "length (display_group_ref ref) \<le> GROUP_REF_FULL_DISPLAY_MAX"
  by (simp add: display_group_ref_def GROUP_REF_FULL_DISPLAY_MAX_def GROUP_REF_EDGE_DISPLAY_CHARS_def)

lemma counted_divergence:
  "group_divergence (db_files db) (db_events db) g = card {m. message_diverges (filter tagged (counted_for db g)) m}"
proof -
  have "set (filter tagged (valid_events_for_group (db_files db) (db_events db) g)) = set (filter tagged (counted_for db g))"
    by (auto simp: set_valid_events counted_for_def)
  then have "message_diverges (filter tagged (valid_events_for_group (db_files db) (db_events db) g)) =
      message_diverges (filter tagged (counted_for db g))"
    by (intro ext message_diverges_cong)
  then show ?thesis by (simp add: group_divergence_def)
qed

definition landing_row_exact :: "database \<Rightarrow> group_list_row \<Rightarrow> bool" where
  "landing_row_exact db r \<longleftrightarrow>
    (let g = g_id (gl_group r); own = counted_for db g in
     gl_event_count r = length own \<and> gl_engine_count r = card (engines_in own) \<and>
     gl_last_activity_ms r = opt_max (times_in own) \<and>
     gl_epoch_min r = opt_min (epochs_in own) \<and> gl_epoch_max r = opt_max (epochs_in own) \<and>
     gl_has_fork_activity r = list_ex (\<lambda>e. ev_event_type e \<in> {''fork_resolution'', ''epoch_rolled_back''}) own \<and>
     gl_divergent_count r = card {m. message_diverges (filter tagged own) m} \<and>
     gl_audit_file_count r = length (filter (\<lambda>f. g \<in> set (af_groups f)) (db_files db)) \<and>
     length (gl_display_ref r) \<le> GROUP_REF_FULL_DISPLAY_MAX)"

text \<open>
  The groups home. For a consistent database every group has one row, and the row states what
  the group's counted events say: their number, the number of engines, the latest activity, the least
  and the greatest epoch of any of the nine epoch columns, whether a fork or a rollback occurred, and
  the number of divergent messages; the files are those linked to the group, and the reference fits
  the display width.
\<close>

theorem landing_rows_exact:
  assumes ok: "db_ok db"
  shows "mset (map gl_group (group_list_rows db)) = mset (db_groups db) \<and>
   list_all (landing_row_exact db) (group_list_rows db)"
proof -
  define groups where "groups = sort_key (\<lambda>g. (- g_updated_at g, - g_created_at g)) (db_groups db)"
  obtain stats forks where stats: "event_stats_for_groups (db_files db) (db_events db) groups = (stats, forks)"
    by fastforce
  define row where "row g = (let s = map_of stats (g_id g); ref = (if g_group_ref g \<noteq> [] then g_group_ref g else g_slug g);
      last_ms = (case s of None \<Rightarrow> None | Some r \<Rightarrow> gs_last_activity_ms r)
    in \<lparr> gl_group = g, gl_search_ref = ref, gl_display_ref = display_group_ref ref,
         gl_audit_file_count = dd_get 0 (audit_file_counts_for_groups (db_files db) groups) (g_id g),
         gl_event_count = (case s of None \<Rightarrow> 0 | Some r \<Rightarrow> gs_event_count r),
         gl_engine_count = (case s of None \<Rightarrow> 0 | Some r \<Rightarrow> gs_engine_count r),
         gl_epoch_min = (case s of None \<Rightarrow> None | Some r \<Rightarrow> gs_epoch_min r),
         gl_epoch_max = (case s of None \<Rightarrow> None | Some r \<Rightarrow> gs_epoch_max r),
         gl_last_activity_ms = last_ms, gl_has_fork_activity = (g_id g \<in> forks),
         gl_divergent_count = g_divergent_message_count g,
         gl_last_activity = last_activity_datetime last_ms \<rparr>)" for g
  have rows: "group_list_rows db = map row groups"
    by (simp add: group_list_rows_def Let_def groups_def [symmetric] stats row_def [abs_def])
  have ids: "distinct (map af_id (db_files db))" "distinct (map ev_id (db_events db))"
    and pos: "g \<in> set (db_groups db) \<Longrightarrow> 0 < g_id g"
    and rollup: "g \<in> set (db_groups db) \<Longrightarrow>
      g_divergent_message_count g = group_divergence (db_files db) (db_events db) (g_id g)" for g
    using ok by (auto simp: db_ok_def evidence_ok_def groups_keyed_def rollups_ok_def id_counts_def list_all_iff)
  have "gl_group (row g) = g" for g by (simp add: row_def Let_def)
  then have "map gl_group (group_list_rows db) = groups" by (simp add: rows o_def)
  moreover have "landing_row_exact db (row g)" if g: "g \<in> set groups" for g
  proof -
    have mem: "g \<in> set (db_groups db)" "g_id g \<in> set (filter (\<lambda>i. i \<noteq> 0) (map g_id groups))"
      using g pos by (auto simp: groups_def)
    have s: "map_of stats (g_id g) = (if counted_for db (g_id g) = [] then None else Some (stats_row (counted_for db (g_id g))))"
      and f: "g_id g \<in> forks \<longleftrightarrow>
        list_ex (\<lambda>e. ev_event_type e \<in> {''fork_resolution'', ''epoch_rolled_back''}) (counted_for db (g_id g))"
      using stats_for_group [OF mem(2), of db] by (simp_all only: stats fst_conv snd_conv)
    have "card (ev_id ` set (counted_for db (g_id g))) = length (counted_for db (g_id g))"
      using distinct_card [OF distinct_map_filter [OF ids(2)]] unfolding counted_for_def by simp
    moreover have "engines_in [] = {}" "times_in [] = []" "epochs_in [] = []"
      by (simp_all add: engines_in_def times_in_def epochs_in_def)
    ultimately show ?thesis
      by (simp add: landing_row_exact_def row_def Let_def s f stats_row_exact rollup [OF mem(1)] counted_divergence length_display_group_ref
          file_count_for_group [OF ids(1) mem(2)])
  qed
  ultimately show ?thesis by (simp add: rows list_all_iff groups_def)
qed

theorem landing_rows_exact_witness:
  "map gl_event_count (group_list_rows example_ingested) = [1] \<and>
   list_all (\<lambda>r. gl_event_count r = length (counted_for example_ingested (g_id (gl_group r)))) (group_list_rows example_ingested)"
proof -
  have "db_ok example_ingested" unfolding example_ingested_def by (rule ingest_ok [OF empty_database_ok])
  moreover have "map gl_event_count (group_list_rows example_ingested) = [1]" by code_simp
  ultimately show ?thesis using landing_rows_exact [of example_ingested]
    by (simp add: Let_def list_all_iff landing_row_exact_def)
qed

section \<open>What the matrix shows\<close>

lemma timeline_engine_ids:
  "distinct (map ei_engine_id (fst (timeline_engines key_text files stored es)))"
  "set (map ei_engine_id (fst (timeline_engines key_text files stored es))) = engines_in es"
proof -
  define acc where "acc = fold (note_event files) es \<lparr> ea_by_engine = [], ea_file_ids = [], ea_sessions = [], ea_fallback = [] \<rparr>"
  note rows = engine_rows [where files = files and es = es, folded acc_def]
  define infos where "infos = sort_key engine_sort_key (map snd (ea_by_engine acc))"
  have ids: "map ei_engine_id (fst (timeline_engines key_text files stored es)) = map ei_engine_id infos"
    by (simp add: timeline_engines_def Let_def acc_def [symmetric] infos_def [symmetric] o_def map_enumerate_snd)
  have "mset (map ei_engine_id infos) = mset (map ei_engine_id (map snd (ea_by_engine acc)))"
    by (simp only: mset_map infos_def mset_sort)
  then have perm: "mset (map ei_engine_id infos) = mset (map fst (ea_by_engine acc))" by (simp only: rows(2))
  show "distinct (map ei_engine_id (fst (timeline_engines key_text files stored es)))"
    unfolding ids using rows(3) perm by (metis mset_eq_imp_distinct_iff)
  show "set (map ei_engine_id (fst (timeline_engines key_text files stored es))) = engines_in es"
    unfolding ids using rows(4) perm by (metis mset_eq_setD)
qed

text \<open>What one engine did with one message, from all events of the group.\<close>

definition cell_for :: "audit_event list \<Rightarrow> string \<Rightarrow> string \<Rightarrow> matrix_cell" where
  "cell_for es m engine =
     (let own = filter (\<lambda>e. carries m e \<and> ev_engine_id e = engine) es
      in if engine \<in> observers_in es m
         then \<lparr> mc_status = Observed, mc_event_types = sorted_set (filter (\<lambda>s. s \<noteq> []) (map ev_event_type own)),
                mc_states = sorted_set (concat (map state_values own)) \<rparr>
         else \<lparr> mc_status = (if \<exists>t. first_observed es m t \<and> active_at es engine t then Missed else Absent),
                mc_event_types = [], mc_states = [] \<rparr>)"

lemma matrix_row_trace:
  assumes item: "item \<in> set (group_by_message es)" and engines: "set engines = engines_in es"
  defines "r \<equiv> matrix_row_of (engine_windows es) engines item"
    and "t \<equiv> trace_of (engine_windows es) (trace_engines es) item"
  shows "mx_msg_id r = mt_msg_id t" "mx_observers r = mt_engines t" "mx_missed_by r = mt_missed_by t"
    "mx_is_divergent r = mt_is_divergent t" "mx_reference_ms r = mt_reference_ms t"
    "mx_last_wall_time_ms r = mt_last_wall_time_ms t" "mx_event_count r = mt_event_count t"
  using engines by (cases item; simp add: r_def t_def matrix_row_of_def trace_of_def Let_def trace_engines_eq)+

lemma matrix_row_cells:
  assumes item: "(m, ms) \<in> set (group_by_message es)" and engines: "set engines = engines_in es"
  defines "r \<equiv> matrix_row_of (engine_windows es) engines (m, ms)"
  shows "mx_cells r = map (cell_for es m) engines"
    and "mx_is_divergent r \<longleftrightarrow> Observed \<in> set (map mc_status (mx_cells r)) \<and> Missed \<in> set (map mc_status (mx_cells r))"
proof -
  have ms: "dd_get [] (group_by_message es) m = ms"
    using item group_by_message_props(1) [of es] by (simp add: dd_get_def)
  have obs: "observers_of ms = observers_in es m"
    using traces.observers_law [of es m] by (simp add: trace_observers_def ms)
  have missed: "engines_present_but_missing (observers_of ms) (opt_min (the_list (map ev_wall_time_ms ms))) (engine_windows es)
      (set engines) = traces.missed es m"
    by (simp add: traces.missed_def trace_observers_def trace_reference_def ms trace_engines_eq engines)
  have own: "set (filter (\<lambda>e. ev_engine_id e = engine) ms) = set (filter (\<lambda>e. carries m e \<and> ev_engine_id e = engine) es)"
    for engine using group_by_message_item [OF item] by auto
  have cell: "matrix_cell_of (observers_in es m) (traces.missed es m) ms engine = cell_for es m engine"
    if "engine \<in> engines_in es" for engine
  proof -
    have "sorted_set (filter (\<lambda>s. s \<noteq> []) (map ev_event_type (filter (\<lambda>e. ev_engine_id e = engine) ms))) =
        sorted_set (filter (\<lambda>s. s \<noteq> []) (map ev_event_type (filter (\<lambda>e. carries m e \<and> ev_engine_id e = engine) es)))"
      by (rule sorted_set_cong) (simp only: set_filter set_map own [simplified set_filter])
    moreover have "sorted_set (concat (map state_values (filter (\<lambda>e. ev_engine_id e = engine) ms))) =
        sorted_set (concat (map state_values (filter (\<lambda>e. carries m e \<and> ev_engine_id e = engine) es)))"
      by (rule sorted_set_cong) (simp only: set_concat set_map own)
    moreover have "engine \<in> traces.missed es m \<longleftrightarrow>
        engine \<notin> observers_in es m \<and> (\<exists>t. first_observed es m t \<and> active_at es engine t)"
      using that by (simp add: traces.missed_iff)
    ultimately show ?thesis by (simp add: matrix_cell_of_def cell_for_def Let_def)
  qed
  have "mx_cells r = map (matrix_cell_of (observers_in es m) (traces.missed es m) ms) engines"
    unfolding r_def matrix_row_of_def Let_def prod.case missed by (simp add: obs)
  then show cells: "mx_cells r = map (cell_for es m) engines"
    using engines cell by simp
  have "mx_is_divergent r \<longleftrightarrow> observers_in es m \<noteq> {} \<and> traces.missed es m \<noteq> {}"
    unfolding r_def matrix_row_of_def Let_def prod.case missed
    using traces.missed_iff [of _ es m] by (auto simp: is_divergent_message_def obs)
  moreover have "Observed \<in> set (map mc_status (mx_cells r)) \<longleftrightarrow> observers_in es m \<noteq> {}"
  proof -
    have "observers_in es m \<subseteq> engines_in es" by (auto simp: observers_in_def engines_in_def)
    moreover have "mc_status (cell_for es m engine) = Observed \<longleftrightarrow> engine \<in> observers_in es m" for engine
      by (simp add: cell_for_def Let_def)
    ultimately show ?thesis by (auto simp: cells engines image_iff eq_commute [of Observed])
  qed
  moreover have "Missed \<in> set (map mc_status (mx_cells r)) \<longleftrightarrow> traces.missed es m \<noteq> {}"
  proof -
    have "mc_status (cell_for es m engine) = Missed \<longleftrightarrow> engine \<in> traces.missed es m" if "engine \<in> engines_in es" for engine
      using that by (auto simp: cell_for_def Let_def traces.missed_iff)
    moreover have "traces.missed es m \<subseteq> engines_in es" using traces.missed_iff [of _ es m] by blast
    ultimately show ?thesis by (auto simp: cells engines image_iff eq_commute [of Missed])
  qed
  ultimately show "mx_is_divergent r \<longleftrightarrow>
      Observed \<in> set (map mc_status (mx_cells r)) \<and> Missed \<in> set (map mc_status (mx_cells r))" by simp
qed

text \<open>
  The observation matrix has one column per engine of the group and one row per message; its rows
  say of observers, missing engines, first time and divergence what the message traces say. Every cell
  states what the column's engine did with the row's message: observed, with the types and states of
  its own events, missed when the engine was active as the message first appeared, absent otherwise.
  A row is marked divergent exactly when it shows both an observed and a missed cell.
\<close>

theorem matrix_agrees_with_traces:
  "case message_observation_matrix key_text files stored es of (columns, rows) \<Rightarrow>
     distinct (map (\<lambda>c. ei_engine_id (fst c)) columns) \<and> set (map (\<lambda>c. ei_engine_id (fst c)) columns) = engines_in es \<and>
     map (\<lambda>r. (mx_msg_id r, mx_observers r, mx_missed_by r, mx_is_divergent r, mx_reference_ms r, mx_event_count r)) rows =
       map (\<lambda>t. (mt_msg_id t, mt_engines t, mt_missed_by t, mt_is_divergent t, mt_reference_ms t, mt_event_count t))
         (message_traces_for_group es) \<and>
     list_all (\<lambda>r. mx_cells r = map (\<lambda>c. cell_for es (mx_msg_id r) (ei_engine_id (fst c))) columns \<and>
       mx_is_divergent r = (Observed \<in> set (map mc_status (mx_cells r)) \<and> Missed \<in> set (map mc_status (mx_cells r)))) rows"
proof -
  define infos where "infos = fst (timeline_engines key_text files stored es)"
  define engines where "engines = map ei_engine_id infos"
  define items where "items = sort_key fst (group_by_message es)"
  have eng: "distinct engines" "set engines = engines_in es"
    using timeline_engine_ids [of key_text files stored es] by (simp_all add: engines_def infos_def)
  have columns: "map (\<lambda>c. ei_engine_id (fst c)) (map (\<lambda>i. (i, display_name i)) infos) = engines"
    by (simp add: engines_def o_def)
  have mat: "message_observation_matrix key_text files stored es =
      (map (\<lambda>i. (i, display_name i)) infos, map (matrix_row_of (engine_windows es) engines) items)"
    by (simp add: message_observation_matrix_def case_prod_beta infos_def engines_def items_def)
  have "map (\<lambda>r. (mx_msg_id r, mx_observers r, mx_missed_by r, mx_is_divergent r, mx_reference_ms r, mx_event_count r))
        (map (matrix_row_of (engine_windows es) engines) items) =
      map (\<lambda>t. (mt_msg_id t, mt_engines t, mt_missed_by t, mt_is_divergent t, mt_reference_ms t, mt_event_count t))
        (message_traces_for_group es)"
    unfolding message_traces_for_group_eq map_map o_def items_def [symmetric]
    by (intro map_cong refl) (simp add: matrix_row_trace [OF _ eng(2)] items_def)
  moreover have "mx_cells r = map (\<lambda>c. cell_for es (mx_msg_id r) (ei_engine_id (fst c))) (map (\<lambda>i. (i, display_name i)) infos) \<and>
      mx_is_divergent r = (Observed \<in> set (map mc_status (mx_cells r)) \<and> Missed \<in> set (map mc_status (mx_cells r)))"
    if r: "r \<in> set (map (matrix_row_of (engine_windows es) engines) items)" for r
  proof -
    obtain m ms where item: "(m, ms) \<in> set (group_by_message es)" and r: "r = matrix_row_of (engine_windows es) engines (m, ms)"
      using r by (auto simp: items_def)
    have "mx_msg_id r = m" by (simp add: r matrix_row_of_def Let_def)
    with matrix_row_cells [OF item eng(2), folded r] show ?thesis by (simp add: engines_def o_def)
  qed
  ultimately show ?thesis unfolding mat prod.case columns list_all_iff using eng by blast
qed

end
