(* ===== verification/Retention.thy ===== *)
theory Retention
  imports Ingest
begin

text \<open>
  Retention: the pruning command (\<^verbatim>\<open>management/commands/prune_audit_data.py\<close>) with the cascades of the
  foreign keys of \<^verbatim>\<open>models.py\<close>, the purge command (\<^verbatim>\<open>purge_audit_data.py\<close>), the nightly schedule
  (\<^verbatim>\<open>deploy/prune_nightly.py\<close>), and the life of a database under uploads, rebuilds, prunes and purges.
  Time stamps are microseconds since the epoch.
\<close>

section \<open>Deleting files and groups\<close>

text \<open>
  Deleting events: rows that refer to one of them go with it (\<^verbatim>\<open>CASCADE\<close>), and the many-to-many
  evidence links to it are removed.
\<close>

definition delete_events_from_projections :: "nat set \<Rightarrow> projections \<Rightarrow> projections" where
  "delete_events_from_projections gone pj = pj\<lparr>
     pj_artifacts := map (\<lambda>a. a\<lparr>da_evidence_events := filter (\<lambda>e. e \<notin> gone) (da_evidence_events a)\<rparr>) (pj_artifacts pj),
     pj_observations := map (\<lambda>d. d\<lparr>dv_evidence_events := filter (\<lambda>e. e \<notin> gone) (dv_evidence_events d)\<rparr>) (pj_observations pj),
     pj_expectations := filter (\<lambda>x. re_evidence_event x \<notin> gone) (pj_expectations pj),
     pj_network := filter (\<lambda>n. no_audit_event n \<notin> gone) (pj_network pj),
     pj_runs := map (\<lambda>r. r\<lparr>cr_evidence_events := filter (\<lambda>e. e \<notin> gone) (cr_evidence_events r)\<rparr>) (pj_runs pj),
     pj_deltas := filter (\<lambda>d. sd_audit_event d \<notin> gone) (pj_deltas pj),
     pj_transitions := filter (\<lambda>t. et_audit_event t \<notin> gone) (pj_transitions pj) \<rparr>"

text \<open>\<^verbatim>\<open>AuditFile.objects.filter(id__in=batch).delete()\<close>.\<close>

definition delete_audit_files :: "nat list \<Rightarrow> database \<Rightarrow> database" where
  "delete_audit_files batch db = db\<lparr>
     db_files := filter (\<lambda>f. af_id f \<notin> set batch) (db_files db),
     db_events := filter (\<lambda>e. ev_audit_file e \<notin> set batch) (db_events db),
     db_projections := delete_events_from_projections
       (set (map ev_id (filter (\<lambda>e. ev_audit_file e \<in> set batch) (db_events db)))) (db_projections db) \<rparr>"

definition DELETE_BATCH_SIZE :: nat where
  "DELETE_BATCH_SIZE = 200"

definition delete_files :: "nat list \<Rightarrow> database \<Rightarrow> database" where
  "delete_files file_ids db = fold delete_audit_files (batches DELETE_BATCH_SIZE file_ids) db"

text \<open>
  \<^verbatim>\<open>AuditGroup.objects.all().delete()\<close>: the projections and saved reports of the groups go, the file
  links too, and events lose their group (\<^verbatim>\<open>SET_NULL\<close>).
\<close>

definition delete_all_groups :: "database \<Rightarrow> database" where
  "delete_all_groups db =
     (let ids = map g_id (db_groups db)
      in db\<lparr> db_groups := [],
           db_files := map (\<lambda>f. f\<lparr>af_groups := filter (\<lambda>g. g \<notin> set ids) (af_groups f)\<rparr>) (db_files db),
           db_events := map (\<lambda>e. if \<exists>g \<in> set ids. ev_group e = Some g then e\<lparr>ev_group := None\<rparr> else e) (db_events db),
           db_projections := fold clear_group_projections ids (db_projections db) \<rparr>)"

section \<open>Pruning\<close>

text \<open>Groups linked to the files, by the upload's own links or by a stored event.\<close>

definition touched_group_ids :: "database \<Rightarrow> nat list \<Rightarrow> nat list" where
  "touched_group_ids db file_ids =
     sorted_set (concat (map (\<lambda>f. af_groups f @
         the_list (map ev_group (filter (\<lambda>e. ev_audit_file e = af_id f) (db_events db))))
       (filter (\<lambda>f. af_id f \<in> set file_ids) (db_files db))))"

record prune_options =
  po_retention_days :: "int option"
  po_dry_run :: bool

datatype prune_outcome =
    PruneBusy
  | PruneRefused
  | PruneOverflow
  | NothingToPrune
  | DryRun nat nat nat
  | Pruned nat nat nat
  | PruneFailed

definition micros_per_day :: int where
  "micros_per_day = 86400000000"

text \<open>The least instant of a \<^verbatim>\<open>datetime\<close>, the start of the year 1.\<close>

definition datetime_min :: int where
  "datetime_min = -62135596800000000"

text \<open>The groups of a set of keys in the order of \<^verbatim>\<open>AuditGroup.Meta\<close>.\<close>

definition groups_in_order :: "database \<Rightarrow> nat list \<Rightarrow> nat list" where
  "groups_in_order db ids =
     map g_id (sort_key (\<lambda>g. (- g_updated_at g, - g_created_at g)) (filter (\<lambda>g. g_id g \<in> set ids) (db_groups db)))"

text \<open>The files older than the cutoff in the order of \<^verbatim>\<open>AuditFile.Meta\<close>, newest first.\<close>

definition stale_files :: "int \<Rightarrow> database \<Rightarrow> nat list" where
  "stale_files cutoff db = map af_id (sort_key (\<lambda>f. - af_created_at f) (filter (\<lambda>f. af_created_at f < cutoff) (db_files db)))"

definition prune_before :: "int \<Rightarrow> bool \<Rightarrow> database \<Rightarrow> database \<times> prune_outcome" where
  "prune_before cutoff dry_run db =
     (let stale = stale_files cutoff db;
          rejections = length (filter (\<lambda>r. ur_created_at r < cutoff) (db_rejections db));
          touched = touched_group_ids db stale
      in if stale = [] \<and> rejections = 0 then (db, NothingToPrune)
         else if dry_run then (db, DryRun (length stale) rejections (length touched))
         else (let db1 = db\<lparr>db_rejections := filter (\<lambda>r. \<not> ur_created_at r < cutoff) (db_rejections db)\<rparr>;
                   db2 = (if stale \<noteq> [] then delete_files stale db1 else db1);
                   (db3, ok) = rebuild_groups (groups_in_order db2 touched) db2
               in (db3, if ok then Pruned (length stale) rejections (length touched) else PruneFailed)))"

definition prune :: "int \<Rightarrow> int \<Rightarrow> prune_options \<Rightarrow> database \<Rightarrow> database \<times> prune_outcome" where
  "prune default_days now options db =
     (let retention_days = (case po_retention_days options of None \<Rightarrow> default_days | Some n \<Rightarrow> n);
          cutoff = now - retention_days * micros_per_day
      in if retention_days \<le> 0 then (db, PruneRefused)
         else if cutoff < datetime_min then (db, PruneOverflow)
         else prune_before cutoff (po_dry_run options) db)"

text \<open>\<^verbatim>\<open>retention_lock\<close>: another run that holds the advisory lock makes the command fail at once.\<close>

definition prune_audit_data :: "bool \<Rightarrow> int \<Rightarrow> int \<Rightarrow> prune_options \<Rightarrow> database \<Rightarrow> database \<times> prune_outcome" where
  "prune_audit_data locked default_days now options db =
     (if locked then (db, PruneBusy) else prune default_days now options db)"

section \<open>Purging\<close>

record purge_options =
  pu_dry_run :: bool
  pu_confirm :: bool

datatype purge_outcome = PurgeDryRun | PurgeRefused | Purged

text \<open>A saved report: its key and its group.\<close>

type_synonym saved_report = "nat \<times> nat"

definition audit_data_counts :: "database \<Rightarrow> saved_report list \<Rightarrow> (string \<times> nat) list" where
  "audit_data_counts db reports = (let pj = db_projections db in
     [(''audit_files'', length (db_files db)), (''audit_events'', length (db_events db)),
      (''audit_groups'', length (db_groups db)), (''saved_reports'', length reports),
      (''upload_rejections'', length (db_rejections db)), (''delivery_artifacts'', length (pj_artifacts pj)),
      (''delivery_observations'', length (pj_observations pj)), (''recipient_expectations'', length (pj_expectations pj)),
      (''network_observations'', length (pj_network pj)), (''convergence_runs'', length (pj_runs pj)),
      (''convergence_candidates'', length (pj_candidates pj)), (''convergence_rules'', length (pj_rules pj)),
      (''state_deltas'', length (pj_deltas pj)), (''epoch_transitions'', length (pj_transitions pj))])"

definition purge_audit_data ::
  "purge_options \<Rightarrow> database \<Rightarrow> saved_report list \<Rightarrow> database \<times> saved_report list \<times> purge_outcome" where
  "purge_audit_data options db reports =
     (if pu_dry_run options then (db, reports, PurgeDryRun)
      else if \<not> pu_confirm options then (db, reports, PurgeRefused)
      else (let db1 = delete_audit_files (map af_id (db_files db)) db;
                ids = map g_id (db_groups db1);
                db2 = delete_all_groups db1
            in (db2\<lparr>db_rejections := []\<rparr>, filter (\<lambda>(i, g). g \<notin> set ids) reports, Purged)))"

section \<open>The nightly schedule\<close>

text \<open>Three in the morning UTC of the same day, or of the next day when that is not later than now.\<close>

definition micros_until_next_run :: "int \<Rightarrow> int" where
  "micros_until_next_run now =
     (let next_run = now - now mod micros_per_day + 3 * 3600 * 1000000;
          next_run' = (if next_run \<le> now then next_run + micros_per_day else next_run)
      in next_run' - now)"

text \<open>
  One pass of the endless loop from its start: the prune, when enabled, takes some time and fails or
  not; then the process sleeps for five minutes after a failure and until the next run otherwise.
\<close>

definition loop_pass :: "bool \<Rightarrow> int \<Rightarrow> bool \<Rightarrow> int \<Rightarrow> int" where
  "loop_pass enabled duration failed start =
     (if enabled
      then (if failed then start + duration + 300 * 1000000
            else start + duration + micros_until_next_run (start + duration))
      else start + micros_until_next_run start)"

fun pass_start :: "bool \<Rightarrow> (nat \<Rightarrow> int) \<Rightarrow> (nat \<Rightarrow> bool) \<Rightarrow> int \<Rightarrow> nat \<Rightarrow> int" where
  "pass_start enabled duration failed start 0 = start"
| "pass_start enabled duration failed start (Suc n) =
     loop_pass enabled (duration n) (failed n) (pass_start enabled duration failed start n)"

section \<open>Deletion\<close>

text \<open>Deleting in batches is deleting at once.\<close>

lemma delete_events_twice:
  "delete_events_from_projections B (delete_events_from_projections A pj) = delete_events_from_projections (A \<union> B) pj"
  by (simp add: delete_events_from_projections_def conj_commute)

lemma delete_audit_files_twice: "delete_audit_files ys (delete_audit_files xs db) = delete_audit_files (xs @ ys) db"
proof -
  have "set (map ev_id (filter (\<lambda>e. ev_audit_file e \<in> set xs) es)) \<union>
      set (map ev_id (filter (\<lambda>e. ev_audit_file e \<notin> set xs \<and> ev_audit_file e \<in> set ys) es)) =
      set (map ev_id (filter (\<lambda>e. ev_audit_file e \<in> set xs \<or> ev_audit_file e \<in> set ys) es))" for es
    by auto
  note gone = this [of "db_events db"]
  show ?thesis by (simp add: delete_audit_files_def delete_events_twice gone del: set_map set_filter)
qed

lemma delete_no_files: "delete_audit_files [] db = db"
  by (simp add: delete_audit_files_def delete_events_from_projections_def)

lemma delete_files_eq: "delete_files ids db = delete_audit_files ids db"
proof -
  have "fold delete_audit_files bs (delete_audit_files xs db) = delete_audit_files (xs @ concat bs) db" for bs xs
    by (induction bs arbitrary: xs) (simp_all add: delete_audit_files_twice)
  from this [of _ "[]"] show ?thesis
    by (simp add: delete_files_def delete_no_files concat_batches DELETE_BATCH_SIZE_def)
qed

lemma delete_audit_files_simps [simp]:
  "db_files (delete_audit_files ids db) = filter (\<lambda>f. af_id f \<notin> set ids) (db_files db)"
  "db_events (delete_audit_files ids db) = filter (\<lambda>e. ev_audit_file e \<notin> set ids) (db_events db)"
  "db_groups (delete_audit_files ids db) = db_groups db"
  "db_rejections (delete_audit_files ids db) = db_rejections db"
  "db_next_group (delete_audit_files ids db) = db_next_group db"
  "db_next_file (delete_audit_files ids db) = db_next_file db"
  "db_next_event (delete_audit_files ids db) = db_next_event db"
  by (simp_all add: delete_audit_files_def)

lemma delete_events_tables_ok: "tables_ok pj \<Longrightarrow> tables_ok (delete_events_from_projections gone pj)"
  by (simp add: tables_ok_def artifacts_ok_def runs_ok_def delete_events_from_projections_def o_def
      artifact_key_def [abs_def] observation_key_def [abs_def] run_key_def [abs_def] list_all_iff)

text \<open>What every operation on the evidence keeps, the persisted rollups apart.\<close>

definition ledger_ok :: "database \<Rightarrow> bool" where
  "ledger_ok db \<longleftrightarrow> groups_keyed db \<and> evidence_ok db \<and> dedup_ok db \<and> tables_ok (db_projections db)"

lemma file_is_valid_filter:
  "P i \<Longrightarrow> file_is_valid (filter (\<lambda>f. P (af_id f)) files) i = file_is_valid files i"
  by (auto simp: file_is_valid_def list_ex_iff)

lemma delete_audit_files_ok:
  assumes "ledger_ok db"
  shows "ledger_ok (delete_audit_files ids db)"
proof -
  have "filter (\<lambda>e. file_is_valid (filter (\<lambda>f. af_id f \<notin> set ids) (db_files db)) (ev_audit_file e))
        (filter (\<lambda>e. ev_audit_file e \<notin> set ids) (db_events db)) =
      filter (\<lambda>e. ev_audit_file e \<notin> set ids) (filter (\<lambda>e. file_is_valid (db_files db) (ev_audit_file e)) (db_events db))"
    using file_is_valid_filter [where P = "\<lambda>i. i \<notin> set ids" and files = "db_files db"]
    by (simp add: conj_commute) (metis (mono_tags, lifting) filter_cong)
  then have "dedup_ok (delete_audit_files ids db)"
    using assms by (simp add: dedup_ok_def ledger_ok_def distinct_map_filter del: filter_filter)
  moreover have "evidence_ok (delete_audit_files ids db)"
    using assms by (auto simp: evidence_ok_def ledger_ok_def list_all_iff intro!: distinct_map_filter cong: option.case_cong)
  moreover have "groups_keyed (delete_audit_files ids db)" using assms by (simp add: groups_keyed_def ledger_ok_def)
  moreover have "tables_ok (db_projections (delete_audit_files ids db))"
    using assms by (simp add: ledger_ok_def delete_audit_files_def delete_events_tables_ok)
  ultimately show ?thesis by (simp add: ledger_ok_def)
qed

lemma ledger_ok_projections:
  "ledger_ok db \<Longrightarrow> tables_ok pj \<Longrightarrow> ledger_ok (db\<lparr>db_projections := pj, db_rejections := rs\<rparr>)"
  "ledger_ok db \<Longrightarrow> ledger_ok (db\<lparr>db_rejections := rs\<rparr>)"
  by (simp_all add: ledger_ok_def groups_keyed_def evidence_ok_def dedup_ok_def cong: option.case_cong)

section \<open>Rebuilding several groups\<close>

lemma rebuild_group_frame:
  assumes "rebuild_group_projections db g = Some db'"
  obtains pj where "db' = db\<lparr>db_projections := pj\<rparr>" "g \<in> g_id ` set (db_groups db)"
    "rebuild_locked_group_projections (db_files db) (db_events db) g (db_projections db) = Some pj"
  using assms by (auto simp: rebuild_group_projections_def list_ex_iff split: if_splits)

lemma rebuild_groups_frame: "\<exists>pj. fst (rebuild_groups gs db) = db\<lparr>db_projections := pj\<rparr>"
proof (induction gs arbitrary: db)
  case Nil
  show ?case by (rule exI [of _ "db_projections db"]) simp
next
  case (Cons g gs)
  show ?case
  proof (cases "rebuild_group_projections db g")
    case None
    then show ?thesis by (intro exI [of _ "db_projections db"]) simp
  next
    case (Some db')
    then obtain pj where "db' = db\<lparr>db_projections := pj\<rparr>" by (rule rebuild_group_frame)
    with Some Cons.IH [of db'] show ?thesis by auto
  qed
qed

definition group_exact :: "database \<Rightarrow> nat \<Rightarrow> bool" where
  "group_exact db g = artifacts_exact g (valid_events_for_group (db_files db) (db_events db) g) (db_projections db)"

lemma rebuild_group_exact:
  assumes "rebuild_group_projections db g = Some db'" "tables_ok (db_projections db)"
  shows "group_exact db' g" and "group_exact db h \<Longrightarrow> group_exact db' h"
proof -
  from assms(1) obtain pj where db': "db' = db\<lparr>db_projections := pj\<rparr>"
    and pj: "rebuild_locked_group_projections (db_files db) (db_events db) g (db_projections db) = Some pj"
    by (rule rebuild_group_frame)
  show g: "group_exact db' g" using rebuild_artifacts(1) [OF pj assms(2)] by (simp add: group_exact_def db')
  show "group_exact db' h" if h: "group_exact db h"
  proof (cases "h = g")
    case False
    let ?es = "valid_events_for_group (db_files db) (db_events db) h"
    have "artifacts.summarises (filter (\<lambda>a. da_group a = h) (pj_artifacts (db_projections db))) (inputs_of ?es)"
      using h unfolding group_exact_def by (rule exact_summarises [OF valid_events_group])
    from rebuild_artifacts(2) [OF pj assms(2) False this]
    have "artifacts_exact h ?es pj" by (rule summarises_exact [OF valid_events_group])
    then show ?thesis by (simp add: group_exact_def db')
  qed (simp add: g)
qed

lemma rebuild_groups_exact:
  assumes "rebuild_groups gs db = (db', True)" "tables_ok (db_projections db)"
  shows "g \<in> set gs \<or> group_exact db g \<Longrightarrow> group_exact db' g"
  using assms
proof (induction gs arbitrary: db)
  case (Cons x gs)
  then obtain db1 where step: "rebuild_group_projections db x = Some db1" "rebuild_groups gs db1 = (db', True)"
    by (auto split: option.splits)
  from step(1) obtain pj where "db1 = db\<lparr>db_projections := pj\<rparr>"
    and "rebuild_locked_group_projections (db_files db) (db_events db) x (db_projections db) = Some pj"
    by (rule rebuild_group_frame)
  then have ok: "tables_ok (db_projections db1)" using rebuild_locked_ok [OF _ Cons.prems(3)] by simp
  have "g \<in> set gs \<or> group_exact db1 g"
    using Cons.prems(1) rebuild_group_exact [OF step(1) Cons.prems(3)] by auto
  from Cons.IH [OF this step(2) ok] show ?case .
qed simp

section \<open>What a prune does\<close>

text \<open>Every run of the command leaves the database alone or deletes exactly the stale evidence and rebuilds.\<close>

definition pruned_evidence :: "int \<Rightarrow> database \<Rightarrow> database" where
  "pruned_evidence cutoff db =
     (delete_audit_files (stale_files cutoff db) db)\<lparr>db_rejections := filter (\<lambda>r. cutoff \<le> ur_created_at r) (db_rejections db)\<rparr>"

lemma stale_files_set: "set (stale_files cutoff db) = af_id ` {f \<in> set (db_files db). af_created_at f < cutoff}"
  by (simp add: stale_files_def)

lemma delete_files_rejections:
  "delete_audit_files ids (db\<lparr>db_rejections := rs\<rparr>) = (delete_audit_files ids db)\<lparr>db_rejections := rs\<rparr>"
  by (simp add: delete_audit_files_def)

lemma prune_before_cases:
  assumes "prune_before cutoff dry_run db = (db', out)"
  shows "db' = db \<and> (out = NothingToPrune \<or> (\<exists>i j k. out = DryRun i j k)) \<or>
    (\<exists>ok. rebuild_groups (groups_in_order db (touched_group_ids db (stale_files cutoff db))) (pruned_evidence cutoff db) = (db', ok) \<and>
      \<not> dry_run \<and> out = (if ok then Pruned (length (stale_files cutoff db))
        (length (filter (\<lambda>r. ur_created_at r < cutoff) (db_rejections db)))
        (length (touched_group_ids db (stale_files cutoff db))) else PruneFailed))"
proof -
  define stale where "stale = stale_files cutoff db"
  have p: "(if stale \<noteq> [] then delete_files stale (db\<lparr>db_rejections := rs\<rparr>) else db\<lparr>db_rejections := rs\<rparr>) =
      (delete_audit_files stale db)\<lparr>db_rejections := rs\<rparr>" for rs
    by (simp add: delete_files_eq delete_files_rejections delete_no_files)
  have order: "groups_in_order ((delete_audit_files stale db)\<lparr>db_rejections := rs\<rparr>) ids = groups_in_order db ids" for rs ids
    by (simp add: groups_in_order_def)
  show ?thesis
    using assms
    by (auto simp: prune_before_def Let_def stale_def [symmetric] p order pruned_evidence_def not_less
        split: prod.splits if_splits)
qed

lemma pruned_evidence_ok: "ledger_ok db \<Longrightarrow> ledger_ok (pruned_evidence cutoff db)"
  unfolding pruned_evidence_def by (intro ledger_ok_projections(2) delete_audit_files_ok)

lemma ledger_ok_rebuild:
  assumes "ledger_ok db" "rebuild_groups gs db = (db', ok)"
  shows "ledger_ok db'"
proof -
  obtain pj where "db' = db\<lparr>db_projections := pj\<rparr>" using rebuild_groups_frame [of gs db] assms(2) by auto
  moreover have "tables_ok (db_projections db')"
    using rebuild_groups_ok [of db gs] assms by (simp add: ledger_ok_def)
  ultimately show ?thesis using ledger_ok_projections(1) [OF assms(1), of pj "db_rejections db"] by simp
qed

lemma prune_result:
  assumes "prune_audit_data locked days now options db = (db', out)"
  obtains (same) "db' = db" "\<And>i j k. out \<noteq> Pruned i j k" | (pruned) cutoff ok where
    "rebuild_groups (groups_in_order db (touched_group_ids db (stale_files cutoff db))) (pruned_evidence cutoff db) = (db', ok)"
    "cutoff = now - (case po_retention_days options of None \<Rightarrow> days | Some n \<Rightarrow> n) * micros_per_day"
    "\<not> locked" "\<not> po_dry_run options" "cutoff < now"
    "out = (if ok then Pruned (length (stale_files cutoff db))
        (length (filter (\<lambda>r. ur_created_at r < cutoff) (db_rejections db)))
        (length (touched_group_ids db (stale_files cutoff db))) else PruneFailed)"
  using assms
  by (auto simp: prune_audit_data_def prune_def Let_def micros_per_day_def split: if_splits dest!: prune_before_cases)

lemma prune_ledger_ok:
  assumes "ledger_ok db" "prune_audit_data locked days now options db = (db', out)"
  shows "ledger_ok db'"
  using assms(2)
proof (cases rule: prune_result)
  case (pruned cutoff ok)
  show ?thesis by (rule ledger_ok_rebuild [OF pruned_evidence_ok [OF assms(1)] pruned(1)])
qed (simp add: assms(1))

text \<open>
  C20: retention deletes old evidence and nothing else. Whatever the outcome of the command, failures
  in the middle of a rebuild included, every file created at or after the cutoff is still there with
  all its events, every file and event that is left was there before, unchanged, and so are the
  groups; a run that reports success has removed every older file, with its events, and every older
  rejection; a dry run, a refused and a locked-out run change nothing.
\<close>

theorem prune_deletes_only_stale:
  assumes "distinct (map af_id (db_files db))" "prune_audit_data locked days now options db = (db', out)"
    and "cutoff = now - (case po_retention_days options of None \<Rightarrow> days | Some n \<Rightarrow> n) * micros_per_day"
  shows "(db' = db \<or> db_files db' = filter (\<lambda>f. cutoff \<le> af_created_at f) (db_files db) \<and>
      db_events db' = filter (\<lambda>e. ev_audit_file e \<notin> af_id ` {f \<in> set (db_files db). af_created_at f < cutoff}) (db_events db) \<and>
      db_rejections db' = filter (\<lambda>r. cutoff \<le> ur_created_at r) (db_rejections db)) \<and>
    db_groups db' = db_groups db \<and> (locked \<or> po_dry_run options \<longrightarrow> db' = db) \<and>
    (case out of Pruned files rejections groups \<Rightarrow>
       files = length (filter (\<lambda>f. af_created_at f < cutoff) (db_files db)) \<and>
       rejections = length (filter (\<lambda>r. ur_created_at r < cutoff) (db_rejections db)) \<and>
       list_all (\<lambda>f. cutoff \<le> af_created_at f) (db_files db') \<and> list_all (\<lambda>r. cutoff \<le> ur_created_at r) (db_rejections db')
     | _ \<Rightarrow> True)"
  using assms(2)
proof (cases rule: prune_result)
  case same
  then show ?thesis by (auto split: prune_outcome.splits)
next
  case (pruned c ok)
  have c: "c = cutoff" by (simp add: pruned(2) assms(3))
  obtain pj where db': "db' = (pruned_evidence cutoff db)\<lparr>db_projections := pj\<rparr>"
    using rebuild_groups_frame pruned(1) c by (metis fst_conv)
  have "af_id f \<in> set (stale_files cutoff db) \<longleftrightarrow> af_created_at f < cutoff" if "f \<in> set (db_files db)" for f
    using that assms(1) by (auto simp: stale_files_set image_iff dest: eq_key_imp_eq_value inj_onD [OF distinct_map [THEN iffD1, THEN conjunct2]])
  then have files: "db_files db' = filter (\<lambda>f. cutoff \<le> af_created_at f) (db_files db)"
    unfolding db' pruned_evidence_def by (auto intro!: filter_cong)
  have events: "db_events db' = filter (\<lambda>e. ev_audit_file e \<notin> af_id ` {f \<in> set (db_files db). af_created_at f < cutoff}) (db_events db)"
    by (simp add: db' pruned_evidence_def stale_files_set)
  have rest: "db_rejections db' = filter (\<lambda>r. cutoff \<le> ur_created_at r) (db_rejections db)" "db_groups db' = db_groups db"
    by (simp_all add: db' pruned_evidence_def)
  have "length (stale_files cutoff db) = length (filter (\<lambda>f. af_created_at f < cutoff) (db_files db))"
    by (simp add: stale_files_def)
  then show ?thesis
    using pruned(3,4,6) files events rest by (auto simp: c list_all_iff split: prune_outcome.splits if_splits)
qed

text \<open>
  An example: engine \<open>aa\<close> observed the message \<open>ab\<close> in file 1, which engine \<open>bb\<close>, active before and
  after, did not; the evidence of \<open>bb\<close> is in file 2, uploaded a year later.
\<close>

definition year_later :: int where
  "year_later = 365 * micros_per_day"

definition default_prune :: prune_options where
  "default_prune = \<lparr> po_retention_days = None, po_dry_run = False \<rparr>"

definition aging_event :: "nat \<Rightarrow> nat \<Rightarrow> string \<Rightarrow> int \<Rightarrow> string \<Rightarrow> audit_event" where
  "aging_event n file engine t m = (example_row n engine t m)\<lparr>ev_audit_file := file, ev_line_hash := nat_str n\<rparr>"

definition aging_evidence :: database where
  "aging_evidence = empty_database\<lparr>
     db_groups := [\<lparr> g_id = 1, g_name = ''g'', g_slug = ''g'', g_group_ref = ''01'', g_divergent_message_count = 1,
       g_notes = [], g_created_at = 0, g_updated_at = 0 \<rparr>],
     db_files := [example_v4_file 1, (example_v4_file 2)\<lparr>af_file_sha256 := ''02'', af_created_at := year_later\<rparr>],
     db_events := [aging_event 1 1 ''aa'' 5 ''ab'', aging_event 2 2 ''bb'' 1 [], aging_event 3 2 ''bb'' 9 []],
     db_next_group := 2, db_next_file := 3, db_next_event := 4 \<rparr>"

definition aging_db :: database where
  "aging_db = the (rebuild_group_projections aging_evidence 1)"

definition aged_db :: database where
  "aged_db = fst (prune_audit_data False 30 year_later default_prune aging_db)"

lemma aging_rebuilt: "rebuild_group_projections aging_evidence 1 = Some aging_db"
proof -
  have "rebuild_group_projections aging_evidence 1 \<noteq> None" by code_simp
  then show ?thesis by (simp add: aging_db_def)
qed

lemma aging_parts:
  "db_files aging_db = db_files aging_evidence" "db_events aging_db = db_events aging_evidence"
  "db_groups aging_db = db_groups aging_evidence" "db_rejections aging_db = []"
  "db_next_group aging_db = 2" "db_next_file aging_db = 3" "db_next_event aging_db = 4"
proof -
  obtain pj where frame: "aging_db = aging_evidence\<lparr>db_projections := pj\<rparr>"
    using aging_rebuilt by (rule rebuild_group_frame)
  show "db_files aging_db = db_files aging_evidence" "db_events aging_db = db_events aging_evidence"
    "db_groups aging_db = db_groups aging_evidence" "db_rejections aging_db = []"
    "db_next_group aging_db = 2" "db_next_file aging_db = 3" "db_next_event aging_db = 4"
    unfolding frame by (simp_all add: aging_evidence_def empty_database_def)
qed

lemma aging_event_simps [simp]:
  "ev_id (aging_event n file engine t m) = n" "ev_audit_file (aging_event n file engine t m) = file"
  "ev_group (aging_event n file engine t m) = Some 1" "event_key (aging_event n file engine t m) = (nat_str n, engine)"
  by (simp_all add: aging_event_def example_row_def event_key_def)

lemma aging_file_simps [simp]:
  "af_id (example_v4_file n) = n" "af_validation_status (example_v4_file n) = STATUS_VALID"
  "af_file_sha256 (example_v4_file n) = []"
  by (simp_all add: example_v4_file_def example_file_def)

lemma aging_evidence_ok: "ledger_ok aging_evidence"
proof -
  have "distinct (map nat_str [1, 2, 3])" by code_simp
  then have "dedup_ok aging_evidence" by (simp add: dedup_ok_def aging_evidence_def file_is_valid_def)
  moreover have "evidence_ok aging_evidence" by (simp add: evidence_ok_def aging_evidence_def)
  moreover have "groups_keyed aging_evidence" by (simp add: groups_keyed_def aging_evidence_def)
  moreover have "tables_ok (db_projections aging_evidence)"
    using empty_database_ok by (simp add: db_ok_def aging_evidence_def)
  ultimately show ?thesis by (simp add: ledger_ok_def)
qed

lemma aging_ok: "ledger_ok aging_db" "list_all (group_exact aging_db) (map g_id (db_groups aging_db))"
proof -
  have tables: "tables_ok (db_projections aging_evidence)" using aging_evidence_ok by (simp add: ledger_ok_def)
  have "rebuild_groups [1] aging_evidence = (aging_db, True)" by (simp add: aging_rebuilt del: One_nat_def)
  then show "ledger_ok aging_db" by (rule ledger_ok_rebuild [OF aging_evidence_ok])
  show "list_all (group_exact aging_db) (map g_id (db_groups aging_db))"
    using rebuild_group_exact(1) [OF aging_rebuilt tables] by (simp add: aging_parts aging_evidence_def)
qed

lemma aging_pruned: "prune_audit_data False 30 year_later default_prune aging_db = (aged_db, Pruned 1 0 1)"
proof -
  have "snd (prune_audit_data False 30 year_later default_prune aging_db) = Pruned 1 0 1" by code_simp
  then show ?thesis unfolding aged_db_def by (metis prod.collapse)
qed

lemma aged_parts:
  "map af_id (db_files aged_db) = [2]" "map ev_id (db_events aged_db) = [2, 3]"
  "map g_divergent_message_count (db_groups aged_db) = [1]"
  "divergent_counts_for_group_ids (db_files aged_db) (db_events aged_db) [1] = [(1, 0)]"
proof -
  from aging_pruned obtain cutoff ok where run: "rebuild_groups (groups_in_order aging_db
      (touched_group_ids aging_db (stale_files cutoff aging_db))) (pruned_evidence cutoff aging_db) = (aged_db, ok)"
    and cutoff: "cutoff = year_later - 30 * micros_per_day"
    by (cases rule: prune_result) (blast, simp add: default_prune_def)
  obtain pj where aged: "aged_db = (pruned_evidence cutoff aging_db)\<lparr>db_projections := pj\<rparr>"
    using rebuild_groups_frame run by (metis fst_conv)
  have "stale_files cutoff aging_evidence = [1]" unfolding cutoff by code_simp
  then have stale: "stale_files cutoff aging_db = [1]" by (simp add: stale_files_def aging_parts)
  have parts: "db_files aged_db = filter (\<lambda>f. af_id f \<noteq> 1) (db_files aging_evidence)"
    "db_events aged_db = filter (\<lambda>e. ev_audit_file e \<noteq> 1) (db_events aging_evidence)"
    "db_groups aged_db = db_groups aging_evidence"
    by (simp_all add: aged pruned_evidence_def stale aging_parts)
  show "map af_id (db_files aged_db) = [2]" "map ev_id (db_events aged_db) = [2, 3]"
    "map g_divergent_message_count (db_groups aged_db) = [1]"
    "divergent_counts_for_group_ids (db_files aged_db) (db_events aged_db) [1] = [(1, 0)]"
    unfolding parts by code_simp+
qed

theorem prune_deletes_only_stale_witness:
  "list_all (\<lambda>f. year_later - 30 * micros_per_day \<le> af_created_at f) (db_files aged_db) \<and>
   map af_id (db_files aging_db) = [1, 2] \<and> map af_id (db_files aged_db) = [2]"
proof -
  have "map af_id (db_files aging_db) = [1, 2]" unfolding aging_parts by code_simp
  then show ?thesis
    using aged_parts(1) prune_deletes_only_stale [OF _ aging_pruned refl] by (simp add: default_prune_def)
qed

subsection \<open>Derived rows after a prune\<close>

lemma counted_event_filter:
  "P (ev_audit_file e) \<Longrightarrow> counted_event (filter (\<lambda>f. P (af_id f)) files) e = counted_event files e"
  by (auto simp: counted_event_def event_file_ok_def list_ex_iff)

lemma untouched_exact:
  assumes ok: "evidence_ok db" and exact: "group_exact db g"
    and untouched: "\<And>e. e \<in> set (db_events db) \<Longrightarrow> ev_group e = Some g \<Longrightarrow> ev_audit_file e \<notin> set ids"
  shows "group_exact (delete_audit_files ids db) g"
proof -
  let ?es = "valid_events_for_group (db_files db) (db_events db) g"
  let ?gone = "set (map ev_id (filter (\<lambda>e. ev_audit_file e \<in> set ids) (db_events db)))"
  let ?rows = "filter (\<lambda>a. da_group a = g) (pj_artifacts (db_projections db))"
  let ?drop = "\<lambda>a. a\<lparr>da_evidence_events := filter (\<lambda>e. e \<notin> ?gone) (da_evidence_events a)\<rparr>"
  have same: "set (valid_events_for_group (db_files (delete_audit_files ids db)) (db_events (delete_audit_files ids db)) g) = set ?es"
    using untouched counted_event_filter [where P = "\<lambda>i. i \<notin> set ids" and files = "db_files db"]
    by (auto simp: set_valid_events)
  have ids: "x \<notin> ?gone" if "x \<in> ev_id ` set ?es" for x
  proof
    assume "x \<in> ?gone"
    with that obtain e e' where "e \<in> set (db_events db)" "e' \<in> set (db_events db)" "ev_id e = ev_id e'"
      "ev_group e = Some g" "ev_audit_file e' \<in> set ids" by (auto simp: set_valid_events)
    moreover have "inj_on ev_id (set (db_events db))" using ok by (simp add: evidence_ok_def distinct_map)
    ultimately show False using untouched by (metis inj_onD)
  qed
  have "?drop a = a" if "a \<in> set ?rows" for a
  proof -
    have "set (da_evidence_events a) \<subseteq> ev_id ` set ?es"
      using exact that by (auto simp: group_exact_def artifacts_exact_def Let_def list_all_iff)
    then have "filter (\<lambda>e. e \<notin> ?gone) (da_evidence_events a) = da_evidence_events a"
      using ids by (intro filter_True) blast
    then show ?thesis by (simp del: set_map set_filter)
  qed
  then have "map ?drop ?rows = ?rows" by (rule map_idI)
  moreover have "filter (\<lambda>a. da_group a = g) (pj_artifacts (db_projections (delete_audit_files ids db))) = map ?drop ?rows"
    by (simp add: delete_audit_files_def delete_events_from_projections_def filter_map o_def del: set_map set_filter)
  ultimately have rows: "filter (\<lambda>a. da_group a = g) (pj_artifacts (db_projections (delete_audit_files ids db))) = ?rows"
    by (simp only:)
  show ?thesis
    using exact unfolding group_exact_def artifacts_exact_cong [OF same] by (simp only: artifacts_exact_def rows)
qed

lemma touched_by_event:
  assumes "evidence_ok db" "e \<in> set (db_events db)" "ev_group e = Some g" "ev_audit_file e \<in> set ids"
  shows "g \<in> set (touched_group_ids db ids)"
proof -
  obtain f where "f \<in> set (db_files db)" "af_id f = ev_audit_file e"
    using assms(1,2) by (auto simp: evidence_ok_def list_all_iff)
  then show ?thesis
    using assms(2-4) unfolding touched_group_ids_def set_sorted_set
    by (auto simp: image_iff intro!: exI [of _ f] exI [of _ e])
qed

text \<open>
  C21: a prune leaves derived artifacts that match the evidence that is left. If before the run the
  artifacts of every group were exactly those its counted events refer to, with their times and
  evidence, then they are so after a successful run: groups that lost evidence are rebuilt, and no
  other group had any evidence in a deleted file.
\<close>

theorem prune_keeps_artifacts_exact:
  assumes ok: "ledger_ok db" and exact: "list_all (group_exact db) (map g_id (db_groups db))"
    and run: "prune_audit_data locked days now options db = (db', Pruned i j k)"
  shows "list_all (group_exact db') (map g_id (db_groups db'))"
  using run
proof (cases rule: prune_result)
  case (pruned cutoff rebuilt)
  define ids where "ids = stale_files cutoff db"
  have ev: "evidence_ok db" using ok by (simp add: ledger_ok_def)
  have run': "rebuild_groups (groups_in_order db (touched_group_ids db ids)) (pruned_evidence cutoff db) = (db', True)"
    using pruned(1,6) by (auto simp: ids_def split: if_splits)
  obtain pj where "db' = (pruned_evidence cutoff db)\<lparr>db_projections := pj\<rparr>"
    using rebuild_groups_frame run' by (metis fst_conv)
  then have groups: "db_groups db' = db_groups db" by (simp add: pruned_evidence_def)
  have "group_exact db' g" if g: "g \<in> g_id ` set (db_groups db)" for g
  proof (rule rebuild_groups_exact [OF run'])
    show "tables_ok (db_projections (pruned_evidence cutoff db))"
      using pruned_evidence_ok [OF ok] by (simp add: ledger_ok_def)
    show "g \<in> set (groups_in_order db (touched_group_ids db ids)) \<or> group_exact (pruned_evidence cutoff db) g"
    proof (cases "g \<in> set (touched_group_ids db ids)")
      case True
      then show ?thesis using g by (auto simp: groups_in_order_def)
    next
      case False
      have "group_exact (delete_audit_files ids db) g"
        using exact g False by (intro untouched_exact [OF ev]) (auto simp: list_all_iff dest: touched_by_event [OF ev])
      then show ?thesis by (simp add: pruned_evidence_def ids_def [symmetric] group_exact_def)
    qed
  qed
  then show ?thesis by (simp add: groups list_all_iff)
next
  case same
  then show ?thesis using exact by blast
qed

theorem prune_keeps_artifacts_exact_witness:
  "list_all (group_exact aged_db) (map g_id (db_groups aged_db)) \<and> map ev_id (db_events aged_db) = [2, 3]"
  using prune_keeps_artifacts_exact [OF aging_ok aging_pruned] aged_parts(2) by blast


end
