(* ===== verification/Lifecycle.thy ===== *)
theory Lifecycle
  imports Retention
begin

text \<open>
  The life of an audit database: what a purge leaves behind, when the nightly prune runs, and what
  holds after any sequence of uploads, rebuilds, prunes and purges.
\<close>

section \<open>What a purge does\<close>

text \<open>
  The foreign keys of the derived tables and of the saved reports, as the database enforces them.
\<close>

definition references_ok :: "database \<Rightarrow> saved_report list \<Rightarrow> bool" where
  "references_ok db reports \<longleftrightarrow>
     (let pj = db_projections db; groups = g_id ` set (db_groups db); events = ev_id ` set (db_events db);
          artifacts = da_id ` set (pj_artifacts pj); runs = cr_id ` set (pj_runs pj)
      in list_all (\<lambda>(i, g). g \<in> groups) reports \<and>
         list_all (\<lambda>e. ev_audit_file e \<in> af_id ` set (db_files db)) (db_events db) \<and>
         list_all (\<lambda>a. da_group a \<in> groups) (pj_artifacts pj) \<and> list_all (\<lambda>r. cr_group r \<in> groups) (pj_runs pj) \<and>
         list_all (\<lambda>d. dv_artifact d \<in> artifacts) (pj_observations pj) \<and>
         list_all (\<lambda>x. re_artifact x \<in> artifacts) (pj_expectations pj) \<and>
         list_all (\<lambda>n. no_audit_event n \<in> events) (pj_network pj) \<and>
         list_all (\<lambda>c. cc_run c \<in> runs) (pj_candidates pj) \<and> list_all (\<lambda>c. ce_run c \<in> runs) (pj_rules pj) \<and>
         list_all (\<lambda>d. sd_audit_event d \<in> events) (pj_deltas pj) \<and>
         list_all (\<lambda>t. et_audit_event t \<in> events) (pj_transitions pj))"

lemma clear_groups_artifacts:
  "pj_artifacts (fold clear_group_projections gs pj) = filter (\<lambda>a. da_group a \<notin> set gs) (pj_artifacts pj)"
  "pj_runs (fold clear_group_projections gs pj) = filter (\<lambda>r. cr_group r \<notin> set gs) (pj_runs pj)"
  by (induction gs arbitrary: pj)
    (auto simp: clear_group_projections_def Let_def intro!: filter_cong)

text \<open>Rows that hang on an artifact or run of a cleared group go with it.\<close>

lemma clear_group_simps:
  "set (pj_artifacts (clear_group_projections g pj)) = {a \<in> set (pj_artifacts pj). da_group a \<noteq> g}"
  "set (pj_runs (clear_group_projections g pj)) = {r \<in> set (pj_runs pj). cr_group r \<noteq> g}"
  "set (pj_observations (clear_group_projections g pj)) =
     {d \<in> set (pj_observations pj). dv_artifact d \<notin> da_id ` {a \<in> set (pj_artifacts pj). da_group a = g}}"
  "set (pj_expectations (clear_group_projections g pj)) =
     {x \<in> set (pj_expectations pj). re_artifact x \<notin> da_id ` {a \<in> set (pj_artifacts pj). da_group a = g}}"
  "set (pj_candidates (clear_group_projections g pj)) =
     {c \<in> set (pj_candidates pj). cc_run c \<notin> cr_id ` {r \<in> set (pj_runs pj). cr_group r = g}}"
  "set (pj_rules (clear_group_projections g pj)) =
     {c \<in> set (pj_rules pj). ce_run c \<notin> cr_id ` {r \<in> set (pj_runs pj). cr_group r = g}}"
  by (simp_all add: clear_group_projections_def Let_def)

lemma clear_groups_dependents:
  shows "set (pj_observations (fold clear_group_projections gs pj)) \<subseteq>
     {d \<in> set (pj_observations pj). dv_artifact d \<notin> da_id ` {a \<in> set (pj_artifacts pj). da_group a \<in> set gs}}" (is ?obs)
    and "set (pj_expectations (fold clear_group_projections gs pj)) \<subseteq>
     {x \<in> set (pj_expectations pj). re_artifact x \<notin> da_id ` {a \<in> set (pj_artifacts pj). da_group a \<in> set gs}}" (is ?exp)
    and "set (pj_candidates (fold clear_group_projections gs pj)) \<subseteq>
     {c \<in> set (pj_candidates pj). cc_run c \<notin> cr_id ` {r \<in> set (pj_runs pj). cr_group r \<in> set gs}}" (is ?cand)
    and "set (pj_rules (fold clear_group_projections gs pj)) \<subseteq>
     {c \<in> set (pj_rules pj). ce_run c \<notin> cr_id ` {r \<in> set (pj_runs pj). cr_group r \<in> set gs}}" (is ?rules)
proof (induction gs arbitrary: pj)
  case (Cons g gs)
  have split: "f ` {a \<in> S. k a \<in> set (g # gs)} = f ` {a \<in> S. k a = g} \<union> f ` {a \<in> {a \<in> S. k a \<noteq> g}. k a \<in> set gs}"
    for f :: "'x \<Rightarrow> nat" and S and k :: "'x \<Rightarrow> nat" by auto
  { case 1 show ?case using Cons.IH(1) [of "clear_group_projections g pj"] unfolding split clear_group_simps by auto }
  { case 2 show ?case using Cons.IH(2) [of "clear_group_projections g pj"] unfolding split clear_group_simps by auto }
  { case 3 show ?case using Cons.IH(3) [of "clear_group_projections g pj"] unfolding split clear_group_simps by auto }
  { case 4 show ?case using Cons.IH(4) [of "clear_group_projections g pj"] unfolding split clear_group_simps by auto }
qed simp_all

lemma none_left: "A \<subseteq> {d \<in> B. f d \<notin> S} \<Longrightarrow> f ` B \<subseteq> S \<Longrightarrow> A = {}"
  by auto

lemma clear_groups_shrinks:
  "pj_network pj = [] \<Longrightarrow> pj_network (fold clear_group_projections gs pj) = []"
  "pj_deltas pj = [] \<Longrightarrow> pj_deltas (fold clear_group_projections gs pj) = []"
  "pj_transitions pj = [] \<Longrightarrow> pj_transitions (fold clear_group_projections gs pj) = []"
  by (induction gs arbitrary: pj) (simp_all add: clear_group_projections_def Let_def)

lemma clear_groups_ok: "tables_ok pj \<Longrightarrow> tables_ok (fold clear_group_projections gs pj)"
  by (induction gs arbitrary: pj) (simp_all add: clear_ok)

text \<open>
  A confirmed purge empties every audit table and keeps the database consistent, so that uploads
  go on with new keys; without the confirmation, and on a dry run, nothing changes. The foreign keys
  of the derived tables hold before the run.
\<close>

theorem purge_empties_audit_tables:
  assumes refs: "references_ok db reports" and ok: "ledger_ok db"
    and run: "purge_audit_data options db reports = (db', reports', out)"
  shows "if pu_confirm options \<and> \<not> pu_dry_run options
    then out = Purged \<and> list_all (\<lambda>(name, n). n = 0) (audit_data_counts db' reports') \<and> db_ok db' \<and>
      (db_next_file db', db_next_event db', db_next_group db') = (db_next_file db, db_next_event db, db_next_group db)
    else (db', reports') = (db, reports) \<and> out \<noteq> Purged"
proof (cases "pu_confirm options \<and> \<not> pu_dry_run options")
  case True
  define pj where "pj = delete_events_from_projections (ev_id ` set (db_events db)) (db_projections db)"
  define ids where "ids = map g_id (db_groups db)"
  have all: "filter (\<lambda>e. ev_audit_file e \<in> af_id ` set (db_files db)) (db_events db) = db_events db"
    "filter (\<lambda>e. ev_audit_file e \<notin> af_id ` set (db_files db)) (db_events db) = []"
    using refs by (auto simp: references_ok_def Let_def list_all_iff filter_empty_conv)
  have db1: "delete_audit_files (map af_id (db_files db)) db = db\<lparr>db_files := [], db_events := [], db_projections := pj\<rparr>"
    by (simp add: delete_audit_files_def all pj_def filter_empty_conv)
  have db': "db' = db\<lparr>db_groups := [], db_files := [], db_events := [], db_rejections := [],
      db_projections := fold clear_group_projections ids pj\<rparr>"
    and out: "out = Purged" "reports' = filter (\<lambda>(i, g). g \<notin> set ids) reports"
    using run True by (auto simp: purge_audit_data_def db1 Let_def delete_all_groups_def ids_def)
  have "pj_network pj = []" "pj_deltas pj = []" "pj_transitions pj = []"
    using refs by (auto simp: pj_def delete_events_from_projections_def references_ok_def Let_def list_all_iff filter_empty_conv)
  note gone = clear_groups_shrinks(1) [OF this(1)] clear_groups_shrinks(2) [OF this(2)] clear_groups_shrinks(3) [OF this(3)]
  have groups: "\<forall>a \<in> set (pj_artifacts pj). da_group a \<in> set ids" "\<forall>r \<in> set (pj_runs pj). cr_group r \<in> set ids"
    using refs by (auto simp: pj_def delete_events_from_projections_def references_ok_def Let_def list_all_iff ids_def)
  then have every: "{a \<in> set (pj_artifacts pj). da_group a \<in> set ids} = set (pj_artifacts pj)"
    "{r \<in> set (pj_runs pj). cr_group r \<in> set ids} = set (pj_runs pj)" by blast+
  have dep: "dv_artifact ` set (pj_observations pj) \<subseteq> da_id ` set (pj_artifacts pj)"
    "re_artifact ` set (pj_expectations pj) \<subseteq> da_id ` set (pj_artifacts pj)"
    "cc_run ` set (pj_candidates pj) \<subseteq> cr_id ` set (pj_runs pj)" "ce_run ` set (pj_rules pj) \<subseteq> cr_id ` set (pj_runs pj)"
    using refs by (auto simp: pj_def delete_events_from_projections_def references_ok_def Let_def list_all_iff image_image)
  have "pj_artifacts (fold clear_group_projections ids pj) = []" "pj_runs (fold clear_group_projections ids pj) = []"
    using groups by (auto simp: clear_groups_artifacts filter_empty_conv)
  moreover have "set (pj_observations (fold clear_group_projections ids pj)) = {}"
    "set (pj_expectations (fold clear_group_projections ids pj)) = {}"
    "set (pj_candidates (fold clear_group_projections ids pj)) = {}" "set (pj_rules (fold clear_group_projections ids pj)) = {}"
    using clear_groups_dependents [of ids pj, unfolded every, THEN none_left] dep by simp_all
  moreover have "reports' = []"
    using refs by (auto simp: out references_ok_def Let_def list_all_iff ids_def filter_empty_conv)
  ultimately have "list_all (\<lambda>(name, n). n = 0) (audit_data_counts db' reports')"
    using gone by (simp add: audit_data_counts_def Let_def db')
  moreover have "tables_ok (fold clear_group_projections ids pj)"
    using ok by (intro clear_groups_ok) (simp add: pj_def delete_events_tables_ok ledger_ok_def)
  then have "db_ok db'"
    using ok by (simp add: db_ok_def db' ledger_ok_def groups_keyed_def evidence_ok_def dedup_ok_def rollups_ok_def id_counts_def)
  ultimately show ?thesis using True out(1) by (simp add: db')
next
  case False
  then show ?thesis using run by (auto simp: purge_audit_data_def split: if_splits)
qed

theorem purge_empties_audit_tables_witness:
  "list_all (\<lambda>(name, n). n = 0)
     (audit_data_counts (fst (purge_audit_data \<lparr> pu_dry_run = False, pu_confirm = True \<rparr> aging_evidence [(1, 1)]))
       (fst (snd (purge_audit_data \<lparr> pu_dry_run = False, pu_confirm = True \<rparr> aging_evidence [(1, 1)]))))"
proof -
  have "references_ok aging_evidence [(1, 1)]"
    by (simp add: references_ok_def aging_evidence_def empty_database_def empty_projections_def)
  from purge_empties_audit_tables [OF this aging_evidence_ok, of "\<lparr> pu_dry_run = False, pu_confirm = True \<rparr>"]
  show ?thesis by (metis (no_types, lifting) prod.collapse purge_options.select_convs)
qed

section \<open>When the prune runs\<close>

lemma next_run:
  "0 < micros_until_next_run now" "micros_until_next_run now \<le> micros_per_day"
  "(now + micros_until_next_run now) mod micros_per_day = 3 * 3600 * 1000000"
proof -
  define q r where "q = now div micros_per_day" and "r = now mod micros_per_day"
  have now: "now = q * micros_per_day + r" by (simp add: q_def r_def)
  have r: "0 \<le> r" "r < micros_per_day" by (simp_all add: r_def micros_per_day_def)
  have step: "micros_until_next_run now = (if 10800000000 \<le> r then 10800000000 + micros_per_day - r else 10800000000 - r)"
    by (simp add: micros_until_next_run_def Let_def r_def [symmetric])
  show "0 < micros_until_next_run now" "micros_until_next_run now \<le> micros_per_day"
    using r by (simp_all add: step micros_per_day_def)
  have "now + micros_until_next_run now = (q + (if 10800000000 \<le> r then 1 else 0)) * micros_per_day + 10800000000"
    unfolding step using now by (simp add: algebra_simps)
  then show "(now + micros_until_next_run now) mod micros_per_day = 3 * 3600 * 1000000"
    by (simp add: micros_per_day_def)
qed

lemma pass_grows:
  assumes "\<And>n. 0 \<le> duration n"
  shows "pass_start enabled duration failed start n < pass_start enabled duration failed start (Suc n)"
    and "pass_start enabled duration failed start (Suc n) \<le> pass_start enabled duration failed start n + duration n + micros_per_day"
proof -
  let ?t = "pass_start enabled duration failed start n"
  note wake = next_run(1,2) [of "?t + duration n"] next_run(1,2) [of ?t]
  show "?t < pass_start enabled duration failed start (Suc n)"
    using assms [of n] wake by (auto simp: loop_pass_def)
  show "pass_start enabled duration failed start (Suc n) \<le> ?t + duration n + micros_per_day"
    using assms [of n] wake by (auto simp: loop_pass_def micros_per_day_def)
qed

text \<open>
  C23: the retention service keeps running. Its passes never stop: after any moment there is another
  pass; a pass starts at the latest one day after the work of the one before ended, and never at once,
  so the service does not spin; and after a successful or a disabled pass it wakes at three o'clock UTC.
\<close>

theorem retention_keeps_running:
  assumes "\<And>n. 0 \<le> duration n"
  shows "(\<exists>n. t < pass_start enabled duration failed start n) \<and>
    pass_start enabled duration failed start n < pass_start enabled duration failed start (Suc n) \<and>
    pass_start enabled duration failed start (Suc n) \<le> pass_start enabled duration failed start n + duration n + micros_per_day \<and>
    (enabled \<and> failed n \<or> pass_start enabled duration failed start (Suc n) mod micros_per_day = 3 * 3600 * 1000000)"
proof -
  have "start + int k \<le> pass_start enabled duration failed start k" for k
  proof (induction k)
    case (Suc k)
    have "pass_start enabled duration failed start k + 1 \<le> pass_start enabled duration failed start (Suc k)"
      using pass_grows(1) [of duration enabled failed start k] assms by simp
    moreover have "start + int (Suc k) = (start + int k) + 1" by simp
    ultimately show ?case using Suc by linarith
  qed simp
  from this [of "nat (t - start + 1)"] have "\<exists>n. t < pass_start enabled duration failed start n"
    by (intro exI [of _ "nat (t - start + 1)"]) linarith
  moreover have "enabled \<and> failed n \<or> pass_start enabled duration failed start (Suc n) mod micros_per_day = 3 * 3600 * 1000000"
    using next_run(3) by (auto simp: loop_pass_def)
  ultimately show ?thesis using pass_grows [of duration enabled failed start n] assms by blast
qed

theorem retention_keeps_running_witness:
  "\<exists>n. 10 ^ 20 < pass_start True (\<lambda>n. 1000000) (\<lambda>n. n = 0) 0 n"
  using retention_keeps_running [of "\<lambda>n. 1000000" "10 ^ 20" True "\<lambda>n. n = 0" 0] by simp

section \<open>The life of a database\<close>

text \<open>The operations that change the audit tables, in any order and under any circumstances.\<close>

inductive audit_step :: "database \<Rightarrow> database \<Rightarrow> bool" where
  upload: "ingest_audit_log_bytes rt ci args db = (db', out) \<Longrightarrow> audit_step db db'"
| rebuild: "rebuild_audit_projections db selectors ids = (db', ok) \<Longrightarrow> audit_step db db'"
| prune: "prune_audit_data locked days now options db = (db', pruned) \<Longrightarrow> audit_step db db'"
| purge: "purge_audit_data options' db reports = (db', reports', purged) \<Longrightarrow> audit_step db db'"

text \<open>What identifies a stored file and a stored event, and never changes.\<close>

definition file_identity :: "audit_file \<Rightarrow> nat \<times> string \<times> string \<times> nat" where
  "file_identity f = (af_id f, af_file_sha256 f, af_raw_text f, af_byte_size f)"

definition event_identity :: "audit_event \<Rightarrow> nat \<times> nat \<times> nat \<times> string \<times> string \<times> json" where
  "event_identity e = (ev_id e, ev_audit_file e, ev_line_number e, ev_line_hash e, ev_raw_line e, ev_raw_kind e)"

text \<open>The later database has from the earlier one at most what it held; what is new has new keys.\<close>

definition descends :: "database \<Rightarrow> database \<Rightarrow> bool" where
  "descends db db' \<longleftrightarrow> db_next_file db \<le> db_next_file db' \<and> db_next_event db \<le> db_next_event db' \<and>
     (\<forall>f \<in> set (db_files db'). af_id f < db_next_file db \<longrightarrow> file_identity f \<in> file_identity ` set (db_files db)) \<and>
     (\<forall>e \<in> set (db_events db'). ev_id e < db_next_event db \<longrightarrow> event_identity e \<in> event_identity ` set (db_events db))"

lemma descends_refl: "descends db db"
  by (simp add: descends_def)

lemma descends_trans:
  assumes "descends db db1" "descends db1 db2"
  shows "descends db db2"
  unfolding descends_def
proof (intro conjI ballI impI)
  show "db_next_file db \<le> db_next_file db2" "db_next_event db \<le> db_next_event db2"
    using assms by (simp_all add: descends_def)
next
  fix f assume f: "f \<in> set (db_files db2)" "af_id f < db_next_file db"
  then obtain f1 where f1: "f1 \<in> set (db_files db1)" "file_identity f = file_identity f1"
    using assms by (fastforce simp: descends_def)
  then have "af_id f1 = af_id f" by (simp add: file_identity_def)
  then show "file_identity f \<in> file_identity ` set (db_files db)" using f f1 assms(1) by (simp add: descends_def)
next
  fix e assume e: "e \<in> set (db_events db2)" "ev_id e < db_next_event db"
  then obtain e1 where e1: "e1 \<in> set (db_events db1)" "event_identity e = event_identity e1"
    using assms by (fastforce simp: descends_def)
  then have "ev_id e1 = ev_id e" by (simp add: event_identity_def)
  then show "event_identity e \<in> event_identity ` set (db_events db)" using e e1 assms(1) by (simp add: descends_def)
qed

lemma descends_subset:
  assumes "file_identity ` set (db_files db') \<subseteq> file_identity ` set (db_files db)"
    and "event_identity ` set (db_events db') \<subseteq> event_identity ` set (db_events db)"
    and "db_next_file db' = db_next_file db" "db_next_event db' = db_next_event db"
  shows "descends db db'"
  using assms by (auto simp: descends_def)

lemma ingest_cases:
  assumes "ledger_ok db" "ingest_audit_log_bytes rt ci args db = (db', out)"
  obtains (refused) row where "db' = db \<or> db' = db\<lparr>db_rejections := db_rejections db @ [row]\<rparr>"
  | (stored) raw lines src db1 gk es dups gs f where "validate_upload rt (ua_dump_bytes args) = Inr (raw, lines)"
    "sha256_hexdigest rt (ua_dump_bytes args) \<notin> af_file_sha256 ` set (db_files db)"
    "commits rt args raw lines src db db' db1 gk es dups gs f"
proof (cases "\<exists>i. out = Ingested i True")
  case True
  moreover have "groups_keyed db" "evidence_ok db" using assms(1) by (simp_all add: ledger_ok_def)
  ultimately show ?thesis using stored assms(2) by (metis ingest_commits)
next
  case False
  then show ?thesis using refused ingest_not_created [OF assms(2)] by metis
qed

lemma ingest_step:
  assumes ok: "ledger_ok db" and run: "ingest_audit_log_bytes rt ci args db = (db', out)"
  shows "ledger_ok db'" and "descends db db'"
proof -
  have "ledger_ok db' \<and> descends db db'"
    using ok run
  proof (cases rule: ingest_cases)
    case (refused row)
    then show ?thesis using ok ledger_ok_projections(2) by (auto intro: descends_subset)
  next
    case (stored raw lines src db1 gk es dups gs f)
    note c = stored(3) and data = accepted_lines_data(1) [OF stored(1)]
    have "tables_ok (db_projections db')" using c ok by (simp add: commits_def ledger_ok_def)
    then have "ledger_ok db'"
      using ok commits_group_ids(5) [OF c] commits_evidence [OF c _ data stored(2)] commits_dedup [OF c _ _ data]
      by (simp add: ledger_ok_def)
    moreover have "map ev_id es = [db_next_event db..<db_next_event db + length es]"
      using commits_loop [OF c data] by (simp add: loop_ok_def)
    then have new: "\<not> ev_id e < db_next_event db" if "e \<in> set es" for e
      using that by (metis atLeastLessThan_iff image_eqI not_less set_map set_upt)
    have "db_files db' = db_files db @ [stored_file f (sorted_set gs) dups]" "db_events db' = db_events db @ es"
      "db_next_file db' = Suc (db_next_file db)" "db_next_event db' = db_next_event db + length es"
      using c by (simp_all add: commits_def)
    then have "descends db db'" using new commitsD(3) [OF c] by (auto simp: descends_def)
    ultimately show ?thesis by blast
  qed
  then show "ledger_ok db'" "descends db db'" by blast+
qed

lemma rebuild_step:
  assumes "ledger_ok db" "rebuild_groups gs db = (db', ok)"
  shows "ledger_ok db'" "descends db db'"
proof -
  show "ledger_ok db'" by (rule ledger_ok_rebuild [OF assms])
  obtain pj where "db' = db\<lparr>db_projections := pj\<rparr>" using rebuild_groups_frame [of gs db] assms(2) by auto
  then show "descends db db'" by (auto intro: descends_subset)
qed

lemma prune_step:
  assumes "ledger_ok db" "prune_audit_data locked days now options db = (db', out)"
  shows "descends db db'"
  using assms(2)
proof (cases rule: prune_result)
  case same
  then show ?thesis by (simp add: descends_refl)
next
  case (pruned cutoff ok)
  have "descends db (pruned_evidence cutoff db)"
    by (rule descends_subset) (auto simp: pruned_evidence_def)
  moreover have "descends (pruned_evidence cutoff db) db'"
    by (rule rebuild_step(2) [OF pruned_evidence_ok [OF assms(1)] pruned(1)])
  ultimately show ?thesis by (rule descends_trans)
qed

lemma purge_step:
  assumes "ledger_ok db" "purge_audit_data options db reports = (db', reports', out)"
  shows "ledger_ok db'" "descends db db'"
proof -
  define db1 where "db1 = delete_audit_files (map af_id (db_files db)) db"
  have gone: "db_files db1 = []" "db_events db1 = []"
    using assms(1) by (auto simp: db1_def ledger_ok_def evidence_ok_def list_all_iff filter_empty_conv)
  have keys: "db_next_group db1 = db_next_group db" "db_next_file db1 = db_next_file db" "db_next_event db1 = db_next_event db"
    "db_groups db1 = db_groups db"
    by (simp_all add: db1_def)
  have "ledger_ok db1" unfolding db1_def by (rule delete_audit_files_ok [OF assms(1)])
  then have "ledger_ok ((delete_all_groups db1)\<lparr>db_rejections := []\<rparr>)"
    by (simp add: ledger_ok_def delete_all_groups_def Let_def groups_keyed_def evidence_ok_def dedup_ok_def gone clear_groups_ok)
  moreover have "descends db ((delete_all_groups db1)\<lparr>db_rejections := []\<rparr>)"
    by (rule descends_subset) (simp_all add: delete_all_groups_def Let_def gone keys)
  moreover have "db' = db \<or> db' = (delete_all_groups db1)\<lparr>db_rejections := []\<rparr>"
    using assms(2) by (auto simp: purge_audit_data_def Let_def db1_def split: if_splits)
  ultimately show "ledger_ok db'" "descends db db'" using assms(1) descends_refl by metis+
qed

lemma audit_step_ok:
  assumes "audit_step db db'" "ledger_ok db"
  shows "ledger_ok db' \<and> descends db db'"
  using assms(1)
proof (cases rule: audit_step.cases)
  case (rebuild selectors ids ok)
  then have "db' = db \<or> (\<exists>gs. rebuild_groups gs db = (db', ok))"
    by (auto simp: rebuild_audit_projections_def split: option.splits)
  then show ?thesis using assms(2) rebuild_step descends_refl by metis
qed (use assms(2) in \<open>blast dest: ingest_step prune_ledger_ok prune_step purge_step\<close>)+

lemma history_ok:
  assumes "audit_step\<^sup>*\<^sup>* db db'" "ledger_ok db"
  shows "ledger_ok db' \<and> descends db db'"
  using assms(1)
proof (induction rule: rtranclp_induct)
  case base
  show ?case using assms(2) descends_refl by blast
next
  case (step db1 db2)
  then show ?case using audit_step_ok descends_trans by blast
qed

lemma empty_ledger_ok: "ledger_ok empty_database"
  using empty_database_ok by (simp add: ledger_ok_def db_ok_def)


lemma example_history: "audit_step\<^sup>*\<^sup>* empty_database example_ingested"
  using example_ingest by (blast intro: audit_step.upload)


lemma identity_kept:
  assumes "ledger_ok db" "audit_step\<^sup>*\<^sup>* db db'" "f \<in> set (db_files db)" "f' \<in> set (db_files db')" "af_id f = af_id f'"
  shows "file_identity f = file_identity f'"
proof -
  have inj: "inj_on af_id (set (db_files db))" and below: "af_id f < db_next_file db"
    using assms(1,3) by (auto simp: ledger_ok_def evidence_ok_def distinct_map list_all_iff)
  obtain f1 where f1: "f1 \<in> set (db_files db)" "file_identity f' = file_identity f1"
    using history_ok [OF assms(2,1)] assms(4,5) below by (metis descends_def imageE)
  then have "af_id f1 = af_id f" using assms(5) by (simp add: file_identity_def)
  then show ?thesis using inj f1 assms(3) by (metis inj_onD)
qed



end
