(* ===== verification/Py_Text.thy ===== *)
theory Py_Text
  imports Prelude
begin

text \<open>
  The text functions of the language that request parsing uses: \<^verbatim>\<open>int(s)\<close>, \<^verbatim>\<open>s.split(c, n)\<close>,
  \<^verbatim>\<open>s.partition(c)\<close> and \<^verbatim>\<open>s.rsplit(c, 1)\<close>.
\<close>

text \<open>
  \<^verbatim>\<open>int(s)\<close>: surrounding white space, one sign, and digits with single underscores between them; more
  than 4300 digits are refused.
\<close>

definition is_digit_char :: "char \<Rightarrow> bool" where
  "is_digit_char c \<longleftrightarrow> (48 :: nat) \<le> of_char c \<and> (of_char c :: nat) \<le> 57"

fun digits_ok :: "bool \<Rightarrow> string \<Rightarrow> bool" where
  "digits_ok after_digit [] = after_digit"
| "digits_ok after_digit (c # cs) =
     (if is_digit_char c then digits_ok True cs else c = CHR ''_'' \<and> after_digit \<and> digits_ok False cs)"

definition digits_value :: "string \<Rightarrow> nat" where
  "digits_value s = fold (\<lambda>c n. n * 10 + (of_char c - 48)) (filter is_digit_char s) 0"

definition max_int_digits :: nat where
  "max_int_digits = 4300"

definition py_nat :: "string \<Rightarrow> nat option" where
  "py_nat s = (if digits_ok False s \<and> length (filter is_digit_char s) \<le> max_int_digits then Some (digits_value s) else None)"

definition py_int :: "string \<Rightarrow> int option" where
  "py_int s = (case py_strip s of
     [] \<Rightarrow> None
   | c # cs \<Rightarrow> if c = CHR ''-'' then map_option (\<lambda>n. - int n) (py_nat cs)
       else if c = CHR ''+'' then map_option int (py_nat cs)
       else map_option int (py_nat (c # cs)))"

text \<open>\<^verbatim>\<open>s.split(c, n)\<close>: at most \<open>n\<close> cuts, from the left.\<close>

fun split_max :: "char \<Rightarrow> nat \<Rightarrow> string \<Rightarrow> string list" where
  "split_max c 0 s = [s]"
| "split_max c (Suc n) s =
     (if c \<in> set s then takeWhile (\<lambda>x. x \<noteq> c) s # split_max c n (tl (dropWhile (\<lambda>x. x \<noteq> c) s)) else [s])"

text \<open>\<^verbatim>\<open>s.partition(c)\<close> without the separator, and the last piece of \<^verbatim>\<open>s.rsplit(c, 1)\<close>.\<close>

definition partition_at :: "char \<Rightarrow> string \<Rightarrow> string \<times> string" where
  "partition_at c s = (takeWhile (\<lambda>x. x \<noteq> c) s, tl (dropWhile (\<lambda>x. x \<noteq> c) s))"

definition after_last :: "char \<Rightarrow> string \<Rightarrow> string" where
  "after_last c s = rev (takeWhile (\<lambda>x. x \<noteq> c) (rev s))"

lemma split_max_cut: "c \<notin> set p \<Longrightarrow> split_max c (Suc n) (p @ c # s) = p # split_max c n s"
  by (induction p) auto

lemma join_split_max: "str_join [c] (split_max c n s) = s"
proof (induction n arbitrary: s)
  case (Suc n)
  show ?case
  proof (cases "c \<in> set s")
    case True
    then obtain d where d: "dropWhile (\<lambda>x. x \<noteq> c) s = c # d"
      by (metis (mono_tags, lifting) dropWhile_eq_Nil_conv hd_Cons_tl hd_dropWhile)
    have ne: "split_max c n t \<noteq> []" for t by (cases n) simp_all
    have "str_join [c] (split_max c (Suc n) s) = takeWhile (\<lambda>x. x \<noteq> c) s @ [c] @ d"
      using True Suc.IH [of d] by (simp add: d str_join_Cons [OF ne])
    also have "\<dots> = s" using takeWhile_dropWhile_id [of "\<lambda>x. x \<noteq> c" s] by (simp add: d)
    finally show ?thesis .
  qed simp
qed simp

lemma length_split_max: "length (split_max c n s) \<le> Suc n"
  by (induction n arbitrary: s) auto

lemma partition_at_cut: "c \<notin> set p \<Longrightarrow> partition_at c (p @ c # s) = (p, s)"
  by (auto simp: partition_at_def takeWhile_append dropWhile_append)

end
