(* ===== verification/Tokens.thy ===== *)
theory Tokens
  imports Py_Text
begin

text \<open>
  Bearer tokens: \<^verbatim>\<open>forensics/token_crypto.py\<close>, the two token models of \<^verbatim>\<open>models.py\<close>, the commands
  \<^verbatim>\<open>create_upload_token\<close> and \<^verbatim>\<open>create_access_token\<close>, and the profile views that issue and revoke
  personal access tokens. The keyed hash is a parameter; the two random strings of a new token are
  arguments. Time stamps are microseconds since the epoch.
\<close>

section \<open>The models\<close>

text \<open>The fields both token models have; a personal access token also has an owner.\<close>

record token =
  tk_id :: nat
  tk_name :: string
  tk_token_prefix :: string
  tk_token_hash :: string
  tk_is_active :: bool
  tk_created_at :: int
  tk_expires_at :: "int option"
  tk_last_used_at :: "int option"

record access_token = token +
  pt_user :: nat

text \<open>The two keys of \<^verbatim>\<open>settings\<close>.\<close>

record token_settings =
  ts_token_hash_key :: string
  ts_secret_key :: string

text \<open>\<^verbatim>\<open>hmac.new(key, secret, sha256).hexdigest()\<close>.\<close>

type_synonym keyed_hash = "string \<Rightarrow> string \<Rightarrow> string"

section \<open>Shared mechanics\<close>

definition MAX_TOKEN_EXPIRY_DAYS :: int where
  "MAX_TOKEN_EXPIRY_DAYS = 36500"

text \<open>\<open>random\<close> is the pair of \<^verbatim>\<open>secrets.token_hex(8)\<close> and \<^verbatim>\<open>secrets.token_urlsafe(32)\<close>.\<close>

definition generate_raw_token :: "string \<Rightarrow> string \<times> string \<Rightarrow> string \<times> string \<times> string" where
  "generate_raw_token type_prefix random =
     (let (lookup_prefix, secret) = random
      in (type_prefix @ ''_'' @ lookup_prefix @ ''_'' @ secret, lookup_prefix, secret))"

definition hash_secret :: "keyed_hash \<Rightarrow> token_settings \<Rightarrow> string \<Rightarrow> string option \<Rightarrow> string" where
  "hash_secret hmac st secret key =
     (let hash_key = (case key of None \<Rightarrow> ts_token_hash_key st | Some k \<Rightarrow> if k = [] then ts_token_hash_key st else k)
      in hmac hash_key secret)"

definition legacy_hash_keys :: "token_settings \<Rightarrow> string list" where
  "legacy_hash_keys st =
     (if ts_secret_key st \<noteq> [] \<and> ts_secret_key st \<noteq> ts_token_hash_key st then [ts_secret_key st] else [])"

definition is_expired :: "int \<Rightarrow> 'a token_scheme \<Rightarrow> bool" where
  "is_expired now t = (case tk_expires_at t of None \<Rightarrow> False | Some at \<Rightarrow> at \<le> now)"

datatype token_error = NotPositive | TooManyDays | NotANumber | NoSuchUser

definition expiry_from_days :: "int \<Rightarrow> int \<Rightarrow> token_error + int" where
  "expiry_from_days now days =
     (if days \<le> 0 then Inl NotPositive
      else if days > MAX_TOKEN_EXPIRY_DAYS then Inl TooManyDays
      else Inr (now + days * 86400000000))"

text \<open>
  \<open>authenticate\<close> returns the table, with the row rekeyed after a legacy match, and the token.
\<close>

definition rekey :: "string \<Rightarrow> 'a token_scheme \<Rightarrow> 'a token_scheme list \<Rightarrow> 'a token_scheme list" where
  "rekey h t rows = map (\<lambda>r. if tk_id r = tk_id t then r\<lparr>tk_token_hash := h\<rparr> else r) rows"

definition verify_row ::
  "keyed_hash \<Rightarrow> token_settings \<Rightarrow> int \<Rightarrow> 'a token_scheme list \<Rightarrow> string \<Rightarrow> 'a token_scheme
     \<Rightarrow> 'a token_scheme list \<times> 'a token_scheme option" where
  "verify_row hmac st now rows secret t =
     (let current_hash = hash_secret hmac st secret None;
          current = (tk_token_hash t = current_hash);
          legacy = list_ex (\<lambda>k. tk_token_hash t = hash_secret hmac st secret (Some k)) (legacy_hash_keys st)
      in if \<not> current \<and> \<not> legacy then (rows, None)
         else if is_expired now t then (rows, None)
         else if current then (rows, Some t)
         else (rekey current_hash t rows, Some (t\<lparr>tk_token_hash := current_hash\<rparr>)))"

definition authenticate ::
  "keyed_hash \<Rightarrow> token_settings \<Rightarrow> int \<Rightarrow> 'a token_scheme list \<Rightarrow> string option \<Rightarrow> string
     \<Rightarrow> 'a token_scheme list \<times> 'a token_scheme option" where
  "authenticate hmac st now rows raw_token type_prefix =
     (case raw_token of
        None \<Rightarrow> (rows, None)
      | Some raw \<Rightarrow>
          (case split_max (CHR ''_'') 2 raw of
             [kind, lookup_prefix, secret] \<Rightarrow>
               (if kind \<noteq> type_prefix then (rows, None)
                else (case find (\<lambda>t. tk_token_prefix t = lookup_prefix \<and> tk_is_active t) rows of
                        None \<Rightarrow> (rows, None)
                      | Some t \<Rightarrow> verify_row hmac st now rows secret t))
           | _ \<Rightarrow> (rows, None)))"

definition mark_used :: "int \<Rightarrow> 'a token_scheme \<Rightarrow> 'a token_scheme list \<Rightarrow> 'a token_scheme list" where
  "mark_used now t rows = map (\<lambda>r. if tk_id r = tk_id t then r\<lparr>tk_last_used_at := Some now\<rparr> else r) rows"

section \<open>The two credential families\<close>

definition UPLOAD_TOKEN_PREFIX :: string where
  "UPLOAD_TOKEN_PREFIX = ''goggles''"

definition ACCESS_TOKEN_PREFIX :: string where
  "ACCESS_TOKEN_PREFIX = ''gpat''"

text \<open>
  Issuing: the unique constraint on the lookup prefix refuses a collision (\<^verbatim>\<open>IntegrityError\<close>, here
  \<open>None\<close>), which the code does not retry.
\<close>

definition insert_token :: "'a token_scheme \<Rightarrow> 'a token_scheme list \<Rightarrow> 'a token_scheme list option" where
  "insert_token t rows = (if tk_token_prefix t \<in> tk_token_prefix ` set rows then None else Some (rows @ [t]))"

definition issue_upload_token ::
  "keyed_hash \<Rightarrow> token_settings \<Rightarrow> int \<Rightarrow> string \<times> string \<Rightarrow> nat \<Rightarrow> string \<Rightarrow> int option \<Rightarrow> token list
     \<Rightarrow> (token list \<times> string) option" where
  "issue_upload_token hmac st now random pk name expires_at rows =
     (let (raw_token, lookup_prefix, secret) = generate_raw_token UPLOAD_TOKEN_PREFIX random;
          t = \<lparr> tk_id = pk, tk_name = name, tk_token_prefix = lookup_prefix, tk_token_hash = hash_secret hmac st secret None,
                tk_is_active = True, tk_created_at = now, tk_expires_at = expires_at, tk_last_used_at = None \<rparr>
      in map_option (\<lambda>rows'. (rows', raw_token)) (insert_token t rows))"

definition issue_access_token ::
  "keyed_hash \<Rightarrow> token_settings \<Rightarrow> int \<Rightarrow> string \<times> string \<Rightarrow> nat \<Rightarrow> string \<Rightarrow> nat \<Rightarrow> int option \<Rightarrow> access_token list
     \<Rightarrow> (access_token list \<times> string) option" where
  "issue_access_token hmac st now random pk name user expires_at rows =
     (let (raw_token, lookup_prefix, secret) = generate_raw_token ACCESS_TOKEN_PREFIX random;
          t = \<lparr> tk_id = pk, tk_name = name, tk_token_prefix = lookup_prefix, tk_token_hash = hash_secret hmac st secret None,
                tk_is_active = True, tk_created_at = now, tk_expires_at = expires_at, tk_last_used_at = None,
                pt_user = user \<rparr>
      in map_option (\<lambda>rows'. (rows', raw_token)) (insert_token t rows))"

definition authenticate_upload_token ::
  "keyed_hash \<Rightarrow> token_settings \<Rightarrow> int \<Rightarrow> token list \<Rightarrow> string option \<Rightarrow> token list \<times> token option" where
  "authenticate_upload_token hmac st now rows raw_token = authenticate hmac st now rows raw_token UPLOAD_TOKEN_PREFIX"

definition authenticate_access_token ::
  "keyed_hash \<Rightarrow> token_settings \<Rightarrow> int \<Rightarrow> nat set \<Rightarrow> access_token list \<Rightarrow> string option
     \<Rightarrow> access_token list \<times> access_token option" where
  "authenticate_access_token hmac st now active_users rows raw_token =
     (case authenticate hmac st now rows raw_token ACCESS_TOKEN_PREFIX of
        (rows', None) \<Rightarrow> (rows', None)
      | (rows', Some t) \<Rightarrow> (rows', if pt_user t \<in> active_users then Some t else None))"

section \<open>Issuing and revoking\<close>

text \<open>The command \<^verbatim>\<open>create_upload_token\<close>: an invalid lifetime is an error, a missing one means no expiry.\<close>

definition command_expiry :: "int \<Rightarrow> int option \<Rightarrow> token_error + int option" where
  "command_expiry now expires_in_days =
     (case expires_in_days of None \<Rightarrow> Inr None
      | Some days \<Rightarrow> (case expiry_from_days now days of Inl e \<Rightarrow> Inl e | Inr at \<Rightarrow> Inr (Some at)))"

definition create_upload_token ::
  "keyed_hash \<Rightarrow> token_settings \<Rightarrow> int \<Rightarrow> string \<times> string \<Rightarrow> nat \<Rightarrow> string \<Rightarrow> int option \<Rightarrow> token list
     \<Rightarrow> token_error + (token list \<times> string) option" where
  "create_upload_token hmac st now random pk name expires_in_days rows =
     (case command_expiry now expires_in_days of
        Inl e \<Rightarrow> Inl e
      | Inr expires_at \<Rightarrow> Inr (issue_upload_token hmac st now random pk name expires_at rows))"

definition create_access_token_command ::
  "keyed_hash \<Rightarrow> token_settings \<Rightarrow> int \<Rightarrow> string \<times> string \<Rightarrow> nat \<Rightarrow> string \<Rightarrow> (string \<times> nat) list \<Rightarrow> string \<Rightarrow> int option
     \<Rightarrow> access_token list \<Rightarrow> token_error + (access_token list \<times> string) option" where
  "create_access_token_command hmac st now random pk name users username expires_in_days rows =
     (case command_expiry now expires_in_days of
        Inl e \<Rightarrow> Inl e
      | Inr expires_at \<Rightarrow>
          (case map_of users username of
             None \<Rightarrow> Inl NoSuchUser
           | Some user \<Rightarrow> Inr (issue_access_token hmac st now random pk name user expires_at rows)))"

text \<open>The profile form: blank means no expiry, anything else must be a number of days.\<close>

definition parse_access_token_expiry :: "int \<Rightarrow> string option \<Rightarrow> token_error + int option" where
  "parse_access_token_expiry now raw =
     (let v = py_strip (case raw of None \<Rightarrow> [] | Some s \<Rightarrow> s)
      in if v = [] then Inr None
         else (case py_int v of
                 None \<Rightarrow> Inl NotANumber
               | Some days \<Rightarrow> (case expiry_from_days now days of Inl e \<Rightarrow> Inl e | Inr at \<Rightarrow> Inr (Some at))))"

definition create_access_token_view ::
  "keyed_hash \<Rightarrow> token_settings \<Rightarrow> int \<Rightarrow> string \<times> string \<Rightarrow> nat \<Rightarrow> nat \<Rightarrow> string option \<Rightarrow> string option \<Rightarrow> access_token list
     \<Rightarrow> token_error + (access_token list \<times> string) option" where
  "create_access_token_view hmac st now random pk user name expires_in_days rows =
     (let given = take 120 (py_strip (case name of None \<Rightarrow> [] | Some s \<Rightarrow> s));
          name' = (if given = [] then ''Personal access token'' else given)
      in (case parse_access_token_expiry now expires_in_days of
            Inl e \<Rightarrow> Inl e
          | Inr expires_at \<Rightarrow> Inr (issue_access_token hmac st now random pk name' user expires_at rows)))"

text \<open>\<^verbatim>\<open>get_object_or_404(PersonalAccessToken, pk=pk, user=request.user)\<close>: \<open>None\<close> is the 404.\<close>

definition revoke_access_token :: "nat \<Rightarrow> nat \<Rightarrow> access_token list \<Rightarrow> access_token list option" where
  "revoke_access_token user pk rows =
     (if list_ex (\<lambda>t. tk_id t = pk \<and> pt_user t = user) rows
      then Some (map (\<lambda>t. if tk_id t = pk then t\<lparr>tk_is_active := False\<rparr> else t) rows) else None)"

section \<open>Authentication, exactly\<close>

definition tokens_ok :: "'a token_scheme list \<Rightarrow> bool" where
  "tokens_ok rows \<longleftrightarrow> distinct (map tk_id rows) \<and> distinct (map tk_token_prefix rows)"

text \<open>The hashes a secret may be stored under.\<close>

definition accepted_hashes :: "keyed_hash \<Rightarrow> token_settings \<Rightarrow> string \<Rightarrow> string set" where
  "accepted_hashes hmac st secret = {hmac (ts_token_hash_key st) secret} \<union> (\<lambda>k. hmac k secret) ` set (legacy_hash_keys st)"

text \<open>A raw token is good for a row: it names the family and the row, and carries a secret the row was issued with.\<close>

definition opens :: "keyed_hash \<Rightarrow> token_settings \<Rightarrow> int \<Rightarrow> string \<Rightarrow> string \<Rightarrow> string \<Rightarrow> 'a token_scheme \<Rightarrow> bool" where
  "opens hmac st now type_prefix raw secret t \<longleftrightarrow>
     raw = type_prefix @ ''_'' @ tk_token_prefix t @ ''_'' @ secret \<and> CHR ''_'' \<notin> set (tk_token_prefix t) \<and>
     tk_is_active t \<and> \<not> is_expired now t \<and> tk_token_hash t \<in> accepted_hashes hmac st secret"

lemma legacy_hash: "k \<in> set (legacy_hash_keys st) \<Longrightarrow> hash_secret hmac st secret (Some k) = hmac k secret"
  by (auto simp: legacy_hash_keys_def hash_secret_def Let_def split: if_splits)

lemma accepted_hashes_iff:
  "h \<in> accepted_hashes hmac st secret \<longleftrightarrow> h = hash_secret hmac st secret None \<or>
     list_ex (\<lambda>k. h = hash_secret hmac st secret (Some k)) (legacy_hash_keys st)"
  by (auto simp: accepted_hashes_def list_ex_iff legacy_hash) (simp_all add: hash_secret_def)

text \<open>The three parts of a raw token.\<close>

lemma split_token:
  assumes "CHR ''_'' \<notin> set k" "CHR ''_'' \<notin> set p"
  shows "split_max (CHR ''_'') 2 (k @ ''_'' @ p @ ''_'' @ s) = [k, p, s]"
  using assms by (simp add: numeral_2_eq_2 split_max_cut del: split_max.simps(2))

lemma split_token_parts:
  assumes "split_max (CHR ''_'') 2 raw = [k, p, s]"
  shows "raw = k @ ''_'' @ p @ ''_'' @ s" "CHR ''_'' \<notin> set k" "CHR ''_'' \<notin> set p"
proof -
  show "raw = k @ ''_'' @ p @ ''_'' @ s" using join_split_max [of "CHR ''_''" 2 raw] by (simp add: assms)
  show "CHR ''_'' \<notin> set k" "CHR ''_'' \<notin> set p"
    using assms by (auto simp: numeral_2_eq_2 dest: set_takeWhileD split: if_splits)
qed

lemma tokens_ok_inj: "tokens_ok rows \<Longrightarrow> inj_on tk_id (set rows) \<and> inj_on tk_token_prefix (set rows)"
  by (simp add: tokens_ok_def distinct_map)

lemma rekey_same:
  assumes "tokens_ok rows" "t \<in> set rows"
  shows "rekey h t rows = map (\<lambda>r. if r = t then t\<lparr>tk_token_hash := h\<rparr> else r) rows"
proof -
  have "r = t" if "r \<in> set rows" "tk_id r = tk_id t" for r
    using that assms tokens_ok_inj by (metis inj_onD)
  then show ?thesis unfolding rekey_def by (intro map_cong) auto
qed

lemma verify_row_eq:
  assumes "tokens_ok rows" "t \<in> set rows"
  shows "verify_row hmac st now rows secret t =
    (if tk_token_hash t \<in> accepted_hashes hmac st secret \<and> \<not> is_expired now t
     then (rekey (hash_secret hmac st secret None) t rows, Some (t\<lparr>tk_token_hash := hash_secret hmac st secret None\<rparr>))
     else (rows, None))"
proof (cases "tk_token_hash t = hash_secret hmac st secret None")
  case True
  then have "t\<lparr>tk_token_hash := hash_secret hmac st secret None\<rparr> = t" by simp
  moreover from this have "rekey (hash_secret hmac st secret None) t rows = rows"
    using rekey_same [OF assms] by (simp add: map_idI)
  ultimately show ?thesis using True by (simp add: verify_row_def accepted_hashes_iff Let_def)
next
  case False
  then show ?thesis by (simp add: verify_row_def accepted_hashes_iff Let_def)
qed

lemma find_unique:
  assumes "t \<in> set rows" "P t" "\<And>r. r \<in> set rows \<Longrightarrow> P r \<Longrightarrow> r = t"
  shows "find P rows = Some t"
proof (cases "find P rows")
  case None
  then show ?thesis using assms(1,2) by (simp add: find_None_iff)
next
  case (Some r)
  then have "r \<in> set rows" "P r" by (auto simp: find_Some_iff)
  with Some assms(3) show ?thesis by simp
qed

lemma authenticate_opens:
  assumes ok: "tokens_ok rows" and t: "t \<in> set rows" and o: "opens hmac st now type_prefix raw secret t"
    and k: "CHR ''_'' \<notin> set type_prefix"
  shows "authenticate hmac st now rows (Some raw) type_prefix =
     (rekey (hash_secret hmac st secret None) t rows, Some (t\<lparr>tk_token_hash := hash_secret hmac st secret None\<rparr>))"
proof -
  have split: "split_max (CHR ''_'') 2 raw = [type_prefix, tk_token_prefix t, secret]"
    using o k split_token by (simp add: opens_def)
  have inj: "inj_on tk_token_prefix (set rows)" using tokens_ok_inj [OF ok] by blast
  have "find (\<lambda>r. tk_token_prefix r = tk_token_prefix t \<and> tk_is_active r) rows = Some t"
    using t o by (intro find_unique) (auto simp: opens_def dest: inj_onD [OF inj])
  then have "authenticate hmac st now rows (Some raw) type_prefix = verify_row hmac st now rows secret t"
    unfolding authenticate_def option.case split list.case by simp
  with o show ?thesis by (simp add: verify_row_eq [OF ok t] opens_def)
qed

lemma authenticate_Some:
  assumes ok: "tokens_ok rows" and run: "authenticate hmac st now rows raw_token type_prefix = (rows', Some t')"
  obtains raw secret t where "raw_token = Some raw" "t \<in> set rows" "opens hmac st now type_prefix raw secret t"
    "CHR ''_'' \<notin> set type_prefix"
proof -
  obtain raw where raw: "raw_token = Some raw" using run by (auto simp: authenticate_def split: option.splits)
  obtain p secret where split: "split_max (CHR ''_'') 2 raw = [type_prefix, p, secret]"
    using run unfolding raw authenticate_def option.case by (auto split: list.splits if_splits)
  obtain t where t: "find (\<lambda>t. tk_token_prefix t = p \<and> tk_is_active t) rows = Some t"
    and v: "verify_row hmac st now rows secret t = (rows', Some t')"
    using run unfolding raw authenticate_def option.case split list.case by (auto split: option.splits)
  then have mem: "t \<in> set rows" "tk_token_prefix t = p" "tk_is_active t" by (auto simp: find_Some_iff)
  have "tk_token_hash t \<in> accepted_hashes hmac st secret" "\<not> is_expired now t"
    using v by (simp_all add: verify_row_eq [OF ok mem(1)] split: if_splits)
  then have "opens hmac st now type_prefix raw secret t"
    unfolding opens_def using mem split_token_parts [OF split] by blast
  from that [OF raw mem(1) this split_token_parts(2) [OF split]] show thesis .
qed

lemma authenticate_None:
  assumes "authenticate hmac st now rows raw_token type_prefix = (rows', None)"
  shows "rows' = rows"
  using assms by (auto simp: authenticate_def verify_row_def Let_def split: option.splits list.splits if_splits)

text \<open>
  C19: a bearer token is accepted exactly when it names the credential family, then the lookup prefix
  of an active, unexpired row, then a secret whose hash under the current key, or under the former
  one during the key change, is stored in that row. What is returned is that row, stored under the
  current key from then on; nothing else in the table changes, and a refusal changes nothing at all.
\<close>

theorem token_authentication_exact:
  assumes "tokens_ok rows" "CHR ''_'' \<notin> set type_prefix"
    and "authenticate hmac st now rows (Some raw) type_prefix = (rows', result)"
  shows "(result \<noteq> None \<longleftrightarrow> (\<exists>t \<in> set rows. \<exists>secret. opens hmac st now type_prefix raw secret t)) \<and>
    (case result of
       None \<Rightarrow> rows' = rows
     | Some t' \<Rightarrow> \<exists>t \<in> set rows. \<exists>secret. opens hmac st now type_prefix raw secret t \<and>
         t' = t\<lparr>tk_token_hash := hmac (ts_token_hash_key st) secret\<rparr> \<and>
         rows' = map (\<lambda>r. if r = t then t' else r) rows)"
proof (cases result)
  case None
  have "\<not> opens hmac st now type_prefix raw secret t" if "t \<in> set rows" for t secret
    using authenticate_opens [OF assms(1) that _ assms(2)] assms(3) None by fastforce
  with None authenticate_None assms(3) show ?thesis by auto
next
  case (Some t')
  then obtain secret t where t: "t \<in> set rows" "opens hmac st now type_prefix raw secret t"
    using assms(3) authenticate_Some [OF assms(1)] by (metis option.inject)
  have "authenticate hmac st now rows (Some raw) type_prefix =
     (rekey (hmac (ts_token_hash_key st) secret) t rows, Some (t\<lparr>tk_token_hash := hmac (ts_token_hash_key st) secret\<rparr>))"
    using authenticate_opens [OF assms(1) t assms(2)] by (simp add: hash_secret_def)
  then have "t' = t\<lparr>tk_token_hash := hmac (ts_token_hash_key st) secret\<rparr>"
      "rows' = map (\<lambda>r. if r = t then t\<lparr>tk_token_hash := hmac (ts_token_hash_key st) secret\<rparr> else r) rows"
    using assms(3) Some by (simp_all add: rekey_same [OF assms(1) t(1)])
  with Some t show ?thesis by auto
qed

definition example_tokens :: "token list" where
  "example_tokens = [\<lparr> tk_id = 1, tk_name = ''ios'', tk_token_prefix = ''0a'', tk_token_hash = ''old:s_1'', tk_is_active = True,
     tk_created_at = 0, tk_expires_at = Some 9, tk_last_used_at = None \<rparr>]"

definition example_hmac :: keyed_hash where
  "example_hmac key secret = key @ '':'' @ secret"

theorem token_authentication_exact_witness:
  "authenticate_upload_token example_hmac \<lparr> ts_token_hash_key = ''new'', ts_secret_key = ''old'' \<rparr> 5 example_tokens
     (Some ''goggles_0a_s_1'') = (map (\<lambda>t. t\<lparr>tk_token_hash := ''new:s_1''\<rparr>) example_tokens,
       Some ((hd example_tokens)\<lparr>tk_token_hash := ''new:s_1''\<rparr>)) \<and>
   (\<exists>t \<in> set example_tokens. \<exists>secret. opens example_hmac \<lparr> ts_token_hash_key = ''new'', ts_secret_key = ''old'' \<rparr> 5
     ''goggles'' ''goggles_0a_s_1'' secret t)"
proof -
  let ?st = "\<lparr> ts_token_hash_key = ''new'', ts_secret_key = ''old'' \<rparr>"
  have run: "authenticate example_hmac ?st 5 example_tokens (Some ''goggles_0a_s_1'') ''goggles'' =
      (map (\<lambda>t. t\<lparr>tk_token_hash := ''new:s_1''\<rparr>) example_tokens, Some ((hd example_tokens)\<lparr>tk_token_hash := ''new:s_1''\<rparr>))"
    by code_simp
  have "tokens_ok example_tokens" "CHR ''_'' \<notin> set ''goggles''" by code_simp+
  from token_authentication_exact [OF this run] run show ?thesis
    by (simp add: authenticate_upload_token_def UPLOAD_TOKEN_PREFIX_def)
qed

section \<open>The life of a token\<close>

lemma insert_token_ok:
  "tokens_ok rows \<Longrightarrow> insert_token t rows = Some rows' \<Longrightarrow> tk_id t \<notin> tk_id ` set rows \<Longrightarrow> tokens_ok rows' \<and> t \<in> set rows'"
  by (auto simp: insert_token_def tokens_ok_def split: if_splits)

text \<open>
  An issued token opens its own row. From the moment it is issued until it expires, the raw token
  shown once to the caller authenticates as an upload token, whatever its secret, underscores
  included, as long as the random lookup prefix has none, and the table does not change by it; as a
  personal access token it is refused, whatever that table holds.
\<close>

theorem issued_token_authenticates:
  assumes "tokens_ok rows" "pk \<notin> tk_id ` set rows" "CHR ''_'' \<notin> set (fst random)"
    and "issue_upload_token hmac st created random pk name expires_at rows = Some (rows', raw)"
    and "case expires_at of None \<Rightarrow> True | Some at \<Rightarrow> now < at"
  shows "tokens_ok rows' \<and>
    (\<exists>t \<in> set rows'. tk_id t = pk \<and> authenticate_upload_token hmac st now rows' (Some raw) = (rows', Some t)) \<and>
    authenticate_access_token hmac st' now' users accesses (Some raw) = (accesses, None)"
proof -
  obtain p secret where random: "random = (p, secret)" by (cases random)
  define t where "t = \<lparr> tk_id = pk, tk_name = name, tk_token_prefix = p, tk_token_hash = hash_secret hmac st secret None,
      tk_is_active = True, tk_created_at = created, tk_expires_at = expires_at, tk_last_used_at = None \<rparr>"
  have raw: "raw = ''goggles'' @ ''_'' @ p @ ''_'' @ secret" and ins: "insert_token t rows = Some rows'"
    using assms(4) by (auto simp: issue_upload_token_def generate_raw_token_def random Let_def t_def UPLOAD_TOKEN_PREFIX_def)
  have p: "CHR ''_'' \<notin> set p" using assms(3) by (simp add: random)
  have ok: "tokens_ok rows'" and t: "t \<in> set rows'" using insert_token_ok [OF assms(1) ins] assms(2) by (auto simp: t_def)
  have "opens hmac st now ''goggles'' raw secret t"
    using assms(5) p by (simp add: opens_def raw t_def is_expired_def accepted_hashes_iff split: option.splits)
  from authenticate_opens [OF ok t this]
  have "authenticate hmac st now rows' (Some raw) ''goggles'' = (rows', Some t)"
    by (simp add: rekey_same [OF ok t]) (simp add: t_def map_idI)
  moreover have "split_max (CHR ''_'') 2 raw = [''goggles'', p, secret]"
    unfolding raw using p by (intro split_token) simp_all
  then have "authenticate hmac st' now' accesses (Some raw) ''gpat'' = (accesses, None)"
    by (simp add: authenticate_def)
  moreover have "tk_id t = pk" by (simp add: t_def)
  ultimately show ?thesis
    using ok t by (auto simp: authenticate_upload_token_def authenticate_access_token_def UPLOAD_TOKEN_PREFIX_def
        ACCESS_TOKEN_PREFIX_def)
qed

definition example_settings :: token_settings where
  "example_settings = \<lparr> ts_token_hash_key = ''new'', ts_secret_key = ''old'' \<rparr>"

theorem issued_token_authenticates_witness:
  "\<exists>rows' raw t. issue_upload_token example_hmac example_settings 0 (''1b'', ''x_y'') 2 ''mac'' None example_tokens = Some (rows', raw) \<and>
     tk_id t = 2 \<and> authenticate_upload_token example_hmac example_settings 7 rows' (Some raw) = (rows', Some t)"
proof -
  obtain rows' raw where run: "issue_upload_token example_hmac example_settings 0 (''1b'', ''x_y'') 2 ''mac'' None example_tokens = Some (rows', raw)"
    by (simp add: issue_upload_token_def generate_raw_token_def insert_token_def example_tokens_def Let_def)
  have "tokens_ok example_tokens" "2 \<notin> tk_id ` set example_tokens" "CHR ''_'' \<notin> set (fst (''1b'', ''x_y''))" by code_simp+
  from issued_token_authenticates [OF this run, where now = 7 and st' = example_settings and now' = 0 and users = "{}" and accesses = "[]"]
  run show ?thesis by auto
qed

text \<open>
  A key change does not lock tokens out. Once a raw token has been accepted, its row is stored
  under the dedicated key: as long as the token has not expired it is accepted again, as the same
  row and without any further change, even if the signing key is replaced in the meantime.
\<close>

theorem token_survives_key_change:
  assumes "tokens_ok rows" "authenticate hmac st now rows (Some raw) type_prefix = (rows', Some t)"
    and "ts_token_hash_key st' = ts_token_hash_key st" "\<not> is_expired now' t"
  shows "tokens_ok rows' \<and> t \<in> set rows' \<and> authenticate hmac st' now' rows' (Some raw) type_prefix = (rows', Some t)"
proof -
  obtain secret t0 where t0: "t0 \<in> set rows" "opens hmac st now type_prefix raw secret t0" and k: "CHR ''_'' \<notin> set type_prefix"
    using assms(2) authenticate_Some [OF assms(1)] by (metis option.inject)
  define h where "h = hash_secret hmac st secret None"
  have h: "hash_secret hmac st' secret None = h" using assms(3) by (simp add: h_def hash_secret_def)
  have t: "t = t0\<lparr>tk_token_hash := h\<rparr>" and rows': "rows' = rekey h t0 rows"
    using authenticate_opens [OF assms(1) t0 k] assms(2) by (simp_all add: h_def)
  have "map tk_id rows' = map tk_id rows" "map tk_token_prefix rows' = map tk_token_prefix rows"
    by (simp_all add: rows' rekey_def)
  then have ok: "tokens_ok rows'" using assms(1) by (simp add: tokens_ok_def)
  have mem: "t \<in> set rows'" using t0(1) by (force simp: rows' t rekey_def)
  have "opens hmac st' now' type_prefix raw secret t"
    using t0(2) assms(4) h by (simp add: opens_def t accepted_hashes_iff)
  from authenticate_opens [OF ok mem this k]
  have "authenticate hmac st' now' rows' (Some raw) type_prefix = (rekey h t rows', Some (t\<lparr>tk_token_hash := h\<rparr>))"
    by (simp only: h)
  moreover have same: "t\<lparr>tk_token_hash := h\<rparr> = t" by (simp add: t)
  moreover have "rekey h t rows' = rows'" unfolding rekey_same [OF ok mem] same by (simp add: map_idI)
  ultimately show ?thesis using ok mem by simp
qed

theorem token_survives_key_change_witness:
  "\<exists>rows' t. authenticate example_hmac example_settings 5 example_tokens (Some ''goggles_0a_s_1'') ''goggles'' = (rows', Some t) \<and>
     authenticate example_hmac (example_settings\<lparr>ts_secret_key := ''newer''\<rparr>) 6 rows' (Some ''goggles_0a_s_1'') ''goggles'' = (rows', Some t)"
proof -
  let ?t = "(hd example_tokens)\<lparr>tk_token_hash := ''new:s_1''\<rparr>"
  have run: "authenticate example_hmac example_settings 5 example_tokens (Some ''goggles_0a_s_1'') ''goggles'' =
      (map (\<lambda>t. t\<lparr>tk_token_hash := ''new:s_1''\<rparr>) example_tokens, Some ?t)"
    by code_simp
  have "tokens_ok example_tokens" "\<not> is_expired 6 ?t" by code_simp+
  from token_survives_key_change [OF this(1) run _ this(2), of "example_settings\<lparr>ts_secret_key := ''newer''\<rparr>"] run
  show ?thesis by auto
qed

text \<open>
  Revocation is final and reaches only the owner's own token. A user who does not own the token
  gets the 404 and nothing changes; after a revocation no raw token whatever opens that row, under any
  keys and at any time, while every other row is as before.
\<close>

theorem revocation_is_final:
  assumes "tokens_ok rows"
  shows "case revoke_access_token user pk rows of
     None \<Rightarrow> \<forall>t \<in> set rows. \<not> (tk_id t = pk \<and> pt_user t = user)
   | Some rows' \<Rightarrow> filter (\<lambda>t. tk_id t \<noteq> pk) rows' = filter (\<lambda>t. tk_id t \<noteq> pk) rows \<and>
       list_all (\<lambda>t. pt_user t = user) (filter (\<lambda>t. tk_id t = pk) rows) \<and>
       (\<forall>hmac st now users raw. case snd (authenticate_access_token hmac st now users rows' raw) of
          None \<Rightarrow> True | Some t \<Rightarrow> tk_id t \<noteq> pk \<and> pt_user t \<in> users)"
proof (cases "revoke_access_token user pk rows")
  case None
  then show ?thesis by (auto simp: revoke_access_token_def list_ex_iff split: if_splits)
next
  case (Some rows')
  then have rows': "rows' = map (\<lambda>t. if tk_id t = pk then t\<lparr>tk_is_active := False\<rparr> else t) rows"
    and own: "\<exists>t \<in> set rows. tk_id t = pk \<and> pt_user t = user"
    by (auto simp: revoke_access_token_def list_ex_iff split: if_splits)
  have "map tk_id rows' = map tk_id rows" "map tk_token_prefix rows' = map tk_token_prefix rows" by (simp_all add: rows')
  then have ok: "tokens_ok rows'" using assms by (simp add: tokens_ok_def)
  have "filter (\<lambda>t. tk_id t \<noteq> pk) rows' = filter (\<lambda>t. tk_id t \<noteq> pk) rows" unfolding rows' by (induction rows) auto
  moreover have "pt_user t = user" if "t \<in> set rows" "tk_id t = pk" for t
    using own that tokens_ok_inj [OF assms] by (metis inj_onD)
  moreover have "case snd (authenticate_access_token hmac st now users rows' raw) of
      None \<Rightarrow> True | Some t \<Rightarrow> tk_id t \<noteq> pk \<and> pt_user t \<in> users" for hmac st now users raw
  proof (cases "authenticate hmac st now rows' raw ACCESS_TOKEN_PREFIX")
    case (Pair rows2 result)
    show ?thesis
    proof (cases result)
      case None
      then show ?thesis by (simp add: authenticate_access_token_def Pair)
    next
      case (Some t')
      obtain raw0 secret t where t: "raw = Some raw0" "t \<in> set rows'" "opens hmac st now ACCESS_TOKEN_PREFIX raw0 secret t"
        "CHR ''_'' \<notin> set ACCESS_TOKEN_PREFIX"
        using authenticate_Some [OF ok] Pair Some by metis
      have active: "tk_is_active t" using t(3) by (simp only: opens_def)
      obtain r where "t = (if tk_id r = pk then r\<lparr>tk_is_active := False\<rparr> else r)" using t(2) unfolding rows' set_map by blast
      with active have "tk_id t \<noteq> pk" by (cases "tk_id r = pk") simp_all
      moreover have "t' = t\<lparr>tk_token_hash := hash_secret hmac st secret None\<rparr>"
        using authenticate_opens [OF ok t(2-4)] Pair unfolding Some t(1) by simp
      ultimately have "tk_id t' \<noteq> pk" by simp
      then show ?thesis unfolding authenticate_access_token_def Pair Some by simp
    qed
  qed
  ultimately show ?thesis by (simp add: Some list_all_iff)
qed

definition example_accesses :: "access_token list" where
  "example_accesses = [\<lparr> tk_id = 1, tk_name = ''cli'', tk_token_prefix = ''0a'', tk_token_hash = ''new:s'', tk_is_active = True,
     tk_created_at = 0, tk_expires_at = None, tk_last_used_at = None, pt_user = 3 \<rparr>]"

theorem revocation_is_final_witness:
  "snd (authenticate_access_token example_hmac example_settings 0 {3} example_accesses (Some ''gpat_0a_s'')) = Some (hd example_accesses) \<and>
   revoke_access_token 4 1 example_accesses = None \<and>
   (\<exists>rows'. revoke_access_token 3 1 example_accesses = Some rows' \<and>
      (\<forall>raw. case snd (authenticate_access_token example_hmac example_settings 0 {3} rows' raw) of
         None \<Rightarrow> True | Some t \<Rightarrow> tk_id t \<noteq> 1 \<and> pt_user t \<in> {3}))"
proof (intro conjI)
  show "snd (authenticate_access_token example_hmac example_settings 0 {3} example_accesses (Some ''gpat_0a_s'')) = Some (hd example_accesses)"
    by code_simp
  show "revoke_access_token 4 1 example_accesses = None" by code_simp
  have ok: "tokens_ok example_accesses" by code_simp
  have rows: "revoke_access_token 3 1 example_accesses = Some [(hd example_accesses)\<lparr>tk_is_active := False\<rparr>]"
    by (simp add: revoke_access_token_def example_accesses_def)
  from revocation_is_final [OF ok, where user = 3 and pk = 1, unfolded rows option.case] rows
  show "\<exists>rows'. revoke_access_token 3 1 example_accesses = Some rows' \<and>
      (\<forall>raw. case snd (authenticate_access_token example_hmac example_settings 0 {3} rows' raw) of
         None \<Rightarrow> True | Some t \<Rightarrow> tk_id t \<noteq> 1 \<and> pt_user t \<in> {3})"
    by (intro exI [of _ "[(hd example_accesses)\<lparr>tk_is_active := False\<rparr>]"] conjI allI) simp_all
qed

end
