(* ===== verification/Upload_Api.thy ===== *)
theory Upload_Api
  imports Ingest Tokens
begin

text \<open>
  The upload endpoint: the byte counter of \<^verbatim>\<open>forensics/request_body.py\<close>, and from \<^verbatim>\<open>forensics/views.py\<close> the
  bounded multipart handler, the checks of \<^verbatim>\<open>verified_audit_bytes\<close>, the refusal record and
  \<^verbatim>\<open>api_audit_log_upload\<close> itself. What the web framework makes of the request body is part of the
  request: the calls its multipart parser makes on the upload handler, or the body it read.
\<close>

section \<open>Reading the body\<close>

text \<open>The proxy for \<^verbatim>\<open>wsgi.input\<close>: each read adds the length of what it hands on.\<close>

record counting_input =
  ci_reads :: "byte list list"
  ci_bytes_read :: nat

definition counted_read :: "byte list \<Rightarrow> counting_input \<Rightarrow> counting_input" where
  "counted_read data c = c\<lparr>ci_reads := ci_reads c @ [data], ci_bytes_read := ci_bytes_read c + length data\<rparr>"

text \<open>
  What the framework's parser does with a multipart body: it opens a file part, hands over chunks,
  completes the part, and ends normally or with one of its exceptions.
\<close>

datatype part_event = NewFile | DataChunk "byte list" | FileComplete

datatype part_end = PartsDone | PartsTooManyFields | PartsMalformed | PartsUnreadable

datatype request_body =
    RawBody "byte list"
  | RawTooManyFields
  | RawUnreadable
  | Multipart "part_event list" part_end

record http_request =
  rq_method :: string
  rq_authorization :: "string option"
  rq_content_length :: "string option"
  rq_content_type :: string
  rq_counter :: "counting_input option"
  rq_body :: request_body
  rq_post_group :: string
  rq_get_group :: string
  rq_header_group :: string

definition declared_content_length :: "http_request \<Rightarrow> nat option" where
  "declared_content_length rq =
     (case rq_content_length rq of
        None \<Rightarrow> None
      | Some raw \<Rightarrow> if raw = [] then None
          else (case py_int raw of None \<Rightarrow> None | Some v \<Rightarrow> if v < 0 then None else Some (nat v)))"

definition counted_body_bytes :: "http_request \<Rightarrow> nat option" where
  "counted_body_bytes rq = map_option ci_bytes_read (rq_counter rq)"

definition is_multipart_request :: "http_request \<Rightarrow> bool" where
  "is_multipart_request rq \<longleftrightarrow> take 10 (rq_content_type rq) = ''multipart/''"

subsection \<open>The bounded upload handler\<close>

datatype body_error = TooManyFilesSent | TooManyFieldsSent | RequestDataTooBig | MultiPartParserError | UnreadablePostError

record upload_handler =
  uh_bytes_received :: nat
  uh_file_count :: nat
  uh_file :: "byte list"
  uh_files :: "byte list list"

definition handler_start :: upload_handler where
  "handler_start = \<lparr> uh_bytes_received = 0, uh_file_count = 0, uh_file = [], uh_files = [] \<rparr>"

fun handle_part :: "nat \<Rightarrow> part_event \<Rightarrow> upload_handler \<Rightarrow> body_error + upload_handler" where
  "handle_part max_bytes NewFile h =
     (let n = Suc (uh_file_count h)
      in if n > 1 then Inl TooManyFilesSent else Inr (h\<lparr>uh_file_count := n, uh_file := []\<rparr>))"
| "handle_part max_bytes (DataChunk raw_data) h =
     (let n = uh_bytes_received h + length raw_data
      in if n > max_bytes then Inl RequestDataTooBig
         else Inr (h\<lparr>uh_bytes_received := n, uh_file := uh_file h @ raw_data\<rparr>))"
| "handle_part max_bytes FileComplete h = Inr (h\<lparr>uh_files := uh_files h @ [uh_file h]\<rparr>)"

fun handle_parts :: "nat \<Rightarrow> part_event list \<Rightarrow> upload_handler \<Rightarrow> body_error + upload_handler" where
  "handle_parts max_bytes [] h = Inr h"
| "handle_parts max_bytes (p # ps) h =
     (case handle_part max_bytes p h of Inl e \<Rightarrow> Inl e | Inr h' \<Rightarrow> handle_parts max_bytes ps h')"

definition read_upload_bytes :: "nat \<Rightarrow> byte list \<Rightarrow> body_error + byte list" where
  "read_upload_bytes max_bytes upload =
     (if length upload > max_bytes then Inl RequestDataTooBig
      else (let data = take (max_bytes + 1) upload
            in if length data > max_bytes then Inl RequestDataTooBig else Inr data))"

definition parser_error :: "part_end \<Rightarrow> body_error option" where
  "parser_error e = (case e of PartsDone \<Rightarrow> None | PartsTooManyFields \<Rightarrow> Some TooManyFieldsSent
     | PartsMalformed \<Rightarrow> Some MultiPartParserError | PartsUnreadable \<Rightarrow> Some UnreadablePostError)"

definition audit_bytes_from_request :: "nat \<Rightarrow> http_request \<Rightarrow> body_error + byte list" where
  "audit_bytes_from_request max_bytes rq =
     (case rq_body rq of
        RawUnreadable \<Rightarrow> Inl UnreadablePostError
      | RawTooManyFields \<Rightarrow> Inl TooManyFieldsSent
      | RawBody body \<Rightarrow> Inr (if is_multipart_request rq then [] else body)
      | Multipart events e \<Rightarrow>
          (case handle_parts max_bytes events handler_start of
             Inl err \<Rightarrow> Inl err
           | Inr h \<Rightarrow>
               (case parser_error e of
                  Some err \<Rightarrow> Inl err
                | None \<Rightarrow>
                    (case uh_files h of
                       [] \<Rightarrow> Inr []
                     | [upload] \<Rightarrow> read_upload_bytes max_bytes upload
                     | _ \<Rightarrow> Inl TooManyFilesSent))))"

definition received_body_bytes :: "http_request \<Rightarrow> byte list \<Rightarrow> nat option" where
  "received_body_bytes rq audit_bytes =
     (case counted_body_bytes rq of
        Some n \<Rightarrow> Some n
      | None \<Rightarrow> if is_multipart_request rq then None else Some (length audit_bytes))"

subsection \<open>Refusals\<close>

record upload_refused =
  rf_reason :: string
  rf_status :: nat
  rf_error :: string
  rf_declared :: "nat option"
  rf_received :: "nat option"

definition UPLOAD_TOO_LARGE_ERROR :: string where
  "UPLOAD_TOO_LARGE_ERROR = ''audit log exceeds maximum upload size''"

definition UPLOAD_LENGTH_REQUIRED_ERROR :: string where
  "UPLOAD_LENGTH_REQUIRED_ERROR = ''Content-Length header is required for audit log uploads''"

definition UPLOAD_INCOMPLETE_BODY_ERROR :: string where
  "UPLOAD_INCOMPLETE_BODY_ERROR = ''incomplete request body''"

definition UPLOAD_MALFORMED_BODY_ERROR :: string where
  "UPLOAD_MALFORMED_BODY_ERROR = ''request body could not be parsed''"

definition too_large :: "nat \<Rightarrow> nat option \<Rightarrow> upload_refused" where
  "too_large declared received = \<lparr> rf_reason = ''too_large'', rf_status = 413, rf_error = UPLOAD_TOO_LARGE_ERROR,
     rf_declared = Some declared, rf_received = received \<rparr>"

definition refusal_for :: "http_request \<Rightarrow> nat \<Rightarrow> body_error \<Rightarrow> upload_refused" where
  "refusal_for rq declared e =
     (case e of
        RequestDataTooBig \<Rightarrow> too_large declared (counted_body_bytes rq)
      | MultiPartParserError \<Rightarrow> \<lparr> rf_reason = ''malformed_body'', rf_status = 400, rf_error = UPLOAD_MALFORMED_BODY_ERROR,
          rf_declared = Some declared, rf_received = counted_body_bytes rq \<rparr>
      | UnreadablePostError \<Rightarrow> \<lparr> rf_reason = ''incomplete_body'', rf_status = 400, rf_error = UPLOAD_INCOMPLETE_BODY_ERROR,
          rf_declared = Some declared, rf_received = None \<rparr>
      | _ \<Rightarrow> \<lparr> rf_reason = ''too_many_parts'', rf_status = 413, rf_error = UPLOAD_TOO_LARGE_ERROR,
          rf_declared = Some declared, rf_received = counted_body_bytes rq \<rparr>)"

definition verified_audit_bytes :: "nat \<Rightarrow> http_request \<Rightarrow> upload_refused + byte list" where
  "verified_audit_bytes max_bytes rq =
     (case declared_content_length rq of
        None \<Rightarrow> Inl \<lparr> rf_reason = ''length_required'', rf_status = 411, rf_error = UPLOAD_LENGTH_REQUIRED_ERROR,
                      rf_declared = None, rf_received = None \<rparr>
      | Some declared \<Rightarrow>
          (if \<not> is_multipart_request rq \<and> declared > max_bytes then Inl (too_large declared None)
           else (case audit_bytes_from_request max_bytes rq of
                   Inl e \<Rightarrow> Inl (refusal_for rq declared e)
                 | Inr audit_bytes \<Rightarrow>
                     (if length audit_bytes > max_bytes then Inl (too_large declared (Some (length audit_bytes)))
                      else (case received_body_bytes rq audit_bytes of
                              None \<Rightarrow> Inr audit_bytes
                            | Some received \<Rightarrow>
                                if received < declared
                                then Inl \<lparr> rf_reason = ''incomplete_body'', rf_status = 400,
                                  rf_error = UPLOAD_INCOMPLETE_BODY_ERROR @ '': received '' @ nat_str received @ '' of '' @
                                    nat_str declared @ '' bytes'',
                                  rf_declared = Some declared, rf_received = Some received \<rparr>
                                else Inr audit_bytes)))))"

section \<open>The endpoint\<close>

definition bearer_value :: "string option \<Rightarrow> string option" where
  "bearer_value authorization =
     (let (scheme, v) = partition_at (CHR '' '') (case authorization of None \<Rightarrow> [] | Some s \<Rightarrow> s)
      in if py_lower scheme \<noteq> ''bearer'' \<or> v = [] then None else Some (py_strip v))"

text \<open>
  The service: its database and the two token tables; the settings and the keyed hash it runs with.
\<close>

record service =
  sv_db :: database
  sv_upload_tokens :: "token list"
  sv_access_tokens :: "access_token list"

record deployment =
  dp_runtime :: runtime
  dp_hmac :: keyed_hash
  dp_settings :: token_settings
  dp_uploads_enabled :: bool

record http_response =
  rs_status :: nat
  rs_body :: dict
  rs_retry_after :: bool

definition authenticate_request :: "deployment \<Rightarrow> int \<Rightarrow> http_request \<Rightarrow> token list \<Rightarrow> token list \<times> token option" where
  "authenticate_request dp now rq rows =
     authenticate_upload_token (dp_hmac dp) (dp_settings dp) now rows (bearer_value (rq_authorization rq))"

text \<open>Best effort: the row is not written when the database refuses it, as it does a length beyond 64 bits.\<close>

definition record_upload_rejection :: "bool \<Rightarrow> int \<Rightarrow> token \<Rightarrow> upload_refused \<Rightarrow> database \<Rightarrow> database" where
  "record_upload_rejection lost now t refusal db =
     (if lost \<or> (case rf_declared refusal of None \<Rightarrow> False | Some n \<Rightarrow> n > 9223372036854775807) then db
      else db\<lparr>db_rejections := db_rejections db @ [\<lparr> ur_upload_token = Some (tk_id t), ur_reason = rf_reason refusal,
        ur_line_number = None, ur_status_code = rf_status refusal, ur_declared_content_length = rf_declared refusal,
        ur_received_bytes = rf_received refusal, ur_created_at = now \<rparr>]\<rparr>)"

definition json_nat :: "nat option \<Rightarrow> json" where
  "json_nat n = (case n of None \<Rightarrow> JNull | Some k \<Rightarrow> JInt (int k))"

definition reject_response :: "upload_refused \<Rightarrow> http_response" where
  "reject_response refusal = \<lparr> rs_status = rf_status refusal,
     rs_body = [(''error'', JStr (rf_error refusal)), (''reason'', JStr (rf_reason refusal)),
       (''declared_bytes'', json_nat (rf_declared refusal)), (''received_bytes'', json_nat (rf_received refusal))],
     rs_retry_after = False \<rparr>"

definition group_name :: "string \<Rightarrow> string" where
  "group_name candidate =
     (let name = py_title False (py_strip (map (\<lambda>c. if c = CHR ''-'' then CHR '' '' else c) candidate))
      in if name = [] then ''Incoming'' else name)"

definition fallback_group_from_request :: "runtime \<Rightarrow> http_request \<Rightarrow> string \<Rightarrow> string \<times> string" where
  "fallback_group_from_request rt rq group_slug =
     (let candidate = (if group_slug \<noteq> [] then group_slug else if rq_post_group rq \<noteq> [] then rq_post_group rq
            else if rq_get_group rq \<noteq> [] then rq_get_group rq else rq_header_group rq);
          slug = take 160 (slugify rt candidate)
      in if candidate = [] then ([], []) else (if slug = [] then ''incoming'' else slug, group_name candidate))"

definition groups_for_audit_file :: "database \<Rightarrow> audit_file \<Rightarrow> audit_group list" where
  "groups_for_audit_file db f = sort_key g_slug (filter (\<lambda>g. g_id g \<in> set (af_groups f)) (db_groups db))"

definition source_response :: "audit_file \<Rightarrow> dict" where
  "source_response f = map (\<lambda>(k, v). (k, JStr v)) (filter (\<lambda>(k, v). v \<noteq> [])
     [(''platform'', af_source_platform f), (''hardware_model'', af_source_hardware_model f),
      (''app_version'', af_source_app_version f), (''device_id'', af_source_device_id f),
      (''upload_trigger'', af_source_upload_trigger f), (''local_member_ref'', af_source_local_member_ref f)])"

definition status_json :: "status \<Rightarrow> json" where
  "status_json s = JStr (case s of STATUS_VALID \<Rightarrow> ''valid'' | STATUS_INVALID \<Rightarrow> ''invalid'')"

definition upload_response :: "database \<Rightarrow> audit_file \<Rightarrow> bool \<Rightarrow> http_response" where
  "upload_response db f created =
     (let slugs = map g_slug (groups_for_audit_file db f);
          strs = (\<lambda>xs. JList (map JStr xs))
      in \<lparr> rs_status = (if created then 201 else 200),
           rs_body = [(''id'', JInt (int (af_id f))), (''created'', JBool created),
             (''group'', (case slugs of [s] \<Rightarrow> JStr s | _ \<Rightarrow> JNull)), (''groups'', strs slugs),
             (''artifact_type'', JStr ''audit_log''), (''source'', JObj (source_response f)),
             (''account_refs'', strs (af_account_refs f)), (''group_refs'', strs (af_group_refs f)),
             (''schema_versions'', strs (af_schema_versions f)), (''audit_data_modes'', strs (af_audit_data_modes f)),
             (''validation_status'', status_json (af_validation_status f)),
             (''event_count'', JInt (int (af_valid_event_count f))),
             (''invalid_event_count'', JInt (int (af_invalid_event_count f))),
             (''duplicate_event_count'', JInt (int (af_duplicate_event_count f))), (''engine_ids'', strs (af_engine_ids f))],
           rs_retry_after = False \<rparr>)"

definition rejected_response :: "upload_rejected \<Rightarrow> http_response" where
  "rejected_response r = \<lparr> rs_status = status_code (rj_code r),
     rs_body = [(''error'', JStr (rj_code r)), (''reason'', JStr (rj_code r)), (''line_number'', json_nat (rj_line_number r))],
     rs_retry_after = (status_code (rj_code r) = 503) \<rparr>"

text \<open>A stored file that the result names: one of this database, or of a concurrent request that committed first.\<close>

definition result_file :: "circumstances \<Rightarrow> database \<Rightarrow> nat \<Rightarrow> audit_file option" where
  "result_file ci db i = find (\<lambda>f. af_id f = i) (db_files db @ ci_committed ci)"

definition plain_response :: "nat \<Rightarrow> string \<Rightarrow> bool \<Rightarrow> http_response" where
  "plain_response code error retry = \<lparr> rs_status = code, rs_body = [(''error'', JStr error)], rs_retry_after = retry \<rparr>"

definition api_audit_log_upload ::
  "deployment \<Rightarrow> circumstances \<Rightarrow> int \<Rightarrow> http_request \<Rightarrow> string \<Rightarrow> service \<Rightarrow> service \<times> http_response" where
  "api_audit_log_upload dp ci now rq group_slug sv =
     (if rq_method rq \<noteq> ''POST'' then (sv, \<lparr> rs_status = 405, rs_body = [], rs_retry_after = False \<rparr>)
      else (case authenticate_request dp now rq (sv_upload_tokens sv) of
              (rows, None) \<Rightarrow> (sv\<lparr>sv_upload_tokens := rows\<rparr>, plain_response 401 ''missing or invalid bearer token'' False)
            | (rows, Some t) \<Rightarrow>
                (let sv1 = sv\<lparr>sv_upload_tokens := rows\<rparr>
                 in if \<not> dp_uploads_enabled dp
                    then (sv1, plain_response 503 ''audit log uploads are temporarily disabled'' True)
                    else (case verified_audit_bytes (max_dump_bytes (dp_runtime dp)) rq of
                            Inl refusal \<Rightarrow>
                              (sv1\<lparr>sv_db := record_upload_rejection (ci_rejection_lost ci) now t refusal (sv_db sv1)\<rparr>,
                               reject_response refusal)
                          | Inr audit_bytes \<Rightarrow>
                              (let (slug, name) = fallback_group_from_request (dp_runtime dp) rq group_slug;
                                   args = \<lparr> ua_dump_bytes = audit_bytes, ua_fallback_group_slug = slug,
                                     ua_fallback_group_name = name, ua_upload_token = Some (tk_id t), ua_uploaded_by = None,
                                     ua_now = now \<rparr>;
                                   (db', result) = ingest_audit_log_bytes (dp_runtime dp) ci args (sv_db sv1)
                               in (case result of
                                     Refused r \<Rightarrow> (sv1\<lparr>sv_db := db'\<rparr>, rejected_response r)
                                   | Crashed \<Rightarrow> (sv1\<lparr>sv_db := db'\<rparr>, \<lparr> rs_status = 500, rs_body = [], rs_retry_after = False \<rparr>)
                                   | Ingested i created \<Rightarrow>
                                       (sv1\<lparr>sv_db := db', sv_upload_tokens := mark_used now t (sv_upload_tokens sv1)\<rparr>,
                                        (case result_file ci db' i of
                                           None \<Rightarrow> \<lparr> rs_status = 500, rs_body = [], rs_retry_after = False \<rparr>
                                         | Some f \<Rightarrow> upload_response db' f created))))))))"

section \<open>What is accepted as a body\<close>

text \<open>
  The parser's protocol: for every file part it opens the file, hands over its chunks in order and
  completes it.
\<close>

definition parts_trace :: "byte list list list \<Rightarrow> part_event list" where
  "parts_trace parts = concat (map (\<lambda>chunks. NewFile # map DataChunk chunks @ [FileComplete]) parts)"

definition chunk_bytes :: "part_event \<Rightarrow> byte list" where
  "chunk_bytes p = (case p of DataChunk d \<Rightarrow> d | _ \<Rightarrow> [])"

text \<open>Whatever the parser does, the handler never holds more than the limit, and at most one file.\<close>

definition handler_ok :: "nat \<Rightarrow> upload_handler \<Rightarrow> bool" where
  "handler_ok max_bytes h \<longleftrightarrow> uh_bytes_received h \<le> max_bytes \<and> length (uh_file h) \<le> uh_bytes_received h \<and> uh_file_count h \<le> 1 \<and>
     list_all (\<lambda>f. length f \<le> max_bytes) (uh_files h)"

lemma handle_part_ok: "handler_ok max_bytes h \<Longrightarrow> handle_part max_bytes p h = Inr h' \<Longrightarrow> handler_ok max_bytes h'"
  by (cases p) (auto simp: handler_ok_def Let_def split: if_splits)

lemma handle_parts_append:
  "handle_parts max_bytes (ps @ qs) h =
     (case handle_parts max_bytes ps h of Inl e \<Rightarrow> Inl e | Inr h' \<Rightarrow> handle_parts max_bytes qs h')"
  by (induction ps arbitrary: h) (auto split: sum.splits)

lemma handle_parts_ok: "handler_ok max_bytes h \<Longrightarrow> handle_parts max_bytes ps h = Inr h' \<Longrightarrow> handler_ok max_bytes h'"
  by (induction ps arbitrary: h) (auto split: sum.splits dest: handle_part_ok)

lemma handler_start_ok: "handler_ok max_bytes handler_start"
  by (simp add: handler_ok_def handler_start_def)

lemma handle_chunks:
  "handle_parts max_bytes (map DataChunk chunks) h =
     (if chunks = [] \<or> uh_bytes_received h + length (concat chunks) \<le> max_bytes
      then Inr (h\<lparr>uh_bytes_received := uh_bytes_received h + length (concat chunks), uh_file := uh_file h @ concat chunks\<rparr>)
      else Inl RequestDataTooBig)"
proof (induction chunks arbitrary: h)
  case (Cons c chunks)
  show ?case
  proof (cases "uh_bytes_received h + length c > max_bytes")
    case True
    then show ?thesis by simp
  next
    case False
    then show ?thesis using Cons.IH [of "h\<lparr>uh_bytes_received := uh_bytes_received h + length c, uh_file := uh_file h @ c\<rparr>"]
      by (cases "chunks = []") (simp_all add: add.assoc)
  qed
qed simp

lemma handle_one_part:
  "handle_parts max_bytes (parts_trace [chunks]) handler_start =
     (if length (concat chunks) \<le> max_bytes
      then Inr \<lparr> uh_bytes_received = length (concat chunks), uh_file_count = 1, uh_file = concat chunks, uh_files = [concat chunks] \<rparr>
      else Inl RequestDataTooBig)"
  by (auto simp: parts_trace_def handle_parts_append handle_chunks handler_start_def Let_def)

lemma handle_two_parts: "\<exists>e. handle_parts max_bytes (parts_trace (p # q # parts)) handler_start = Inl e"
proof -
  have split: "parts_trace (p # q # parts) = parts_trace [p] @ NewFile # map DataChunk q @ [FileComplete] @ parts_trace parts"
    by (simp add: parts_trace_def)
  show ?thesis unfolding split handle_parts_append handle_one_part by (simp add: Let_def)
qed

lemma handle_parts_files:
  assumes "handle_parts max_bytes (parts_trace parts) handler_start = Inr h"
  shows "uh_files h = map concat parts" "length parts \<le> 1" "length (concat (concat parts)) \<le> max_bytes"
proof -
  consider "parts = []" | p where "parts = [p]" | p q ps where "parts = p # q # ps" by (metis list.exhaust)
  then have "uh_files h = map concat parts \<and> length parts \<le> 1 \<and> length (concat (concat parts)) \<le> max_bytes"
  proof cases
    case 1
    then show ?thesis using assms by (auto simp: parts_trace_def handler_start_def)
  next
    case (2 p)
    then show ?thesis using assms by (auto simp: handle_one_part split: if_splits)
  next
    case (3 p q ps)
    then show ?thesis using assms handle_two_parts [of max_bytes p q ps] by auto
  qed
  then show "uh_files h = map concat parts" "length parts \<le> 1" "length (concat (concat parts)) \<le> max_bytes" by blast+
qed

lemma multipart_bytes:
  assumes "rq_body rq = Multipart (parts_trace parts) e"
  shows "audit_bytes_from_request max_bytes rq = Inr b \<longleftrightarrow>
    e = PartsDone \<and> length parts \<le> 1 \<and> b = concat (concat parts) \<and> length b \<le> max_bytes"
proof -
  have e: "parser_error e = None \<longleftrightarrow> e = PartsDone" by (cases e) (simp_all add: parser_error_def)
  consider "parts = []" | p where "parts = [p]" | p q ps where "parts = p # q # ps" by (metis list.exhaust)
  then show ?thesis
  proof cases
    case 1
    then have "handle_parts max_bytes (parts_trace parts) handler_start = Inr handler_start" by (simp add: parts_trace_def)
    then show ?thesis
      using e 1 by (auto simp: audit_bytes_from_request_def assms handler_start_def split: option.splits)
  next
    case (2 p)
    then show ?thesis
      using e by (auto simp: audit_bytes_from_request_def assms handle_one_part read_upload_bytes_def Let_def
          split: option.splits)
  next
    case (3 p q ps)
    then show ?thesis
      using handle_two_parts [of max_bytes p q ps] by (auto simp: audit_bytes_from_request_def assms)
  qed
qed

text \<open>
  C18: a body is accepted exactly when it can be trusted whole. The declared length must be known; a
  raw body must not be declared or be longer than the limit, and as much as was declared must have
  arrived, by the byte counter when there is one, by its own length otherwise; a multipart body must be
  read to its end, hold at most one file part within the limit, and by the counter have arrived
  completely. What is ingested is then the raw body, or all bytes of the file part.
\<close>

theorem accepted_body_exact:
  assumes "case rq_body rq of Multipart events e \<Rightarrow> is_multipart_request rq \<and> events = parts_trace parts | RawBody _ \<Rightarrow> \<not> is_multipart_request rq
     | _ \<Rightarrow> True"
  shows "verified_audit_bytes max_bytes rq = Inr b \<longleftrightarrow> (\<exists>declared. declared_content_length rq = Some declared \<and>
    (case rq_counter rq of None \<Rightarrow> True | Some c \<Rightarrow> declared \<le> ci_bytes_read c) \<and>
    (case rq_body rq of
       RawBody body \<Rightarrow> b = body \<and> declared \<le> max_bytes \<and> length body \<le> max_bytes \<and> (rq_counter rq = None \<longrightarrow> declared \<le> length body)
     | Multipart events e \<Rightarrow> e = PartsDone \<and> length parts \<le> 1 \<and> b = concat (concat parts) \<and> length b \<le> max_bytes
     | _ \<Rightarrow> False))"
proof (cases "declared_content_length rq")
  case None
  then show ?thesis by (simp add: verified_audit_bytes_def)
next
  case (Some declared)
  show ?thesis
  proof (cases "rq_body rq")
    case (RawBody body)
    then show ?thesis
      using Some assms by (auto simp: verified_audit_bytes_def audit_bytes_from_request_def received_body_bytes_def
          counted_body_bytes_def not_less split: option.splits)
  next
    case (Multipart events e)
    then have mp: "is_multipart_request rq" and ev: "events = parts_trace parts" using assms by simp_all
    have "audit_bytes_from_request max_bytes rq = Inr b \<longleftrightarrow>
        e = PartsDone \<and> length parts \<le> 1 \<and> b = concat (concat parts) \<and> length b \<le> max_bytes"
      using multipart_bytes [of rq parts e] Multipart ev by simp
    then show ?thesis
      using Some Multipart mp by (auto simp: verified_audit_bytes_def received_body_bytes_def counted_body_bytes_def not_less
          split: option.splits sum.splits)
  qed (use Some in \<open>simp_all add: verified_audit_bytes_def audit_bytes_from_request_def\<close>)
qed

definition example_deployment :: deployment where
  "example_deployment = \<lparr> dp_runtime = example_runtime, dp_hmac = example_hmac, dp_settings = example_settings,
     dp_uploads_enabled = True \<rparr>"

definition example_request :: http_request where
  "example_request = \<lparr> rq_method = ''POST'', rq_authorization = Some ''Bearer goggles_0a_s_1'',
     rq_content_length = Some ''6'', rq_content_type = ''application/x-ndjson'',
     rq_counter = Some \<lparr> ci_reads = [example_upload], ci_bytes_read = length example_upload \<rparr>,
     rq_body = RawBody example_upload, rq_post_group = [], rq_get_group = [], rq_header_group = ''incoming'' \<rparr>"

theorem accepted_body_exact_witness:
  "verified_audit_bytes 100 example_request = Inr example_upload \<and>
   verified_audit_bytes 100 (example_request\<lparr>rq_content_length := Some ''99''\<rparr>) \<noteq> Inr example_upload"
proof
  have "case rq_body example_request of Multipart events e \<Rightarrow> is_multipart_request example_request \<and> events = parts_trace []
     | RawBody _ \<Rightarrow> \<not> is_multipart_request example_request | _ \<Rightarrow> True"
    by (simp add: example_request_def is_multipart_request_def)
  note exact = accepted_body_exact [OF this, of 100 example_upload]
  have "declared_content_length example_request = Some 6" "length example_upload = 6" by code_simp+
  then show "verified_audit_bytes 100 example_request = Inr example_upload"
    unfolding exact by (simp add: example_request_def)
  show "verified_audit_bytes 100 (example_request\<lparr>rq_content_length := Some ''99''\<rparr>) \<noteq> Inr example_upload"
    by code_simp
qed

section \<open>What the endpoint does\<close>

text \<open>The cases of a request, each with what it leaves and answers.\<close>

definition request_args :: "deployment \<Rightarrow> int \<Rightarrow> http_request \<Rightarrow> string \<Rightarrow> token \<Rightarrow> byte list \<Rightarrow> upload_args" where
  "request_args dp now rq group_slug t b =
     \<lparr> ua_dump_bytes = b, ua_fallback_group_slug = fst (fallback_group_from_request (dp_runtime dp) rq group_slug),
       ua_fallback_group_name = snd (fallback_group_from_request (dp_runtime dp) rq group_slug),
       ua_upload_token = Some (tk_id t), ua_uploaded_by = None, ua_now = now \<rparr>"

lemma api_cases:
  assumes "api_audit_log_upload dp ci now rq group_slug sv = (sv', resp)"
  obtains (unauthorised) rows where "sv' = sv \<or> authenticate_request dp now rq (sv_upload_tokens sv) = (rows, None)"
      "sv' = sv \<or> sv' = sv\<lparr>sv_upload_tokens := rows\<rparr>" "rs_status resp \<in> {401, 405}"
  | (disabled) rows t where "authenticate_request dp now rq (sv_upload_tokens sv) = (rows, Some t)"
      "sv' = sv\<lparr>sv_upload_tokens := rows\<rparr>" "rs_status resp = 503"
  | (refused) rows t refusal where "authenticate_request dp now rq (sv_upload_tokens sv) = (rows, Some t)"
      "verified_audit_bytes (max_dump_bytes (dp_runtime dp)) rq = Inl refusal" "resp = reject_response refusal"
      "sv' = sv\<lparr>sv_upload_tokens := rows, sv_db := record_upload_rejection (ci_rejection_lost ci) now t refusal (sv_db sv)\<rparr>"
  | (handled) rows t b db' result where "authenticate_request dp now rq (sv_upload_tokens sv) = (rows, Some t)"
      "verified_audit_bytes (max_dump_bytes (dp_runtime dp)) rq = Inr b"
      "ingest_audit_log_bytes (dp_runtime dp) ci (request_args dp now rq group_slug t b) (sv_db sv) = (db', result)"
      "sv' = sv\<lparr>sv_db := db', sv_upload_tokens := (case result of Ingested i c \<Rightarrow> mark_used now t rows | _ \<Rightarrow> rows)\<rparr>"
      "case result of Refused r \<Rightarrow> resp = rejected_response r
        | Crashed \<Rightarrow> rs_status resp = 500
        | Ingested i c \<Rightarrow> (case result_file ci db' i of None \<Rightarrow> rs_status resp = 500 | Some f \<Rightarrow> resp = upload_response db' f c)"
proof (cases "rq_method rq = ''POST''")
  case False
  then show ?thesis using assms unauthorised [of "sv_upload_tokens sv"] by (auto simp: api_audit_log_upload_def)
next
  case True
  obtain rows found where auth: "authenticate_request dp now rq (sv_upload_tokens sv) = (rows, found)" by fastforce
  show ?thesis
  proof (cases found)
    case None
    then show ?thesis
      using assms True auth unauthorised [of rows] by (auto simp: api_audit_log_upload_def plain_response_def)
  next
    case (Some t)
    note auth = auth [unfolded Some]
    show ?thesis
    proof (cases "dp_uploads_enabled dp")
      case False
      then show ?thesis
        using assms True disabled [OF auth] by (auto simp: api_audit_log_upload_def auth plain_response_def)
    next
      case en: True
      show ?thesis
      proof (cases "verified_audit_bytes (max_dump_bytes (dp_runtime dp)) rq")
        case (Inl refusal)
        then show ?thesis
          using assms True en refused [OF auth Inl] by (auto simp: api_audit_log_upload_def auth)
      next
        case (Inr b)
        obtain db' result where run: "ingest_audit_log_bytes (dp_runtime dp) ci (request_args dp now rq group_slug t b) (sv_db sv) = (db', result)"
          by fastforce
        have "api_audit_log_upload dp ci now rq group_slug sv = (case result of
            Refused r \<Rightarrow> (sv\<lparr>sv_upload_tokens := rows, sv_db := db'\<rparr>, rejected_response r)
          | Crashed \<Rightarrow> (sv\<lparr>sv_upload_tokens := rows, sv_db := db'\<rparr>, \<lparr> rs_status = 500, rs_body = [], rs_retry_after = False \<rparr>)
          | Ingested i c \<Rightarrow> (sv\<lparr>sv_upload_tokens := mark_used now t rows, sv_db := db'\<rparr>, (case result_file ci db' i of
               None \<Rightarrow> \<lparr> rs_status = 500, rs_body = [], rs_retry_after = False \<rparr> | Some f \<Rightarrow> upload_response db' f c)))"
          using True en run by (simp add: api_audit_log_upload_def auth Inr request_args_def case_prod_beta
              split: ingest_outcome.splits option.splits)
        with assms handled [OF auth Inr run] show ?thesis by (auto split: ingest_outcome.splits option.splits)
      qed
    qed
  qed
qed

lemma response_status:
  "rs_status (upload_response db f c) = (if c then 201 else 200)" "rs_status (rejected_response r) = status_code (rj_code r)"
  by (simp_all add: upload_response_def rejected_response_def Let_def)

lemma mark_used_ok: "tokens_ok (mark_used now t rows) = tokens_ok rows"
proof -
  have "map tk_id (mark_used now t rows) = map tk_id rows" "map tk_token_prefix (mark_used now t rows) = map tk_token_prefix rows"
    by (simp_all add: mark_used_def)
  then show ?thesis by (simp add: tokens_ok_def)
qed

lemma authenticate_ok:
  assumes "tokens_ok rows" "authenticate hmac st now rows raw k = (rows', result)"
  shows "tokens_ok rows'"
proof (cases result)
  case None
  then show ?thesis using assms authenticate_None by metis
next
  case (Some t)
  then obtain raw0 secret t0 where "raw = Some raw0" "t0 \<in> set rows" "opens hmac st now k raw0 secret t0" "CHR ''_'' \<notin> set k"
    using assms authenticate_Some [OF assms(1)] by metis
  from authenticate_opens [OF assms(1) this(2-4)] this(1) assms(2)
  have "rows' = rekey (hash_secret hmac st secret None) t0 rows" by simp
  then have "map tk_id rows' = map tk_id rows" "map tk_token_prefix rows' = map tk_token_prefix rows" by (simp_all add: rekey_def)
  then show ?thesis using assms(1) by (simp add: tokens_ok_def)
qed

lemma record_upload_rejection_frame:
  "\<exists>rs. record_upload_rejection lost now t refusal db = db\<lparr>db_rejections := rs\<rparr> \<and>
     (rs = db_rejections db \<or> (\<exists>row. rs = db_rejections db @ [row]))"
proof (cases "lost \<or> (case rf_declared refusal of None \<Rightarrow> False | Some n \<Rightarrow> n > 9223372036854775807)")
  case True
  then have "record_upload_rejection lost now t refusal db = db\<lparr>db_rejections := db_rejections db\<rparr>"
    by (simp add: record_upload_rejection_def)
  then show ?thesis by blast
next
  case False
  then show ?thesis unfolding record_upload_rejection_def by auto
qed

text \<open>
  No request can break the service's state. Whatever is sent, by whom and under whatever
  circumstances, the database stays consistent, the upload tokens keep distinct keys and prefixes, and
  the personal access tokens are not touched.
\<close>

theorem upload_endpoint_invariant:
  assumes "db_ok (sv_db sv)" "tokens_ok (sv_upload_tokens sv)"
    and run: "api_audit_log_upload dp ci now rq group_slug sv = (sv', resp)"
  shows "db_ok (sv_db sv') \<and> tokens_ok (sv_upload_tokens sv') \<and> sv_access_tokens sv' = sv_access_tokens sv"
  using run
proof (cases rule: api_cases)
  case (unauthorised rows)
  then show ?thesis using assms authenticate_ok by (auto simp: authenticate_request_def authenticate_upload_token_def)
next
  case (disabled rows t)
  then show ?thesis using assms authenticate_ok by (auto simp: authenticate_request_def authenticate_upload_token_def)
next
  case (refused rows t refusal)
  moreover have "tokens_ok rows"
    using refused(1) assms(2) authenticate_ok by (auto simp: authenticate_request_def authenticate_upload_token_def)
  ultimately show ?thesis
    using assms(1) rejection_ok record_upload_rejection_frame [of "ci_rejection_lost ci" now t refusal "sv_db sv"] by auto
next
  case (handled rows t b db' result)
  have "db_ok db'" using ingest_ok [OF assms(1)] handled(3) by (metis fst_conv)
  moreover have "tokens_ok rows"
    using handled(1) assms(2) authenticate_ok by (auto simp: authenticate_request_def authenticate_upload_token_def)
  ultimately show ?thesis using handled(4) by (simp add: mark_used_ok split: ingest_outcome.splits)
qed

definition example_service :: service where
  "example_service = \<lparr> sv_db = empty_database, sv_upload_tokens = example_tokens, sv_access_tokens = example_accesses \<rparr>"

lemma example_upload_status: "rs_status (snd (api_audit_log_upload example_deployment quiet 5 example_request [] example_service)) = 201"
  by code_simp

theorem upload_endpoint_invariant_witness:
  "db_ok (sv_db (fst (api_audit_log_upload example_deployment quiet 5 example_request [] example_service))) \<and>
   rs_status (snd (api_audit_log_upload example_deployment quiet 5 example_request [] example_service)) = 201"
proof -
  have "tokens_ok (sv_upload_tokens example_service)" by code_simp
  moreover have "db_ok (sv_db example_service)" by (simp add: example_service_def empty_database_ok)
  ultimately show ?thesis
    using upload_endpoint_invariant [where sv = example_service and dp = example_deployment and ci = quiet and now = 5
        and rq = example_request and group_slug = "[]"] example_upload_status by (metis prod.collapse)
qed



end
