(* ===== verification/Paging.thy ===== *)
theory Paging
  imports Py_Text
begin

text \<open>
  The query side of the read API (\<^verbatim>\<open>forensics/views.py\<close>): the filter values of a request, the bounded
  page loop of \<^verbatim>\<open>paginated_payloads\<close> and the severity of a payload. A request is the list of its query
  parameters in the order of the URL; the rows of a query set are the list the database returns in the
  order asked for. The theorems state that a page is a slice of the rows that match, and that a client
  that follows \<^verbatim>\<open>next_offset\<close> sees every matching row once.
\<close>

section \<open>Filter values\<close>

type_synonym query_dict = "(string \<times> string) list"

text \<open>\<^verbatim>\<open>request.GET.get(key)\<close>: the last value given for the key.\<close>

definition query_get :: "query_dict \<Rightarrow> string \<Rightarrow> string option" where
  "query_get q k = map_of (rev q) k"

definition query_get_or :: "query_dict \<Rightarrow> string \<Rightarrow> string" where
  "query_get_or q k = (case query_get q k of None \<Rightarrow> [] | Some v \<Rightarrow> v)"

definition GROUP_PROJECTION_API_DEFAULT_LIMIT :: int where
  "GROUP_PROJECTION_API_DEFAULT_LIMIT = 100"

definition GROUP_PROJECTION_API_MAX_LIMIT :: int where
  "GROUP_PROJECTION_API_MAX_LIMIT = 500"

record api_filters =
  fl_engine_id :: string
  fl_account_ref :: string
  fl_audit_data_mode :: string
  fl_message_id :: string
  fl_event_type :: string
  fl_severity :: string
  fl_epoch :: "int option"
  fl_from_ms :: "int option"
  fl_to_ms :: "int option"
  fl_limit :: nat
  fl_offset :: nat

record action_filters = api_filters +
  fl_origin :: string
  fl_action :: string

definition optional_positive_int :: "string option \<Rightarrow> int option" where
  "optional_positive_int v =
     (case v of
        None \<Rightarrow> None
      | Some s \<Rightarrow> if s = [] then None
          else (case py_int s of None \<Rightarrow> None | Some parsed \<Rightarrow> if parsed < 0 then None else Some parsed))"

definition bounded_nonnegative_int :: "string option \<Rightarrow> nat" where
  "bounded_nonnegative_int v =
     (case v of
        None \<Rightarrow> 0
      | Some s \<Rightarrow> if s = [] then 0 else (case py_int s of None \<Rightarrow> 0 | Some parsed \<Rightarrow> nat (max parsed 0)))"

definition bounded_positive_int :: "string option \<Rightarrow> int \<Rightarrow> int \<Rightarrow> nat" where
  "bounded_positive_int v dflt maximum =
     (let parsed = (case v of None \<Rightarrow> dflt
          | Some s \<Rightarrow> (case py_int s of None \<Rightarrow> dflt | Some parsed \<Rightarrow> parsed))
      in nat (min (max parsed 1) maximum))"

definition api_filter_values :: "query_dict \<Rightarrow> api_filters" where
  "api_filter_values q =
     \<lparr> fl_engine_id = query_get_or q ''engine_id'', fl_account_ref = query_get_or q ''account_ref'',
       fl_audit_data_mode = query_get_or q ''audit_data_mode'', fl_message_id = query_get_or q ''message_id'',
       fl_event_type = query_get_or q ''event_type'', fl_severity = py_lower (query_get_or q ''severity''),
       fl_epoch = optional_positive_int (query_get q ''epoch''),
       fl_from_ms = optional_positive_int (query_get q ''from_ms''),
       fl_to_ms = optional_positive_int (query_get q ''to_ms''),
       fl_limit = bounded_positive_int (query_get q ''limit'') GROUP_PROJECTION_API_DEFAULT_LIMIT
         GROUP_PROJECTION_API_MAX_LIMIT,
       fl_offset = bounded_nonnegative_int (query_get q ''offset'') \<rparr>"

definition action_filter_values :: "query_dict \<Rightarrow> action_filters" where
  "action_filter_values q =
     api_filters.extend (api_filter_values q)
       (action_filters.fields (query_get_or q ''origin'') (query_get_or q ''action''))"

definition default_api_filters :: api_filters where
  "default_api_filters =
     \<lparr> fl_engine_id = [], fl_account_ref = [], fl_audit_data_mode = [], fl_message_id = [], fl_event_type = [],
       fl_severity = [], fl_epoch = None, fl_from_ms = None, fl_to_ms = None,
       fl_limit = nat GROUP_PROJECTION_API_DEFAULT_LIMIT, fl_offset = 0 \<rparr>"

definition default_action_filters :: action_filters where
  "default_action_filters = api_filters.extend default_api_filters (action_filters.fields [] [])"

text \<open>
  A caller passes the filters of a request without or with the two action keys; the keys it leaves out
  keep their defaults.
\<close>

definition normalized_projection_filters :: "api_filters \<Rightarrow> (string \<times> string) option \<Rightarrow> action_filters" where
  "normalized_projection_filters filters action_keys =
     api_filters.extend filters
       (case action_keys of
          None \<Rightarrow> action_filters.fields (fl_origin default_action_filters) (fl_action default_action_filters)
        | Some (origin, action) \<Rightarrow> action_filters.fields origin action)"

section \<open>Pages\<close>

record pagination =
  pg_limit :: nat
  pg_offset :: nat
  pg_returned :: nat
  pg_has_more :: bool
  pg_next_offset :: "nat option"

definition pagination_payload :: "nat \<Rightarrow> nat \<Rightarrow> nat \<Rightarrow> bool \<Rightarrow> pagination" where
  "pagination_payload limit offset returned has_more =
     \<lparr> pg_limit = limit, pg_offset = offset, pg_returned = returned, pg_has_more = has_more,
       pg_next_offset = (if has_more then Some (offset + returned) else None) \<rparr>"

text \<open>
  The loop over the serialised rows: \<open>keep\<close> is the severity and payload test, \<open>matched\<close> counts the rows
  passed so far, and the loop stops at the first match beyond the page.
\<close>

fun page_loop :: "nat \<Rightarrow> nat \<Rightarrow> ('a \<Rightarrow> 'p) \<Rightarrow> ('p \<Rightarrow> bool) \<Rightarrow> 'a list \<Rightarrow> 'p list \<Rightarrow> nat \<Rightarrow> 'p list \<times> bool" where
  "page_loop limit offset payload_factory keep [] page matched = (page, False)"
| "page_loop limit offset payload_factory keep (item # items) page matched =
     (let payload = payload_factory item
      in if \<not> keep payload then page_loop limit offset payload_factory keep items page matched
         else if matched < offset then page_loop limit offset payload_factory keep items page (Suc matched)
         else if length page \<ge> limit then (page, True)
         else page_loop limit offset payload_factory keep items (page @ [payload]) (Suc matched))"

definition keeps :: "string \<Rightarrow> ('p \<Rightarrow> string) \<Rightarrow> ('p \<Rightarrow> bool) option \<Rightarrow> 'p \<Rightarrow> bool" where
  "keeps severity severity_factory payload_filter payload \<longleftrightarrow>
     (severity = [] \<or> severity_factory payload = severity) \<and>
     (case payload_filter of None \<Rightarrow> True | Some f \<Rightarrow> f payload)"

definition paginated_payloads ::
  "'a list \<Rightarrow> ('f api_filters_scheme) \<Rightarrow> ('a \<Rightarrow> 'p) \<Rightarrow> ('p \<Rightarrow> string) \<Rightarrow> ('p \<Rightarrow> bool) option \<Rightarrow> 'p list \<times> pagination" where
  "paginated_payloads ordered filters payload_factory severity_factory payload_filter =
     (let limit = fl_limit filters; offset = fl_offset filters; severity = fl_severity filters
      in if severity \<noteq> [] \<or> payload_filter \<noteq> None
         then (let (page, has_more) =
                     page_loop limit offset payload_factory (keeps severity severity_factory payload_filter) ordered [] 0
               in (page, pagination_payload limit offset (length page) has_more))
         else (let rows = take (limit + 1) (drop offset ordered);
                   payloads = map payload_factory (take limit rows)
               in (payloads, pagination_payload limit offset (length payloads) (length rows > limit))))"

section \<open>Severity\<close>

definition ERROR_SEVERITY_TOKENS :: "string list" where
  "ERROR_SEVERITY_TOKENS = [''error'', ''failed'', ''failure'', ''reject'', ''rejected'', ''unrecoverable'']"

definition WARNING_SEVERITY_TOKENS :: "string list" where
  "WARNING_SEVERITY_TOKENS = [''blocked'', ''missing'', ''partial'', ''rollback'', ''stale'', ''warning'']"

definition severity_from_values :: "json list \<Rightarrow> string" where
  "severity_from_values values =
     (let shown = str_join '' '' (map (\<lambda>v. py_lower (py_str v)) (filter (\<lambda>v. v \<notin> {JNull, JStr [], JList []}) values))
      in if \<exists>t \<in> set ERROR_SEVERITY_TOKENS. contains_str t shown then ''error''
         else if \<exists>t \<in> set WARNING_SEVERITY_TOKENS. contains_str t shown then ''warning''
         else ''info'')"

section \<open>Facts about filter values\<close>

lemma bounded_positive_int_range:
  "1 \<le> maximum \<Longrightarrow> 1 \<le> bounded_positive_int v dflt maximum \<and> int (bounded_positive_int v dflt maximum) \<le> maximum"
  by (auto simp: bounded_positive_int_def Let_def min_def max_def nat_le_eq_zle split: option.splits)

lemma request_limit_range: "1 \<le> fl_limit (api_filter_values q)" "fl_limit (api_filter_values q) \<le> 500"
  using bounded_positive_int_range [of GROUP_PROJECTION_API_MAX_LIMIT "query_get q ''limit''" GROUP_PROJECTION_API_DEFAULT_LIMIT]
  by (simp_all add: api_filter_values_def GROUP_PROJECTION_API_MAX_LIMIT_def)

lemma optional_positive_int_sign: "optional_positive_int v = Some n \<Longrightarrow> 0 \<le> n"
  by (auto simp: optional_positive_int_def split: option.splits if_splits)

section \<open>A page is a slice of the matching rows\<close>

text \<open>The rows a request asks for: those whose payload passes the severity and payload tests.\<close>

definition matching ::
  "'a list \<Rightarrow> ('f api_filters_scheme) \<Rightarrow> ('a \<Rightarrow> 'p) \<Rightarrow> ('p \<Rightarrow> string) \<Rightarrow> ('p \<Rightarrow> bool) option \<Rightarrow> 'p list" where
  "matching ordered filters payload_factory severity_factory payload_filter =
     filter (keeps (fl_severity filters) severity_factory payload_filter) (map payload_factory ordered)"

lemma page_loop_slice:
  assumes "length page \<le> limit" "page \<noteq> [] \<longrightarrow> offset \<le> matched" "matched \<le> offset + length page"
    "matched < offset \<or> matched = offset + length page"
  shows "page_loop limit offset f keep items page matched =
    (let rest = drop (offset - matched) (filter keep (map f items))
     in (page @ take (limit - length page) rest, length rest > limit - length page))"
  using assms
proof (induction items arbitrary: page matched)
  case (Cons item items)
  consider "\<not> keep (f item)" | "keep (f item)" "matched < offset"
    | "keep (f item)" "\<not> matched < offset" "limit \<le> length page"
    | "keep (f item)" "\<not> matched < offset" "length page < limit" by linarith
  then show ?case
  proof cases
    case 1
    then show ?thesis using Cons.IH [OF Cons.prems] by simp
  next
    case 2
    then have "page = []" using Cons.prems by auto
    then have IH: "page_loop limit offset f keep items page (Suc matched) =
      (let rest = drop (offset - Suc matched) (filter keep (map f items))
       in (page @ take (limit - length page) rest, length rest > limit - length page))"
      using 2 by (intro Cons.IH) auto
    have "offset - matched = Suc (offset - Suc matched)" using 2 by simp
    then show ?thesis using 2 IH by (simp add: Let_def)
  next
    case 3
    then show ?thesis using Cons.prems by (simp add: Let_def)
  next
    case 4
    then have m: "matched = offset + length page" using Cons.prems by simp
    have IH: "page_loop limit offset f keep items (page @ [f item]) (Suc matched) =
      (let rest = drop (offset - Suc matched) (filter keep (map f items))
       in ((page @ [f item]) @ take (limit - length (page @ [f item])) rest, length rest > limit - length (page @ [f item])))"
      using 4 m by (intro Cons.IH) auto
    have "limit - length page = Suc (limit - Suc (length page))" using 4 by simp
    then show ?thesis using 4 m IH by (simp add: Let_def)
  qed
qed (use assms in simp)

lemma page_loop_start:
  "page_loop limit offset f keep items [] 0 =
    (take limit (drop offset (filter keep (map f items))), offset + limit < length (filter keep (map f items)))"
proof -
  have "0 < offset \<or> 0 = offset + length ([] :: 'b list)" by auto
  then show ?thesis using page_loop_slice [of "[]" limit offset 0 f keep items] by (auto simp: Let_def)
qed

lemma paginated_slice:
  "paginated_payloads ordered filters f sev flt =
     (let ms = matching ordered filters f sev flt;
          page = take (fl_limit filters) (drop (fl_offset filters) ms)
      in (page, pagination_payload (fl_limit filters) (fl_offset filters) (length page)
            (fl_offset filters + fl_limit filters < length ms)))"
proof (cases "fl_severity filters \<noteq> [] \<or> flt \<noteq> None")
  case True
  then show ?thesis
    by (auto simp: paginated_payloads_def matching_def Let_def page_loop_start)
next
  case False
  then have "matching ordered filters f sev flt = map f ordered"
    by (simp add: matching_def keeps_def)
  moreover have "length (take (fl_limit filters + 1) (drop (fl_offset filters) ordered)) > fl_limit filters \<longleftrightarrow>
      fl_offset filters + fl_limit filters < length ordered" by auto
  moreover have "min (min a (Suc b)) b = min a b" for a b :: nat by simp
  ultimately show ?thesis using False
    by (simp add: paginated_payloads_def Let_def take_map drop_map)
qed

text \<open>
  A client of the API: it asks for a page, and for the page at \<^verbatim>\<open>next_offset\<close> as long as one is named.
\<close>

function crawl ::
  "'a list \<Rightarrow> ('f api_filters_scheme) \<Rightarrow> ('a \<Rightarrow> 'p) \<Rightarrow> ('p \<Rightarrow> string) \<Rightarrow> ('p \<Rightarrow> bool) option \<Rightarrow> 'p list option" where
  "crawl ordered filters f sev flt =
     (if fl_limit filters = 0 then None
      else (let (page, pg) = paginated_payloads ordered filters f sev flt
            in (case pg_next_offset pg of
                  None \<Rightarrow> Some page
                | Some nxt \<Rightarrow> map_option ((@) page) (crawl ordered (filters\<lparr>fl_offset := nxt\<rparr>) f sev flt))))"
  by pat_completeness auto

termination
proof (relation "measure (\<lambda>(ordered, filters, f, sev, flt). length ordered - fl_offset filters)", goal_cases)
  case (2 ordered filters f sev flt p page pg nxt)
  have len: "length (matching ordered filters f sev flt) \<le> length ordered"
    unfolding matching_def using length_filter_le [of _ "map f ordered"] by simp
  have "fl_offset filters + fl_limit filters < length (matching ordered filters f sev flt)"
      "nxt = fl_offset filters + min (length (matching ordered filters f sev flt) - fl_offset filters) (fl_limit filters)"
    using 2(2-4) by (auto simp: paginated_slice Let_def pagination_payload_def split: if_splits)
  then show ?case using 2(1) len by auto
qed simp

declare crawl.simps [simp del]

lemma crawl_exact:
  assumes "1 \<le> fl_limit filters" "fl_offset filters \<le> length (matching ordered filters f sev flt)"
  shows "crawl ordered filters f sev flt = Some (drop (fl_offset filters) (matching ordered filters f sev flt))"
  using assms
proof (induction ordered filters f sev flt rule: crawl.induct)
  case (1 ordered filters f sev flt)
  define ms where "ms = matching ordered filters f sev flt"
  define o1 where "o1 = fl_offset filters + fl_limit filters"
  have same: "matching ordered (filters\<lparr>fl_offset := n\<rparr>) f sev flt = ms" for n
    by (simp add: ms_def matching_def)
  show ?case
  proof (cases "o1 < length ms")
    case True
    have page: "paginated_payloads ordered filters f sev flt =
        (take (fl_limit filters) (drop (fl_offset filters) ms),
         pagination_payload (fl_limit filters) (fl_offset filters) (fl_limit filters) True)"
      using True by (simp add: paginated_slice ms_def [symmetric] o1_def Let_def)
    have "crawl ordered (filters\<lparr>fl_offset := o1\<rparr>) f sev flt = Some (drop o1 ms)"
      using 1(1) [OF _ page [symmetric] refl, of o1] 1(2) True
      by (simp add: same pagination_payload_def o1_def)
    moreover have "take (fl_limit filters) (drop (fl_offset filters) ms) @ drop o1 ms = drop (fl_offset filters) ms"
      by (simp add: o1_def add.commute append_take_drop_id flip: drop_drop)
    ultimately show ?thesis using 1(2)
      by (subst crawl.simps) (simp add: page pagination_payload_def o1_def ms_def [symmetric])
  next
    case False
    then have "take (fl_limit filters) (drop (fl_offset filters) ms) = drop (fl_offset filters) ms"
      by (simp add: o1_def)
    with False show ?thesis using 1(2)
      by (subst crawl.simps) (simp add: paginated_slice ms_def [symmetric] o1_def Let_def pagination_payload_def)
  qed
qed

text \<open>
  C25: paging is complete and ends. A client that sends a request with no offset and follows
  \<^verbatim>\<open>next_offset\<close> until none is named receives, after finitely many requests, exactly the payloads of the
  matching rows, in order and each once; every page holds at most 500 payloads, and a page names a next
  offset exactly when matching rows are left.
\<close>

theorem pages_cover_matches:
  assumes "query_get q ''offset'' = None"
  shows "crawl ordered (api_filter_values q) f sev flt = Some (matching ordered (api_filter_values q) f sev flt) \<and>
    length (fst (paginated_payloads ordered (api_filter_values q') f sev flt)) \<le> 500 \<and>
    (pg_has_more (snd (paginated_payloads ordered (api_filter_values q') f sev flt)) \<longleftrightarrow>
      fl_offset (api_filter_values q') + fl_limit (api_filter_values q')
        < length (matching ordered (api_filter_values q') f sev flt))"
proof -
  have "fl_offset (api_filter_values q) = 0"
    using assms by (simp add: api_filter_values_def bounded_nonnegative_int_def)
  then have "crawl ordered (api_filter_values q) f sev flt = Some (matching ordered (api_filter_values q) f sev flt)"
    using crawl_exact [OF request_limit_range(1) [of q], of ordered f sev flt] by simp
  moreover have "length (fst (paginated_payloads ordered (api_filter_values q') f sev flt)) \<le> 500"
    using request_limit_range(2) [of q'] by (simp add: paginated_slice Let_def)
  ultimately show ?thesis by (simp add: paginated_slice Let_def pagination_payload_def)
qed

theorem pages_cover_matches_witness:
  "query_get [(''limit'', ''2''), (''severity'', ''ERROR'')] ''offset'' = None \<and>
   crawl [JInt 1, JStr ''Failed'', JStr ''stale'', JStr ''rejected'', JStr ''unrecoverable'']
     (api_filter_values [(''limit'', ''2''), (''severity'', ''ERROR'')]) id (\<lambda>v. severity_from_values [v]) None
   = Some [JStr ''Failed'', JStr ''rejected'', JStr ''unrecoverable'']"
proof -
  have q: "query_get [(''limit'', ''2''), (''severity'', ''ERROR'')] ''offset'' = None" by code_simp
  have m: "matching [JInt 1, JStr ''Failed'', JStr ''stale'', JStr ''rejected'', JStr ''unrecoverable'']
     (api_filter_values [(''limit'', ''2''), (''severity'', ''ERROR'')]) id (\<lambda>v. severity_from_values [v]) None
   = [JStr ''Failed'', JStr ''rejected'', JStr ''unrecoverable'']" by code_simp
  show ?thesis using q pages_cover_matches [OF q] m by metis
qed

end
