(* ===== verification/Body_Transfer.thy ===== *)
theory Body_Transfer
  imports Prelude
begin

text \<open>
  The upload worker of \<^verbatim>\<open>deploy/ingest_worker.py\<close>: the \<^verbatim>\<open>ProgressInput\<close> that reads a request body in
  bounded chunks under one transfer deadline, with a heartbeat per chunk received. The server's own body
  reader is the parameter \<open>rd\<close> on states of type \<open>'s\<close>; \<open>clock n\<close> is the value of the n-th call of
  \<^verbatim>\<open>monotonic()\<close>, in one fixed unit of time. Reading is a loop that the code does not bound: it is a
  \<^verbatim>\<open>partial_function\<close> whose value \<^term>\<open>None\<close> would mean that it never returns.
\<close>

datatype transfer_error = TransferDeadline | StreamFailed

record 's progress_input =
  pi_stream :: 's
  pi_deadline :: "int option"
  pi_ticks :: nat
  pi_heartbeats :: nat
  pi_socket_timeout :: int

record worker_config =
  wc_transfer_timeout :: int
  wc_idle_timeout :: int

type_synonym 's reader = "bool \<Rightarrow> nat \<Rightarrow> int \<Rightarrow> 's \<Rightarrow> 's \<times> byte list option"

definition CHUNK_SIZE :: nat where
  "CHUNK_SIZE = 64 * 1024"

definition newline :: byte where
  "newline = 10"

text \<open>One call of \<^verbatim>\<open>monotonic()\<close>.\<close>

definition tick :: "(nat \<Rightarrow> int) \<Rightarrow> 's progress_input \<Rightarrow> int \<times> 's progress_input" where
  "tick clock st = (clock (pi_ticks st), st\<lparr>pi_ticks := Suc (pi_ticks st)\<rparr>)"

definition arm_deadline :: "(nat \<Rightarrow> int) \<Rightarrow> worker_config \<Rightarrow> 's progress_input \<Rightarrow> int \<times> 's progress_input" where
  "arm_deadline clock cfg st =
     (case pi_deadline st of
        Some d \<Rightarrow> (d, st)
      | None \<Rightarrow> (let (now, st1) = tick clock st; d = now + wc_transfer_timeout cfg in (d, st1\<lparr>pi_deadline := Some d\<rparr>)))"

text \<open>
  The body of the loop up to the chunk: the deadline, the socket timeout that is set around the read and
  restored after it, the read and the second look at the clock.
\<close>

definition read_once ::
  "(nat \<Rightarrow> int) \<Rightarrow> worker_config \<Rightarrow> 's reader \<Rightarrow> bool \<Rightarrow> int \<Rightarrow> 's progress_input
     \<Rightarrow> 's progress_input \<times> (transfer_error + byte list)" where
  "read_once clock cfg rd line amount st =
     (let (deadline, st1) = arm_deadline clock cfg st;
          (now, st2) = tick clock st1;
          remaining = deadline - now
      in if remaining \<le> 0 then (st2, Inl TransferDeadline)
         else (let previous_timeout = pi_socket_timeout st2;
                   st3 = st2\<lparr>pi_socket_timeout := min remaining (wc_idle_timeout cfg)\<rparr>;
                   n = (if amount < 0 then CHUNK_SIZE else min (nat amount) CHUNK_SIZE);
                   (s', got) = rd line n (pi_socket_timeout st3) (pi_stream st3);
                   st4 = st3\<lparr>pi_stream := s', pi_socket_timeout := previous_timeout\<rparr>
               in (case got of
                     None \<Rightarrow> (st4, Inl StreamFailed)
                   | Some chunk \<Rightarrow>
                       (let (after, st5) = tick clock st4
                        in if after > deadline then (st5, Inl TransferDeadline) else (st5, Inr chunk)))))"

partial_function (option) read_loop ::
  "(nat \<Rightarrow> int) \<Rightarrow> worker_config \<Rightarrow> 's reader \<Rightarrow> bool \<Rightarrow> int \<Rightarrow> byte list \<Rightarrow> 's progress_input
     \<Rightarrow> ('s progress_input \<times> (transfer_error + byte list)) option" where
  "read_loop clock cfg rd line amount chunks st =
     (if amount = 0 then Some (st, Inr chunks)
      else (case read_once clock cfg rd line amount st of
              (st1, Inl e) \<Rightarrow> Some (st1, Inl e)
            | (st1, Inr chunk) \<Rightarrow>
                (if chunk = [] then Some (st1, Inr chunks)
                 else if line \<and> last chunk = newline
                 then Some (st1\<lparr>pi_heartbeats := Suc (pi_heartbeats st1)\<rparr>, Inr (chunks @ chunk))
                 else read_loop clock cfg rd line (if amount > 0 then amount - int (length chunk) else amount)
                        (chunks @ chunk) (st1\<lparr>pi_heartbeats := Suc (pi_heartbeats st1)\<rparr>))))"

definition progress_read ::
  "(nat \<Rightarrow> int) \<Rightarrow> worker_config \<Rightarrow> 's reader \<Rightarrow> bool \<Rightarrow> int option \<Rightarrow> 's progress_input
     \<Rightarrow> ('s progress_input \<times> (transfer_error + byte list)) option" where
  "progress_read clock cfg rd line amount st =
     read_loop clock cfg rd line (case amount of None \<Rightarrow> -1 | Some n \<Rightarrow> n) [] st"

text \<open>\<^verbatim>\<open>readlines\<close>: lines until the end of the body or until \<open>hint\<close> bytes are reached.\<close>

partial_function (option) readlines ::
  "(nat \<Rightarrow> int) \<Rightarrow> worker_config \<Rightarrow> 's reader \<Rightarrow> int option \<Rightarrow> byte list list \<Rightarrow> 's progress_input
     \<Rightarrow> ('s progress_input \<times> (transfer_error + byte list list)) option" where
  "readlines clock cfg rd hint lines st =
     (case progress_read clock cfg rd True (Some (-1)) st of
        None \<Rightarrow> None
      | Some (st1, Inl e) \<Rightarrow> Some (st1, Inl e)
      | Some (st1, Inr line) \<Rightarrow>
          (if line = [] then Some (st1, Inr lines)
           else if (case hint of None \<Rightarrow> False | Some h \<Rightarrow> h > 0 \<and> int (length (concat (lines @ [line]))) \<ge> h)
           then Some (st1, Inr (lines @ [line]))
           else readlines clock cfg rd hint (lines @ [line]) st1))"

text \<open>
  \<^verbatim>\<open>IngestWorker.init_process\<close>: the worker refuses to start with a transfer timeout that is not positive
  or a worker timeout that a database transaction could outlive. Times are in milliseconds here.
\<close>

definition init_process :: "int \<Rightarrow> int \<Rightarrow> int \<Rightarrow> bool" where
  "init_process transfer_timeout_ms transaction_ms worker_timeout_s \<longleftrightarrow>
     0 < transfer_timeout_ms \<and> \<not> (worker_timeout_s \<le> 0 \<or> transaction_ms \<ge> worker_timeout_s * 1000)"

section \<open>What the code relies on of the server's body reader\<close>

text \<open>
  A read asked for a positive number of bytes either raises or hands over at most that many bytes from
  the front of what is left, and hands over nothing only at the end of the body; in line mode it does not
  go past the end of a line. \<open>content s\<close> is what is left of the body in state \<open>s\<close>.
\<close>

definition reader_ok :: "'s reader \<Rightarrow> ('s \<Rightarrow> byte list) \<Rightarrow> bool" where
  "reader_ok rd content \<longleftrightarrow> (\<forall>line n timeout s s' chunk. 0 < n \<and> rd line n timeout s = (s', Some chunk) \<longrightarrow>
     content s = chunk @ content s' \<and> length chunk \<le> n \<and> (chunk = [] \<longrightarrow> content s = []) \<and>
     (line \<longrightarrow> newline \<notin> set (butlast chunk)))"

lemma reader_okD:
  assumes "reader_ok rd content" "rd line n timeout s = (s', Some chunk)" "0 < n"
  shows "content s = chunk @ content s'" "length chunk \<le> n" "chunk = [] \<Longrightarrow> content s = []"
    "line \<Longrightarrow> newline \<notin> set (butlast chunk)"
  using assms unfolding reader_ok_def by blast+

section \<open>One pass of the loop\<close>

lemma arm_deadline_facts:
  assumes "arm_deadline clock cfg st = (d, st1)"
  shows "pi_deadline st1 = Some d" "pi_stream st1 = pi_stream st" "pi_socket_timeout st1 = pi_socket_timeout st"
    "pi_heartbeats st1 = pi_heartbeats st" "pi_deadline st \<noteq> None \<Longrightarrow> pi_deadline st = Some d"
    "pi_ticks st \<le> pi_ticks st1"
  using assms by (auto simp: arm_deadline_def tick_def Let_def split: option.splits)

lemma read_once_facts:
  assumes once: "read_once clock cfg rd line amount st = (st', r)"
  shows "pi_socket_timeout st' = pi_socket_timeout st \<and> pi_heartbeats st' = pi_heartbeats st \<and>
    (pi_deadline st \<noteq> None \<longrightarrow> pi_deadline st' = pi_deadline st)"
proof -
  obtain d st1 where "arm_deadline clock cfg st = (d, st1)" by fastforce
  note arm = this arm_deadline_facts [OF this]
  show ?thesis using once arm
    by (auto simp: read_once_def tick_def Let_def split: prod.splits option.splits if_splits)
qed

lemma read_once_chunk:
  assumes once: "read_once clock cfg rd line amount st = (st', Inr chunk)"
  shows "\<exists>timeout. rd line (if amount < 0 then CHUNK_SIZE else min (nat amount) CHUNK_SIZE) timeout (pi_stream st)
      = (pi_stream st', Some chunk)"
    and "clock (pi_ticks st' - 1) \<le> the (pi_deadline st')"
proof -
  obtain d st1 where "arm_deadline clock cfg st = (d, st1)" by fastforce
  note arm = this arm_deadline_facts [OF this]
  show "\<exists>timeout. rd line (if amount < 0 then CHUNK_SIZE else min (nat amount) CHUNK_SIZE) timeout (pi_stream st)
      = (pi_stream st', Some chunk)"
    using once arm by (auto simp: read_once_def tick_def Let_def split: prod.splits option.splits if_splits)
  show "clock (pi_ticks st' - 1) \<le> the (pi_deadline st')"
    using once arm by (auto simp: read_once_def tick_def Let_def split: prod.splits option.splits if_splits)
qed

section \<open>The loop returns\<close>

text \<open>What a finished read leaves behind, relative to the state it began in.\<close>

definition transfer_kept :: "'s progress_input \<Rightarrow> 's progress_input \<Rightarrow> bool" where
  "transfer_kept st st' \<longleftrightarrow> pi_socket_timeout st' = pi_socket_timeout st \<and>
     (pi_deadline st \<noteq> None \<longrightarrow> pi_deadline st' = pi_deadline st)"

lemma transfer_kept_trans [trans]: "transfer_kept a b \<Longrightarrow> transfer_kept b c \<Longrightarrow> transfer_kept a c"
  by (auto simp: transfer_kept_def)

lemma transfer_kept_once: "read_once clock cfg rd line amount st = (st', r) \<Longrightarrow> transfer_kept st st'"
  using read_once_facts by (fastforce simp: transfer_kept_def)

lemma transfer_kept_beat [simp]: "transfer_kept st (st'\<lparr>pi_heartbeats := n\<rparr>) = transfer_kept st st'"
  by (simp add: transfer_kept_def)

definition in_time :: "(nat \<Rightarrow> int) \<Rightarrow> 's progress_input \<Rightarrow> bool" where
  "in_time clock st \<longleftrightarrow> clock (pi_ticks st - 1) \<le> the (pi_deadline st)"

lemma in_time_beat [simp]: "in_time clock (st\<lparr>pi_heartbeats := n\<rparr>) = in_time clock st"
  by (simp add: in_time_def)

definition read_result ::
  "('s \<Rightarrow> byte list) \<Rightarrow> bool \<Rightarrow> int \<Rightarrow> byte list \<Rightarrow> 's progress_input \<Rightarrow> 's progress_input \<Rightarrow> byte list \<Rightarrow> bool" where
  "read_result content line amount chunks st st' data \<longleftrightarrow> (\<exists>got.
     data = chunks @ got \<and> content (pi_stream st) = got @ content (pi_stream st') \<and>
     (0 \<le> amount \<longrightarrow> int (length got) \<le> amount) \<and>
     (line \<longrightarrow> newline \<notin> set (butlast got)) \<and>
     (content (pi_stream st') = [] \<or> int (length got) = amount \<or> line \<and> got \<noteq> [] \<and> last got = newline) \<and>
     pi_heartbeats st' \<le> pi_heartbeats st + length got)"

lemma read_result_more:
  assumes "read_result content line amount' (chunks @ chunk) st1 st' data"
    and "content (pi_stream st) = chunk @ content (pi_stream st1)" "chunk \<noteq> []"
    and "0 \<le> amount \<longrightarrow> amount' = amount - int (length chunk)" "amount < 0 \<longrightarrow> amount' = amount"
    and "0 \<le> amount \<longrightarrow> int (length chunk) \<le> amount"
    and "line \<longrightarrow> newline \<notin> set chunk"
    and "pi_heartbeats st1 \<le> pi_heartbeats st + 1"
  shows "read_result content line amount chunks st st' data"
proof -
  obtain got where got: "data = (chunks @ chunk) @ got" "content (pi_stream st1) = got @ content (pi_stream st')"
      "0 \<le> amount' \<longrightarrow> int (length got) \<le> amount'" "line \<longrightarrow> newline \<notin> set (butlast got)"
      "content (pi_stream st') = [] \<or> int (length got) = amount' \<or> line \<and> got \<noteq> [] \<and> last got = newline"
      "pi_heartbeats st' \<le> pi_heartbeats st1 + length got"
    using assms(1) unfolding read_result_def by blast
  have b: "line \<longrightarrow> newline \<notin> set (butlast (chunk @ got))"
    using got(4) assms(7) by (cases "got = []") (auto simp: butlast_append dest: in_set_butlastD)
  have "1 \<le> length chunk" using assms(3) by (cases chunk) simp_all
  then have h: "pi_heartbeats st' \<le> pi_heartbeats st + length (chunk @ got)" using got(6) assms(8) by simp
  have e: "content (pi_stream st') = [] \<or> int (length (chunk @ got)) = amount \<or>
      line \<and> chunk @ got \<noteq> [] \<and> last (chunk @ got) = newline"
    using got(5) assms(4,5) by (cases "amount < 0") (auto)
  show ?thesis unfolding read_result_def
    using got(1,2,3) b h e assms(2,4,6) by (intro exI [of _ "chunk @ got"]) auto
qed

lemma read_loop_returns:
  assumes ok: "reader_ok rd content"
  shows "\<exists>st' r. read_loop clock cfg rd line amount chunks st = Some (st', r) \<and> transfer_kept st st' \<and>
    (\<forall>data. r = Inr data \<longrightarrow> read_result content line amount chunks st st' data \<and> (amount = 0 \<or> in_time clock st'))"
proof (induction "length (content (pi_stream st))" arbitrary: amount chunks st rule: less_induct)
  case less
  show ?case
  proof (cases "amount = 0")
    case True
    then show ?thesis by (subst read_loop.simps) (auto simp: transfer_kept_def read_result_def)
  next
    case False
    obtain st1 r1 where once: "read_once clock cfg rd line amount st = (st1, r1)" by fastforce
    show ?thesis
    proof (cases r1)
      case (Inl e)
      then show ?thesis using False once transfer_kept_once [OF once]
        by (subst read_loop.simps) simp
    next
      case (Inr chunk)
      then obtain n timeout where rd: "rd line n timeout (pi_stream st) = (pi_stream st1, Some chunk)"
          and n: "n = (if amount < 0 then CHUNK_SIZE else min (nat amount) CHUNK_SIZE)"
        using read_once_chunk(1) once by blast
      have "0 < n" using False by (auto simp: n CHUNK_SIZE_def)
      note io = reader_okD [OF ok rd this]
      have fits: "0 \<le> amount \<longrightarrow> int (length chunk) \<le> amount" using io(2) by (auto simp: n)
      let ?st2 = "st1\<lparr>pi_heartbeats := Suc (pi_heartbeats st1)\<rparr>"
      have kept: "transfer_kept st ?st2" using transfer_kept_once [OF once] by simp
      have timely: "in_time clock st1" using read_once_chunk(2) once Inr by (simp add: in_time_def)
      have beats: "pi_heartbeats st1 = pi_heartbeats st" using read_once_facts [OF once] by blast
      consider "chunk = []" | "chunk \<noteq> []" "line" "last chunk = newline"
        | "chunk \<noteq> []" "\<not> (line \<and> last chunk = newline)" by blast
      then show ?thesis
      proof cases
        case 1
        then have "read_result content line amount chunks st st1 chunks"
          using io(1,3) beats by (auto simp: read_result_def)
        then show ?thesis using False Inr once 1 timely transfer_kept_once [OF once]
          by (subst read_loop.simps) auto
      next
        case 2
        then have "1 \<le> length chunk" by (cases chunk) simp_all
        then have "read_result content line amount chunks st ?st2 (chunks @ chunk)"
          using io(1,4) 2 fits beats by (auto simp: read_result_def)
        then show ?thesis using False Inr once 2 timely kept
          by (subst read_loop.simps) auto
      next
        case 3
        let ?amount = "if amount > 0 then amount - int (length chunk) else amount"
        have "length (content (pi_stream ?st2)) < length (content (pi_stream st))"
          using io(1) 3 by simp
        then obtain st' r where loop: "read_loop clock cfg rd line ?amount (chunks @ chunk) ?st2 = Some (st', r)"
            and k: "transfer_kept ?st2 st'"
            and res: "\<forall>data. r = Inr data \<longrightarrow> read_result content line ?amount (chunks @ chunk) ?st2 st' data \<and>
              (?amount = 0 \<or> in_time clock st')"
          using less by blast
        have "in_time clock st'" if "r = Inr data" for data
        proof (cases "?amount = 0")
          case True
          then have "st' = ?st2" using loop by (subst (asm) read_loop.simps) simp
          then show ?thesis using timely by simp
        qed (use res that in blast)
        note late = this
        have nl: "line \<longrightarrow> newline \<notin> set chunk"
          using io(4) 3 by (metis append_butlast_last_id in_set_conv_decomp rotate1.simps(2) set_ConsD set_rotate1)
        have "read_result content line amount chunks st st' data" if "r = Inr data" for data
          using res that nl fits io(1) 3(1) beats False
          by (intro read_result_more [of content line ?amount chunks chunk ?st2 st' data st amount]) auto
        then show ?thesis using False Inr once 3 loop late transfer_kept_trans [OF kept k]
          by (subst read_loop.simps) auto
      qed
    qed
  qed
qed

section \<open>Reading lines\<close>

definition whole_line :: "byte list \<Rightarrow> bool" where
  "whole_line l \<longleftrightarrow> l \<noteq> [] \<and> newline \<notin> set (butlast l)"

definition lines_result ::
  "('s \<Rightarrow> byte list) \<Rightarrow> int option \<Rightarrow> byte list list \<Rightarrow> 's progress_input \<Rightarrow> 's progress_input \<Rightarrow> byte list list \<Rightarrow> bool" where
  "lines_result content hint ls st st' out \<longleftrightarrow> (\<exists>new.
     out = ls @ new \<and> content (pi_stream st) = concat new @ content (pi_stream st') \<and> list_all whole_line new \<and>
     (content (pi_stream st') = [] \<or> (\<exists>h. hint = Some h \<and> 0 < h \<and> h \<le> int (length (concat out)))))"

lemma readlines_returns:
  assumes ok: "reader_ok rd content"
  shows "\<exists>st' r. readlines clock cfg rd hint ls st = Some (st', r) \<and> transfer_kept st st' \<and>
    (\<forall>out. r = Inr out \<longrightarrow> lines_result content hint ls st st' out)"
proof (induction "length (content (pi_stream st))" arbitrary: ls st rule: less_induct)
  case less
  obtain st1 r where read: "progress_read clock cfg rd True (Some (-1)) st = Some (st1, r)"
      and kept: "transfer_kept st st1" and res: "\<forall>data. r = Inr data \<longrightarrow> read_result content True (-1) [] st st1 data"
    using read_loop_returns [OF ok, of clock cfg True "-1" "[]" st] by (auto simp: progress_read_def)
  show ?case
  proof (cases r)
    case (Inl e)
    then show ?thesis using read kept by (subst readlines.simps) simp
  next
    case (Inr l)
    then have l: "content (pi_stream st) = l @ content (pi_stream st1)" "newline \<notin> set (butlast l)"
        "content (pi_stream st1) = [] \<or> l \<noteq> [] \<and> last l = newline"
      using res by (auto simp: read_result_def)
    define full where "full \<longleftrightarrow> (case hint of None \<Rightarrow> False | Some h \<Rightarrow> h > 0 \<and> int (length (concat (ls @ [l]))) \<ge> h)"
    consider "l = []" | "l \<noteq> []" full | "l \<noteq> []" "\<not> full" by blast
    then show ?thesis
    proof cases
      case 1
      then have "lines_result content hint ls st st1 ls" using l by (auto simp: lines_result_def)
      then show ?thesis using read Inr kept 1 by (subst readlines.simps) auto
    next
      case 2
      then have "lines_result content hint ls st st1 (ls @ [l])"
        using l by (auto simp: lines_result_def whole_line_def full_def split: option.splits)
      then show ?thesis using read Inr kept 2 unfolding full_def by (subst readlines.simps) auto
    next
      case 3
      have "length (content (pi_stream st1)) < length (content (pi_stream st))" using l(1) 3 by simp
      then obtain st' r' where rec: "readlines clock cfg rd hint (ls @ [l]) st1 = Some (st', r')"
          and k: "transfer_kept st1 st'"
          and out: "\<forall>out. r' = Inr out \<longrightarrow> lines_result content hint (ls @ [l]) st1 st' out"
        using less by blast
      have "lines_result content hint ls st st' out" if rest: "lines_result content hint (ls @ [l]) st1 st' out" for out
      proof -
        obtain new where "out = (ls @ [l]) @ new" "content (pi_stream st1) = concat new @ content (pi_stream st')"
            "list_all whole_line new"
            "content (pi_stream st') = [] \<or> (\<exists>h. hint = Some h \<and> 0 < h \<and> h \<le> int (length (concat out)))"
          using rest unfolding lines_result_def by blast
        then show ?thesis unfolding lines_result_def
          using l(1,2) 3 by (intro exI [of _ "l # new"]) (auto simp: whole_line_def)
      qed
      then show ?thesis using read Inr 3 rec out transfer_kept_trans [OF kept k]
        unfolding full_def by (subst readlines.simps) auto
    qed
  qed
qed

section \<open>The transfer ends\<close>

text \<open>
  C24: reading an upload always ends. For every body reader that keeps to the file protocol and whatever
  the clock shows, a read, a line read and \<^verbatim>\<open>readlines\<close> return; the bytes handed over are the front of
  what was left, no more than asked for, all of it up to the end of the body, the amount or the line, and
  were complete before the transfer deadline. Heartbeats never outnumber the bytes received, the deadline
  is set once and not extended, and the socket timeout is the one before the call, also after an error.
\<close>

theorem transfer_reads_return:
  assumes "reader_ok rd content"
  shows "(\<exists>st' r. progress_read clock cfg rd line amount st = Some (st', r) \<and> transfer_kept st st' \<and>
      (\<forall>data. r = Inr data \<longrightarrow>
        read_result content line (case amount of None \<Rightarrow> -1 | Some n \<Rightarrow> n) [] st st' data \<and>
        (amount = Some 0 \<or> in_time clock st'))) \<and>
    (\<exists>st' r. readlines clock cfg rd hint [] st = Some (st', r) \<and> transfer_kept st st' \<and>
      (\<forall>out. r = Inr out \<longrightarrow> lines_result content hint [] st st' out))"
proof
  let ?n = "case amount of None \<Rightarrow> -1 | Some n \<Rightarrow> n"
  have "?n = 0 \<longleftrightarrow> amount = Some 0" by (simp split: option.splits)
  then show "\<exists>st' r. progress_read clock cfg rd line amount st = Some (st', r) \<and> transfer_kept st st' \<and>
      (\<forall>data. r = Inr data \<longrightarrow> read_result content line ?n [] st st' data \<and> (amount = Some 0 \<or> in_time clock st'))"
    using read_loop_returns [OF assms, of clock cfg line ?n "[]" st] unfolding progress_read_def by simp
qed (rule readlines_returns [OF assms])

text \<open>A reader over bytes in memory that hands over two bytes at a time.\<close>

definition example_reader :: "byte list reader" where
  "example_reader line n timeout s =
     (let front = take (min n 2) s;
          k = (if line then min (length (takeWhile (\<lambda>b. b \<noteq> newline) front) + 1) (length front) else length front)
      in (drop k s, Some (take k s)))"

lemma example_reader_ok: "reader_ok example_reader id"
proof -
  have "content = chunk @ rest \<and> length chunk \<le> n \<and> (chunk = [] \<longrightarrow> content = []) \<and>
      (line \<longrightarrow> newline \<notin> set (butlast chunk))"
    if n: "0 < n" and e: "example_reader line n timeout content = (rest, Some chunk)" for line n timeout content rest chunk
  proof -
    define front where "front = take (min n 2) content"
    define k where "k = (if line then min (length (takeWhile (\<lambda>b. b \<noteq> newline) front) + 1) (length front) else length front)"
    have rest: "rest = drop k content" and "chunk = take k content"
      using e unfolding example_reader_def Let_def front_def [symmetric] k_def [symmetric] by simp_all
    moreover have le: "k \<le> length front" by (simp add: k_def)
    moreover have "take k content = take k front" if "k \<le> length front"
      using that by (simp add: front_def)
    ultimately have chunk: "chunk = take k front" and split: "content = chunk @ rest"
      by (metis append_take_drop_id)+
    have "front = [] \<longleftrightarrow> content = []" using n by (auto simp: front_def)
    moreover have "chunk = [] \<longleftrightarrow> front = []" by (auto simp: chunk k_def min_def split: if_splits)
    ultimately have "chunk = [] \<longrightarrow> content = []" by simp
    moreover have "length chunk \<le> n" by (simp add: chunk front_def)
    moreover have "newline \<notin> set (butlast chunk)" if line
    proof
      assume "newline \<in> set (butlast chunk)"
      moreover have "set (butlast chunk) \<subseteq> set (takeWhile (\<lambda>b. b \<noteq> newline) front)"
      proof -
        let ?w = "takeWhile (\<lambda>b. b \<noteq> newline) front"
        have "butlast chunk = take (k - 1) front" using le by (simp add: chunk butlast_take)
        also have "\<dots> = take (k - 1) (take (length ?w) front)" using that by (simp add: k_def)
        also have "\<dots> = take (k - 1) ?w" by (metis takeWhile_eq_take)
        finally show ?thesis by (simp add: set_take_subset)
      qed
      ultimately show False using set_takeWhileD by fastforce
    qed
    ultimately show ?thesis using split by blast
  qed
  then show ?thesis unfolding reader_ok_def by auto
qed

theorem transfer_reads_return_witness:
  "\<exists>st' r. progress_read (\<lambda>n. int n) \<lparr> wc_transfer_timeout = 900, wc_idle_timeout = 120 \<rparr> example_reader True None
      \<lparr> pi_stream = [1, 2, 3, newline, 5], pi_deadline = None, pi_ticks = 0, pi_heartbeats = 0, pi_socket_timeout = 30 \<rparr>
      = Some (st', r) \<and> pi_socket_timeout st' = 30"
proof -
  note * = transfer_reads_return [OF example_reader_ok, of "\<lambda>n. int n"
      "\<lparr> wc_transfer_timeout = 900, wc_idle_timeout = 120 \<rparr>" True None
      "\<lparr> pi_stream = [1, 2, 3, newline, 5], pi_deadline = None, pi_ticks = 0, pi_heartbeats = 0, pi_socket_timeout = 30 \<rparr>"]
  show ?thesis using * unfolding transfer_kept_def by fastforce
qed

end
