(* ===== verification/Evidence_Reader.thy ===== *)
theory Evidence_Reader
  imports Ingest "HOL-Library.Multiset"
begin

text \<open>
  The evidence set of the offline investigation reader (\<^verbatim>\<open>forensics/investigation_reader.py\<close>): bodies
  keyed by digest with their occurrence counts, the budgets, the selection of a group with its sessions,
  the reconstruction with its cache, the summary, and reading JSONL files. The members the code takes from
  an event are strings in every event the v4 schema admits, and are read as such here.
\<close>

section \<open>Limits\<close>

definition MAX_LINE_BYTES :: nat where
  "MAX_LINE_BYTES = 2 * 1024 * 1024"

definition MAX_SOURCE_BYTES :: nat where
  "MAX_SOURCE_BYTES = 64 * 1024 * 1024"

definition MAX_SOURCE_FILES :: nat where
  "MAX_SOURCE_FILES = 256"

definition MAX_EVIDENCE_BYTES :: nat where
  "MAX_EVIDENCE_BYTES = 64 * 1024 * 1024"

definition MAX_RECORDS :: nat where
  "MAX_RECORDS = MAX_SOURCE_BYTES div 256"

text \<open>\<^verbatim>\<open>IncompleteEvidence\<close> carries one of these fixed reasons and nothing of the evidence.\<close>

datatype incomplete_evidence =
    InvalidBody | EvidenceBudget | NormalizationRejected | SourceFileBudget | SourceBudget | IncompleteLine
  | RequestFailed | InvalidResponse | QueryBudget | ExpressionBudget | PageOverflow | UnresolvableTie | LabelMismatch

section \<open>Bodies\<close>

definition parse_body :: "runtime \<Rightarrow> byte list \<Rightarrow> incomplete_evidence + dict" where
  "parse_body rt body =
     (if length body > MAX_LINE_BYTES then Inl InvalidBody
      else (case utf8_decode rt body of
              None \<Rightarrow> Inl InvalidBody
            | Some raw \<Rightarrow>
                (case loads_audit_json rt raw of
                   None \<Rightarrow> Inl InvalidBody
                 | Some v \<Rightarrow> (case (v, schema_error_code rt v) of (JObj ev, None) \<Rightarrow> Inr ev | _ \<Rightarrow> Inl InvalidBody))))"

definition reader_session :: "dict \<Rightarrow> string \<times> string \<times> string" where
  "reader_session ev =
     (str_of (dict_get ev ''engine_id''), str_of (dict_get ev ''account_ref''), str_of (dict_get ev ''recorder_session_id''))"

definition reader_identity :: "dict \<Rightarrow> string \<times> string \<times> string \<times> json" where
  "reader_identity ev = (let (e, a, r) = reader_session ev in (e, a, r, dict_get ev ''seq''))"

definition complete_session :: "string \<times> string \<times> string \<Rightarrow> bool" where
  "complete_session s \<longleftrightarrow> (case s of (e, a, r) \<Rightarrow> e \<noteq> [] \<and> a \<noteq> [] \<and> r \<noteq> [])"

section \<open>The evidence set\<close>

record reconstruction =
  rc_selected :: "(string \<times> byte list) list"
  rc_context_incomplete :: bool
  rc_model_refs :: "(string \<times> audit_event) list"
  rc_traces :: "message_trace list"
  rc_kinds :: "(string \<times> nat) list"

record evidence =
  ed_records :: "(string \<times> byte list) list"
  ed_events :: "(string \<times> dict) list"
  ed_occurrences :: "(string \<times> nat) list"
  ed_body_bytes :: nat
  ed_reconstruction :: "(string \<times> reconstruction) option"

definition empty_evidence :: evidence where
  "empty_evidence = \<lparr> ed_records = [], ed_events = [], ed_occurrences = [], ed_body_bytes = 0, ed_reconstruction = None \<rparr>"

definition count_up :: "'k \<Rightarrow> ('k \<times> nat) list \<Rightarrow> ('k \<times> nat) list" where
  "count_up k c = AList.update k (Suc (dd_get 0 c k)) c"

definition add_event :: "runtime \<Rightarrow> byte list \<Rightarrow> dict \<Rightarrow> evidence \<Rightarrow> incomplete_evidence + evidence" where
  "add_event rt body event ed =
     (let digest = sha256_hexdigest rt body;
          ed1 = ed\<lparr>ed_reconstruction := None, ed_occurrences := count_up digest (ed_occurrences ed)\<rparr>
      in if map_of (ed_records ed) digest \<noteq> None then Inr ed1
         else if length (ed_records ed) \<ge> MAX_RECORDS \<or> ed_body_bytes ed + length body > MAX_EVIDENCE_BYTES
         then Inl EvidenceBudget
         else Inr (ed1\<lparr>ed_records := ed_records ed @ [(digest, body)], ed_events := ed_events ed @ [(digest, event)],
                       ed_body_bytes := ed_body_bytes ed + length body\<rparr>))"

definition add_body :: "runtime \<Rightarrow> byte list \<Rightarrow> evidence \<Rightarrow> incomplete_evidence + evidence" where
  "add_body rt body ed = (case parse_body rt body of Inl e \<Rightarrow> Inl e | Inr event \<Rightarrow> add_event rt body event ed)"

definition in_group :: "string \<Rightarrow> dict \<Rightarrow> bool" where
  "in_group grp ev \<longleftrightarrow> dict_get ev ''group_ref'' = JStr grp"

definition group_sessions :: "string \<Rightarrow> evidence \<Rightarrow> (string \<times> string \<times> string) set" where
  "group_sessions grp ed = reader_session ` snd ` set (filter (\<lambda>(d, ev). in_group grp ev) (ed_events ed))"

definition selects :: "string \<Rightarrow> evidence \<Rightarrow> dict \<Rightarrow> bool" where
  "selects grp ed ev \<longleftrightarrow> in_group grp ev \<or>
     \<not> truthy (dict_get ev ''group_ref'') \<and> reader_session ev \<in> {s \<in> group_sessions grp ed. complete_session s}"

definition selected :: "string \<Rightarrow> evidence \<Rightarrow> (string \<times> byte list) list \<times> bool" where
  "selected grp ed =
     (map (\<lambda>(d, ev). (d, the (map_of (ed_records ed) d))) (filter (\<lambda>(d, ev). selects grp ed ev) (ed_events ed)),
      \<exists>s \<in> group_sessions grp ed. \<not> complete_session s)"

text \<open>\<^verbatim>\<open>AuditEvent(**normalized)\<close>: a row in memory, with the defaults where the normalizer set nothing.\<close>

definition unsaved_event :: "dict \<Rightarrow> dict \<Rightarrow> audit_event" where
  "unsaved_event event normalized =
     (event_values 0 0 \<lparr> pl_line_number = 0, pl_raw_line = [], pl_line_hash = [], pl_data = Some event,
        pl_normalized = normalized, pl_errors = [] \<rparr> None)\<lparr>ev_raw_event := None\<rparr>"

fun reconstruct_loop ::
  "runtime \<Rightarrow> string \<Rightarrow> (string \<times> dict) list \<Rightarrow> (string \<times> audit_event) list \<Rightarrow> (string \<times> nat) list
     \<Rightarrow> incomplete_evidence + ((string \<times> audit_event) list \<times> (string \<times> nat) list)" where
  "reconstruct_loop rt grp [] refs kinds = Inr (refs, kinds)"
| "reconstruct_loop rt grp ((d, ev) # rest) refs kinds =
     (if \<not> in_group grp ev then reconstruct_loop rt grp rest refs kinds
      else (let (normalized, errors) = normalize_event rt ev
            in if errors \<noteq> [] then Inl NormalizationRejected
               else reconstruct_loop rt grp rest (refs @ [(d, unsaved_event ev normalized)])
                      (count_up (str_of (dict_get (dict_of (dict_get ev ''kind'')) ''type'')) kinds)))"

definition reconstruct_now :: "runtime \<Rightarrow> string \<Rightarrow> evidence \<Rightarrow> incomplete_evidence + reconstruction" where
  "reconstruct_now rt grp ed =
     (let (sel, context_incomplete) = selected grp ed
      in (case reconstruct_loop rt grp (map (\<lambda>d. (d, the (map_of (ed_events ed) d))) (sort (map fst sel))) [] [] of
            Inl e \<Rightarrow> Inl e
          | Inr (refs, kinds) \<Rightarrow>
              (let models = map snd refs
               in Inr \<lparr> rc_selected = sel, rc_context_incomplete = context_incomplete, rc_model_refs = refs,
                        rc_traces = message_traces_from_events models (set (map ev_engine_id models)), rc_kinds = kinds \<rparr>)))"

definition reconstruct :: "runtime \<Rightarrow> string \<Rightarrow> evidence \<Rightarrow> evidence \<times> (incomplete_evidence + reconstruction)" where
  "reconstruct rt grp ed =
     (case ed_reconstruction ed of
        Some (g, r) \<Rightarrow> if g = grp then (ed, Inr r)
          else (case reconstruct_now rt grp ed of Inl e \<Rightarrow> (ed, Inl e) | Inr r' \<Rightarrow> (ed\<lparr>ed_reconstruction := Some (grp, r')\<rparr>, Inr r'))
      | None \<Rightarrow> (case reconstruct_now rt grp ed of Inl e \<Rightarrow> (ed, Inl e) | Inr r' \<Rightarrow> (ed\<lparr>ed_reconstruction := Some (grp, r')\<rparr>, Inr r')))"

datatype evidence_source = SourceJsonl | SourceLoki

record evidence_summary =
  es_source :: evidence_source
  es_selected_distinct_bodies :: nat
  es_group_records :: nat
  es_supporting_groupless_context :: int
  es_duplicate_occurrences :: int
  es_conflicting_identities :: nat
  es_kind_counts :: "(string \<times> nat) list"
  es_message_trace_count :: nat
  es_time_bounds :: "(int \<times> int) option"
  es_context_incomplete :: bool
  es_receipt_cutoff_omitted :: "bool option"
  es_complete_for_requested_scope :: bool

definition event_time :: "evidence \<Rightarrow> string \<Rightarrow> int" where
  "event_time ed d = (case dict_get (the (map_of (ed_events ed) d)) ''wall_time_ms'' of JInt t \<Rightarrow> t | _ \<Rightarrow> 0)"

definition evidence_summary_for ::
  "runtime \<Rightarrow> string \<Rightarrow> evidence_source \<Rightarrow> bool \<Rightarrow> evidence \<Rightarrow> evidence \<times> (incomplete_evidence + evidence_summary)" where
  "evidence_summary_for rt grp source receipt_cutoff_omitted ed =
     (case reconstruct rt grp ed of
        (ed1, Inl e) \<Rightarrow> (ed1, Inl e)
      | (ed1, Inr r) \<Rightarrow>
          (let digests = map fst (rc_selected r);
               times = map (event_time ed1) digests;
               ids = map (\<lambda>d. reader_identity (the (map_of (ed_events ed1) d))) digests
           in (ed1, Inr \<lparr>
             es_source = source,
             es_selected_distinct_bodies = length (rc_selected r),
             es_group_records = length (rc_model_refs r),
             es_supporting_groupless_context = int (length (rc_selected r)) - int (length (rc_model_refs r)),
             es_duplicate_occurrences = sum_list (map (\<lambda>d. int (dd_get 0 (ed_occurrences ed1) d) - 1) digests),
             es_conflicting_identities = length (filter (\<lambda>i. length (filter (\<lambda>j. j = i) ids) > 1) (remdups ids)),
             es_kind_counts = sort_key fst (rc_kinds r),
             es_message_trace_count = length (rc_traces r),
             es_time_bounds = (case (opt_min times, opt_max times) of (Some a, Some b) \<Rightarrow> Some (a, b) | _ \<Rightarrow> None),
             es_context_incomplete = rc_context_incomplete r,
             es_receipt_cutoff_omitted = (if source = SourceLoki then Some receipt_cutoff_omitted else None),
             es_complete_for_requested_scope = (source = SourceJsonl \<and> \<not> rc_context_incomplete r) \<rparr>)))"

section \<open>JSONL files\<close>

text \<open>\<^verbatim>\<open>stream.readline(n)\<close>: through the next line feed, at most \<open>n\<close> bytes.\<close>

definition next_line :: "nat \<Rightarrow> byte list \<Rightarrow> byte list" where
  "next_line n s = take n (takeWhile (\<lambda>b. b \<noteq> 10) s @ take 1 (dropWhile (\<lambda>b. b \<noteq> 10) s))"

definition line_body :: "byte list \<Rightarrow> byte list" where
  "line_body line = (let b = butlast line in if b \<noteq> [] \<and> last b = 13 then butlast b else b)"

lemma next_line_shorter: "next_line n s \<noteq> [] \<Longrightarrow> length (drop (length (next_line n s)) s) < length s"
  by (cases s) (auto simp: next_line_def)

function read_stream :: "runtime \<Rightarrow> byte list \<Rightarrow> nat \<Rightarrow> evidence \<Rightarrow> incomplete_evidence + (nat \<times> evidence)" where
  "read_stream rt s used ed =
     (let line = next_line (MAX_LINE_BYTES + 2) s
      in if line = [] then Inr (used, ed)
         else if used + length line > MAX_SOURCE_BYTES then Inl SourceBudget
         else if length line > MAX_LINE_BYTES + 2 \<or> last line \<noteq> 10 then Inl IncompleteLine
         else if line_body line = [] then read_stream rt (drop (length line) s) (used + length line) ed
         else (case add_body rt (line_body line) ed of
                 Inl e \<Rightarrow> Inl e
               | Inr ed1 \<Rightarrow> read_stream rt (drop (length line) s) (used + length line) ed1))"
  by pat_completeness auto

termination
  by (relation "measure (\<lambda>(rt, s, used, ed). length s)") (auto dest: next_line_shorter)

declare read_stream.simps [simp del]

fun read_files :: "runtime \<Rightarrow> byte list list \<Rightarrow> nat \<Rightarrow> evidence \<Rightarrow> incomplete_evidence + evidence" where
  "read_files rt [] used ed = Inr ed"
| "read_files rt (s # ss) used ed =
     (case read_stream rt s used ed of Inl e \<Rightarrow> Inl e | Inr (used', ed') \<Rightarrow> read_files rt ss used' ed')"

definition read_jsonl :: "runtime \<Rightarrow> byte list list \<Rightarrow> incomplete_evidence + evidence" where
  "read_jsonl rt files =
     (if length files > MAX_SOURCE_FILES then Inl SourceFileBudget else read_files rt files 0 empty_evidence)"

section \<open>Invariant\<close>

definition records_ok ::
  "runtime \<Rightarrow> (string \<times> byte list) list \<Rightarrow> (string \<times> dict) list \<Rightarrow> (string \<Rightarrow> nat) \<Rightarrow> nat \<Rightarrow> bool" where
  "records_ok rt records events occurs bytes \<longleftrightarrow>
     distinct (map fst records) \<and> map fst events = map fst records \<and>
     list_all2 (\<lambda>r e. fst r = sha256_hexdigest rt (snd r) \<and> parse_body rt (snd r) = Inr (snd e)) records events \<and>
     {d. 0 < occurs d} = fst ` set records \<and>
     bytes = sum_list (map (length \<circ> snd) records) \<and> bytes \<le> MAX_EVIDENCE_BYTES \<and> length records \<le> MAX_RECORDS"

definition bodies_ok :: "runtime \<Rightarrow> evidence \<Rightarrow> bool" where
  "bodies_ok rt ed \<longleftrightarrow> records_ok rt (ed_records ed) (ed_events ed) (dd_get 0 (ed_occurrences ed)) (ed_body_bytes ed) \<and>
     (\<forall>g r. ed_reconstruction ed = Some (g, r) \<longrightarrow> reconstruct_now rt g ed = Inr r)"

lemma empty_bodies_ok: "bodies_ok rt empty_evidence"
  by (simp add: bodies_ok_def records_ok_def empty_evidence_def dd_get_def)

lemma records_ok_again:
  assumes "records_ok rt records events occurs bytes" "d \<in> fst ` set records"
  shows "records_ok rt records events (\<lambda>d'. if d' = d then Suc (occurs d) else occurs d') bytes"
proof -
  have "{d'. 0 < (if d' = d then Suc (occurs d) else occurs d')} = insert d {d'. 0 < occurs d'}" by auto
  then show ?thesis using assms by (simp add: records_ok_def insert_absorb)
qed

lemma records_ok_new:
  assumes "records_ok rt records events occurs bytes" "d \<notin> fst ` set records" "d = sha256_hexdigest rt body"
    and "parse_body rt body = Inr ev" "length records < MAX_RECORDS" "bytes + length body \<le> MAX_EVIDENCE_BYTES"
  shows "records_ok rt (records @ [(d, body)]) (events @ [(d, ev)])
    (\<lambda>d'. if d' = d then Suc (occurs d) else occurs d') (bytes + length body)"
proof -
  have "{d'. 0 < (if d' = d then Suc (occurs d) else occurs d')} = insert d {d'. 0 < occurs d'}" by auto
  then show ?thesis using assms by (simp add: records_ok_def list_all2_appendI)
qed

text \<open>
  What adding bodies does to the set, seen from outside: occurrences count up, digests are joined.
\<close>

definition gathers :: "runtime \<Rightarrow> byte list list \<Rightarrow> evidence \<Rightarrow> evidence \<Rightarrow> bool" where
  "gathers rt bodies ed ed' \<longleftrightarrow>
     (\<forall>d. dd_get 0 (ed_occurrences ed') d = dd_get 0 (ed_occurrences ed) d + count_list (map (sha256_hexdigest rt) bodies) d) \<and>
     fst ` set (ed_records ed') = fst ` set (ed_records ed) \<union> sha256_hexdigest rt ` set bodies \<and>
     (\<forall>b \<in> set bodies. \<exists>ev. parse_body rt b = Inr ev)"

lemma gathers_Nil [simp]: "gathers rt [] ed ed"
  by (simp add: gathers_def)

lemma gathers_append:
  "gathers rt bs ed ed1 \<Longrightarrow> gathers rt cs ed1 ed2 \<Longrightarrow> gathers rt (bs @ cs) ed ed2"
  by (auto simp: gathers_def)

lemma gathers_cong:
  assumes "mset bs = mset cs" "gathers rt bs ed ed'"
  shows "gathers rt cs ed ed'"
proof -
  have "count_list (map f bs) d = count_list (map f cs) d" for f and d :: string
    using arg_cong [OF assms(1), of "image_mset f"] by (metis count_mset mset_map)
  moreover have "set bs = set cs" using assms(1) by (rule mset_eq_setD)
  ultimately show ?thesis using assms(2) by (simp add: gathers_def)
qed

lemma count_up_get [simp]: "dd_get 0 (count_up k c) k' = (if k' = k then Suc (dd_get 0 c k) else dd_get 0 c k')"
  by (simp add: count_up_def)

lemma add_event_ok:
  assumes ok: "bodies_ok rt ed" and parse: "parse_body rt body = Inr ev" and add: "add_event rt body ev ed = Inr ed'"
  shows "bodies_ok rt ed'" "gathers rt [body] ed ed'"
proof -
  let ?d = "sha256_hexdigest rt body"
  have recs: "records_ok rt (ed_records ed) (ed_events ed) (dd_get 0 (ed_occurrences ed)) (ed_body_bytes ed)"
    using ok by (simp add: bodies_ok_def)
  have count: "dd_get 0 (count_up ?d (ed_occurrences ed)) =
      (\<lambda>d'. if d' = ?d then Suc (dd_get 0 (ed_occurrences ed) ?d) else dd_get 0 (ed_occurrences ed) d')" by auto
  show "bodies_ok rt ed'"
  proof (cases "?d \<in> fst ` set (ed_records ed)")
    case True
    then have "map_of (ed_records ed) ?d \<noteq> None" by (simp add: map_of_eq_None_iff)
    then show ?thesis using add records_ok_again [OF recs True]
      by (auto simp: add_event_def bodies_ok_def Let_def count)
  next
    case False
    then have "map_of (ed_records ed) ?d = None" by (simp add: map_of_eq_None_iff)
    then show ?thesis using add records_ok_new [OF recs False refl parse]
      by (auto simp: add_event_def bodies_ok_def Let_def count split: if_splits)
  qed
  have "?d \<in> fst ` set (ed_records ed) \<longleftrightarrow> map_of (ed_records ed) ?d \<noteq> None" by (simp add: map_of_eq_None_iff)
  then show "gathers rt [body] ed ed'"
    using add parse unfolding add_event_def gathers_def Let_def by (auto split: if_splits)
qed

lemma add_body_ok:
  assumes "bodies_ok rt ed" "add_body rt body ed = Inr ed'"
  shows "bodies_ok rt ed'" "gathers rt [body] ed ed'"
  using assms add_event_ok by (auto simp: add_body_def split: sum.splits)

lemma reconstruct_cached:
  assumes "bodies_ok rt ed" "reconstruct rt grp ed = (ed', r)"
  shows "r = reconstruct_now rt grp ed \<and> bodies_ok rt ed' \<and> ed' = ed\<lparr>ed_reconstruction := ed_reconstruction ed'\<rparr>"
proof -
  have now: "reconstruct_now rt g (ed\<lparr>ed_reconstruction := c\<rparr>) = reconstruct_now rt g ed" for g c
    by (simp add: reconstruct_now_def selected_def selects_def group_sessions_def)
  have filled: "bodies_ok rt (ed\<lparr>ed_reconstruction := Some (grp, r')\<rparr>)" if "reconstruct_now rt grp ed = Inr r'" for r'
    using assms(1) now that by (simp add: bodies_ok_def)
  show ?thesis
  proof (cases "\<exists>c. ed_reconstruction ed = Some (grp, c)")
    case True
    then show ?thesis using assms by (auto simp: reconstruct_def bodies_ok_def)
  next
    case False
    then have "reconstruct rt grp ed = (case reconstruct_now rt grp ed of Inl e \<Rightarrow> (ed, Inl e)
        | Inr r' \<Rightarrow> (ed\<lparr>ed_reconstruction := Some (grp, r')\<rparr>, Inr r'))"
      by (auto simp: reconstruct_def split: option.splits)
    then show ?thesis using assms filled by (auto split: sum.splits)
  qed
qed

section \<open>Reading files\<close>

text \<open>The lines of a file, each with its line feed; the last one may lack it.\<close>

fun lines_of :: "byte list \<Rightarrow> byte list \<Rightarrow> byte list list" where
  "lines_of cur [] = (if cur = [] then [] else [cur])"
| "lines_of cur (b # bs) = (if b = 10 then (cur @ [b]) # lines_of [] bs else lines_of (cur @ [b]) bs)"

definition bodies_of :: "byte list \<Rightarrow> byte list list" where
  "bodies_of s = filter (\<lambda>b. b \<noteq> []) (map line_body (lines_of [] s))"

lemma lines_of_split: "10 \<notin> set w \<Longrightarrow> lines_of cur (w @ 10 # xs) = (cur @ w @ [10]) # lines_of [] xs"
  by (induction w arbitrary: cur) auto

lemma next_line_full:
  assumes "next_line n s \<noteq> []" "last (next_line n s) = 10"
  shows "lines_of [] s = next_line n s # lines_of [] (drop (length (next_line n s)) s)"
proof -
  define w where "w = takeWhile (\<lambda>b. b \<noteq> 10) s"
  have w10: "10 \<notin> set w" unfolding w_def by (metis (mono_tags) set_takeWhileD)
  have line: "next_line n s = take n (w @ take 1 (dropWhile (\<lambda>b. b \<noteq> 10) s))" by (simp add: next_line_def w_def)
  have "\<not> n \<le> length w"
  proof
    assume "n \<le> length w"
    then have "next_line n s = take n w" by (simp add: line)
    then have "10 \<in> set w" using assms last_in_set in_set_takeD by metis
    with w10 show False by blast
  qed
  then obtain x xs where r: "dropWhile (\<lambda>b. b \<noteq> 10) s = x # xs"
  proof (cases "dropWhile (\<lambda>b. b \<noteq> 10) s")
    case Nil
    then have "next_line n s = take n w" by (simp add: line)
    then have "10 \<in> set w" using assms last_in_set in_set_takeD by metis
    with w10 show ?thesis by blast
  qed
  then have x: "x = 10" by (metis (mono_tags) hd_dropWhile list.sel(1) list.simps(3))
  have s: "s = w @ 10 # xs" using takeWhile_dropWhile_id [of "\<lambda>b. b \<noteq> 10" s] by (simp add: w_def r x)
  have "next_line n s = w @ [10]" using \<open>\<not> n \<le> length w\<close> by (simp add: line r x)
  moreover from this have "drop (length (next_line n s)) s = xs" by (simp add: s)
  ultimately show ?thesis using lines_of_split [OF w10, of "[]" xs] by (simp add: s)
qed

lemma next_line_length: "length (next_line n s) \<le> length s"
proof -
  have "length (takeWhile P s) + length (dropWhile P s) = length s" for P :: "byte \<Rightarrow> bool"
    by (metis length_append takeWhile_dropWhile_id)
  then show ?thesis by (simp add: next_line_def) (metis add_le_mono le_refl min.cobounded1 min.coboundedI1)
qed

lemma next_line_Nil: "0 < n \<Longrightarrow> next_line n s = [] \<longleftrightarrow> s = []"
  by (cases s) (auto simp: next_line_def)

lemma read_stream_step:
  assumes "read_stream rt s used ed = Inr (used', ed')" "s \<noteq> []"
  obtains line rest ed1 where "lines_of [] s = line # lines_of [] rest" "length s = length line + length rest" "line \<noteq> []"
    "last line = 10" "used + length line \<le> MAX_SOURCE_BYTES"
    "if line_body line = [] then ed1 = ed else add_body rt (line_body line) ed = Inr ed1"
    "read_stream rt rest (used + length line) ed1 = Inr (used', ed')"
proof -
  define line where "line = next_line (MAX_LINE_BYTES + 2) s"
  define rest where "rest = drop (length line) s"
  have ne: "line \<noteq> []" using next_line_Nil [of "MAX_LINE_BYTES + 2" s] assms(2) by (simp add: line_def)
  have eq: "read_stream rt s used ed = (if used + length line > MAX_SOURCE_BYTES then Inl SourceBudget
      else if length line > MAX_LINE_BYTES + 2 \<or> last line \<noteq> 10 then Inl IncompleteLine
      else if line_body line = [] then read_stream rt rest (used + length line) ed
      else (case add_body rt (line_body line) ed of Inl e \<Rightarrow> Inl e | Inr ed1 \<Rightarrow> read_stream rt rest (used + length line) ed1))"
    unfolding read_stream.simps [of rt s used ed] Let_def line_def [symmetric] rest_def [symmetric] by (simp add: ne)
  have last: "last line = 10" and fits: "used + length line \<le> MAX_SOURCE_BYTES"
    using assms(1) unfolding eq by (auto split: if_splits)
  have ls: "lines_of [] s = line # lines_of [] rest"
    using next_line_full [of "MAX_LINE_BYTES + 2" s] ne last by (simp add: line_def rest_def)
  have len: "length s = length line + length rest"
    using next_line_length [of "MAX_LINE_BYTES + 2" s] by (simp add: rest_def line_def)
  obtain ed1 where "if line_body line = [] then ed1 = ed else add_body rt (line_body line) ed = Inr ed1"
      "read_stream rt rest (used + length line) ed1 = Inr (used', ed')"
    using assms(1) unfolding eq by (auto split: if_splits sum.splits)
  then show thesis using that ls len ne last fits by blast
qed

lemma read_stream_Nil [simp]: "read_stream rt [] used ed = Inr (used, ed)"
  by (subst read_stream.simps) (simp add: next_line_def)

lemma read_stream_ok:
  assumes "bodies_ok rt ed" "read_stream rt s used ed = Inr (used', ed')"
  shows "bodies_ok rt ed' \<and> gathers rt (bodies_of s) ed ed' \<and> used' = used + length s \<and>
    (used \<le> MAX_SOURCE_BYTES \<longrightarrow> used' \<le> MAX_SOURCE_BYTES) \<and> list_all (\<lambda>l. last l = 10) (lines_of [] s)"
  using assms
proof (induction "length s" arbitrary: s used ed rule: less_induct)
  case less
  show ?case
  proof (cases "s = []")
    case True
    then show ?thesis using less.prems by (simp add: bodies_of_def)
  next
    case False
    from read_stream_step [OF less.prems(2) False]
    obtain line rest ed1 where ls: "lines_of [] s = line # lines_of [] rest"
      and len: "length s = length line + length rest" "line \<noteq> []" and last: "last line = 10"
      and fits: "used + length line \<le> MAX_SOURCE_BYTES"
      and body: "if line_body line = [] then ed1 = ed else add_body rt (line_body line) ed = Inr ed1"
      and rec: "read_stream rt rest (used + length line) ed1 = Inr (used', ed')" .
    have first: "bodies_ok rt ed1" "gathers rt (if line_body line = [] then [] else [line_body line]) ed ed1"
      using body less.prems(1) add_body_ok by (auto split: if_splits)
    have shorter: "length rest < length s" using len by simp
    note IH = less.hyps [OF shorter first(1) rec]
    have "gathers rt ((if line_body line = [] then [] else [line_body line]) @ bodies_of rest) ed ed'"
      using first(2) IH by (blast intro: gathers_append)
    moreover have "bodies_of s = (if line_body line = [] then [] else [line_body line]) @ bodies_of rest"
      by (simp add: bodies_of_def ls)
    ultimately show ?thesis using IH ls last len(1) fits by simp
  qed
qed

lemma read_files_ok:
  assumes "bodies_ok rt ed" "read_files rt files used ed = Inr ed'" "used \<le> MAX_SOURCE_BYTES"
  shows "bodies_ok rt ed' \<and> gathers rt (concat (map bodies_of files)) ed ed' \<and>
    used + sum_list (map length files) \<le> MAX_SOURCE_BYTES \<and>
    list_all (\<lambda>s. list_all (\<lambda>l. last l = 10) (lines_of [] s)) files"
  using assms
proof (induction files arbitrary: used ed)
  case (Cons s files)
  obtain used1 ed1 where one: "read_stream rt s used ed = Inr (used1, ed1)" and rest: "read_files rt files used1 ed1 = Inr ed'"
    using Cons.prems(2) by (auto split: sum.splits)
  note s = read_stream_ok [OF Cons.prems(1) one]
  have "bodies_ok rt ed1" "used1 \<le> MAX_SOURCE_BYTES" using s Cons.prems(3) by blast+
  note IH = Cons.IH [OF this(1) rest this(2)]
  show ?case using s IH gathers_append [of rt "bodies_of s" ed ed1 "concat (map bodies_of files)" ed'] by simp
qed simp

section \<open>What a reader reports\<close>

text \<open>
  C27: the reader returns all of the evidence or none. When reading local files succeeds, the set holds
  one record per distinct non-blank body of the files, under its digest, each a valid v4 event within the
  line limit, counts every occurrence, stays within the record and byte budgets, and no line was cut off;
  and what a later reconstruction returns, from the cache or not, is the reconstruction of exactly this set.
\<close>

theorem jsonl_evidence_exact:
  assumes "read_jsonl rt files = Inr ed"
  shows "(\<forall>d. dd_get 0 (ed_occurrences ed) d = count_list (map (sha256_hexdigest rt) (concat (map bodies_of files))) d) \<and>
    fst ` set (ed_records ed) = sha256_hexdigest rt ` set (concat (map bodies_of files)) \<and>
    records_ok rt (ed_records ed) (ed_events ed) (dd_get 0 (ed_occurrences ed)) (ed_body_bytes ed) \<and>
    length files \<le> MAX_SOURCE_FILES \<and> sum_list (map length files) \<le> MAX_SOURCE_BYTES \<and>
    list_all (\<lambda>s. list_all (\<lambda>l. last l = 10) (lines_of [] s)) files \<and>
    snd (reconstruct rt grp (fst (reconstruct rt grp' ed))) = reconstruct_now rt grp ed"
proof -
  have files: "length files \<le> MAX_SOURCE_FILES" "read_files rt files 0 empty_evidence = Inr ed"
    using assms by (auto simp: read_jsonl_def split: if_splits)
  note read = read_files_ok [OF empty_bodies_ok files(2)]
  have ok: "bodies_ok rt ed" using read by simp
  obtain ed1 r1 where one: "reconstruct rt grp' ed = (ed1, r1)" by fastforce
  note first = reconstruct_cached [OF ok one]
  obtain ed2 r2 where two: "reconstruct rt grp ed1 = (ed2, r2)" by fastforce
  have "r2 = reconstruct_now rt grp ed1" using reconstruct_cached [OF _ two] first by blast
  also have "\<dots> = reconstruct_now rt grp (ed\<lparr>ed_reconstruction := ed_reconstruction ed1\<rparr>)" using first by metis
  also have "\<dots> = reconstruct_now rt grp ed"
    by (simp add: reconstruct_now_def selected_def selects_def group_sessions_def)
  finally have "snd (reconstruct rt grp (fst (reconstruct rt grp' ed))) = reconstruct_now rt grp ed"
    by (simp add: one two)
  then show ?thesis using read files(1) ok
    by (simp add: gathers_def bodies_ok_def empty_evidence_def dd_get_def)
qed

lemma read_stream_line:
  assumes "10 \<notin> set w" "length w \<le> MAX_LINE_BYTES" "used + Suc (length w) \<le> MAX_SOURCE_BYTES"
    and "line_body (w @ [10]) \<noteq> []" "add_body rt (line_body (w @ [10])) ed = Inr ed1"
  shows "read_stream rt (w @ 10 # xs) used ed = read_stream rt xs (used + Suc (length w)) ed1"
proof -
  have "takeWhile (\<lambda>b. b \<noteq> 10) (w @ 10 # xs) = w" "dropWhile (\<lambda>b. b \<noteq> 10) (w @ 10 # xs) = 10 # xs"
    using assms(1) by (induction w) auto
  then have "next_line (MAX_LINE_BYTES + 2) (w @ 10 # xs) = w @ [10]"
    using assms(2) by (simp add: next_line_def)
  then show ?thesis using assms(2-5) by (subst read_stream.simps) (simp add: Let_def)
qed

definition example_record :: evidence where
  "example_record = (let d = replicate 64 (CHR ''0'') in
     \<lparr> ed_records = [(d, example_upload)], ed_events = [(d, example_event)], ed_occurrences = [(d, 2)],
       ed_body_bytes = length example_upload, ed_reconstruction = None \<rparr>)"

lemma example_upload_bytes: "length example_upload = 6" "10 \<notin> set example_upload" "last example_upload \<noteq> 13"
  by code_simp+

lemma example_body: "line_body (example_upload @ [10]) = example_upload"
  using example_upload_bytes by (simp add: line_body_def)

lemma example_parse: "parse_body example_runtime example_upload = Inr example_event"
proof -
  have "utf8_decode example_runtime example_upload = Some ''{send}''" by code_simp
  moreover have "loads_audit_json example_runtime ''{send}'' = Some (JObj example_event)" by code_simp
  moreover have "schema_error_code example_runtime (JObj example_event) = None" by code_simp
  ultimately show ?thesis using example_upload_bytes(1) by (simp add: parse_body_def MAX_LINE_BYTES_def)
qed

lemma example_add:
  "add_event example_runtime example_upload example_event empty_evidence =
     Inr (example_record\<lparr>ed_occurrences := [(replicate 64 (CHR ''0''), 1)]\<rparr>)"
proof -
  have "sha256_hexdigest example_runtime b = replicate 64 (CHR ''0'')" for b by (simp add: example_runtime_def)
  then show ?thesis using example_upload_bytes(1)
    by (simp add: add_event_def empty_evidence_def Let_def example_record_def MAX_RECORDS_def MAX_SOURCE_BYTES_def
        MAX_EVIDENCE_BYTES_def count_up_def dd_get_def del: replicate.simps)
qed

lemma example_read: "read_jsonl example_runtime [example_upload @ 10 # example_upload @ [10]] = Inr example_record"
proof -
  let ?d = "replicate 64 (CHR ''0'')"
  let ?one = "example_record\<lparr>ed_occurrences := [(?d, 1)]\<rparr>"
  have sha: "sha256_hexdigest example_runtime b = ?d" for b by (simp add: example_runtime_def)
  have one: "add_body example_runtime example_upload empty_evidence = Inr ?one"
    by (simp add: add_body_def example_parse example_add)
  have two: "add_body example_runtime example_upload ?one = Inr example_record"
    by (simp add: add_body_def example_parse add_event_def Let_def sha example_record_def count_up_def dd_get_def
        del: replicate.simps)
  have "example_upload \<noteq> []" using example_upload_bytes(1) by auto
  then show ?thesis
    using read_stream_line [of example_upload 0 example_runtime empty_evidence ?one "example_upload @ [10]"]
      read_stream_line [of example_upload 7 example_runtime ?one example_record "[]"] one two
      example_upload_bytes example_body
    by (simp add: read_jsonl_def MAX_SOURCE_FILES_def MAX_LINE_BYTES_def MAX_SOURCE_BYTES_def)
qed

theorem jsonl_evidence_exact_witness:
  "read_jsonl example_runtime [example_upload @ 10 # example_upload @ [10]] = Inr example_record \<and>
   dd_get 0 (ed_occurrences example_record) (replicate 64 (CHR ''0'')) =
     count_list (map (sha256_hexdigest example_runtime)
       (concat (map bodies_of [example_upload @ 10 # example_upload @ [10]]))) (replicate 64 (CHR ''0''))"
  using example_read jsonl_evidence_exact [OF example_read] by blast

end
