(* ===== verification/Loki_Reader.thy ===== *)
theory Loki_Reader
  imports Evidence_Reader Py_Text
begin

text \<open>
  Retrieval from a log store (\<^verbatim>\<open>LokiReader\<close> of \<^verbatim>\<open>forensics/investigation_reader.py\<close>): one bounded query
  with the check of its response, the walk over the digests of entries that share a timestamp, the page
  loop, and the investigation of a group. The store behind the transport is a parameter: \<open>lk_transport n\<close>
  answers the n-th query with a JSON value or fails. \<open>lk_clock n\<close> is the clock at the n-th query and
  \<open>lk_float_int\<close> is \<^verbatim>\<open>int()\<close> of a float literal.
\<close>

record loki =
  lk_transport :: "nat \<Rightarrow> string \<Rightarrow> int \<Rightarrow> int \<Rightarrow> nat \<Rightarrow> json option"
  lk_clock :: "nat \<Rightarrow> int"
  lk_float_int :: "string \<Rightarrow> int option"
  lk_service_name :: string
  lk_environment_name :: string
  lk_now_ns :: int
  lk_page_size :: nat
  lk_deadline :: int

definition MAX_QUERIES :: nat where
  "MAX_QUERIES = 2000"

definition MAX_EXPRESSION_BYTES :: nat where
  "MAX_EXPRESSION_BYTES = 4500"

definition READER_CUTOFF_NS :: int where
  "READER_CUTOFF_NS = 30 * 86400 * 10 ^ 9"

definition BUCKETS :: nat where
  "BUCKETS = 64"

section \<open>Partitions\<close>

definition hex_value :: "char \<Rightarrow> nat" where
  "hex_value c = (let n = of_char c in if n \<le> 57 then n - 48 else n - 87)"

definition hex_nat :: "string \<Rightarrow> nat" where
  "hex_nat s = fold (\<lambda>c n. n * 16 + hex_value c) s 0"

text \<open>\<^verbatim>\<open>json.dumps\<close> of a string with \<^verbatim>\<open>ensure_ascii=False\<close>: only the characters JSON cannot hold are escaped.\<close>

definition dumps_raw_str :: "string \<Rightarrow> string" where
  "dumps_raw_str s = CHR 0x22 # concat (map (\<lambda>c. if (of_char c :: nat) > 126 then [c] else dumps_char c) s) @ [CHR 0x22]"

definition bucket :: "runtime \<Rightarrow> string \<Rightarrow> string \<Rightarrow> string \<Rightarrow> string" where
  "bucket rt grp engine account =
     (let key = (if grp \<noteq> [] then [''group'', grp] else [''context'', engine, account]);
          text = ''['' @ str_join '','' (map dumps_raw_str key) @ '']'';
          k = hex_nat (take 16 (sha256_hexdigest rt (utf8_encode text))) mod BUCKETS
      in CHR ''b'' # [hex_digit (k div 16), hex_digit (k mod 16)])"

section \<open>A query\<close>

text \<open>
  How Python indexes and iterates the values of a response: \<^verbatim>\<open>v[key]\<close>, \<^verbatim>\<open>v[i]\<close>, \<^verbatim>\<open>for x in v\<close>, \<^verbatim>\<open>len(v)\<close>,
  \<^verbatim>\<open>dict(v)\<close> and \<^verbatim>\<open>int(v)\<close>; \<^term>\<open>None\<close> where one of the exceptions is raised that the query turns into a
  refusal. A dictionary made from pairs keeps the string keys, which are all the code looks up.
\<close>

fun py_key :: "json \<Rightarrow> string \<Rightarrow> json option" where
  "py_key (JObj ms) k = map_of ms k"
| "py_key _ k = None"

fun py_items :: "json \<Rightarrow> json list option" where
  "py_items (JList xs) = Some xs"
| "py_items (JStr s) = Some (map (\<lambda>c. JStr [c]) s)"
| "py_items (JObj ms) = Some (map (\<lambda>m. JStr (fst m)) ms)"
| "py_items _ = None"

fun py_item :: "json \<Rightarrow> nat \<Rightarrow> json option" where
  "py_item (JList xs) i = (if i < length xs then Some (xs ! i) else None)"
| "py_item (JStr s) i = (if i < length s then Some (JStr [s ! i]) else None)"
| "py_item _ i = None"

definition hashable :: "json \<Rightarrow> bool" where
  "hashable v \<longleftrightarrow> \<not> is_list v \<and> \<not> is_dict v"

fun pairs_dict :: "json list \<Rightarrow> dict option" where
  "pairs_dict [] = Some []"
| "pairs_dict (x # xs) =
     (case py_items x of
        Some [k, v] \<Rightarrow>
          (if \<not> hashable k then None
           else (case pairs_dict xs of None \<Rightarrow> None
                 | Some d \<Rightarrow> Some (case k of JStr s \<Rightarrow> (if map_of d s = None then (s, v) # d else d) | _ \<Rightarrow> d)))
      | _ \<Rightarrow> None)"

fun py_dict :: "json \<Rightarrow> dict option" where
  "py_dict (JObj ms) = Some ms"
| "py_dict v = (case py_items v of None \<Rightarrow> None | Some xs \<Rightarrow> pairs_dict xs)"

fun py_number :: "(string \<Rightarrow> int option) \<Rightarrow> json \<Rightarrow> int option" where
  "py_number fi (JInt i) = Some i"
| "py_number fi (JBool b) = Some (if b then 1 else 0)"
| "py_number fi (JFloat r) = fi r"
| "py_number fi (JStr s) = py_int s"
| "py_number fi _ = None"

type_synonym loki_row = "int \<times> string \<times> byte list"

definition row_of_value ::
  "runtime \<Rightarrow> (string \<Rightarrow> int option) \<Rightarrow> int \<Rightarrow> int \<Rightarrow> json \<Rightarrow> json \<Rightarrow> loki_row option" where
  "row_of_value rt fi start stop stream v =
     (case py_item v 0 of None \<Rightarrow> None | Some v0 \<Rightarrow>
      (case py_number fi v0 of None \<Rightarrow> None | Some timestamp \<Rightarrow>
       (case py_item v 1 of Some (JStr s) \<Rightarrow>
          (let body = utf8_encode s; digest = sha256_hexdigest rt body
           in if \<not> (start \<le> timestamp \<and> timestamp < stop) then None
              else (case py_key stream ''stream'' of None \<Rightarrow> None | Some labels \<Rightarrow>
                    (case py_dict labels of None \<Rightarrow> None | Some metadata \<Rightarrow>
                     (case (case py_item v 2 of None \<Rightarrow> Some [] | Some extra \<Rightarrow> py_dict extra) of
                        None \<Rightarrow> None
                      | Some extras \<Rightarrow>
                          (if dict_get (extras @ metadata) ''audit_sha256'' = JStr digest then Some (timestamp, digest, body)
                           else None)))))
        | _ \<Rightarrow> None)))"

fun rows_of_values ::
  "runtime \<Rightarrow> (string \<Rightarrow> int option) \<Rightarrow> int \<Rightarrow> int \<Rightarrow> json \<Rightarrow> json list \<Rightarrow> loki_row list option" where
  "rows_of_values rt fi start stop stream [] = Some []"
| "rows_of_values rt fi start stop stream (v # vs) =
     (case row_of_value rt fi start stop stream v of None \<Rightarrow> None
      | Some r \<Rightarrow> map_option ((#) r) (rows_of_values rt fi start stop stream vs))"

fun rows_of_streams :: "runtime \<Rightarrow> (string \<Rightarrow> int option) \<Rightarrow> int \<Rightarrow> int \<Rightarrow> json list \<Rightarrow> loki_row list option" where
  "rows_of_streams rt fi start stop [] = Some []"
| "rows_of_streams rt fi start stop (stream # streams) =
     (case Option.bind (py_key stream ''values'') py_items of None \<Rightarrow> None
      | Some vs \<Rightarrow>
          (case rows_of_values rt fi start stop stream vs of None \<Rightarrow> None
           | Some rs \<Rightarrow> map_option ((@) rs) (rows_of_streams rt fi start stop streams)))"

definition rows_of_response :: "runtime \<Rightarrow> (string \<Rightarrow> int option) \<Rightarrow> int \<Rightarrow> int \<Rightarrow> json \<Rightarrow> loki_row list option" where
  "rows_of_response rt fi start stop result =
     (if py_key result ''status'' \<noteq> Some (JStr ''success'') then None
      else (case py_key result ''data'' of None \<Rightarrow> None | Some data \<Rightarrow>
            (if py_key data ''resultType'' \<noteq> Some (JStr ''streams'') then None
             else (case Option.bind (py_key data ''result'') py_items of None \<Rightarrow> None
                   | Some streams \<Rightarrow> rows_of_streams rt fi start stop streams))))"

record reader_state =
  rs_queries :: nat
  rs_evidence :: evidence

definition query ::
  "runtime \<Rightarrow> loki \<Rightarrow> string \<Rightarrow> int \<Rightarrow> int \<Rightarrow> reader_state \<Rightarrow> reader_state \<times> (incomplete_evidence + loki_row list)" where
  "query rt lk expression start stop st =
     (let remaining = lk_deadline lk - lk_clock lk (rs_queries st)
      in if remaining \<le> 0 \<or> rs_queries st \<ge> MAX_QUERIES then (st, Inl QueryBudget)
         else if length (utf8_encode expression) > MAX_EXPRESSION_BYTES then (st, Inl ExpressionBudget)
         else (let st1 = st\<lparr>rs_queries := Suc (rs_queries st)\<rparr>
               in (case lk_transport lk (rs_queries st) expression start stop (lk_page_size lk) of
                     None \<Rightarrow> (st1, Inl RequestFailed)
                   | Some result \<Rightarrow>
                       (case rows_of_response rt (lk_float_int lk) start stop result of
                          None \<Rightarrow> (st1, Inl InvalidResponse)
                        | Some rows \<Rightarrow>
                            if length rows > lk_page_size lk then (st1, Inl PageOverflow) else (st1, Inr (sort rows))))))"

section \<open>Retrieval\<close>

fun add_rows :: "runtime \<Rightarrow> (dict \<Rightarrow> bool) \<Rightarrow> loki_row list \<Rightarrow> reader_state \<Rightarrow> incomplete_evidence + reader_state" where
  "add_rows rt accept [] st = Inr st"
| "add_rows rt accept ((t, d, body) # rows) st =
     (case parse_body rt body of
        Inl e \<Rightarrow> Inl e
      | Inr event \<Rightarrow>
          (if \<not> accept event then Inl LabelMismatch
           else (case add_event rt body event (rs_evidence st) of
                   Inl e \<Rightarrow> Inl e
                 | Inr ed \<Rightarrow> add_rows rt accept rows (st\<lparr>rs_evidence := ed\<rparr>))))"

definition hex_chars :: string where
  "hex_chars = ''0123456789abcdef''"

definition digest_filter :: "string \<Rightarrow> string" where
  "digest_filter pre = (if pre = [] then [] else '' | audit_sha256=~\"'' @ pre @ ''[0-9a-f]*\"'')"

text \<open>
  The generator \<^verbatim>\<open>tied\<close> with its only consumer: its rows are added in the order it yields them, before
  its next query. \<open>depth\<close> is the number of characters by which the prefix may still grow.
\<close>

fun tied_into ::
  "runtime \<Rightarrow> loki \<Rightarrow> string \<Rightarrow> int \<Rightarrow> (dict \<Rightarrow> bool) \<Rightarrow> nat \<Rightarrow> string \<Rightarrow> reader_state \<Rightarrow> incomplete_evidence + reader_state"
and tied_chars ::
  "runtime \<Rightarrow> loki \<Rightarrow> string \<Rightarrow> int \<Rightarrow> (dict \<Rightarrow> bool) \<Rightarrow> nat \<Rightarrow> string \<Rightarrow> string \<Rightarrow> reader_state \<Rightarrow> incomplete_evidence + reader_state" where
  "tied_into rt lk expression timestamp accept depth pre st =
     (case query rt lk (expression @ digest_filter pre) timestamp (timestamp + 1) st of
        (st1, Inl e) \<Rightarrow> Inl e
      | (st1, Inr rows) \<Rightarrow>
          (if length rows < lk_page_size lk then add_rows rt accept rows st1
           else (case depth of
                   0 \<Rightarrow> Inl UnresolvableTie
                 | Suc n \<Rightarrow> tied_chars rt lk expression timestamp accept n pre hex_chars st1)))"
| "tied_chars rt lk expression timestamp accept depth pre [] st = Inr st"
| "tied_chars rt lk expression timestamp accept depth pre (c # cs) st =
     (case tied_into rt lk expression timestamp accept depth (pre @ [c]) st of
        Inl e \<Rightarrow> Inl e
      | Inr st1 \<Rightarrow> tied_chars rt lk expression timestamp accept depth pre cs st1)"

definition tied :: "runtime \<Rightarrow> loki \<Rightarrow> string \<Rightarrow> int \<Rightarrow> (dict \<Rightarrow> bool) \<Rightarrow> reader_state \<Rightarrow> incomplete_evidence + reader_state" where
  "tied rt lk expression timestamp accept st = tied_into rt lk expression timestamp accept 64 [] st"

lemma rows_of_values_window:
  "rows_of_values rt fi start stop stream vs = Some rs \<Longrightarrow> r \<in> set rs \<Longrightarrow> start \<le> fst r \<and> fst r < stop"
  by (induction vs arbitrary: rs)
    (auto simp: row_of_value_def Let_def split: option.splits json.splits if_splits)

lemma rows_of_streams_window:
  "rows_of_streams rt fi start stop streams = Some rs \<Longrightarrow> r \<in> set rs \<Longrightarrow> start \<le> fst r \<and> fst r < stop"
  by (induction streams arbitrary: rs) (auto split: option.splits dest: rows_of_values_window)

lemma query_rows:
  assumes "query rt lk expression start stop st = (st1, Inr rows)"
  obtains result rows0 where "lk_transport lk (rs_queries st) expression start stop (lk_page_size lk) = Some result"
    "rows_of_response rt (lk_float_int lk) start stop result = Some rows0" "rows = sort rows0"
    "length rows \<le> lk_page_size lk" "st1 = st\<lparr>rs_queries := Suc (rs_queries st)\<rparr>" "rs_queries st < MAX_QUERIES"
  using assms by (auto simp: query_def Let_def split: option.splits if_splits)

lemma query_window:
  assumes "query rt lk expression start stop st = (st1, Inr rows)" "r \<in> set rows"
  shows "start \<le> fst r \<and> fst r < stop"
proof -
  obtain result rows0 where "rows_of_response rt (lk_float_int lk) start stop result = Some rows0" "rows = sort rows0"
    using assms(1) by (rule query_rows)
  then show ?thesis using assms(2)
    by (auto simp: rows_of_response_def split: option.splits if_splits dest: rows_of_streams_window)
qed

function retrieve ::
  "runtime \<Rightarrow> loki \<Rightarrow> string \<Rightarrow> int \<Rightarrow> int \<Rightarrow> (dict \<Rightarrow> bool) \<Rightarrow> reader_state \<Rightarrow> incomplete_evidence + reader_state" where
  "retrieve rt lk expression cursor stop accept st =
     (if cursor \<ge> stop then Inr st
      else (case query rt lk expression cursor stop st of
              (st1, Inl e) \<Rightarrow> Inl e
            | (st1, Inr rows) \<Rightarrow>
                (if rows = [] then Inr st1
                 else if length rows < lk_page_size lk then add_rows rt accept rows st1
                 else (let boundary = fst (last rows)
                       in (case add_rows rt accept (filter (\<lambda>r. fst r < boundary) rows) st1 of
                             Inl e \<Rightarrow> Inl e
                           | Inr st2 \<Rightarrow>
                               (case tied rt lk expression boundary accept st2 of
                                  Inl e \<Rightarrow> Inl e
                                | Inr st3 \<Rightarrow> retrieve rt lk expression (boundary + 1) stop accept st3))))))"
  by pat_completeness auto

termination
proof (relation "measure (\<lambda>(rt, lk, expression, cursor, stop, accept, st). nat (stop - cursor))", goal_cases)
  case 2
  then show ?case by (auto dest!: query_window [OF sym] last_in_set)
qed simp

declare retrieve.simps [simp del]

section \<open>The investigation of a group\<close>

datatype investigation_error = GroupRefNotHex | InvertedWindow | Incomplete incomplete_evidence

record investigation =
  iv_summary :: evidence_summary
  iv_requested :: "int \<times> int"
  iv_queried :: "(int \<times> int) option"
  iv_reader_cutoff :: int
  iv_query_count :: nat

definition loki_init_ok :: "loki \<Rightarrow> bool" where
  "loki_init_ok lk \<longleftrightarrow> 1 \<le> lk_page_size lk \<and> lk_page_size lk \<le> 50000 \<and>
     lk_service_name lk \<noteq> [] \<and> length (lk_service_name lk) \<le> 128 \<and>
     lk_environment_name lk \<noteq> [] \<and> length (lk_environment_name lk) \<le> 128"

definition stream_selector :: "loki \<Rightarrow> string \<Rightarrow> string" where
  "stream_selector lk part =
     ''{service_name='' @ dumps_str (lk_service_name lk) @ '',deployment_environment_name='' @
       dumps_str (lk_environment_name lk) @ '',audit_bucket='' @ dumps_str part @ ''}''"

definition group_expression :: "runtime \<Rightarrow> loki \<Rightarrow> string \<Rightarrow> string" where
  "group_expression rt lk grp = stream_selector lk (bucket rt grp [] []) @ '' | audit_group='' @ dumps_str grp"

definition group_accepts :: "runtime \<Rightarrow> string \<Rightarrow> dict \<Rightarrow> bool" where
  "group_accepts rt grp ev \<longleftrightarrow> in_group grp ev \<and>
     bucket rt (str_of (dict_get ev ''group_ref'')) [] [] = bucket rt grp [] []"

definition context_expression :: "runtime \<Rightarrow> loki \<Rightarrow> string \<times> string \<times> string \<Rightarrow> string" where
  "context_expression rt lk s =
     (case s of (engine, account, recorder) \<Rightarrow>
        stream_selector lk (bucket rt [] engine account) @ '' | audit_group=\"\" | audit_engine='' @ dumps_str engine @
        '' and audit_account='' @ dumps_str account @ '' and audit_session='' @ dumps_str recorder)"

definition context_accepts :: "runtime \<Rightarrow> string \<times> string \<times> string \<Rightarrow> dict \<Rightarrow> bool" where
  "context_accepts rt s ev \<longleftrightarrow> \<not> truthy (dict_get ev ''group_ref'') \<and> reader_session ev = s \<and>
     bucket rt [] (fst (reader_session ev)) (fst (snd (reader_session ev))) = bucket rt [] (fst s) (fst (snd s))"

text \<open>The complete sessions of the group's records, by partition and then in order.\<close>

definition context_sessions :: "runtime \<Rightarrow> string \<Rightarrow> evidence \<Rightarrow> (string \<times> string \<times> string) list" where
  "context_sessions rt grp ed =
     map snd (sorted_set (map (\<lambda>(e, a, r). (bucket rt [] e a, e, a, r)) (filter complete_session
       (map (\<lambda>(d, ev). reader_session ev) (filter (\<lambda>(d, ev). in_group grp ev) (ed_events ed))))))"

fun retrieve_contexts ::
  "runtime \<Rightarrow> loki \<Rightarrow> int \<Rightarrow> int \<Rightarrow> (string \<times> string \<times> string) list \<Rightarrow> reader_state \<Rightarrow> incomplete_evidence + reader_state" where
  "retrieve_contexts rt lk start stop [] st = Inr st"
| "retrieve_contexts rt lk start stop (s # ss) st =
     (case retrieve rt lk (context_expression rt lk s) start stop (context_accepts rt s) st of
        Inl e \<Rightarrow> Inl e
      | Inr st1 \<Rightarrow> retrieve_contexts rt lk start stop ss st1)"

definition retrieve_group ::
  "runtime \<Rightarrow> loki \<Rightarrow> string \<Rightarrow> int \<Rightarrow> int \<Rightarrow> reader_state \<Rightarrow> incomplete_evidence + reader_state" where
  "retrieve_group rt lk grp start stop st =
     (case retrieve rt lk (group_expression rt lk grp) start stop (group_accepts rt grp) st of
        Inl e \<Rightarrow> Inl e
      | Inr st1 \<Rightarrow> retrieve_contexts rt lk start stop (context_sessions rt grp (rs_evidence st1)) st1)"

definition report ::
  "runtime \<Rightarrow> string \<Rightarrow> bool \<Rightarrow> int \<times> int \<Rightarrow> (int \<times> int) option \<Rightarrow> int \<Rightarrow> reader_state
     \<Rightarrow> investigation_error + (reader_state \<times> investigation)" where
  "report rt grp omitted requested queried cutoff st =
     (case evidence_summary_for rt grp SourceLoki omitted (rs_evidence st) of
        (ed, Inl e) \<Rightarrow> Inl (Incomplete e)
      | (ed, Inr summary) \<Rightarrow> Inr (st\<lparr>rs_evidence := ed\<rparr>,
          \<lparr> iv_summary = summary, iv_requested = requested, iv_queried = queried, iv_reader_cutoff = cutoff,
            iv_query_count = rs_queries st \<rparr>))"

definition investigate ::
  "runtime \<Rightarrow> loki \<Rightarrow> string \<Rightarrow> int \<Rightarrow> int \<Rightarrow> reader_state \<Rightarrow> investigation_error + (reader_state \<times> investigation)" where
  "investigate rt lk grp start_ns end_ns st =
     (if grp = [] \<or> \<not> list_all is_hex_char grp then Inl GroupRefNotHex
      else if end_ns \<le> start_ns then Inl InvertedWindow
      else (let cutoff = lk_now_ns lk - READER_CUTOFF_NS;
                start = max start_ns cutoff
            in if start \<ge> end_ns then report rt grp True (start_ns, end_ns) None cutoff st
               else (case retrieve_group rt lk grp start end_ns st of
                       Inl e \<Rightarrow> Inl (Incomplete e)
                     | Inr st1 \<Rightarrow> report rt grp (start_ns < cutoff) (start_ns, end_ns) (Some (start, end_ns)) cutoff st1)))"

definition new_reader :: reader_state where
  "new_reader = \<lparr> rs_queries = 0, rs_evidence = empty_evidence \<rparr>"

section \<open>What the code relies on of the store\<close>

text \<open>
  The store answers an expression with entries of its receipt window, the earliest first: a page shorter
  than the limit is all of the window, and no entry left out is earlier than one on the page. A filter on
  the digest label keeps the entries whose label starts with the prefix, and the label of an entry is the
  digest of its body. A failed request or a malformed response is always possible.
\<close>

definition in_window :: "int \<Rightarrow> int \<Rightarrow> loki_row list \<Rightarrow> loki_row list" where
  "in_window start stop rows = filter (\<lambda>r. start \<le> fst r \<and> fst r < stop) rows"

definition page_of :: "nat \<Rightarrow> loki_row list \<Rightarrow> loki_row list \<Rightarrow> bool" where
  "page_of limit rows entries \<longleftrightarrow> mset rows \<subseteq># mset entries \<and> (length rows < limit \<longrightarrow> mset rows = mset entries) \<and>
     (\<forall>r \<in> set rows. \<forall>x \<in># mset entries - mset rows. fst r \<le> fst x)"

definition base_expressions :: "runtime \<Rightarrow> loki \<Rightarrow> string \<Rightarrow> string set" where
  "base_expressions rt lk grp = insert (group_expression rt lk grp) (range (context_expression rt lk))"

definition store_ok :: "runtime \<Rightarrow> loki \<Rightarrow> string \<Rightarrow> (string \<Rightarrow> loki_row list) \<Rightarrow> bool" where
  "store_ok rt lk grp entries \<longleftrightarrow>
     (\<forall>n expression start stop result rows.
        lk_transport lk n expression start stop (lk_page_size lk) = Some result \<and>
        rows_of_response rt (lk_float_int lk) start stop result = Some rows \<longrightarrow>
        page_of (lk_page_size lk) rows (in_window start stop (entries expression))) \<and>
     (\<forall>expression \<in> base_expressions rt lk grp. \<forall>pre. entries (expression @ digest_filter pre) =
        filter (\<lambda>r. take (length pre) (fst (snd r)) = pre) (entries expression)) \<and>
     (\<forall>expression. \<forall>r \<in> set (entries expression). fst (snd r) = sha256_hexdigest rt (snd (snd r)))"

definition hexdigest_ok :: "runtime \<Rightarrow> bool" where
  "hexdigest_ok rt \<longleftrightarrow> (\<forall>b. length (sha256_hexdigest rt b) = 64 \<and> set (sha256_hexdigest rt b) \<subseteq> set hex_chars)"

section \<open>Retrieval refines the store\<close>

definition collects :: "runtime \<Rightarrow> (dict \<Rightarrow> bool) \<Rightarrow> loki_row list \<Rightarrow> reader_state \<Rightarrow> reader_state \<Rightarrow> bool" where
  "collects rt accept rows st st' \<longleftrightarrow> bodies_ok rt (rs_evidence st') \<and>
     gathers rt (map (snd \<circ> snd) rows) (rs_evidence st) (rs_evidence st') \<and>
     (\<forall>r \<in> set rows. \<exists>ev. parse_body rt (snd (snd r)) = Inr ev \<and> accept ev)"

lemma collects_Nil: "bodies_ok rt (rs_evidence st) \<Longrightarrow> rs_evidence st' = rs_evidence st \<Longrightarrow> collects rt accept [] st st'"
  by (simp add: collects_def)

lemma collectsD:
  assumes "collects rt accept rows st st'"
  shows "bodies_ok rt (rs_evidence st')" "gathers rt (map (snd \<circ> snd) rows) (rs_evidence st) (rs_evidence st')"
    "\<forall>r \<in> set rows. \<exists>ev. parse_body rt (snd (snd r)) = Inr ev \<and> accept ev"
  using assms unfolding collects_def by - (elim conjE, assumption)+

lemma collects_append:
  assumes "collects rt accept rs st st1" "collects rt accept qs st1 st2"
  shows "collects rt accept (rs @ qs) st st2"
  unfolding collects_def map_append set_append ball_Un
  by (intro conjI collectsD(1) [OF assms(2)] gathers_append [OF collectsD(2) [OF assms(1)] collectsD(2) [OF assms(2)]]
      collectsD(3) [OF assms(1)] collectsD(3) [OF assms(2)])

lemma collects_cong:
  assumes "mset rs = mset qs" "collects rt accept rs st st'"
  shows "collects rt accept qs st st'"
proof -
  have "mset (map (snd \<circ> snd) rs) = mset (map (snd \<circ> snd) qs)" using assms(1) by (simp add: mset_map)
  moreover have "set rs = set qs" using assms(1) by (rule mset_eq_setD)
  ultimately show ?thesis unfolding collects_def
    using collectsD(1,3) [OF assms(2)] gathers_cong [OF _ collectsD(2) [OF assms(2)]] by simp
qed

lemma collects_queries: "collects rt accept rs (st\<lparr>rs_queries := n\<rparr>) st' = collects rt accept rs st st'"
  by (simp add: collects_def)

lemma add_rows_ok:
  "add_rows rt accept rows st = Inr st' \<Longrightarrow> bodies_ok rt (rs_evidence st) \<Longrightarrow> collects rt accept rows st st'"
proof (induction rt accept rows st rule: add_rows.induct)
  case (1 rt accept st)
  then show ?case by (simp add: collects_def)
next
  case (2 rt accept t d body rows st)
  obtain ev ed where ev: "parse_body rt body = Inr ev" "accept ev" "add_event rt body ev (rs_evidence st) = Inr ed"
      and rec: "add_rows rt accept rows (st\<lparr>rs_evidence := ed\<rparr>) = Inr st'"
    using 2(2) by (auto split: sum.splits if_splits)
  note one = add_event_ok [OF 2(3) ev(1,3)]
  have "collects rt accept [(t, d, body)] st (st\<lparr>rs_evidence := ed\<rparr>)" using one ev by (simp add: collects_def)
  moreover have "collects rt accept rows (st\<lparr>rs_evidence := ed\<rparr>) st'"
    using 2(1) [OF ev(1) _ ev(3) rec] ev(2) one(1) by simp
  ultimately show ?case using collects_append by fastforce
qed

lemma query_page:
  assumes "query rt lk expression start stop st = (st1, Inr rows)" "store_ok rt lk grp entries"
  shows "page_of (lk_page_size lk) rows (in_window start stop (entries expression))"
    "st1 = st\<lparr>rs_queries := Suc (rs_queries st)\<rparr>" "sorted rows"
proof -
  obtain result rows0 where q: "lk_transport lk (rs_queries st) expression start stop (lk_page_size lk) = Some result"
      "rows_of_response rt (lk_float_int lk) start stop result = Some rows0" "rows = sort rows0"
      "st1 = st\<lparr>rs_queries := Suc (rs_queries st)\<rparr>"
    using assms(1) by (rule query_rows)
  have "page_of (lk_page_size lk) rows0 (in_window start stop (entries expression))"
    using assms(2) q(1,2) unfolding store_ok_def by blast
  then show "page_of (lk_page_size lk) rows (in_window start stop (entries expression))"
    by (simp add: page_of_def q(3))
  show "st1 = st\<lparr>rs_queries := Suc (rs_queries st)\<rparr>" "sorted rows" using q by simp_all
qed

text \<open>Splitting entries by a key with finitely many values loses nothing.\<close>

lemma mset_split_by_key:
  "distinct ks \<Longrightarrow> (\<forall>x \<in> set xs. key x \<in> set ks) \<Longrightarrow> mset (concat (map (\<lambda>k. filter (\<lambda>x. key x = k) xs) ks)) = mset xs"
proof (induction ks arbitrary: xs)
  case (Cons k ks)
  let ?rest = "filter (\<lambda>x. key x \<noteq> k) xs"
  have "filter (\<lambda>x. key x = c) ?rest = filter (\<lambda>x. key x = c) xs" if "c \<in> set ks" for c
    using that Cons.prems(1) by (auto intro!: filter_cong)
  then have "concat (map (\<lambda>c. filter (\<lambda>x. key x = c) ?rest) ks) = concat (map (\<lambda>c. filter (\<lambda>x. key x = c) xs) ks)"
    by (metis (mono_tags, lifting) map_eq_conv)
  moreover have "mset (concat (map (\<lambda>c. filter (\<lambda>x. key x = c) ?rest) ks)) = mset ?rest"
    using Cons.prems by (intro Cons.IH) auto
  ultimately show ?case by (simp add: multiset_partition [symmetric])
qed simp

definition with_digest :: "string \<Rightarrow> loki_row list \<Rightarrow> loki_row list" where
  "with_digest pre rows = filter (\<lambda>r. take (length pre) (fst (snd r)) = pre) rows"

lemma with_digest_split:
  assumes "\<forall>r \<in> set rows. length (fst (snd r)) = 64 \<and> set (fst (snd r)) \<subseteq> set hex_chars" "length pre < 64"
  shows "mset (concat (map (\<lambda>c. with_digest (pre @ [c]) rows) hex_chars)) = mset (with_digest pre rows)"
proof -
  have "with_digest (pre @ [c]) rows = filter (\<lambda>r. fst (snd r) ! length pre = c) (with_digest pre rows)" for c
    unfolding with_digest_def filter_filter
    using assms by (intro filter_cong) (auto simp: take_Suc_conv_app_nth)
  moreover have "distinct hex_chars" by code_simp
  moreover have "\<forall>r \<in> set (with_digest pre rows). fst (snd r) ! length pre \<in> set hex_chars"
    using assms by (metis (no_types, lifting) filter_is_subset nth_mem subsetD with_digest_def)
  ultimately show ?thesis
    using mset_split_by_key [of hex_chars "with_digest pre rows" "\<lambda>r. fst (snd r) ! length pre"] by simp
qed

lemma store_digests:
  assumes "store_ok rt lk grp entries" "hexdigest_ok rt" "r \<in> set (entries expression)"
  shows "length (fst (snd r)) = 64 \<and> set (fst (snd r)) \<subseteq> set hex_chars"
proof -
  have "fst (snd r) = sha256_hexdigest rt (snd (snd r))" using assms(1,3) unfolding store_ok_def by blast
  then show ?thesis using assms(2) by (simp add: hexdigest_ok_def)
qed

lemma in_window_filter: "in_window a b (filter P rows) = filter P (in_window a b rows)"
  by (simp add: in_window_def conj_commute)

lemma tied_chars_ok:
  assumes one: "\<And>c st st'. tied_into rt lk expression ts accept depth (pre @ [c]) st = Inr st' \<Longrightarrow>
      bodies_ok rt (rs_evidence st) \<Longrightarrow> collects rt accept (W (pre @ [c])) st st'"
  shows "tied_chars rt lk expression ts accept depth pre cs st = Inr st' \<Longrightarrow> bodies_ok rt (rs_evidence st) \<Longrightarrow>
    collects rt accept (concat (map (\<lambda>c. W (pre @ [c])) cs)) st st'"
proof (induction cs arbitrary: st)
  case Nil
  then show ?case by (simp add: collects_Nil)
next
  case (Cons c cs)
  obtain st1 where st1: "tied_into rt lk expression ts accept depth (pre @ [c]) st = Inr st1"
      and rest: "tied_chars rt lk expression ts accept depth pre cs st1 = Inr st'"
    using Cons.prems(1) by (auto simp: tied_chars.simps split: sum.splits)
  note head = one [OF st1 Cons.prems(2)]
  then have "bodies_ok rt (rs_evidence st1)" by (simp add: collects_def)
  from collects_append [OF head Cons.IH [OF rest this]] show ?case by simp
qed

lemma tied_ok:
  assumes store: "store_ok rt lk grp entries" "hexdigest_ok rt" and base: "expression \<in> base_expressions rt lk grp"
  shows "tied_into rt lk expression ts accept depth pre st = Inr st' \<Longrightarrow> bodies_ok rt (rs_evidence st) \<Longrightarrow>
    length pre + depth = 64 \<Longrightarrow>
    collects rt accept (with_digest pre (in_window ts (ts + 1) (entries expression))) st st'"
proof (induction depth arbitrary: pre st st')
  let ?W = "\<lambda>pre. with_digest pre (in_window ts (ts + 1) (entries expression))"
  have filtered: "in_window ts (ts + 1) (entries (expression @ digest_filter pre)) = ?W pre" for pre
    using store(1) base unfolding store_ok_def with_digest_def by (simp add: in_window_filter)
  have leaf: "collects rt accept (?W pre) st st'"
    if q: "query rt lk (expression @ digest_filter pre) ts (ts + 1) st = (st1, Inr rows)" "length rows < lk_page_size lk"
      and add: "add_rows rt accept rows st1 = Inr st'" and ok: "bodies_ok rt (rs_evidence st)" for pre st st' st1 rows
  proof -
    note page = query_page [OF q(1) store(1)]
    have "mset rows = mset (?W pre)" using page(1) q(2) filtered by (simp add: page_of_def)
    moreover have "collects rt accept rows st1 st'" using add_rows_ok [OF add] ok page(2) by simp
    ultimately show ?thesis using collects_cong page(2) by (metis collects_queries)
  qed
  {
    case 0
    then show ?case using leaf by (auto simp: tied_into.simps split: sum.splits prod.splits if_splits)
  next
    case (Suc n)
    obtain st1 rows where q: "query rt lk (expression @ digest_filter pre) ts (ts + 1) st = (st1, Inr rows)"
        and cont: "if length rows < lk_page_size lk then add_rows rt accept rows st1 = Inr st'
          else tied_chars rt lk expression ts accept n pre hex_chars st1 = Inr st'"
      using Suc.prems(1) by (auto simp: tied_into.simps split: sum.splits prod.splits if_splits)
    show ?case
    proof (cases "length rows < lk_page_size lk")
      case True
      then show ?thesis using leaf [OF q] cont Suc.prems(2) by simp
    next
      case False
      have st1: "st1 = st\<lparr>rs_queries := Suc (rs_queries st)\<rparr>" using query_page(2) [OF q store(1)] .
      have "collects rt accept (concat (map (\<lambda>c. ?W (pre @ [c])) hex_chars)) st1 st'"
        using False cont Suc.prems st1 by (intro tied_chars_ok [where depth = n and W = ?W, OF Suc.IH]) auto
      moreover have "\<forall>r \<in> set (in_window ts (ts + 1) (entries expression)).
          length (fst (snd r)) = 64 \<and> set (fst (snd r)) \<subseteq> set hex_chars"
      proof
        fix r assume "r \<in> set (in_window ts (ts + 1) (entries expression))"
        then have "r \<in> set (entries expression)" by (simp add: in_window_def)
        then show "length (fst (snd r)) = 64 \<and> set (fst (snd r)) \<subseteq> set hex_chars" by (rule store_digests [OF store])
      qed
      ultimately have "collects rt accept (?W pre) st1 st'"
        using Suc.prems(3) by (intro collects_cong [OF with_digest_split]) simp_all
      then show ?thesis by (simp only: st1 collects_queries)
    qed
  }
qed

lemma window_split:
  assumes "cursor \<le> b" "b < stop"
  shows "mset (in_window cursor stop rows) = mset (filter (\<lambda>r. fst r < b) (in_window cursor stop rows)) +
    mset (in_window b (b + 1) rows) + mset (in_window (b + 1) stop rows)"
  using assms by (intro multiset_eqI) (auto simp: in_window_def)

lemma page_front:
  assumes page: "page_of limit rows entries" and rows: "rows \<noteq> []"
  shows "mset (filter (\<lambda>r. fst r < fst (last rows)) rows) = mset (filter (\<lambda>r. fst r < fst (last rows)) entries)"
proof -
  let ?P = "\<lambda>r. fst r < fst (last rows)"
  define rest where "rest = mset entries - mset rows"
  have split: "mset entries = mset rows + rest" using page by (simp add: page_of_def rest_def)
  have "last rows \<in> set rows" using rows by simp
  then have "\<forall>x \<in># rest. \<not> ?P x" using page unfolding page_of_def rest_def by (meson not_less)
  then have "filter_mset ?P rest = {#}" by (intro multiset_eqI) (auto simp: count_eq_zero_iff)
  then show ?thesis by (simp add: split)
qed

lemma retrieve_step:
  assumes "retrieve rt lk expression cursor stop accept st = Inr st'" "cursor < stop" "1 \<le> lk_page_size lk"
  obtains st1 rows where "query rt lk expression cursor stop st = (st1, Inr rows)"
      "length rows < lk_page_size lk" "add_rows rt accept rows st1 = Inr st'"
    | st1 rows st2 st3 where "query rt lk expression cursor stop st = (st1, Inr rows)" "rows \<noteq> []"
      "add_rows rt accept (filter (\<lambda>r. fst r < fst (last rows)) rows) st1 = Inr st2"
      "tied rt lk expression (fst (last rows)) accept st2 = Inr st3"
      "retrieve rt lk expression (fst (last rows) + 1) stop accept st3 = Inr st'"
  using assms by (subst (asm) retrieve.simps)
    (auto simp: Let_def split: sum.splits prod.splits if_splits)

lemma retrieve_ok:
  assumes store: "store_ok rt lk grp entries" "hexdigest_ok rt" and size: "1 \<le> lk_page_size lk"
    and base: "expression \<in> base_expressions rt lk grp"
  shows "retrieve rt lk expression cursor stop accept st = Inr st' \<Longrightarrow> bodies_ok rt (rs_evidence st) \<Longrightarrow>
    collects rt accept (in_window cursor stop (entries expression)) st st'"
proof (induction "nat (stop - cursor)" arbitrary: cursor st rule: less_induct)
  case less
  show ?case
  proof (cases "cursor < stop")
    case False
    then have "in_window cursor stop (entries expression) = []" by (auto simp: in_window_def filter_empty_conv)
    then show ?thesis using less.prems False by (subst (asm) retrieve.simps) (simp add: collects_Nil)
  next
    case True
    show ?thesis
    proof (rule retrieve_step [OF less.prems(1) True size])
      fix st1 rows
      assume q: "query rt lk expression cursor stop st = (st1, Inr rows)" "length rows < lk_page_size lk"
        and add: "add_rows rt accept rows st1 = Inr st'"
      note page = query_page [OF q(1) store(1)]
      have m: "mset rows = mset (in_window cursor stop (entries expression))"
        using page(1) q(2) unfolding page_of_def by blast
      have "collects rt accept rows st1 st'" using add_rows_ok [OF add] less.prems(2) page(2) by simp
      then have "collects rt accept rows st st'" by (simp only: page(2) collects_queries)
      then show ?thesis by (rule collects_cong [OF m])
    next
      fix st1 st2 st3 and rows :: "loki_row list"
      let ?b = "fst (last rows)"
      assume q: "query rt lk expression cursor stop st = (st1, Inr rows)" and ne: "rows \<noteq> []"
        and add: "add_rows rt accept (filter (\<lambda>r. fst r < ?b) rows) st1 = Inr st2"
        and tie: "tied rt lk expression ?b accept st2 = Inr st3"
        and rec: "retrieve rt lk expression (?b + 1) stop accept st3 = Inr st'"
      note page = query_page [OF q store(1)]
      have b: "cursor \<le> ?b" "?b < stop" using query_window [OF q] ne last_in_set by blast+
      have front: "collects rt accept (filter (\<lambda>r. fst r < ?b) rows) st st2"
        using add_rows_ok [OF add] less.prems(2) by (simp only: page(2) collects_queries) simp
      have middle: "collects rt accept (in_window ?b (?b + 1) (entries expression)) st2 st3"
        using tied_ok [OF store base, of ?b accept 64 "[]" st2 st3] tie collectsD(1) [OF front]
        by (simp add: tied_def with_digest_def)
      have later: "collects rt accept (in_window (?b + 1) stop (entries expression)) st3 st'"
        using less.hyps [OF _ rec collectsD(1) [OF middle]] b True by simp
      have "collects rt accept (filter (\<lambda>r. fst r < ?b) rows @ in_window ?b (?b + 1) (entries expression) @
          in_window (?b + 1) stop (entries expression)) st st'"
        by (rule collects_append [OF front collects_append [OF middle later]])
      moreover have "mset (filter (\<lambda>r. fst r < ?b) rows @ in_window ?b (?b + 1) (entries expression) @
          in_window (?b + 1) stop (entries expression)) = mset (in_window cursor stop (entries expression))"
        using window_split [OF b, of "entries expression"]
        unfolding mset_append page_front [OF page(1) ne] by (simp only: add.assoc)
      ultimately show ?thesis by (rule collects_cong [rotated])
    qed
  qed
qed

lemma retrieve_contexts_ok:
  assumes store: "store_ok rt lk grp entries" "hexdigest_ok rt" "1 \<le> lk_page_size lk"
  shows "retrieve_contexts rt lk start stop ss st = Inr st' \<Longrightarrow> bodies_ok rt (rs_evidence st) \<Longrightarrow>
    bodies_ok rt (rs_evidence st') \<and>
    gathers rt (concat (map (\<lambda>s. map (snd \<circ> snd) (in_window start stop (entries (context_expression rt lk s)))) ss))
      (rs_evidence st) (rs_evidence st')"
proof (induction ss arbitrary: st)
  case (Cons s ss)
  obtain st1 where one: "retrieve rt lk (context_expression rt lk s) start stop (context_accepts rt s) st = Inr st1"
      and rest: "retrieve_contexts rt lk start stop ss st1 = Inr st'"
    using Cons.prems(1) by (auto split: sum.splits)
  have "context_expression rt lk s \<in> base_expressions rt lk grp" by (simp add: base_expressions_def)
  note first = retrieve_ok [OF store this one Cons.prems(2)]
  note IH = Cons.IH [OF rest collectsD(1) [OF first]]
  show ?case using IH gathers_append [OF collectsD(2) [OF first]] unfolding list.map concat.simps by blast
qed simp

lemma report_keeps:
  assumes "report rt grp omitted requested queried cutoff st = Inr (st', iv)" "bodies_ok rt (rs_evidence st)"
  shows "bodies_ok rt (rs_evidence st')" "iv_queried iv = queried" "iv_requested iv = requested"
    "gathers rt bodies ed (rs_evidence st') = gathers rt bodies ed (rs_evidence st)"
proof -
  obtain ed1 r where r: "reconstruct rt grp (rs_evidence st) = (ed1, r)" by fastforce
  note cached = reconstruct_cached [OF assms(2) r]
  have st': "st' = st\<lparr>rs_evidence := ed1\<rparr>" and iv: "iv_queried iv = queried" "iv_requested iv = requested"
    using assms(1) r by (auto simp: report_def evidence_summary_for_def Let_def split: sum.splits)
  show "bodies_ok rt (rs_evidence st')" using cached st' by simp
  show "iv_queried iv = queried" "iv_requested iv = requested" using iv .
  have "ed_occurrences ed1 = ed_occurrences (rs_evidence st)" "ed_records ed1 = ed_records (rs_evidence st)"
    using cached by (metis evidence.select_convs(1,3) evidence.surjective evidence.update_convs(5))+
  then show "gathers rt bodies ed (rs_evidence st') = gathers rt bodies ed (rs_evidence st)"
    by (simp add: gathers_def st')
qed

text \<open>
  C26: an investigation retrieves its receipt window exactly or fails. Whatever the page size, however many
  entries share a timestamp and however requests fail, an investigation that returns a report over a
  window has collected every entry the store holds for the group there, each counted as often as it
  occurs, and then every entry without a group of every complete recorder session those records name;
  nothing else is in the evidence, and every record is a valid v4 event under its digest.
\<close>

theorem loki_investigation_exact:
  assumes "store_ok rt lk grp entries" "hexdigest_ok rt" "loki_init_ok lk"
    and "investigate rt lk grp start_ns end_ns new_reader = Inr (st', iv)" "iv_queried iv = Some (start, stop)"
  shows "start = max start_ns (lk_now_ns lk - READER_CUTOFF_NS) \<and> stop = end_ns \<and> bodies_ok rt (rs_evidence st') \<and>
    (\<exists>st1. collects rt (group_accepts rt grp) (in_window start stop (entries (group_expression rt lk grp))) new_reader st1 \<and>
      gathers rt (concat (map (\<lambda>s. map (snd \<circ> snd) (in_window start stop (entries (context_expression rt lk s))))
        (context_sessions rt grp (rs_evidence st1)))) (rs_evidence st1) (rs_evidence st'))"
proof -
  let ?cutoff = "lk_now_ns lk - READER_CUTOFF_NS"
  let ?start = "max start_ns ?cutoff"
  have size: "1 \<le> lk_page_size lk" using assms(3) by (simp add: loki_init_ok_def)
  have empty: "bodies_ok rt (rs_evidence new_reader)" by (simp add: new_reader_def empty_bodies_ok)
  have open_window: "?start < end_ns"
  proof (rule ccontr)
    assume "\<not> ?start < end_ns"
    then have "report rt grp True (start_ns, end_ns) None ?cutoff new_reader = Inr (st', iv)"
      using assms(4) unfolding investigate_def Let_def by (auto split: if_splits)
    from report_keeps(2) [OF this empty] show False using assms(5) by simp
  qed
  then obtain st2 where group: "retrieve_group rt lk grp ?start end_ns new_reader = Inr st2"
      and rep: "report rt grp (start_ns < ?cutoff) (start_ns, end_ns) (Some (?start, end_ns)) ?cutoff st2 = Inr (st', iv)"
    using assms(4) unfolding investigate_def Let_def by (auto split: if_splits sum.splits)
  obtain st1 where one: "retrieve rt lk (group_expression rt lk grp) ?start end_ns (group_accepts rt grp) new_reader = Inr st1"
      and rest: "retrieve_contexts rt lk ?start end_ns (context_sessions rt grp (rs_evidence st1)) st1 = Inr st2"
    using group by (auto simp: retrieve_group_def split: sum.splits)
  have "group_expression rt lk grp \<in> base_expressions rt lk grp" by (simp add: base_expressions_def)
  note first = retrieve_ok [OF assms(1,2) size this one empty]
  note second = retrieve_contexts_ok [OF assms(1,2) size rest collectsD(1) [OF first]]
  note kept = report_keeps [OF rep second [THEN conjunct1]]
  have "start = ?start" "stop = end_ns" using kept(2) assms(5) by simp_all
  then show ?thesis using first second kept(1,4) by blast
qed

text \<open>A store that holds one entry of the group \<open>ab\<close>.\<close>

definition example_digest :: string where
  "example_digest = replicate 64 (CHR ''0'')"

definition example_entry :: loki_row where
  "example_entry = (5, example_digest, example_upload)"

definition example_selector :: string where
  "example_selector = ''{service_name=\"s\",deployment_environment_name=\"e\",audit_bucket=\"b00\"} | audit_group=\"''"

definition example_entries :: "string \<Rightarrow> loki_row list" where
  "example_entries expression =
     (if \<exists>pre. expression = example_selector @ ''ab\"'' @ digest_filter pre \<and> take (length pre) example_digest = pre
      then [example_entry] else [])"

definition example_response :: "bool \<Rightarrow> json" where
  "example_response found = JObj [(''status'', JStr ''success''), (''data'', JObj [(''resultType'', JStr ''streams''),
     (''result'', JList (if found then [JObj [(''stream'', JObj [(''audit_sha256'', JStr example_digest)]),
       (''values'', JList [JList [JStr ''5'', JStr ''{send}'']])]] else []))])]"

definition example_loki :: loki where
  "example_loki = \<lparr>
     lk_transport = (\<lambda>n expression start stop limit.
       Some (example_response (in_window start stop (example_entries expression) \<noteq> []))),
     lk_clock = (\<lambda>n. 0), lk_float_int = (\<lambda>s. None), lk_service_name = ''s'', lk_environment_name = ''e'',
     lk_now_ns = 10, lk_page_size = 2, lk_deadline = 180 \<rparr>"

lemma example_sha: "sha256_hexdigest example_runtime b = example_digest"
  by (simp add: example_runtime_def example_digest_def)

lemma example_bucket: "bucket example_runtime grp engine account = ''b00''"
proof -
  have "hex_nat (take 16 example_digest) = 0" by code_simp
  then show ?thesis by (simp add: bucket_def Let_def example_sha hex_digit_def) code_simp
qed

lemma example_expressions:
  "group_expression example_runtime example_loki ''ab'' = example_selector @ ''ab\"''"
  "context_expression example_runtime example_loki s = example_selector @ CHR 0x22 # '' | audit_engine='' @ dumps_str (fst s) @
     '' and audit_account='' @ dumps_str (fst (snd s)) @ '' and audit_session='' @ dumps_str (snd (snd s))"
  by (simp_all add: group_expression_def context_expression_def stream_selector_def example_bucket example_selector_def
      example_loki_def dumps_str_def dumps_char_def Let_def split: prod.splits)

lemma digest_filter_inj [simp]: "digest_filter p = digest_filter q \<longleftrightarrow> p = q"
  by (auto simp: digest_filter_def)

lemma example_entries_at:
  "example_entries (example_selector @ ''ab\"'' @ digest_filter pre) = (if take (length pre) example_digest = pre then [example_entry] else [])"
  "example_entries (example_selector @ CHR 0x22 # xs) = []"
  by (auto simp: example_entries_def)

lemma example_response_rows:
  "rows_of_response example_runtime fi start stop (example_response found) =
     (if \<not> found then Some [] else if start \<le> 5 \<and> 5 < stop then Some [example_entry] else None)"
proof -
  have "py_int ''5'' = Some 5" "utf8_encode ''{send}'' = example_upload" by code_simp+
  then show ?thesis
    by (auto simp: rows_of_response_def example_response_def row_of_value_def Let_def example_sha example_entry_def)
qed

lemma example_store_ok: "store_ok example_runtime example_loki ''ab'' example_entries"
proof -
  have rows: "fst (snd r) = example_digest" if "r \<in> set (example_entries e)" for r e
    using that by (auto simp: example_entries_def example_entry_def split: if_splits)
  have page: "page_of 2 rows (in_window start stop (example_entries e))"
    if "rows_of_response example_runtime fi start stop (example_response (in_window start stop (example_entries e) \<noteq> [])) = Some rows"
    for fi start stop e rows
  proof -
    have "in_window start stop (example_entries e) = [] \<or>
        in_window start stop (example_entries e) = [example_entry] \<and> start \<le> 5 \<and> 5 < stop"
      by (auto simp: example_entries_def in_window_def example_entry_def)
    then have "in_window start stop (example_entries e) = rows" using that by (auto simp: example_response_rows)
    then show ?thesis by (simp add: page_of_def)
  qed
  have filter: "example_entries (e @ digest_filter pre) =
      filter (\<lambda>r. take (length pre) (fst (snd r)) = pre) (example_entries e)"
    if base: "e \<in> base_expressions example_runtime example_loki ''ab''" for e pre
  proof -
    consider "e = example_selector @ ''ab\"''" | xs where "e = example_selector @ CHR 0x22 # xs"
      using base unfolding base_expressions_def by (auto simp: example_expressions)
    then show ?thesis
    proof cases
      case 1
      then show ?thesis
        using example_entries_at(1) [of pre] example_entries_at(1) [of "[]"] by (simp add: digest_filter_def example_entry_def)
    qed (use example_entries_at(2) in simp)
  qed
  show ?thesis unfolding store_ok_def
    using page filter by (auto simp: example_loki_def example_sha dest: rows)
qed

lemma example_query:
  "query example_runtime example_loki (example_selector @ ''ab\"'') 0 10 new_reader =
     (new_reader\<lparr>rs_queries := 1\<rparr>, Inr [example_entry])"
proof -
  have "length (utf8_encode (example_selector @ ''ab\"'')) < 100" by code_simp
  moreover have "in_window 0 10 (example_entries (example_selector @ ''ab\"'')) = [example_entry]"
    using example_entries_at(1) [of "[]"] by (simp add: digest_filter_def in_window_def example_entry_def)
  ultimately show ?thesis
    by (simp add: query_def Let_def new_reader_def example_loki_def example_response_rows MAX_QUERIES_def
        MAX_EXPRESSION_BYTES_def)
qed

lemma example_reconstruct:
  assumes "ed_events ed = ed_events example_record" "ed_records ed = ed_records example_record" "ed_reconstruction ed = None"
  shows "\<exists>ed' r. reconstruct example_runtime ''ab'' ed = (ed', Inr r)"
proof -
  obtain n where n: "normalize_event example_runtime example_event = (n, [])"
    using example_event_accepted by (metis prod.collapse)
  have g: "in_group ''ab'' example_event" by code_simp
  then have "\<exists>r. reconstruct_now example_runtime ''ab'' ed = Inr r" using assms n
    by (simp add: reconstruct_now_def selected_def selects_def Let_def example_record_def del: replicate.simps)
  then show ?thesis using assms(3) by (auto simp: reconstruct_def)
qed

lemma example_investigation:
  "\<exists>st' iv. investigate example_runtime example_loki ''ab'' 0 10 new_reader = Inr (st', iv) \<and> iv_queried iv = Some (0, 10)"
proof -
  let ?ed = "example_record\<lparr>ed_occurrences := [(replicate 64 (CHR ''0''), 1)]\<rparr>"
  let ?st = "\<lparr> rs_queries = 1, rs_evidence = ?ed \<rparr>"
  have g: "in_group ''ab'' example_event" "\<not> complete_session (reader_session example_event)" "list_all is_hex_char ''ab''"
    by code_simp+
  have "lk_page_size example_loki = 2" by (simp add: example_loki_def)
  have "group_accepts example_runtime ''ab'' example_event" using g by (simp add: group_accepts_def example_bucket)
  then have "add_rows example_runtime (group_accepts example_runtime ''ab'') [example_entry] (new_reader\<lparr>rs_queries := 1\<rparr>) = Inr ?st"
    using example_add by (simp add: example_entry_def example_parse new_reader_def del: replicate.simps)
  then have "retrieve example_runtime example_loki (example_selector @ ''ab\"'') 0 10 (group_accepts example_runtime ''ab'') new_reader = Inr ?st"
    using example_query \<open>lk_page_size example_loki = 2\<close> by (subst retrieve.simps) (simp del: replicate.simps)
  moreover have "context_sessions example_runtime ''ab'' ?ed = []"
    using g by (simp add: context_sessions_def example_record_def Let_def sorted_set_def)
  ultimately have group: "retrieve_group example_runtime example_loki ''ab'' 0 10 new_reader = Inr ?st"
    by (simp add: retrieve_group_def example_expressions)
  obtain ed' r where "reconstruct example_runtime ''ab'' ?ed = (ed', Inr r)"
    using example_reconstruct [of ?ed] by (auto simp: example_record_def Let_def)
  then have "\<exists>st' iv. report example_runtime ''ab'' omitted (0, 10) (Some (0, 10)) cutoff ?st = Inr (st', iv) \<and> iv_queried iv = Some (0, 10)"
    for omitted cutoff
    by (simp add: report_def evidence_summary_for_def Let_def)
  moreover have "max 0 (lk_now_ns example_loki - READER_CUTOFF_NS) = 0"
    by (simp add: example_loki_def READER_CUTOFF_NS_def)
  ultimately show ?thesis using group g(3) by (simp add: investigate_def Let_def)
qed

theorem loki_investigation_exact_witness:
  "\<exists>st' iv. investigate example_runtime example_loki ''ab'' 0 10 new_reader = Inr (st', iv) \<and>
     bodies_ok example_runtime (rs_evidence st') \<and>
     (\<exists>st1. collects example_runtime (group_accepts example_runtime ''ab'') [example_entry] new_reader st1)"
proof -
  obtain st' iv where iv: "investigate example_runtime example_loki ''ab'' 0 10 new_reader = Inr (st', iv)"
      "iv_queried iv = Some (0, 10)" using example_investigation by blast
  have "hexdigest_ok example_runtime" by (auto simp: hexdigest_ok_def example_sha example_digest_def hex_chars_def)
  moreover have "loki_init_ok example_loki" by (simp add: loki_init_ok_def example_loki_def)
  moreover have "in_window 0 10 (example_entries (group_expression example_runtime example_loki ''ab'')) = [example_entry]"
    using example_entries_at(1) [of "[]"]
    by (simp add: digest_filter_def in_window_def example_entry_def example_expressions)
  ultimately show ?thesis using loki_investigation_exact [OF example_store_ok _ _ iv] iv(1) by auto
qed

end
