(* ===== verification/Engine_Rows.thy ===== *)
theory Engine_Rows
  imports Timeline
begin

text \<open>
  The engine list of a group (\<^verbatim>\<open>group_engine_rows\<close> and \<^verbatim>\<open>engine_source_values\<close> of
  \<^verbatim>\<open>forensics/views.py\<close>): one row per engine with counted events, its activity, and the source metadata
  gathered from the group's files and from the exact recorder sessions of the engine. The database's
  text of a JSON value is the parameter \<open>key_text\<close>, as in \<open>Timeline\<close>. A Python set is a HOL set; the
  order in which the code visits files and rows does not reach the result, which sorts every set.
\<close>

section \<open>Sensitivity\<close>

definition FULL_DATA_AUDIT_MODE :: string where
  "FULL_DATA_AUDIT_MODE = ''full_data''"

definition sensitivity_payload :: "string list \<Rightarrow> string list \<Rightarrow> dict" where
  "sensitivity_payload field_paths audit_data_modes = [
     (''contains_sensitive_data'', JBool (field_paths \<noteq> [])),
     (''contains_full_data'', JBool (FULL_DATA_AUDIT_MODE \<in> set audit_data_modes)),
     (''audit_data_modes'', j_strs audit_data_modes),
     (''sensitive_field_paths'', j_strs field_paths),
     (''authorization'', JObj [(''required'', JStr ''authenticated_internal_user''), (''granted'', JBool True)])]"

section \<open>Source metadata\<close>

definition ENGINE_SOURCE_FIELD_MAP :: "(string \<times> (audit_file \<Rightarrow> string) \<times> string) list" where
  "ENGINE_SOURCE_FIELD_MAP = [
     (''hardware_models'', af_source_hardware_model, ''hardware_model''),
     (''device_ids'', af_source_device_id, ''device_id''),
     (''platforms'', af_source_platform, ''platform''),
     (''app_versions'', af_source_app_version, ''app_version''),
     (''upload_triggers'', af_source_upload_trigger, ''upload_trigger'')]"

type_synonym engine_values = "(string \<times> string set) list"
type_synonym engine_metadata = "(string \<times> string list) list"

definition append_engine_source_value :: "string option \<Rightarrow> string set \<Rightarrow> string set" where
  "append_engine_source_value v values = (case v of Some s \<Rightarrow> if s \<noteq> [] then insert s values else values | None \<Rightarrow> values)"

definition empty_engine_source_metadata :: engine_metadata where
  "empty_engine_source_metadata = map (\<lambda>key. (key, [])) (''account_refs'' # map fst ENGINE_SOURCE_FIELD_MAP)"

definition fresh_values :: engine_values where
  "fresh_values = map (\<lambda>(key, _, _). (key, {})) ENGINE_SOURCE_FIELD_MAP @ [(''account_refs'', {})]"

text \<open>One pass of \<^verbatim>\<open>append_engine_source_value\<close> over the fields, and over an entry that it may create.\<close>

definition append_fields :: "(string \<Rightarrow> string option) \<Rightarrow> engine_values \<Rightarrow> engine_values" where
  "append_fields f vs = map (\<lambda>(key, S). (key, append_engine_source_value (f key) S)) vs"

definition file_field :: "audit_file \<Rightarrow> string \<Rightarrow> string option" where
  "file_field f key = (case map_of ENGINE_SOURCE_FIELD_MAP key of None \<Rightarrow> None | Some (sel, _) \<Rightarrow> Some (sel f))"

definition context_field :: "(string \<times> string option) list \<Rightarrow> string \<Rightarrow> string option" where
  "context_field source key =
     (case map_of ENGINE_SOURCE_FIELD_MAP key of
        None \<Rightarrow> None
      | Some (_, context_key) \<Rightarrow> (case map_of source context_key of None \<Rightarrow> None | Some v \<Rightarrow> v))"

definition wanted_engine :: "string list option \<Rightarrow> string \<Rightarrow> bool" where
  "wanted_engine engine_ids e \<longleftrightarrow> (case engine_ids of None \<Rightarrow> True | Some ids \<Rightarrow> e \<in> set ids)"

text \<open>The distinct rows (file, engine, account, session) of the group's counted v4 events.\<close>

definition session_rows :: "database \<Rightarrow> nat \<Rightarrow> string list option \<Rightarrow> (nat \<times> session) list" where
  "session_rows db g engine_ids =
     remdups (map (\<lambda>e. (ev_audit_file e, ev_engine_id e, ev_account_ref e, ev_recorder_session_id e))
       (filter (\<lambda>e. counted_event (db_files db) e \<and> ev_group e = Some g \<and> ev_schema_version e = SCHEMA_VERSION \<and>
          wanted_engine engine_ids (ev_engine_id e)) (db_events db)))"

definition session_files :: "(nat \<times> session) list \<Rightarrow> nat set" where
  "session_files rows = set (map fst (filter (\<lambda>r. full_session (snd r)) rows))"

definition fallback_files :: "(nat \<times> session) list \<Rightarrow> nat set" where
  "fallback_files rows = set (map fst (filter (\<lambda>r. \<not> full_session (snd r)) rows))"

definition add_file_values ::
  "(nat \<times> session) list \<Rightarrow> audit_file \<Rightarrow> string \<Rightarrow> (string \<times> engine_values) list \<Rightarrow> (string \<times> engine_values) list" where
  "add_file_values rows f engine_id values =
     (let vs = dd_get fresh_values values engine_id
      in AList.update engine_id
           (if af_id f \<in> session_files rows \<and> af_id f \<notin> fallback_files rows then vs else append_fields (file_field f) vs)
           values)"

definition add_account_ref :: "session \<Rightarrow> (string \<times> engine_values) list \<Rightarrow> (string \<times> engine_values) list" where
  "add_account_ref s values =
     (let (engine_id, account_ref, _) = s
      in if account_ref \<noteq> [] \<and> map_of values engine_id \<noteq> None
         then AList.update engine_id (map (\<lambda>(key, S). (key, if key = ''account_refs'' then insert account_ref S else S))
                (dd_get fresh_values values engine_id)) values
         else values)"

definition add_source_context ::
  "string \<times> (string \<times> string option) list \<Rightarrow> (string \<times> engine_values) list \<Rightarrow> (string \<times> engine_values) list" where
  "add_source_context item values =
     (let (engine_id, source) = item
      in AList.update engine_id (append_fields (context_field source) (dd_get fresh_values values engine_id)) values)"

definition engine_source_values ::
  "(json \<Rightarrow> string option) \<Rightarrow> database \<Rightarrow> nat \<Rightarrow> string list option \<Rightarrow> (string \<times> engine_metadata) list" where
  "engine_source_values key_text db g engine_ids =
     (if engine_ids = Some [] then []
      else (let rows = session_rows db g engine_ids;
                files = filter (\<lambda>f. g \<in> set (af_groups f)) (db_files db);
                entries = concat (map (\<lambda>f. map (Pair f)
                  (filter (\<lambda>e. e \<noteq> [] \<and> wanted_engine engine_ids e) (af_engine_ids f))) files);
                values = fold (\<lambda>(f, e). add_file_values rows f e) entries [];
                sessions = map snd rows;
                values = fold add_account_ref sessions values;
                values = fold add_source_context
                  (session_source_contexts key_text (db_files db) (db_events db) sessions) values
            in map (\<lambda>(e, vs). (e, map (\<lambda>(key, S). (key, sorted_list_of_set S)) vs)) values))"

section \<open>Engine rows\<close>

definition first_metadata_value :: "engine_metadata \<Rightarrow> string \<Rightarrow> string" where
  "first_metadata_value metadata key = (case dd_get [] metadata key of [] \<Rightarrow> [] | v # _ \<Rightarrow> v)"

definition engine_display_label :: "engine_metadata \<Rightarrow> string \<Rightarrow> string" where
  "engine_display_label metadata engine_id =
     str_join '' / '' (filter (\<lambda>part. part \<noteq> [])
       [first_metadata_value metadata ''platforms'', first_metadata_value metadata ''hardware_models'', take 12 engine_id])"

definition engine_sensitive_field_paths :: "engine_metadata \<Rightarrow> string list" where
  "engine_sensitive_field_paths metadata =
     [''engine_id''] @ (if dd_get [] metadata ''account_refs'' \<noteq> [] then [''account_refs''] else []) @
     (if dd_get [] metadata ''device_ids'' \<noteq> [] then [''source_metadata.device_ids''] else [])"

text \<open>The aggregate query: one row per engine, by first event (NULL last) and engine.\<close>

record engine_aggregate =
  eg_engine_id :: string
  eg_event_count :: nat
  eg_first_event_ms :: "int option"
  eg_last_event_ms :: "int option"
  eg_account_ref :: string

definition engine_aggregate_of :: "audit_event list \<Rightarrow> string \<Rightarrow> engine_aggregate" where
  "engine_aggregate_of events engine_id =
     (let own = filter (\<lambda>e. ev_engine_id e = engine_id) events
      in \<lparr> eg_engine_id = engine_id, eg_event_count = length own,
           eg_first_event_ms = opt_min (the_list (map ev_wall_time_ms own)),
           eg_last_event_ms = opt_max (the_list (map ev_wall_time_ms own)),
           eg_account_ref = (case opt_min (map ev_account_ref own) of None \<Rightarrow> [] | Some a \<Rightarrow> a) \<rparr>)"

definition aggregate_key :: "engine_aggregate \<Rightarrow> bool \<times> int \<times> string" where
  "aggregate_key r = (eg_first_event_ms r = None, (case eg_first_event_ms r of None \<Rightarrow> 0 | Some t \<Rightarrow> t), eg_engine_id r)"

definition engine_aggregates :: "audit_event list \<Rightarrow> engine_aggregate list" where
  "engine_aggregates events =
     (let valid = filter (\<lambda>e. ev_engine_id e \<noteq> []) events
      in sort_key aggregate_key (map (engine_aggregate_of valid) (remdups (map ev_engine_id valid))))"

record engine_row =
  er_engine_id :: string
  er_account_ref :: string
  er_account_refs :: "string list"
  er_label :: string
  er_source_metadata :: engine_metadata
  er_color_index :: nat
  er_first_event_ms :: "int option"
  er_last_event_ms :: "int option"
  er_event_count :: nat
  er_sensitivity :: dict
  er_idx :: nat
  er_short :: string
  er_initials :: string

definition engine_row_of :: "(string \<times> engine_metadata) list \<Rightarrow> nat \<times> engine_aggregate \<Rightarrow> engine_row" where
  "engine_row_of source_values item =
     (let (idx, row) = item;
          engine_id = eg_engine_id row;
          metadata = dd_get empty_engine_source_metadata source_values engine_id;
          display_label = engine_display_label metadata engine_id;
          account_refs = sorted_set (filter (\<lambda>a. a \<noteq> []) (eg_account_ref row # dd_get [] metadata ''account_refs''))
      in \<lparr> er_engine_id = engine_id,
           er_account_ref = (if eg_account_ref row \<noteq> [] then eg_account_ref row
             else (case account_refs of [] \<Rightarrow> [] | a # _ \<Rightarrow> a)),
           er_account_refs = account_refs, er_label = display_label, er_source_metadata = metadata,
           er_color_index = color_index engine_id, er_first_event_ms = eg_first_event_ms row,
           er_last_event_ms = eg_last_event_ms row, er_event_count = eg_event_count row,
           er_sensitivity = sensitivity_payload (engine_sensitive_field_paths metadata) [],
           er_idx = idx, er_short = take 8 engine_id, er_initials = engine_initials display_label engine_id \<rparr>)"

definition group_engine_rows ::
  "(json \<Rightarrow> string option) \<Rightarrow> database \<Rightarrow> nat \<Rightarrow> nat option \<Rightarrow> engine_row list" where
  "group_engine_rows key_text db g limit =
     (let valid_events = filter (\<lambda>e. counted_event (db_files db) e \<and> ev_group e = Some g) (db_events db);
          rows = engine_aggregates valid_events;
          rows = (case limit of None \<Rightarrow> rows | Some n \<Rightarrow> take n rows);
          source_values = engine_source_values key_text db g (Some (map eg_engine_id rows))
      in map (engine_row_of source_values) (enumerate 0 rows))"

section \<open>What the source values are\<close>

text \<open>A file whose events for the listed engines all carry a full session identity is described by those sessions alone.\<close>

definition described_by_sessions :: "(nat \<times> session) list \<Rightarrow> audit_file \<Rightarrow> bool" where
  "described_by_sessions rows f \<longleftrightarrow> af_id f \<in> session_files rows \<and> af_id f \<notin> fallback_files rows"

definition files_listing :: "database \<Rightarrow> nat \<Rightarrow> string list option \<Rightarrow> string \<Rightarrow> audit_file set" where
  "files_listing db g ids e =
     {f \<in> set (db_files db). g \<in> set (af_groups f) \<and> e \<in> set (af_engine_ids f) \<and> e \<noteq> [] \<and> wanted_engine ids e}"

text \<open>The events, of any group, of the full sessions seen in the group, that carry source evidence.\<close>

definition session_evidence :: "database \<Rightarrow> nat \<Rightarrow> string list option \<Rightarrow> string \<Rightarrow> audit_event set" where
  "session_evidence db g ids e =
     {ev \<in> set (db_events db). ev_engine_id ev = e \<and> counted_event (db_files db) ev \<and>
        ev_schema_version ev = SCHEMA_VERSION \<and> ev_context_source ev \<noteq> JObj [] \<and>
        (let s = (ev_engine_id ev, ev_account_ref ev, ev_recorder_session_id ev)
         in full_session s \<and> s \<in> snd ` set (session_rows db g ids))}"

definition source_values_of ::
  "(json \<Rightarrow> string option) \<Rightarrow> database \<Rightarrow> nat \<Rightarrow> string list option \<Rightarrow> string \<Rightarrow> string \<Rightarrow> string set" where
  "source_values_of key_text db g ids e key = {s. s \<noteq> [] \<and>
     ((\<exists>f \<in> files_listing db g ids e. \<not> described_by_sessions (session_rows db g ids) f \<and> file_field f key = Some s) \<or>
      (\<exists>ev \<in> session_evidence db g ids e. context_field (source_context key_text ev) key = Some s) \<or>
      (key = ''account_refs'' \<and> files_listing db g ids e \<noteq> {} \<and> (\<exists>i r. (i, e, s, r) \<in> set (session_rows db g ids))))}"

text \<open>The value set of an engine and key, and the shape every entry keeps.\<close>

definition val :: "(string \<times> engine_values) list \<Rightarrow> string \<Rightarrow> string \<Rightarrow> string set" where
  "val vals e key = dd_get {} (dd_get fresh_values vals e) key"

definition shaped :: "(string \<times> engine_values) list \<Rightarrow> bool" where
  "shaped vals \<longleftrightarrow> (\<forall>e. map fst (dd_get fresh_values vals e) = map fst fresh_values)"

definition nonblank :: "string option \<Rightarrow> string set" where
  "nonblank v = {s. v = Some s \<and> s \<noteq> []}"

lemma append_value: "append_engine_source_value v S = S \<union> nonblank v"
  by (auto simp: append_engine_source_value_def nonblank_def split: option.splits)

lemma get_map_pairs:
  "dd_get {} (map (\<lambda>(k, S). (k, h k S)) vs) key = (if key \<in> fst ` set vs then h key (dd_get {} vs key) else {})"
proof (induction vs)
  case (Cons p vs)
  show ?case
  proof (cases "key = fst p")
    case True
    then show ?thesis by (cases p) (simp add: dd_get_def)
  next
    case False
    then show ?thesis using Cons by (cases p) (simp add: dd_get_def)
  qed
qed (simp add: dd_get_def)

lemma fst_map_pairs: "map fst (map (\<lambda>(k, S). (k, h k S)) vs) = map fst vs"
  by (induction vs) auto

lemma update_val:
  assumes "shaped vals" "map fst vs = map fst fresh_values"
  shows "shaped (AList.update e vs vals)"
    and "val (AList.update e vs vals) e' key = (if e' = e then dd_get {} vs key else val vals e' key)"
  using assms by (simp_all add: shaped_def val_def)

lemma shaped_keys: "shaped vals \<Longrightarrow> fst ` set (dd_get fresh_values vals e) = fst ` set fresh_values"
  unfolding shaped_def by (metis set_map)

lemma append_fields_val:
  assumes "shaped vals" "nonblank (f key) \<noteq> {} \<Longrightarrow> key \<in> fst ` set fresh_values"
  shows "map fst (append_fields f (dd_get fresh_values vals e)) = map fst fresh_values"
    and "dd_get {} (append_fields f (dd_get fresh_values vals e)) key = val vals e key \<union> nonblank (f key)"
proof -
  show "map fst (append_fields f (dd_get fresh_values vals e)) = map fst fresh_values"
    using assms(1) unfolding append_fields_def fst_map_pairs by (simp add: shaped_def)
  show "dd_get {} (append_fields f (dd_get fresh_values vals e)) key = val vals e key \<union> nonblank (f key)"
  proof (cases "key \<in> fst ` set fresh_values")
    case True
    then show ?thesis
      unfolding append_fields_def get_map_pairs shaped_keys [OF assms(1)] append_value by (simp add: val_def)
  next
    case False
    then have "val vals e key = {}" "nonblank (f key) = {}"
      using assms(2) by (simp_all add: val_def dd_get_keys shaped_keys [OF assms(1)]) blast
    with False show ?thesis
      unfolding append_fields_def get_map_pairs shaped_keys [OF assms(1)] by simp
  qed
qed

lemma field_keys: "file_field f key = Some s \<Longrightarrow> key \<in> fst ` set fresh_values"
  "context_field source key = Some s \<Longrightarrow> key \<in> fst ` set fresh_values"
proof -
  have keys: "map_of ENGINE_SOURCE_FIELD_MAP key = Some v \<Longrightarrow> key \<in> fst ` set fresh_values" for v
    unfolding fresh_values_def by (drule map_of_SomeD) force
  show "file_field f key = Some s \<Longrightarrow> key \<in> fst ` set fresh_values"
    by (cases "map_of ENGINE_SOURCE_FIELD_MAP key") (simp_all add: file_field_def keys)
  show "context_field source key = Some s \<Longrightarrow> key \<in> fst ` set fresh_values"
    by (cases "map_of ENGINE_SOURCE_FIELD_MAP key") (simp_all add: context_field_def keys)
qed

lemma add_file_values_val:
  assumes "shaped vals"
  shows "shaped (add_file_values rows f e vals)"
    and "val (add_file_values rows f e vals) e' key =
      val vals e' key \<union> (if e' = e \<and> \<not> described_by_sessions rows f then nonblank (file_field f key) else {})"
proof -
  have keys: "nonblank (file_field f k) \<noteq> {} \<Longrightarrow> k \<in> fst ` set fresh_values" for k
    by (auto simp: nonblank_def dest: field_keys)
  note fields = append_fields_val [where f = "file_field f", OF assms keys]
  have shape: "map fst (dd_get fresh_values vals e) = map fst fresh_values" using assms by (simp add: shaped_def)
  show "shaped (add_file_values rows f e vals)"
    by (auto simp: add_file_values_def Let_def shape fields(1) intro!: update_val(1) assms)
  show "val (add_file_values rows f e vals) e' key =
      val vals e' key \<union> (if e' = e \<and> \<not> described_by_sessions rows f then nonblank (file_field f key) else {})"
  proof (cases "described_by_sessions rows f")
    case True
    then show ?thesis
      by (simp add: add_file_values_def described_by_sessions_def Let_def update_val(2) [OF assms shape] val_def)
  next
    case False
    then have "add_file_values rows f e vals = AList.update e (append_fields (file_field f) (dd_get fresh_values vals e)) vals"
      unfolding add_file_values_def described_by_sessions_def Let_def by (simp only: if_False simp_thms)
    then show ?thesis using False by (simp add: update_val(2) [OF assms fields(1)] fields(2))
  qed
qed

lemma add_source_context_val:
  assumes "shaped vals"
  shows "shaped (add_source_context (e, source) vals)"
    and "val (add_source_context (e, source) vals) e' key =
      val vals e' key \<union> (if e' = e then nonblank (context_field source key) else {})"
proof -
  have keys: "nonblank (context_field source k) \<noteq> {} \<Longrightarrow> k \<in> fst ` set fresh_values" for k
    by (auto simp: nonblank_def dest: field_keys)
  note fields = append_fields_val [where f = "context_field source", OF assms keys]
  show "shaped (add_source_context (e, source) vals)"
    by (simp add: add_source_context_def update_val(1) [OF assms fields(1)])
  show "val (add_source_context (e, source) vals) e' key =
      val vals e' key \<union> (if e' = e then nonblank (context_field source key) else {})"
    by (simp add: add_source_context_def update_val(2) [OF assms fields(1)] fields(2))
qed

lemma add_account_ref_val:
  assumes "shaped vals"
  shows "shaped (add_account_ref (e, a, r) vals)"
    and "fst ` set (add_account_ref (e, a, r) vals) = fst ` set vals"
    and "val (add_account_ref (e, a, r) vals) e' key =
      val vals e' key \<union> (if e' = e \<and> key = ''account_refs'' \<and> a \<noteq> [] \<and> e \<in> fst ` set vals then {a} else {})"
proof -
  define vs where "vs = map (\<lambda>(key, S). (key, if key = ''account_refs'' then insert a S else S)) (dd_get fresh_values vals e)"
  have step: "add_account_ref (e, a, r) vals = (if a \<noteq> [] \<and> e \<in> fst ` set vals then AList.update e vs vals else vals)"
    by (simp add: add_account_ref_def vs_def map_of_eq_None_iff)
  have shape: "map fst vs = map fst fresh_values"
    using assms unfolding vs_def by (subst fst_map_pairs) (simp add: shaped_def)
  have get: "dd_get {} vs key = val vals e key \<union> (if key = ''account_refs'' then {a} else {})"
    unfolding vs_def get_map_pairs shaped_keys [OF assms]
    using shaped_keys [OF assms, of e] by (auto simp: val_def dd_get_keys fresh_values_def)
  show "shaped (add_account_ref (e, a, r) vals)"
    using assms by (simp add: step update_val(1) [OF assms shape])
  show "fst ` set (add_account_ref (e, a, r) vals) = fst ` set vals"
    by (simp add: step keys_update insert_absorb)
  show "val (add_account_ref (e, a, r) vals) e' key =
      val vals e' key \<union> (if e' = e \<and> key = ''account_refs'' \<and> a \<noteq> [] \<and> e \<in> fst ` set vals then {a} else {})"
  proof (cases "a \<noteq> [] \<and> e \<in> fst ` set vals")
    case True
    then show ?thesis unfolding step by (cases "e' = e") (simp_all add: update_val(2) [OF assms shape] get)
  next
    case False
    then show ?thesis unfolding step by (simp only: if_False simp_thms Un_empty_right)
  qed
qed

text \<open>A loop whose steps each join a set to the value of every engine and key.\<close>

lemma fold_val:
  assumes "shaped vals" "\<And>x vals. shaped vals \<Longrightarrow> shaped (step x vals)"
    and "\<And>x vals. shaped vals \<Longrightarrow> val (step x vals) e key = val vals e key \<union> add x"
  shows "shaped (fold step xs vals) \<and> val (fold step xs vals) e key = val vals e key \<union> (\<Union>x \<in> set xs. add x)"
  using assms(1)
proof (induction xs arbitrary: vals)
  case (Cons x xs)
  then show ?case using Cons.IH [OF assms(2) [OF Cons.prems], of x] assms(3) [OF Cons.prems, of x] by auto
qed simp

lemma fold_files:
  assumes "shaped vals"
  shows "shaped (fold (\<lambda>(f, e). add_file_values rows f e) entries vals)"
    and "val (fold (\<lambda>(f, e). add_file_values rows f e) entries vals) e key =
      val vals e key \<union> (\<Union>x \<in> set entries. if e = snd x \<and> \<not> described_by_sessions rows (fst x) then nonblank (file_field (fst x) key) else {})"
    and "fst ` set (fold (\<lambda>(f, e). add_file_values rows f e) entries vals) = fst ` set vals \<union> snd ` set entries"
proof -
  have "shaped (fold (\<lambda>(f, e). add_file_values rows f e) entries vals) \<and>
    val (fold (\<lambda>(f, e). add_file_values rows f e) entries vals) e key =
      val vals e key \<union> (\<Union>x \<in> set entries. if e = snd x \<and> \<not> described_by_sessions rows (fst x) then nonblank (file_field (fst x) key) else {})"
    by (rule fold_val [OF assms]) (simp_all add: add_file_values_val split: prod.splits)
  then show "shaped (fold (\<lambda>(f, e). add_file_values rows f e) entries vals)"
    and "val (fold (\<lambda>(f, e). add_file_values rows f e) entries vals) e key =
      val vals e key \<union> (\<Union>x \<in> set entries. if e = snd x \<and> \<not> described_by_sessions rows (fst x) then nonblank (file_field (fst x) key) else {})"
    by blast+
  show "fst ` set (fold (\<lambda>(f, e). add_file_values rows f e) entries vals) = fst ` set vals \<union> snd ` set entries"
    by (induction entries arbitrary: vals) (simp_all add: add_file_values_def Let_def keys_update split_beta)
qed

lemma fold_account_refs:
  assumes "shaped vals"
  shows "shaped (fold add_account_ref ss vals)"
    and "val (fold add_account_ref ss vals) e key =
      val vals e key \<union> {a. key = ''account_refs'' \<and> a \<noteq> [] \<and> e \<in> fst ` set vals \<and> (\<exists>r. (e, a, r) \<in> set ss)}"
proof -
  have "shaped (fold add_account_ref ss vals) \<and> val (fold add_account_ref ss vals) e key =
      val vals e key \<union> {a. key = ''account_refs'' \<and> a \<noteq> [] \<and> e \<in> fst ` set vals \<and> (\<exists>r. (e, a, r) \<in> set ss)}"
    using assms
  proof (induction ss arbitrary: vals)
    case (Cons s ss)
    obtain e' a r where s: "s = (e', a, r)" by (cases s)
    note step = add_account_ref_val [OF Cons.prems, of e' a r]
    show ?case using Cons.IH [OF step(1)] unfolding step(2) step(3) by (simp add: s) blast
  qed simp
  then show "shaped (fold add_account_ref ss vals)"
    and "val (fold add_account_ref ss vals) e key =
      val vals e key \<union> {a. key = ''account_refs'' \<and> a \<noteq> [] \<and> e \<in> fst ` set vals \<and> (\<exists>r. (e, a, r) \<in> set ss)}" by blast+
qed

lemma fold_contexts:
  assumes "shaped vals"
  shows "shaped (fold add_source_context items vals)"
    and "val (fold add_source_context items vals) e key =
      val vals e key \<union> (\<Union>x \<in> set items. if e = fst x then nonblank (context_field (snd x) key) else {})"
proof -
  have "shaped (fold add_source_context items vals) \<and> val (fold add_source_context items vals) e key =
      val vals e key \<union> (\<Union>x \<in> set items. if e = fst x then nonblank (context_field (snd x) key) else {})"
    by (rule fold_val [OF assms]) (metis add_source_context_val surj_pair fst_conv snd_conv)+
  then show "shaped (fold add_source_context items vals)"
    and "val (fold add_source_context items vals) e key =
      val vals e key \<union> (\<Union>x \<in> set items. if e = fst x then nonblank (context_field (snd x) key) else {})" by blast+
qed

lemma set_batches: "0 < n \<Longrightarrow> \<Union> (set ` set (batches n xs)) = set xs"
  using arg_cong [OF concat_batches [of n xs], of set] by simp

lemma set_session_source_contexts:
  "set (session_source_contexts key_text files events ss) =
     (\<lambda>e. (ev_engine_id e, source_context key_text e)) ` {e \<in> set events.
        (let s = (ev_engine_id e, ev_account_ref e, ev_recorder_session_id e) in full_session s \<and> s \<in> set ss) \<and>
        counted_event files e \<and> ev_schema_version e = SCHEMA_VERSION \<and> ev_context_source e \<noteq> JObj []}"
proof -
  define bs where "bs = batches 100 (sorted_set (filter full_session ss))"
  have "\<Union> (set ` set bs) = {s \<in> set ss. full_session s}"
    unfolding bs_def by (subst set_batches) auto
  then have "(\<exists>b \<in> set bs. s \<in> set b) \<longleftrightarrow> s \<in> set ss \<and> full_session s" for s by blast
  then show ?thesis
    unfolding session_source_contexts_def bs_def [symmetric] session_batch_def Let_def by (auto simp: image_iff) blast+
qed

lemma fresh_val: "dd_get {} fresh_values key = {}" "shaped []" "val [] e key = {}"
  by (simp_all add: shaped_def val_def dd_get_def fresh_values_def ENGINE_SOURCE_FIELD_MAP_def)

text \<open>The value sets before they are sorted.\<close>

definition gathered_values ::
  "(json \<Rightarrow> string option) \<Rightarrow> database \<Rightarrow> nat \<Rightarrow> string list option \<Rightarrow> (string \<times> engine_values) list" where
  "gathered_values key_text db g engine_ids =
     (let rows = session_rows db g engine_ids;
          files = filter (\<lambda>f. g \<in> set (af_groups f)) (db_files db);
          entries = concat (map (\<lambda>f. map (Pair f)
            (filter (\<lambda>e. e \<noteq> [] \<and> wanted_engine engine_ids e) (af_engine_ids f))) files)
      in fold add_source_context (session_source_contexts key_text (db_files db) (db_events db) (map snd rows))
           (fold add_account_ref (map snd rows) (fold (\<lambda>(f, e). add_file_values rows f e) entries [])))"

lemma engine_source_values_gathered:
  "engine_source_values key_text db g engine_ids =
     (if engine_ids = Some [] then []
      else map (\<lambda>(e, vs). (e, map (\<lambda>(key, S). (key, sorted_list_of_set S)) vs)) (gathered_values key_text db g engine_ids))"
  by (simp add: engine_source_values_def gathered_values_def Let_def)

lemma gathered_val:
  "shaped (gathered_values key_text db g ids)"
  "val (gathered_values key_text db g ids) e key = source_values_of key_text db g ids e key"
proof -
  define rows where "rows = session_rows db g ids"
  define entries where "entries = concat (map (\<lambda>f. map (Pair f)
      (filter (\<lambda>e. e \<noteq> [] \<and> wanted_engine ids e) (af_engine_ids f))) (filter (\<lambda>f. g \<in> set (af_groups f)) (db_files db)))"
  define v1 where "v1 = fold (\<lambda>(f, e). add_file_values rows f e) entries []"
  define v2 where "v2 = fold add_account_ref (map snd rows) v1"
  define items where "items = session_source_contexts key_text (db_files db) (db_events db) (map snd rows)"
  have gathered: "gathered_values key_text db g ids = fold add_source_context items v2"
    by (simp add: gathered_values_def rows_def entries_def v1_def v2_def items_def Let_def)
  have entry: "(f, e) \<in> set entries \<longleftrightarrow> f \<in> files_listing db g ids e" for f
    by (auto simp: entries_def files_listing_def)
  note one = fold_files [OF fresh_val(2), of rows entries, folded v1_def]
  note two = fold_account_refs [OF one(1), of "map snd rows", folded v2_def]
  note three = fold_contexts [OF two(1), of items]
  show "shaped (gathered_values key_text db g ids)" unfolding gathered by (rule three(1))
  have from_files: "val v1 e key = {s. s \<noteq> [] \<and> (\<exists>f \<in> files_listing db g ids e. \<not> described_by_sessions rows f \<and> file_field f key = Some s)}"
    unfolding one(2) fresh_val(3) using entry by (auto simp: nonblank_def split: if_splits) force+
  have "e \<in> fst ` set v1 \<longleftrightarrow> (\<exists>f. (f, e) \<in> set entries)" unfolding one(3) by force
  then have listed: "e \<in> fst ` set v1 \<longleftrightarrow> files_listing db g ids e \<noteq> {}" using entry by auto
  have ref: "(\<exists>r. (e, a, r) \<in> set (map snd rows)) \<longleftrightarrow> (\<exists>i r. (i, e, a, r) \<in> set rows)" for a by force
  have joined: "(\<Union>x \<in> set items. if e = fst x then nonblank (context_field (snd x) key) else {}) =
      {s. s \<noteq> [] \<and> (\<exists>x \<in> set items. fst x = e \<and> context_field (snd x) key = Some s)}"
    by (auto simp: nonblank_def split: if_splits)
  have from_sessions: "(\<exists>x \<in> set items. fst x = e \<and> context_field (snd x) key = Some s) \<longleftrightarrow>
      (\<exists>ev \<in> session_evidence db g ids e. context_field (source_context key_text ev) key = Some s)" for s
    unfolding items_def set_session_source_contexts session_evidence_def rows_def Let_def bex_simps(7) by auto
  show "val (gathered_values key_text db g ids) e key = source_values_of key_text db g ids e key"
    unfolding gathered three(2) two(2) from_files joined from_sessions listed ref
    unfolding source_values_of_def rows_def by blast
qed

lemma finite_source_values: "finite (source_values_of key_text db g ids e key)"
proof -
  have "finite (files_listing db g ids e)" "finite (session_evidence db g ids e)"
    by (simp_all add: files_listing_def session_evidence_def)
  then have "finite ((\<lambda>f. the (file_field f key)) ` files_listing db g ids e \<union>
      (\<lambda>ev. the (context_field (source_context key_text ev) key)) ` session_evidence db g ids e \<union>
      (\<lambda>r. fst (snd (snd r))) ` set (session_rows db g ids))" by simp
  moreover have "source_values_of key_text db g ids e key \<subseteq> (\<lambda>f. the (file_field f key)) ` files_listing db g ids e \<union>
      (\<lambda>ev. the (context_field (source_context key_text ev) key)) ` session_evidence db g ids e \<union>
      (\<lambda>r. fst (snd (snd r))) ` set (session_rows db g ids)"
    unfolding source_values_of_def by force
  ultimately show ?thesis by (rule finite_subset [rotated])
qed

lemma sorted_value: "dd_get [] (map (\<lambda>(key, S). (key, sorted_list_of_set S)) vs) key = sorted_list_of_set (dd_get {} vs key)"
  by (simp add: dd_get_def map_of_map split: option.splits)

lemma blank_value_empty: "dd_get [] empty_engine_source_metadata key = []"
  by (auto simp: dd_get_def empty_engine_source_metadata_def split: option.splits dest!: map_of_SomeD)

lemma metadata_set:
  assumes "ids \<noteq> Some []"
  shows "set (dd_get [] (dd_get empty_engine_source_metadata (engine_source_values key_text db g ids) e) key) =
    source_values_of key_text db g ids e key"
proof -
  define vals where "vals = gathered_values key_text db g ids"
  have of: "map_of (engine_source_values key_text db g ids) e =
      map_option (map (\<lambda>(key, S). (key, sorted_list_of_set S))) (map_of vals e)"
    using assms by (simp add: engine_source_values_gathered vals_def map_of_map)
  have exact: "dd_get {} (dd_get fresh_values vals e) key = source_values_of key_text db g ids e key"
    using gathered_val(2) [of key_text db g ids e key] by (simp add: val_def vals_def)
  have fin: "finite (source_values_of key_text db g ids e key)" by (rule finite_source_values)
  show ?thesis
  proof (cases "map_of vals e")
    case None
    then have "dd_get fresh_values vals e = fresh_values"
      "dd_get empty_engine_source_metadata (engine_source_values key_text db g ids) e = empty_engine_source_metadata"
      by (simp_all add: dd_get_def of)
    then show ?thesis using exact by (simp add: blank_value_empty fresh_val(1))
  next
    case (Some vs)
    then have "dd_get fresh_values vals e = vs"
      "dd_get empty_engine_source_metadata (engine_source_values key_text db g ids) e =
        map (\<lambda>(key, S). (key, sorted_list_of_set S)) vs"
      by (simp_all add: dd_get_def of)
    then show ?thesis using exact fin by (simp add: sorted_value)
  qed
qed

section \<open>The engine list is exact\<close>

definition group_events :: "database \<Rightarrow> nat \<Rightarrow> audit_event list" where
  "group_events db g = filter (\<lambda>e. counted_event (db_files db) e \<and> ev_group e = Some g) (db_events db)"

definition own_events :: "database \<Rightarrow> nat \<Rightarrow> string \<Rightarrow> audit_event list" where
  "own_events db g e = filter (\<lambda>ev. ev_engine_id ev = e) (group_events db g)"

text \<open>NULL last, then the first event time, then the engine.\<close>

definition activity_key :: "database \<Rightarrow> nat \<Rightarrow> string \<Rightarrow> bool \<times> int \<times> string" where
  "activity_key db g e = (case opt_min (the_list (map ev_wall_time_ms (own_events db g e))) of
     None \<Rightarrow> (True, 0, e) | Some t \<Rightarrow> (False, t, e))"

lemma sort_key_map: "sort_key f (map g xs) = map g (sort_key (\<lambda>x. f (g x)) xs)"
proof -
  have "insort_key f (g x) (map g ys) = map g (insort_key (\<lambda>x. f (g x)) x ys)" for x ys by (induction ys) auto
  then show ?thesis by (induction xs) simp_all
qed

lemma sort_key_cong: "(\<And>x. x \<in> set xs \<Longrightarrow> f x = g x) \<Longrightarrow> sort_key f xs = sort_key g xs"
proof (induction xs)
  case (Cons x xs)
  have "insort_key f x ys = insort_key g x ys" if "set ys \<subseteq> set xs" for ys
    using that Cons.prems by (induction ys) auto
  then show ?case using Cons by simp
qed simp

lemma aggregates:
  "map eg_engine_id (engine_aggregates (group_events db g)) =
     sort_key (activity_key db g) (remdups (filter (\<lambda>e. e \<noteq> []) (map ev_engine_id (group_events db g))))"
  "r \<in> set (engine_aggregates (group_events db g)) \<Longrightarrow>
     eg_event_count r = length (own_events db g (eg_engine_id r)) \<and>
     eg_account_ref r = (case opt_min (map ev_account_ref (own_events db g (eg_engine_id r))) of None \<Rightarrow> [] | Some a \<Rightarrow> a) \<and>
     eg_first_event_ms r = opt_min (the_list (map ev_wall_time_ms (own_events db g (eg_engine_id r)))) \<and>
     eg_last_event_ms r = opt_max (the_list (map ev_wall_time_ms (own_events db g (eg_engine_id r))))"
proof -
  define valid where "valid = filter (\<lambda>e. ev_engine_id e \<noteq> []) (group_events db g)"
  have own: "filter (\<lambda>ev. ev_engine_id ev = e) valid = own_events db g e" if "e \<noteq> []" for e
    using that by (auto simp: valid_def own_events_def intro: filter_cong)
  have ids: "remdups (map ev_engine_id valid) = remdups (filter (\<lambda>e. e \<noteq> []) (map ev_engine_id (group_events db g)))"
    by (simp add: valid_def filter_map o_def)
  have key: "aggregate_key (engine_aggregate_of valid e) = activity_key db g e" if "e \<noteq> []" for e
    using that by (simp add: aggregate_key_def engine_aggregate_of_def activity_key_def own Let_def split: option.splits)
  define es where "es = remdups (map ev_engine_id valid)"
  have nonempty: "e \<noteq> []" if "e \<in> set es" for e using that by (auto simp: es_def valid_def)
  have rows: "engine_aggregates (group_events db g) = sort_key aggregate_key (map (engine_aggregate_of valid) es)"
    by (simp add: engine_aggregates_def valid_def es_def Let_def)
  have "sort_key aggregate_key (map (engine_aggregate_of valid) es) =
      map (engine_aggregate_of valid) (sort_key (activity_key db g) es)"
  proof -
    have "sort_key aggregate_key (map (engine_aggregate_of valid) es) =
        map (engine_aggregate_of valid) (sort_key (\<lambda>e. aggregate_key (engine_aggregate_of valid e)) es)"
      by (rule sort_key_map)
    also have "sort_key (\<lambda>e. aggregate_key (engine_aggregate_of valid e)) es = sort_key (activity_key db g) es"
      by (rule sort_key_cong) (simp add: key nonempty)
    finally show ?thesis .
  qed
  then have mapped: "engine_aggregates (group_events db g) = map (engine_aggregate_of valid) (sort_key (activity_key db g) es)"
    by (simp add: rows)
  have id: "eg_engine_id (engine_aggregate_of valid e) = e" for e by (simp add: engine_aggregate_of_def Let_def)
  show "map eg_engine_id (engine_aggregates (group_events db g)) =
      sort_key (activity_key db g) (remdups (filter (\<lambda>e. e \<noteq> []) (map ev_engine_id (group_events db g))))"
    by (simp add: mapped id o_def es_def ids)
  show "eg_event_count r = length (own_events db g (eg_engine_id r)) \<and>
     eg_account_ref r = (case opt_min (map ev_account_ref (own_events db g (eg_engine_id r))) of None \<Rightarrow> [] | Some a \<Rightarrow> a) \<and>
     eg_first_event_ms r = opt_min (the_list (map ev_wall_time_ms (own_events db g (eg_engine_id r)))) \<and>
     eg_last_event_ms r = opt_max (the_list (map ev_wall_time_ms (own_events db g (eg_engine_id r))))"
    if "r \<in> set (engine_aggregates (group_events db g))"
    using that nonempty by (auto simp: mapped engine_aggregate_of_def Let_def own)
qed

definition limited :: "nat option \<Rightarrow> 'a list \<Rightarrow> 'a list" where
  "limited limit xs = (case limit of None \<Rightarrow> xs | Some n \<Rightarrow> take n xs)"

lemma limited_facts: "map f (limited limit xs) = limited limit (map f xs)" "set (limited limit xs) \<subseteq> set xs"
  by (auto simp: limited_def take_map dest: in_set_takeD split: option.splits)

lemma engine_row_simps [simp]:
  "er_engine_id (engine_row_of sv (i, r)) = eg_engine_id r"
  "er_event_count (engine_row_of sv (i, r)) = eg_event_count r"
  "er_source_metadata (engine_row_of sv (i, r)) = dd_get empty_engine_source_metadata sv (eg_engine_id r)"
  "set (er_account_refs (engine_row_of sv (i, r))) =
     insert (eg_account_ref r) (set (dd_get [] (dd_get empty_engine_source_metadata sv (eg_engine_id r)) ''account_refs'')) - {[]}"
  by (auto simp: engine_row_of_def Let_def)

text \<open>
  C30: the engine list of a group holds each engine that has counted events in it once, by first activity;
  a limit keeps the first of them. Every row counts the engine's events, and its metadata are exactly
  the values that the group's files and the engine's recorder sessions give: a file that the sessions
  describe adds nothing of its own, and the accounts are those of the engine's events and sessions.
\<close>

theorem engine_rows_exact:
  "let rows = group_engine_rows key_text db g limit;
       ids = limited limit (sort_key (activity_key db g)
         (remdups (filter (\<lambda>e. e \<noteq> []) (map ev_engine_id (group_events db g)))))
   in map er_engine_id rows = ids \<and>
      map er_event_count rows = map (\<lambda>e. length (own_events db g e)) ids \<and>
      map (\<lambda>r. set (dd_get [] (er_source_metadata r) key)) rows =
        map (\<lambda>e. source_values_of key_text db g (Some ids) e key) ids \<and>
      map (\<lambda>r. set (er_account_refs r)) rows =
        map (\<lambda>e. insert (Min (ev_account_ref ` set (own_events db g e)))
          (source_values_of key_text db g (Some ids) e ''account_refs'') - {[]}) ids"
proof -
  define all_rows where "all_rows = engine_aggregates (group_events db g)"
  define rows where "rows = limited limit all_rows"
  define ids where "ids = map eg_engine_id rows"
  define sv where "sv = engine_source_values key_text db g (Some ids)"
  have engines: "group_engine_rows key_text db g limit = map (engine_row_of sv) (enumerate 0 rows)"
    by (simp add: group_engine_rows_def Let_def sv_def ids_def rows_def all_rows_def limited_def group_events_def)
  have ids: "ids = limited limit (sort_key (activity_key db g)
      (remdups (filter (\<lambda>e. e \<noteq> []) (map ev_engine_id (group_events db g)))))"
    by (simp add: ids_def rows_def limited_facts(1) all_rows_def aggregates(1))
  have over: "map (\<lambda>r. h (engine_row_of sv r)) (enumerate 0 rows) = map k ids"
    if "\<And>i r. r \<in> set rows \<Longrightarrow> h (engine_row_of sv (i, r)) = k (eg_engine_id r)" for h :: "engine_row \<Rightarrow> 'b" and k
    using that by (intro nth_equalityI) (auto simp: ids_def nth_enumerate_eq)
  have known: "r \<in> set all_rows" if "r \<in> set rows" for r
    using that subsetD [OF limited_facts(2), of r limit all_rows] by (simp add: rows_def)
  have some: "Some ids \<noteq> Some []" if "r \<in> set rows" for r using that by (auto simp: ids_def)
  have meta: "set (dd_get [] (dd_get empty_engine_source_metadata sv (eg_engine_id r)) k) =
      source_values_of key_text db g (Some ids) (eg_engine_id r) k" if "r \<in> set rows" for r k
    unfolding sv_def by (rule metadata_set [OF some [OF that]])
  have least: "eg_account_ref r = Min (ev_account_ref ` set (own_events db g (eg_engine_id r)))" if "r \<in> set rows" for r
  proof -
    have "eg_engine_id r \<in> set (map ev_engine_id (group_events db g))"
      using known [OF that] arg_cong [OF aggregates(1) [of db g], of set] by (auto simp: all_rows_def)
    then have "own_events db g (eg_engine_id r) \<noteq> []" by (auto simp: own_events_def filter_empty_conv)
    then show ?thesis
      using aggregates(2) [OF known [OF that, unfolded all_rows_def]] by (simp add: opt_min_eq)
  qed
  have "map er_engine_id (group_engine_rows key_text db g limit) = ids"
    using over [of er_engine_id "\<lambda>e. e"] by (simp add: engines o_def)
  moreover have "map er_event_count (group_engine_rows key_text db g limit) = map (\<lambda>e. length (own_events db g e)) ids"
    using over [of er_event_count "\<lambda>e. length (own_events db g e)"] aggregates(2) [OF known [unfolded all_rows_def]]
    by (simp add: engines o_def)
  moreover have "map (\<lambda>r. set (dd_get [] (er_source_metadata r) key)) (group_engine_rows key_text db g limit) =
      map (\<lambda>e. source_values_of key_text db g (Some ids) e key) ids"
    using over [of "\<lambda>r. set (dd_get [] (er_source_metadata r) key)" "\<lambda>e. source_values_of key_text db g (Some ids) e key"]
    by (simp add: engines o_def meta)
  moreover have "map (\<lambda>r. set (er_account_refs r)) (group_engine_rows key_text db g limit) =
      map (\<lambda>e. insert (Min (ev_account_ref ` set (own_events db g e)))
        (source_values_of key_text db g (Some ids) e ''account_refs'') - {[]}) ids"
    using over [of "\<lambda>r. set (er_account_refs r)" "\<lambda>e. insert (Min (ev_account_ref ` set (own_events db g e)))
        (source_values_of key_text db g (Some ids) e ''account_refs'') - {[]}"]
    by (simp add: engines o_def meta least)
  ultimately show ?thesis by (simp add: ids [symmetric])
qed

end
