(* ===== verification/Delivery_Matrix.thy ===== *)
theory Delivery_Matrix
  imports Engine_Rows Delivery Paging
begin

text \<open>
  The delivery view of \<^verbatim>\<open>forensics/views.py\<close>: who was expected to receive an artifact, who was seen to
  receive it, and what follows for every recipient and for every engine of the group. A row of the matrix is
  a \<^theory_text>\<open>record\<close> with the keys of the dictionary the code builds; a key that only some rows have is an
  \<open>option\<close>. A recipient id is the JSON value the expectation has: asking whether a list or an object is in
  a Python set raises \<^verbatim>\<open>TypeError\<close>, which is \<open>None\<close> here. Which element \<^verbatim>\<open>next(iter(s))\<close> yields of a set is
  the parameter \<open>pick\<close>. A foreign key refers to an existing row.
\<close>

section \<open>Evidence references\<close>

definition event_at :: "audit_event list \<Rightarrow> nat \<Rightarrow> audit_event" where
  "event_at events i = (case find (\<lambda>e. ev_id e = i) events of None \<Rightarrow> blank_event | Some e \<Rightarrow> e)"

text \<open>\<^verbatim>\<open>evidence_events.all()\<close>, in the default order of the event model.\<close>

definition events_at :: "audit_event list \<Rightarrow> nat list \<Rightarrow> audit_event list" where
  "events_at events ids = sort_key db_order_key (filter (\<lambda>e. ev_id e \<in> set ids) events)"

definition evidence_ref_payload :: "audit_event \<Rightarrow> dict" where
  "evidence_ref_payload e = [
     (''event_id'', j_nat (ev_id e)),
     (''audit_file_id'', j_nat (ev_audit_file e)),
     (''line_number'', j_nat (ev_line_number e)),
     (''line_hash'', JStr (ev_line_hash e)),
     (''schema_version'', JStr (ev_schema_version e)),
     (''audit_data_mode'', JStr (ev_audit_data_mode e)),
     (''event_type'', JStr (ev_event_type e)),
     (''wall_time_ms'', j_int (ev_wall_time_ms e)),
     (''api_path'', JStr (''/api/v1/events/'' @ nat_str (ev_id e) @ ''/evidence/''))]"

definition evidence_refs_payload :: "audit_event list \<Rightarrow> nat list \<Rightarrow> dict list" where
  "evidence_refs_payload events ids = map evidence_ref_payload (events_at events ids)"

section \<open>Identities\<close>

definition LEGACY_AUDIT_SCHEMAS :: "string list" where
  "LEGACY_AUDIT_SCHEMAS = [''marmot-forensics-audit/v1'', ''marmot-forensics-audit/v2'', ''marmot-forensics-audit/v3'']"

definition is_legacy_pubkey :: "json \<Rightarrow> bool" where
  "is_legacy_pubkey v \<longleftrightarrow> is_str v \<and> length (str_of v) = 64 \<and>
     list_all (\<lambda>c. c \<in> set ''0123456789abcdefABCDEF'') (str_of v)"

record identities =
  id_account_refs :: "string set"
  id_pubkeys_hex :: "string set"
  id_engine_ids :: "string set"

text \<open>The database's text of \<^verbatim>\<open>context_source.account_pubkey_hex\<close>.\<close>

definition legacy_pubkey :: "(json \<Rightarrow> string option) \<Rightarrow> audit_event \<Rightarrow> string option" where
  "legacy_pubkey key_text e =
     (case map_of (dict_of (ev_context_source e)) ''account_pubkey_hex'' of None \<Rightarrow> None | Some v \<Rightarrow> key_text v)"

definition delivery_identity_index :: "(json \<Rightarrow> string option) \<Rightarrow> audit_event list \<Rightarrow> nat \<Rightarrow> identities" where
  "delivery_identity_index key_text events g =
     (let valid = filter (\<lambda>e. ev_group e = Some g \<and> ev_parse_status e = STATUS_VALID) events;
          legacy = filter (\<lambda>e. ev_schema_version e \<in> set LEGACY_AUDIT_SCHEMAS) valid
      in \<lparr> id_account_refs = set (filter (\<lambda>v. v \<noteq> []) (map ev_account_ref valid)),
           id_pubkeys_hex = set (filter (\<lambda>v. is_legacy_pubkey (JStr v)) (the_list (map (legacy_pubkey key_text) legacy))),
           id_engine_ids = set (filter (\<lambda>v. v \<noteq> []) (map ev_engine_id valid)) \<rparr>)"

definition legacy_engine_pubkeys ::
  "(json \<Rightarrow> string option) \<Rightarrow> audit_file list \<Rightarrow> audit_event list \<Rightarrow> nat \<Rightarrow> (string \<times> string set) list" where
  "legacy_engine_pubkeys key_text files events g =
     fold (\<lambda>e result. case legacy_pubkey key_text e of
         None \<Rightarrow> result
       | Some p \<Rightarrow> if is_legacy_pubkey (JStr p) then dd_add (ev_engine_id e) p result else result)
       (filter (\<lambda>e. counted_event files e \<and> ev_group e = Some g \<and>
          ev_schema_version e \<in> set LEGACY_AUDIT_SCHEMAS \<and> ev_engine_id e \<noteq> []) events) []"

definition observation_identity_values :: "audit_event list \<Rightarrow> delivery_observation \<Rightarrow> identities" where
  "observation_identity_values events d =
     (let legacy = filter (\<lambda>e. ev_schema_version e \<in> set LEGACY_AUDIT_SCHEMAS) (events_at events (dv_evidence_events d));
          pubkeys = map (\<lambda>e. dict_get (dict_of (ev_context_source e)) ''account_pubkey_hex'') legacy
      in \<lparr> id_account_refs = (if dv_account_ref d \<noteq> [] then {dv_account_ref d} else {}),
           id_pubkeys_hex = set (map str_of (filter is_legacy_pubkey pubkeys)),
           id_engine_ids = (if dv_engine_id d \<noteq> [] then {dv_engine_id d} else {}) \<rparr>)"

text \<open>\<^verbatim>\<open>value in strings\<close> for a Python set of strings.\<close>

definition py_in :: "json \<Rightarrow> string set \<Rightarrow> bool option" where
  "py_in v S = (case v of JStr s \<Rightarrow> Some (s \<in> S) | JList _ \<Rightarrow> None | JObj _ \<Rightarrow> None | _ \<Rightarrow> Some False)"

datatype recipient_type = MemberRef | PubkeyHex | CountOnly | EngineRow

definition observation_matches_expected :: "identities \<Rightarrow> recipient_type \<Rightarrow> json \<Rightarrow> bool option" where
  "observation_matches_expected ids rt rid =
     (case rt of
        MemberRef \<Rightarrow> py_in rid (id_account_refs ids)
      | PubkeyHex \<Rightarrow> py_in rid (id_pubkeys_hex ids)
      | _ \<Rightarrow> Some False)"

section \<open>Statuses\<close>

definition delivery_status_label :: "string \<Rightarrow> string" where
  "delivery_status_label status = dd_get status [
     (''observed'', ''observed''),
     (''missing_inferred'', ''missing inferred''),
     (''missing_count_inferred'', ''missing count inferred''),
     (''partial_count_inferred'', ''partial count inferred''),
     (''unobserved_no_uploaded_engine'', ''no uploaded engine''),
     (''observed_not_expected'', ''observed, not expected''),
     (''expected_count_satisfied'', ''expected count satisfied''),
     (''observed_count_exceeds_expected'', ''observed count exceeds expected''),
     (''not_observed'', ''not observed'')] status"

definition count_only_expectation_status :: "int \<Rightarrow> nat \<Rightarrow> string" where
  "count_only_expectation_status expected_count observed_count =
     (if int observed_count < expected_count
      then (if observed_count = 0 then ''missing_count_inferred'' else ''partial_count_inferred'')
      else if int observed_count = expected_count then ''expected_count_satisfied''
      else ''observed_count_exceeds_expected'')"

definition delivery_expected_status ::
  "recipient_type \<Rightarrow> json \<Rightarrow> delivery_observation list \<Rightarrow> identities \<Rightarrow> string option" where
  "delivery_expected_status rt rid matched idx =
     (if matched \<noteq> [] then Some ''observed''
      else (case rt of
              MemberRef \<Rightarrow> map_option (\<lambda>b. if b then ''missing_inferred'' else ''unobserved_no_uploaded_engine'')
                (py_in rid (id_account_refs idx))
            | PubkeyHex \<Rightarrow> map_option (\<lambda>b. if b then ''missing_inferred'' else ''unobserved_no_uploaded_engine'')
                (py_in rid (id_pubkeys_hex idx))
            | _ \<Rightarrow> Some ''unknown''))"

section \<open>The recipient matrix\<close>

record observation_payload =
  op_engine_id :: string
  op_account_ref :: string
  op_first_seen_ms :: "int option"
  op_last_seen_ms :: "int option"
  op_latest_state :: string
  op_states :: "(state_entry \<times> dict option) list"
  op_missing_inferred :: bool
  op_evidence_refs :: "dict list"

definition delivery_observation_state_payloads ::
  "audit_event list \<Rightarrow> delivery_observation \<Rightarrow> (state_entry \<times> dict option) list" where
  "delivery_observation_state_payloads events d =
     (let refs_by_event_id = map (\<lambda>ref. (dict_get ref ''event_id'', ref)) (evidence_refs_payload events (dv_evidence_events d))
      in map (\<lambda>state. (state, map_of (rev refs_by_event_id) (j_nat (se_event_id state)))) (dv_states d))"

definition delivery_observation_payload :: "audit_event list \<Rightarrow> delivery_observation \<Rightarrow> observation_payload" where
  "delivery_observation_payload events d =
     \<lparr> op_engine_id = dv_engine_id d, op_account_ref = dv_account_ref d,
       op_first_seen_ms = dv_first_seen_ms d, op_last_seen_ms = dv_last_seen_ms d,
       op_latest_state = dv_latest_state d, op_states = delivery_observation_state_payloads events d,
       op_missing_inferred = dv_missing_inferred d,
       op_evidence_refs = evidence_refs_payload events (dv_evidence_events d) \<rparr>"

record recipient_row =
  rr_recipient_type :: recipient_type
  rr_recipient_id :: json
  rr_status :: string
  rr_status_label :: string
  rr_recipient_scope :: string
  rr_expected_count :: "int option"
  rr_observed_count :: "nat option"
  rr_missing_count :: "int option"
  rr_excluded_observation_count :: "nat option"
  rr_membership_epoch :: "int option"
  rr_observations :: "observation_payload list"
  rr_evidence_ref :: "dict option"

definition expectation_identity_rows :: "recipient_expectation \<Rightarrow> (recipient_type \<times> json) list" where
  "expectation_identity_rows x =
     map (Pair MemberRef) (re_expected_member_refs x) @ map (Pair PubkeyHex) (re_expected_pubkeys_hex x)"

definition recipient_scope_excludes_expectation_source :: "string \<Rightarrow> bool" where
  "recipient_scope_excludes_expectation_source scope \<longleftrightarrow>
     scope \<in> {''all_other_current_group_members'', ''all_other_group_members''}"

definition observation_matches_expectation_source ::
  "delivery_observation \<Rightarrow> identities \<Rightarrow> audit_event \<Rightarrow> bool" where
  "observation_matches_expectation_source d ids e \<longleftrightarrow>
     (ev_engine_id e \<noteq> [] \<and> dv_engine_id d = ev_engine_id e) \<or>
     (ev_account_ref e \<noteq> [] \<and> ev_account_ref e \<in> id_account_refs ids) \<or>
     (let pubkey = dict_get (dict_of (ev_context_source e)) ''account_pubkey_hex''
      in is_str pubkey \<and> str_of pubkey \<in> id_pubkeys_hex ids)"

definition count_only_recipient_observations ::
  "audit_event list \<Rightarrow> recipient_expectation \<Rightarrow> delivery_observation list
     \<Rightarrow> delivery_observation list \<times> delivery_observation list" where
  "count_only_recipient_observations events x observations =
     partition (\<lambda>d. \<not> (recipient_scope_excludes_expectation_source (re_recipient_scope x) \<and>
       observation_matches_expectation_source d (observation_identity_values events d)
         (event_at events (re_evidence_event x)))) observations"

text \<open>A list comprehension whose test may raise.\<close>

fun filter_opt :: "('a \<Rightarrow> bool option) \<Rightarrow> 'a list \<Rightarrow> 'a list option" where
  "filter_opt p [] = Some []"
| "filter_opt p (x # xs) =
     (case p x of
        None \<Rightarrow> None
      | Some b \<Rightarrow> map_option (\<lambda>ys. if b then x # ys else ys) (filter_opt p xs))"

type_synonym matrix_acc = "recipient_row list \<times> nat set"

definition count_only_row ::
  "audit_event list \<Rightarrow> delivery_observation list \<Rightarrow> recipient_expectation \<Rightarrow> int \<Rightarrow> recipient_row" where
  "count_only_row events observations x expected_count =
     (let (counted, excluded) = count_only_recipient_observations events x observations;
          status = count_only_expectation_status expected_count (length counted)
      in \<lparr> rr_recipient_type = CountOnly, rr_recipient_id = JStr [], rr_status = status,
           rr_status_label = delivery_status_label status, rr_recipient_scope = re_recipient_scope x,
           rr_expected_count = Some expected_count, rr_observed_count = Some (length counted),
           rr_missing_count = Some (max (expected_count - int (length counted)) 0),
           rr_excluded_observation_count = Some (length excluded),
           rr_membership_epoch = re_membership_epoch x,
           rr_observations = map (delivery_observation_payload events) counted,
           rr_evidence_ref = Some (evidence_ref_payload (event_at events (re_evidence_event x))) \<rparr>)"

definition expected_row ::
  "audit_event list \<Rightarrow> identities \<Rightarrow> delivery_observation list \<Rightarrow> recipient_expectation
     \<Rightarrow> recipient_type \<times> json \<Rightarrow> matrix_acc \<Rightarrow> matrix_acc option" where
  "expected_row events idx observations x expected acc =
     (let (rt, rid) = expected; (rows, matched_ids) = acc
      in (case filter_opt (\<lambda>d. observation_matches_expected (observation_identity_values events d) rt rid) observations of
            None \<Rightarrow> None
          | Some matched \<Rightarrow>
              map_option (\<lambda>status. (rows @ [\<lparr> rr_recipient_type = rt, rr_recipient_id = rid, rr_status = status,
                  rr_status_label = delivery_status_label status, rr_recipient_scope = re_recipient_scope x,
                  rr_expected_count = re_expected_count x, rr_observed_count = None, rr_missing_count = None,
                  rr_excluded_observation_count = None, rr_membership_epoch = re_membership_epoch x,
                  rr_observations = map (delivery_observation_payload events) matched,
                  rr_evidence_ref = Some (evidence_ref_payload (event_at events (re_evidence_event x))) \<rparr>],
                matched_ids \<union> set (map dv_id matched)))
              (delivery_expected_status rt rid matched idx)))"

definition expectation_rows ::
  "audit_event list \<Rightarrow> identities \<Rightarrow> delivery_observation list \<Rightarrow> recipient_expectation \<Rightarrow> matrix_acc \<Rightarrow> matrix_acc option" where
  "expectation_rows events idx observations x acc =
     (case (expectation_identity_rows x, re_expected_count x) of
        ([], Some n) \<Rightarrow>
          Some (fst acc @ [count_only_row events observations x n],
            snd acc \<union> set (map dv_id (fst (count_only_recipient_observations events x observations))))
      | (expected_rows, _) \<Rightarrow> fold_opt (expected_row events idx observations x) expected_rows acc)"

definition unexpected_row :: "(string set \<Rightarrow> string) \<Rightarrow> audit_event list \<Rightarrow> delivery_observation \<Rightarrow> recipient_row" where
  "unexpected_row pick events d =
     (let pubkeys = id_pubkeys_hex (observation_identity_values events d);
          pubkey = (if pubkeys = {} then [] else pick pubkeys)
      in \<lparr> rr_recipient_type = EngineRow,
           rr_recipient_id = JStr (if dv_account_ref d \<noteq> [] then dv_account_ref d
             else if pubkey \<noteq> [] then pubkey else dv_engine_id d),
           rr_status = ''observed_not_expected'', rr_status_label = ''observed, not expected'',
           rr_recipient_scope = [], rr_expected_count = None, rr_observed_count = None, rr_missing_count = None,
           rr_excluded_observation_count = None, rr_membership_epoch = None,
           rr_observations = [delivery_observation_payload events d], rr_evidence_ref = None \<rparr>)"

text \<open>The rows of the two related tables, in their default orders.\<close>

definition engine_observations :: "projections \<Rightarrow> delivery_artifact \<Rightarrow> delivery_observation list" where
  "engine_observations pj a = sort_key dv_engine_id (filter (\<lambda>d. dv_artifact d = da_id a) (pj_observations pj))"

definition recipient_expectations :: "projections \<Rightarrow> delivery_artifact \<Rightarrow> recipient_expectation list" where
  "recipient_expectations pj a = filter (\<lambda>x. re_artifact x = da_id a) (pj_expectations pj)"

definition delivery_recipient_matrix ::
  "(string set \<Rightarrow> string) \<Rightarrow> database \<Rightarrow> delivery_artifact \<Rightarrow> identities \<Rightarrow> recipient_row list option" where
  "delivery_recipient_matrix pick db a idx =
     (let observations = engine_observations (db_projections db) a
      in (case fold_opt (expectation_rows (db_events db) idx observations)
                 (recipient_expectations (db_projections db) a) ([], {}) of
            None \<Rightarrow> None
          | Some (rows, matched_ids) \<Rightarrow>
              Some (rows @ map (unexpected_row pick (db_events db))
                (filter (\<lambda>d. dv_id d \<notin> matched_ids) observations))))"

section \<open>Engine cells\<close>

record engine_cell =
  ec_engine :: engine_row
  ec_status :: string
  ec_status_label :: string
  ec_badge_class :: string
  ec_states :: "state_entry list"
  ec_first_seen_ms :: "int option"
  ec_last_seen_ms :: "int option"
  ec_latest_evidence_id :: "nat option"

definition delivery_observation_badge_class :: "string \<Rightarrow> string" where
  "delivery_observation_badge_class status =
     (let severity = severity_from_values [JStr status]
      in if severity = ''error'' then ''badge--danger''
         else if severity = ''warning'' then ''badge--warning'' else ''badge--accent'')"

definition delivery_matrix_status_badge_class :: "string \<Rightarrow> string" where
  "delivery_matrix_status_badge_class status =
     (if status \<in> {''missing_inferred'', ''missing_count_inferred''} then ''badge--danger''
      else if status = ''partial_count_inferred'' then ''badge--warning'' else [])"

definition delivery_engine_matches_recipient :: "engine_row \<Rightarrow> recipient_row \<Rightarrow> string set \<Rightarrow> bool option" where
  "delivery_engine_matches_recipient engine row legacy_pubkeys =
     (if \<not> truthy (rr_recipient_id row) then Some False
      else (case rr_recipient_type row of
              MemberRef \<Rightarrow> py_in (rr_recipient_id row)
                (set (if er_account_refs engine \<noteq> [] then er_account_refs engine else [er_account_ref engine]))
            | PubkeyHex \<Rightarrow> py_in (rr_recipient_id row) legacy_pubkeys
            | _ \<Rightarrow> Some False))"

definition MISSING_STATUSES :: "string list" where
  "MISSING_STATUSES = [''missing_inferred'', ''partial_count_inferred'', ''missing_count_inferred'']"

fun delivery_missing_status_for_engine :: "engine_row \<Rightarrow> recipient_row list \<Rightarrow> string set \<Rightarrow> string option" where
  "delivery_missing_status_for_engine engine [] legacy_pubkeys = Some []"
| "delivery_missing_status_for_engine engine (row # rows) legacy_pubkeys =
     (if rr_status row \<notin> set MISSING_STATUSES then delivery_missing_status_for_engine engine rows legacy_pubkeys
      else (case delivery_engine_matches_recipient engine row legacy_pubkeys of
              None \<Rightarrow> None
            | Some True \<Rightarrow> Some (rr_status row)
            | Some False \<Rightarrow> delivery_missing_status_for_engine engine rows legacy_pubkeys))"

text \<open>
  The evidence id of the latest state that has one; an event id is never zero.
\<close>

definition delivery_engine_cell ::
  "engine_row \<Rightarrow> delivery_observation option \<Rightarrow> recipient_row list \<Rightarrow> string set \<Rightarrow> engine_cell option" where
  "delivery_engine_cell engine observation matrix legacy_pubkeys =
     (case observation of
        Some d \<Rightarrow>
          (let status = (if dv_latest_state d \<noteq> [] then dv_latest_state d else ''observed'')
           in Some \<lparr> ec_engine = engine, ec_status = status, ec_status_label = status,
                ec_badge_class = delivery_observation_badge_class status, ec_states = dv_states d,
                ec_first_seen_ms = dv_first_seen_ms d, ec_last_seen_ms = dv_last_seen_ms d,
                ec_latest_evidence_id = map_option se_event_id (find (\<lambda>s. se_event_id s \<noteq> 0) (rev (dv_states d))) \<rparr>)
      | None \<Rightarrow>
          map_option (\<lambda>missing.
            let status = (if missing \<noteq> [] then missing else ''not_observed'')
            in \<lparr> ec_engine = engine, ec_status = status, ec_status_label = delivery_status_label status,
                 ec_badge_class = delivery_matrix_status_badge_class status, ec_states = [],
                 ec_first_seen_ms = None, ec_last_seen_ms = None, ec_latest_evidence_id = None \<rparr>)
            (delivery_missing_status_for_engine engine matrix legacy_pubkeys))"

text \<open>A list comprehension whose element may raise.\<close>

fun map_opt :: "('a \<Rightarrow> 'b option) \<Rightarrow> 'a list \<Rightarrow> 'b list option" where
  "map_opt f [] = Some []"
| "map_opt f (x # xs) = (case f x of None \<Rightarrow> None | Some y \<Rightarrow> map_option ((#) y) (map_opt f xs))"

definition delivery_engine_cells ::
  "delivery_observation list \<Rightarrow> engine_row list \<Rightarrow> recipient_row list \<Rightarrow> (string \<times> string set) list \<Rightarrow> engine_cell list option" where
  "delivery_engine_cells observations engines matrix legacy_pubkeys =
     map_opt (\<lambda>engine. delivery_engine_cell engine
         (map_of (rev (map (\<lambda>d. (dv_engine_id d, d)) observations)) (er_engine_id engine))
         matrix (dd_get {} legacy_pubkeys (er_engine_id engine))) engines"

record delivery_view =
  vw_artifact :: delivery_artifact
  vw_recipient_matrix :: "recipient_row list"
  vw_delivery_engine_cells :: "engine_cell list"
  vw_has_inferred_missing :: bool

definition attach_delivery_matrices ::
  "(json \<Rightarrow> string option) \<Rightarrow> (string set \<Rightarrow> string) \<Rightarrow> database \<Rightarrow> nat \<Rightarrow> delivery_artifact list
     \<Rightarrow> engine_row list option \<Rightarrow> delivery_view list option" where
  "attach_delivery_matrices key_text pick db g artifacts engines =
     (let identity_index = delivery_identity_index key_text (db_events db) g;
          delivery_engines = (case engines of Some rows \<Rightarrow> rows | None \<Rightarrow> group_engine_rows key_text db g None);
          legacy_pubkeys = legacy_engine_pubkeys key_text (db_files db) (db_events db) g
      in map_opt (\<lambda>a.
           case delivery_recipient_matrix pick db a identity_index of
             None \<Rightarrow> None
           | Some matrix \<Rightarrow>
               map_option (\<lambda>cells. \<lparr> vw_artifact = a, vw_recipient_matrix = matrix, vw_delivery_engine_cells = cells,
                   vw_has_inferred_missing = list_ex (\<lambda>row. rr_status row \<in> set MISSING_STATUSES) matrix \<rparr>)
                 (delivery_engine_cells (engine_observations (db_projections db) a) delivery_engines matrix legacy_pubkeys))
           artifacts)"

section \<open>What the matrix says\<close>

definition hashable_id :: "json \<Rightarrow> bool" where
  "hashable_id v \<longleftrightarrow> \<not> is_list v \<and> \<not> is_dict v"

definition has_identity :: "identities \<Rightarrow> recipient_type \<Rightarrow> json \<Rightarrow> bool" where
  "has_identity ids rt rid \<longleftrightarrow> (\<exists>s. rid = JStr s \<and>
     (rt = MemberRef \<and> s \<in> id_account_refs ids \<or> rt = PubkeyHex \<and> s \<in> id_pubkeys_hex ids))"

text \<open>The observations that show delivery to a recipient, and the verdict about the recipient.\<close>

definition receipts :: "audit_event list \<Rightarrow> delivery_observation list \<Rightarrow> recipient_type \<times> json \<Rightarrow> delivery_observation list" where
  "receipts events observations r =
     filter (\<lambda>d. has_identity (observation_identity_values events d) (fst r) (snd r)) observations"

definition verdict ::
  "audit_event list \<Rightarrow> identities \<Rightarrow> delivery_observation list \<Rightarrow> recipient_type \<times> json \<Rightarrow> string" where
  "verdict events idx observations r =
     (if receipts events observations r \<noteq> [] then ''observed''
      else if has_identity idx (fst r) (snd r) then ''missing_inferred''
      else ''unobserved_no_uploaded_engine'')"

definition recipient_row_for ::
  "audit_event list \<Rightarrow> identities \<Rightarrow> delivery_observation list \<Rightarrow> recipient_expectation \<Rightarrow> recipient_type \<times> json \<Rightarrow> recipient_row" where
  "recipient_row_for events idx observations x r =
     \<lparr> rr_recipient_type = fst r, rr_recipient_id = snd r, rr_status = verdict events idx observations r,
       rr_status_label = delivery_status_label (verdict events idx observations r),
       rr_recipient_scope = re_recipient_scope x, rr_expected_count = re_expected_count x,
       rr_observed_count = None, rr_missing_count = None, rr_excluded_observation_count = None,
       rr_membership_epoch = re_membership_epoch x,
       rr_observations = map (delivery_observation_payload events) (receipts events observations r),
       rr_evidence_ref = Some (evidence_ref_payload (event_at events (re_evidence_event x))) \<rparr>"

definition rows_for ::
  "audit_event list \<Rightarrow> identities \<Rightarrow> delivery_observation list \<Rightarrow> recipient_expectation \<Rightarrow> recipient_row list" where
  "rows_for events idx observations x =
     (case (expectation_identity_rows x, re_expected_count x) of
        ([], Some n) \<Rightarrow> [count_only_row events observations x n]
      | (rs, _) \<Rightarrow> map (recipient_row_for events idx observations x) rs)"

text \<open>The observations that an expectation accounts for.\<close>

definition accounts ::
  "audit_event list \<Rightarrow> delivery_observation list \<Rightarrow> recipient_expectation \<Rightarrow> delivery_observation list" where
  "accounts events observations x =
     (case (expectation_identity_rows x, re_expected_count x) of
        ([], Some n) \<Rightarrow> fst (count_only_recipient_observations events x observations)
      | (rs, _) \<Rightarrow> concat (map (receipts events observations) rs))"

lemma py_in_eq: "py_in v S = (if hashable_id v then Some (\<exists>s. v = JStr s \<and> s \<in> S) else None)"
  by (cases v) (simp_all add: py_in_def hashable_id_def)

lemma filter_opt_total: "(\<And>x. x \<in> set xs \<Longrightarrow> p x = Some (q x)) \<Longrightarrow> filter_opt p xs = Some (filter q xs)"
  by (induction xs) auto

lemma filter_opt_fails: "(\<And>x. p x = None) \<Longrightarrow> filter_opt p xs = (if xs = [] then Some [] else None)"
  by (cases xs) auto

lemma identity_row_types: "r \<in> set (expectation_identity_rows x) \<Longrightarrow> fst r \<in> {MemberRef, PubkeyHex}"
  by (auto simp: expectation_identity_rows_def)

lemma expected_row_eq:
  assumes "fst r \<in> {MemberRef, PubkeyHex}"
  shows "expected_row events idx observations x r (rows, ids) =
    (if hashable_id (snd r)
     then Some (rows @ [recipient_row_for events idx observations x r], ids \<union> dv_id ` set (receipts events observations r))
     else None)"
proof -
  obtain rt rid where r: "r = (rt, rid)" by (cases r)
  have rt: "rt \<in> {MemberRef, PubkeyHex}" using assms r by simp
  have test: "observation_matches_expected ids' rt rid = (if hashable_id rid then Some (has_identity ids' rt rid) else None)" for ids'
    using rt by (auto simp: observation_matches_expected_def has_identity_def py_in_eq)
  show ?thesis
  proof (cases "hashable_id rid")
    case True
    then have matched: "filter_opt (\<lambda>d. observation_matches_expected (observation_identity_values events d) rt rid) observations =
        Some (receipts events observations r)"
      using filter_opt_total [of observations "\<lambda>d. observation_matches_expected (observation_identity_values events d) rt rid"
          "\<lambda>d. has_identity (observation_identity_values events d) rt rid"]
      by (simp add: test receipts_def r)
    have status: "delivery_expected_status rt rid (receipts events observations r) idx = Some (verdict events idx observations r)"
      using rt True by (auto simp: delivery_expected_status_def verdict_def has_identity_def py_in_eq r)
    show ?thesis
      using True matched status unfolding r by (simp add: expected_row_def recipient_row_for_def)
  next
    case False
    then have "filter_opt (\<lambda>d. observation_matches_expected (observation_identity_values events d) rt rid) observations =
        (if observations = [] then Some [] else None)"
      by (simp add: filter_opt_fails test)
    moreover have "delivery_expected_status rt rid [] idx = None"
      using rt False by (auto simp: delivery_expected_status_def py_in_eq)
    ultimately show ?thesis using False unfolding r by (simp add: expected_row_def)
  qed
qed

lemma expected_rows_eq:
  assumes "fst ` set rs \<subseteq> {MemberRef, PubkeyHex}"
  shows "fold_opt (expected_row events idx observations x) rs (rows, ids) =
    (if list_all (\<lambda>r. hashable_id (snd r)) rs
     then Some (rows @ map (recipient_row_for events idx observations x) rs,
       ids \<union> dv_id ` set (concat (map (receipts events observations) rs)))
     else None)"
  using assms
proof (induction rs arbitrary: rows ids)
  case (Cons r rs)
  have r: "fst r \<in> {MemberRef, PubkeyHex}" and rs: "fst ` set rs \<subseteq> {MemberRef, PubkeyHex}"
    using Cons.prems by simp_all
  show ?case using Cons.IH [OF rs] by (simp add: expected_row_eq [OF r] image_Un Un_assoc)
qed simp

lemma expectation_rows_eq:
  "expectation_rows events idx observations x (rows, ids) =
    (if list_all (\<lambda>r. hashable_id (snd r)) (expectation_identity_rows x)
     then Some (rows @ rows_for events idx observations x, ids \<union> dv_id ` set (accounts events observations x))
     else None)"
proof -
  have types: "fst ` set (expectation_identity_rows x) \<subseteq> {MemberRef, PubkeyHex}"
    using identity_row_types by blast
  note rows = expected_rows_eq [OF types, of events idx observations x rows ids]
  show ?thesis
  proof (cases "expectation_identity_rows x")
    case Nil
    then show ?thesis by (simp add: expectation_rows_def rows_for_def accounts_def split: option.splits)
  next
    case (Cons r rs)
    show ?thesis using rows unfolding Cons by (simp add: expectation_rows_def rows_for_def accounts_def Cons)
  qed
qed

lemma all_expectation_rows_eq:
  "fold_opt (expectation_rows events idx observations) xs (rows, ids) =
    (if list_all (\<lambda>x. list_all (\<lambda>r. hashable_id (snd r)) (expectation_identity_rows x)) xs
     then Some (rows @ concat (map (rows_for events idx observations) xs),
       ids \<union> dv_id ` set (concat (map (accounts events observations) xs)))
     else None)"
  by (induction xs arbitrary: rows ids) (simp_all add: expectation_rows_eq image_Un Un_assoc)

lemma shown_by_expectation:
  "\<Union> (set ` rr_observations ` set (rows_for events idx observations x)) =
     delivery_observation_payload events ` set (accounts events observations x)"
proof (cases "expectation_identity_rows x = [] \<and> re_expected_count x \<noteq> None")
  case True
  then show ?thesis
    by (auto simp: rows_for_def accounts_def count_only_row_def Let_def split_beta split: option.splits)
next
  case False
  then have "rows_for events idx observations x = map (recipient_row_for events idx observations x) (expectation_identity_rows x)"
    "accounts events observations x = concat (map (receipts events observations) (expectation_identity_rows x))"
    by (auto simp: rows_for_def accounts_def split: list.splits option.splits)
  then show ?thesis by (simp add: recipient_row_for_def image_UN)
qed

lemma accounts_observed: "set (accounts events observations x) \<subseteq> set observations"
  by (auto simp: accounts_def receipts_def count_only_recipient_observations_def split: list.splits option.splits)

text \<open>The figures of a count-only row add up.\<close>

definition counts_add_up :: "nat \<Rightarrow> recipient_row \<Rightarrow> bool" where
  "counts_add_up n row \<longleftrightarrow>
     (case (rr_observed_count row, rr_excluded_observation_count row, rr_missing_count row, rr_expected_count row) of
        (Some seen, Some excluded, Some missing, Some expected) \<Rightarrow>
          seen + excluded = n \<and> missing = max (expected - int seen) 0 \<and>
          (rr_status row \<in> set MISSING_STATUSES \<longleftrightarrow> 0 < missing) \<and>
          (rr_status row = ''expected_count_satisfied'' \<longleftrightarrow> int seen = expected)
      | (seen, _, _, _) \<Rightarrow> seen = None)"

lemma count_only_row_adds_up: "counts_add_up (length observations) (count_only_row events observations x n)"
proof -
  define p where "p = (\<lambda>d. \<not> (recipient_scope_excludes_expectation_source (re_recipient_scope x) \<and>
      observation_matches_expectation_source d (observation_identity_values events d) (event_at events (re_evidence_event x))))"
  have split: "count_only_recipient_observations events x observations = (filter p observations, filter (\<lambda>d. \<not> p d) observations)"
    by (simp add: count_only_recipient_observations_def p_def o_def)
  have "length (filter p observations) + length (filter (\<lambda>d. \<not> p d) observations) = length observations"
    by (rule sum_length_filter_compl)
  then show ?thesis
    by (auto simp: counts_add_up_def count_only_row_def Let_def split count_only_expectation_status_def MISSING_STATUSES_def)
qed

lemma rows_for_add_up: "row \<in> set (rows_for events idx observations x) \<Longrightarrow> counts_add_up (length observations) row"
  by (auto simp: rows_for_def recipient_row_for_def count_only_row_adds_up split: list.splits option.splits)
    (auto simp: counts_add_up_def)

lemma ids_of_observations:
  assumes "distinct (map dv_id (pj_observations pj))" "d \<in> set (engine_observations pj a)" "set ds \<subseteq> set (engine_observations pj a)"
  shows "dv_id d \<in> dv_id ` set ds \<longleftrightarrow> d \<in> set ds"
  using assms by (auto simp: engine_observations_def distinct_map dest: inj_onD)

definition matrix_of ::
  "(string set \<Rightarrow> string) \<Rightarrow> audit_event list \<Rightarrow> identities \<Rightarrow> delivery_observation list \<Rightarrow> recipient_expectation list \<Rightarrow> recipient_row list" where
  "matrix_of pick events idx observations xs =
     concat (map (rows_for events idx observations) xs) @
     map (unexpected_row pick events) (filter (\<lambda>d. \<forall>x \<in> set xs. d \<notin> set (accounts events observations x)) observations)"

lemma matrix_shows_observations:
  "\<Union> (set ` rr_observations ` set (matrix_of pick events idx observations xs)) =
     delivery_observation_payload events ` set observations"
proof -
  have "\<Union> (set ` rr_observations ` set (concat (map (rows_for events idx observations) xs))) =
      (\<Union>x \<in> set xs. \<Union> (set ` rr_observations ` set (rows_for events idx observations x)))" by auto
  also have "\<dots> = (\<Union>x \<in> set xs. delivery_observation_payload events ` set (accounts events observations x))"
    by (simp only: shown_by_expectation)
  finally have expected: "\<Union> (set ` rr_observations ` set (concat (map (rows_for events idx observations) xs))) =
      (\<Union>x \<in> set xs. delivery_observation_payload events ` set (accounts events observations x))" .
  have rest: "\<Union> (set ` rr_observations ` set (map (unexpected_row pick events) ds)) =
      delivery_observation_payload events ` set ds" for ds
    by (auto simp: unexpected_row_def Let_def)
  show ?thesis
    unfolding matrix_of_def set_append image_Un Union_Un_distrib expected rest
    unfolding image_UN [symmetric] image_Un [symmetric]
    using accounts_observed [of events observations] by (intro arg_cong [where f = "(`) (delivery_observation_payload events)"]) auto
qed

lemma matrix_adds_up: "row \<in> set (matrix_of pick events idx observations xs) \<Longrightarrow> counts_add_up (length observations) row"
  by (auto simp: matrix_of_def dest!: rows_for_add_up) (auto simp: counts_add_up_def unexpected_row_def Let_def)

definition hashable_recipients :: "recipient_expectation \<Rightarrow> bool" where
  "hashable_recipients x \<longleftrightarrow> list_all (\<lambda>r. hashable_id (snd r)) (expectation_identity_rows x)"

lemma matrix_eq:
  assumes "distinct (map dv_id (pj_observations (db_projections db)))"
  shows "delivery_recipient_matrix pick db a idx =
    (if list_all hashable_recipients (recipient_expectations (db_projections db) a)
     then Some (matrix_of pick (db_events db) idx (engine_observations (db_projections db) a)
       (recipient_expectations (db_projections db) a)) else None)"
proof -
  define observations where obs: "observations = engine_observations (db_projections db) a"
  define xs where xs: "xs = recipient_expectations (db_projections db) a"
  define ids where "ids = dv_id ` set (concat (map (accounts (db_events db) observations) xs))"
  have sub: "set (concat (map (accounts (db_events db) observations) xs)) \<subseteq> set observations"
    using accounts_observed [of "db_events db" observations] by auto
  have unmatched: "filter (\<lambda>d. dv_id d \<notin> ids) observations =
      filter (\<lambda>d. \<forall>x \<in> set xs. d \<notin> set (accounts (db_events db) observations x)) observations"
    using ids_of_observations [OF assms, of _ a, folded obs, OF _ sub]
    by (intro filter_cong) (simp_all add: ids_def)
  show ?thesis
    unfolding delivery_recipient_matrix_def Let_def obs [symmetric] xs [symmetric] all_expectation_rows_eq hashable_recipients_def
    unfolding Un_empty_left ids_def [symmetric] by (simp add: matrix_of_def unmatched)
qed

lemma matrix_None:
  "delivery_recipient_matrix pick db a idx = None \<longleftrightarrow>
     \<not> list_all hashable_recipients (recipient_expectations (db_projections db) a)"
  unfolding delivery_recipient_matrix_def Let_def all_expectation_rows_eq hashable_recipients_def by simp

text \<open>
  C29: the recipient matrix of an artifact. It fails exactly when an expected recipient id is a JSON list or
  object. Otherwise it has, for every expectation in order, one row per expected recipient - observed when
  some observation carries the recipient's identity, missing when the group's evidence knows the recipient
  and no observation shows it, and without an uploaded engine otherwise - or one count row whose figures add
  up; then one row per observation that no expectation accounts for. The rows show every observation of the
  artifact and no other.
\<close>

theorem delivery_matrix_exact:
  assumes "distinct (map dv_id (pj_observations (db_projections db)))"
  shows "let observations = engine_observations (db_projections db) a;
        xs = recipient_expectations (db_projections db) a
    in (delivery_recipient_matrix pick db a idx = None \<longleftrightarrow> \<not> list_all hashable_recipients xs) \<and>
       (\<forall>rows. delivery_recipient_matrix pick db a idx = Some rows \<longrightarrow>
         rows = matrix_of pick (db_events db) idx observations xs \<and>
         \<Union> (set ` rr_observations ` set rows) = delivery_observation_payload (db_events db) ` set observations \<and>
         list_all (counts_add_up (length observations)) rows)"
  using matrix_shows_observations matrix_adds_up by (simp add: Let_def matrix_eq [OF assms] list_all_iff)

section \<open>What the engine cells say\<close>

definition concerns :: "engine_row \<Rightarrow> string set \<Rightarrow> recipient_row \<Rightarrow> bool" where
  "concerns engine pubkeys row \<longleftrightarrow> (\<exists>s. rr_recipient_id row = JStr s \<and> s \<noteq> [] \<and>
     (rr_recipient_type row = MemberRef \<and>
        s \<in> set (if er_account_refs engine \<noteq> [] then er_account_refs engine else [er_account_ref engine]) \<or>
      rr_recipient_type row = PubkeyHex \<and> s \<in> pubkeys))"

definition engine_status :: "delivery_observation list \<Rightarrow> recipient_row list \<Rightarrow> string set \<Rightarrow> engine_row \<Rightarrow> string" where
  "engine_status observations rows pubkeys engine =
     (case find (\<lambda>d. dv_engine_id d = er_engine_id engine) observations of
        Some d \<Rightarrow> if dv_latest_state d \<noteq> [] then dv_latest_state d else ''observed''
      | None \<Rightarrow> if \<exists>row \<in> set rows. rr_status row = ''missing_inferred'' \<and> concerns engine pubkeys row
                then ''missing_inferred'' else ''not_observed'')"

lemma matches_recipient:
  "hashable_id (rr_recipient_id row) \<Longrightarrow> delivery_engine_matches_recipient engine row pubkeys = Some (concerns engine pubkeys row)"
  by (cases "rr_recipient_id row"; cases "rr_recipient_type row")
    (auto simp: delivery_engine_matches_recipient_def concerns_def py_in_eq hashable_id_def)

text \<open>A row of a matrix that was built without an exception.\<close>

definition plain_row :: "recipient_row \<Rightarrow> bool" where
  "plain_row row \<longleftrightarrow> hashable_id (rr_recipient_id row) \<and>
     (rr_status row \<in> set MISSING_STATUSES \<longrightarrow> rr_status row = ''missing_inferred'' \<or> rr_recipient_id row = JStr [])"

lemma matrix_rows_plain:
  assumes "list_all hashable_recipients xs" "row \<in> set (matrix_of pick events idx observations xs)"
  shows "plain_row row"
proof -
  have "plain_row (unexpected_row pick events d)" for d
    by (simp add: plain_row_def unexpected_row_def Let_def hashable_id_def MISSING_STATUSES_def)
  moreover have "plain_row (count_only_row events observations x n)" for x n
    by (simp add: plain_row_def count_only_row_def Let_def split_beta hashable_id_def)
  moreover have "plain_row (recipient_row_for events idx observations x r)" if "hashable_id (snd r)" for x r
    using that by (simp add: plain_row_def recipient_row_for_def verdict_def MISSING_STATUSES_def)
  ultimately have "plain_row row" if "x \<in> set xs" "row \<in> set (rows_for events idx observations x)" for x
  proof -
    have "hashable_id (snd r)" if "r \<in> set (expectation_identity_rows x)" for r
      using that \<open>x \<in> set xs\<close> assms(1) by (simp add: hashable_recipients_def list_all_iff)
    moreover have "row \<in> recipient_row_for events idx observations x ` set (expectation_identity_rows x) \<or>
        (\<exists>n. row = count_only_row events observations x n)"
      using that(2) by (simp add: rows_for_def split: list.splits option.splits) blast+
    ultimately show ?thesis
      using \<open>\<And>x n. plain_row (count_only_row events observations x n)\<close>
        \<open>\<And>x r. hashable_id (snd r) \<Longrightarrow> plain_row (recipient_row_for events idx observations x r)\<close> by blast
  qed
  with assms(2) \<open>\<And>d. plain_row (unexpected_row pick events d)\<close> show ?thesis by (auto simp: matrix_of_def)
qed

lemma missing_status:
  "list_all plain_row rows \<Longrightarrow> delivery_missing_status_for_engine engine rows pubkeys =
     Some (if \<exists>row \<in> set rows. rr_status row = ''missing_inferred'' \<and> concerns engine pubkeys row then ''missing_inferred'' else [])"
proof (induction rows)
  case (Cons row rows)
  have "list_all plain_row rows" using Cons.prems by simp
  note IH = Cons.IH [OF this]
  have row: "hashable_id (rr_recipient_id row)"
    "rr_status row \<in> set MISSING_STATUSES \<Longrightarrow> concerns engine pubkeys row \<Longrightarrow> rr_status row = ''missing_inferred''"
    using Cons.prems by (auto simp: plain_row_def concerns_def)
  show ?case
  proof (cases "rr_status row \<in> set MISSING_STATUSES \<and> concerns engine pubkeys row")
    case True
    then show ?thesis using row by (simp add: matches_recipient)
  next
    case False
    have "''missing_inferred'' \<in> set MISSING_STATUSES" by (simp add: MISSING_STATUSES_def)
    with False have "\<not> (rr_status row = ''missing_inferred'' \<and> concerns engine pubkeys row)" by auto
    then have "(\<exists>r \<in> set (row # rows). rr_status r = ''missing_inferred'' \<and> concerns engine pubkeys r) \<longleftrightarrow>
        (\<exists>r \<in> set rows. rr_status r = ''missing_inferred'' \<and> concerns engine pubkeys r)"
      unfolding list.set insert_iff bex_simps(5) by blast
    moreover have "delivery_missing_status_for_engine engine (row # rows) pubkeys = delivery_missing_status_for_engine engine rows pubkeys"
      using False row by (auto simp: matches_recipient)
    ultimately show ?thesis using IH by (simp only:)
  qed
qed simp

lemma map_opt_total: "(\<And>x. x \<in> set xs \<Longrightarrow> f x = Some (g x)) \<Longrightarrow> map_opt f xs = Some (map g xs)"
  by (induction xs) auto

lemma map_opt_None: "map_opt f xs = None \<longleftrightarrow> (\<exists>x \<in> set xs. f x = None)"
  by (induction xs) (auto split: option.splits)

lemma map_opt_Some: "map_opt f xs = Some ys \<longleftrightarrow> map f xs = map Some ys"
  by (induction xs arbitrary: ys) (auto split: option.splits simp: Cons_eq_map_conv)

lemma observation_by_engine:
  "distinct (map dv_engine_id observations) \<Longrightarrow>
     map_of (rev (map (\<lambda>d. (dv_engine_id d, d)) observations)) e = find (\<lambda>d. dv_engine_id d = e) observations"
proof (induction observations)
  case (Cons d ds)
  then have IH: "map_of (rev (map (\<lambda>d. (dv_engine_id d, d)) ds)) e = find (\<lambda>d. dv_engine_id d = e) ds" by simp
  show ?case
  proof (cases "dv_engine_id d = e")
    case True
    then have "find (\<lambda>d. dv_engine_id d = e) ds = None" using Cons.prems by (auto simp: find_None_iff image_iff)
    then show ?thesis using True IH by (simp add: map_add_def)
  next
    case False
    then show ?thesis using IH by (simp add: map_add_def split: option.splits)
  qed
qed simp

lemma engine_cell_of:
  assumes "list_all plain_row rows" "distinct (map dv_engine_id observations)"
  shows "\<exists>c. delivery_engine_cell engine (map_of (rev (map (\<lambda>d. (dv_engine_id d, d)) observations)) (er_engine_id engine)) rows pubkeys = Some c \<and>
    ec_engine c = engine \<and> ec_status c = engine_status observations rows pubkeys engine"
  unfolding observation_by_engine [OF assms(2)]
  by (cases "find (\<lambda>d. dv_engine_id d = er_engine_id engine) observations")
    (simp_all add: delivery_engine_cell_def engine_status_def missing_status [OF assms(1)] Let_def)

lemma engines_of_observations:
  "distinct (map observation_key (pj_observations pj)) \<Longrightarrow> distinct (map dv_engine_id (engine_observations pj a))"
  by (auto simp: engine_observations_def distinct_map observation_key_def inj_on_def)

text \<open>What a view of an artifact shows, cell by cell.\<close>

definition shows_delivery ::
  "(string set \<Rightarrow> string) \<Rightarrow> database \<Rightarrow> identities \<Rightarrow> (string \<times> string set) list \<Rightarrow> engine_row list \<Rightarrow> delivery_view \<Rightarrow> bool" where
  "shows_delivery pick db idx pubkeys engines v \<longleftrightarrow>
     delivery_recipient_matrix pick db (vw_artifact v) idx = Some (vw_recipient_matrix v) \<and>
     map ec_engine (vw_delivery_engine_cells v) = engines \<and>
     map ec_status (vw_delivery_engine_cells v) =
       map (\<lambda>e. engine_status (engine_observations (db_projections db) (vw_artifact v)) (vw_recipient_matrix v)
         (dd_get {} pubkeys (er_engine_id e)) e) engines \<and>
     (vw_has_inferred_missing v \<longleftrightarrow> (\<exists>row \<in> set (vw_recipient_matrix v). rr_status row \<in> set MISSING_STATUSES))"

lemma cells_of:
  assumes "list_all plain_row rows" "distinct (map dv_engine_id observations)"
  shows "\<exists>cells. delivery_engine_cells observations engines rows pubkeys = Some cells \<and> map ec_engine cells = engines \<and>
    map ec_status cells = map (\<lambda>e. engine_status observations rows (dd_get {} pubkeys (er_engine_id e)) e) engines"
proof (induction engines)
  case (Cons e es)
  then obtain cells where "delivery_engine_cells observations es rows pubkeys = Some cells" "map ec_engine cells = es"
    "map ec_status cells = map (\<lambda>e. engine_status observations rows (dd_get {} pubkeys (er_engine_id e)) e) es" by blast
  moreover obtain c where "delivery_engine_cell e (map_of (rev (map (\<lambda>d. (dv_engine_id d, d)) observations)) (er_engine_id e))
      rows (dd_get {} pubkeys (er_engine_id e)) = Some c"
    "ec_engine c = e" "ec_status c = engine_status observations rows (dd_get {} pubkeys (er_engine_id e)) e"
    using engine_cell_of [OF assms] by blast
  ultimately show ?case by (simp add: delivery_engine_cells_def)
qed (simp add: delivery_engine_cells_def)

text \<open>
  The delivery tab. Building it fails exactly when some artifact expects a recipient whose id is a JSON list
  or object. Otherwise every artifact is shown once, with its recipient matrix and one cell per engine of the
  group: an engine that has an observation shows its latest state and is never shown as missing; an engine
  without one is shown as missing exactly when the matrix infers that one of the engine's accounts or public
  keys missed the artifact - a count alone never makes an engine missing.
\<close>

theorem delivery_cells_exact:
  assumes "distinct (map dv_id (pj_observations (db_projections db)))"
    and "distinct (map observation_key (pj_observations (db_projections db)))"
  shows "let engines = (case shown of Some rows \<Rightarrow> rows | None \<Rightarrow> group_engine_rows key_text db g None);
        idx = delivery_identity_index key_text (db_events db) g;
        pubkeys = legacy_engine_pubkeys key_text (db_files db) (db_events db) g
    in (attach_delivery_matrices key_text pick db g artifacts shown = None \<longleftrightarrow>
          (\<exists>a \<in> set artifacts. \<not> list_all hashable_recipients (recipient_expectations (db_projections db) a))) \<and>
       (\<forall>views. attach_delivery_matrices key_text pick db g artifacts shown = Some views \<longrightarrow>
          map vw_artifact views = artifacts \<and> list_all (shows_delivery pick db idx pubkeys engines) views)"
proof -
  define engines where "engines = (case shown of Some rows \<Rightarrow> rows | None \<Rightarrow> group_engine_rows key_text db g None)"
  define idx where "idx = delivery_identity_index key_text (db_events db) g"
  define pubkeys where "pubkeys = legacy_engine_pubkeys key_text (db_files db) (db_events db) g"
  define ok where "ok = (\<lambda>a. list_all hashable_recipients (recipient_expectations (db_projections db) a))"
  define one where "one = (\<lambda>a. case delivery_recipient_matrix pick db a idx of
      None \<Rightarrow> None
    | Some matrix \<Rightarrow> map_option (\<lambda>cells. \<lparr> vw_artifact = a, vw_recipient_matrix = matrix, vw_delivery_engine_cells = cells,
          vw_has_inferred_missing = list_ex (\<lambda>row. rr_status row \<in> set MISSING_STATUSES) matrix \<rparr>)
        (delivery_engine_cells (engine_observations (db_projections db) a) engines matrix pubkeys))"
  have attach: "attach_delivery_matrices key_text pick db g artifacts shown = map_opt one artifacts"
    unfolding attach_delivery_matrices_def one_def engines_def idx_def pubkeys_def Let_def by (rule refl)
  have shown_one: "\<exists>v. one a = Some v \<and> vw_artifact v = a \<and> shows_delivery pick db idx pubkeys engines v" if "ok a" for a
  proof -
    define rows where "rows = matrix_of pick (db_events db) idx (engine_observations (db_projections db) a)
        (recipient_expectations (db_projections db) a)"
    have matrix: "delivery_recipient_matrix pick db a idx = Some rows"
      using that by (simp add: matrix_eq [OF assms(1)] rows_def ok_def)
    have "list_all plain_row rows"
      using that matrix_rows_plain unfolding list_all_iff rows_def ok_def by blast
    from cells_of [OF this engines_of_observations [OF assms(2)], of a engines pubkeys] obtain cells where
      "delivery_engine_cells (engine_observations (db_projections db) a) engines rows pubkeys = Some cells"
      "map ec_engine cells = engines"
      "map ec_status cells = map (\<lambda>e. engine_status (engine_observations (db_projections db) a) rows
          (dd_get {} pubkeys (er_engine_id e)) e) engines" by blast
    with matrix show ?thesis by (simp add: one_def shows_delivery_def list_ex_iff)
  qed
  have "one a = None \<longleftrightarrow> \<not> ok a" for a
    using shown_one [of a] by (auto simp: one_def matrix_eq [OF assms(1)] ok_def)
  then have none: "map_opt one artifacts = None \<longleftrightarrow> (\<exists>a \<in> set artifacts. \<not> ok a)" by (simp add: map_opt_None)
  have some: "map vw_artifact views = artifacts \<and> list_all (shows_delivery pick db idx pubkeys engines) views"
    if "map_opt one artifacts = Some views" for views
  proof -
    have all_ok: "ok a" if "a \<in> set artifacts" for a using that none \<open>map_opt one artifacts = Some views\<close> by auto
    have "map one artifacts = map Some views" using that by (simp add: map_opt_Some)
    then show ?thesis using all_ok
    proof (induction artifacts arbitrary: views)
      case (Cons a as)
      then obtain v vs where "views = v # vs" "one a = Some v" "map one as = map Some vs" by (cases views) auto
      with Cons.IH [of vs] Cons.prems(2) shown_one [of a] show ?case by auto
    qed simp
  qed
  show ?thesis
    unfolding Let_def engines_def [symmetric] idx_def [symmetric] pubkeys_def [symmetric] attach none ok_def
    using some by blast
qed

text \<open>One member delivered, one known and missing, one engine that nobody expected.\<close>

definition example_observation :: "nat \<Rightarrow> string \<Rightarrow> string \<Rightarrow> delivery_observation" where
  "example_observation i engine account = \<lparr> dv_id = i, dv_artifact = 1, dv_engine_id = engine, dv_account_ref = account,
     dv_first_seen_ms = None, dv_last_seen_ms = None, dv_states = [], dv_latest_state = [], dv_missing_inferred = False,
     dv_evidence_events = [] \<rparr>"

definition example_delivery :: database where
  "example_delivery = empty_database\<lparr>db_projections := empty_projections\<lparr>
     pj_observations := [example_observation 1 ''e1'' ''alice'', example_observation 2 ''e2'' ''carol''],
     pj_expectations := [\<lparr> re_artifact = 1, re_artifact_kind = [], re_recipient_scope = ''all'', re_membership_epoch = None,
       re_basis_commit_id = [], re_expected_member_refs = [JStr ''alice'', JStr ''bob''], re_expected_pubkeys_hex = [],
       re_expected_count = None, re_evidence_event = 1 \<rparr>]\<rparr>\<rparr>"

definition example_artifact :: delivery_artifact where
  "example_artifact = \<lparr> da_id = 1, da_group = 1, da_artifact_id = ''m1'', da_artifact_kind = [], da_first_seen_ms = None,
     da_last_seen_ms = None, da_audit_data_modes = [], da_author = JObj [], da_decoded_payload = JObj [],
     da_decoded_app_event = JObj [], da_evidence_events = [] \<rparr>"

definition example_index :: identities where
  "example_index = \<lparr> id_account_refs = {''alice'', ''bob'', ''carol''}, id_pubkeys_hex = {}, id_engine_ids = {} \<rparr>"

lemma example_observations:
  "engine_observations (db_projections example_delivery) example_artifact =
     [example_observation 1 ''e1'' ''alice'', example_observation 2 ''e2'' ''carol'']"
  by (simp add: engine_observations_def example_delivery_def example_artifact_def example_observation_def less_eq_list_code
      less_list_code less_char_def less_eq_char_def)

lemma example_identities:
  "observation_identity_values [] (example_observation i engine account) =
     \<lparr> id_account_refs = (if account \<noteq> [] then {account} else {}), id_pubkeys_hex = {},
       id_engine_ids = (if engine \<noteq> [] then {engine} else {}) \<rparr>"
  by (simp add: observation_identity_values_def example_observation_def events_at_def)

lemma example_carries:
  "has_identity \<lparr> id_account_refs = S, id_pubkeys_hex = {}, id_engine_ids = T \<rparr> MemberRef (JStr a) \<longleftrightarrow> a \<in> S"
  by (simp add: has_identity_def)

lemma example_matrix:
  "map rr_status (matrix_of (\<lambda>S. []) [] example_index (engine_observations (db_projections example_delivery) example_artifact)
     (recipient_expectations (db_projections example_delivery) example_artifact)) =
   [''observed'', ''missing_inferred'', ''observed_not_expected'']"
proof -
  define x where "x = hd (pj_expectations (db_projections example_delivery))"
  have xs: "recipient_expectations (db_projections example_delivery) example_artifact = [x]"
    by (simp add: recipient_expectations_def example_delivery_def example_artifact_def x_def)
  have rs: "expectation_identity_rows x = [(MemberRef, JStr ''alice''), (MemberRef, JStr ''bob'')]"
    by (simp add: expectation_identity_rows_def x_def example_delivery_def)
  define d1 where "d1 = example_observation 1 ''e1'' ''alice''"
  define d2 where "d2 = example_observation 2 ''e2'' ''carol''"
  have alice: "receipts [] [d1, d2] (MemberRef, JStr ''alice'') = [d1]"
    and bob: "receipts [] [d1, d2] (MemberRef, JStr ''bob'') = []"
    by (simp_all add: receipts_def d1_def d2_def example_identities example_carries)
  have "d2 \<noteq> d1" by (simp add: d1_def d2_def example_observation_def)
  then have matrix: "matrix_of (\<lambda>S. []) [] example_index [d1, d2] [x] =
      [recipient_row_for [] example_index [d1, d2] x (MemberRef, JStr ''alice''),
       recipient_row_for [] example_index [d1, d2] x (MemberRef, JStr ''bob''), unexpected_row (\<lambda>S. []) [] d2]"
    by (simp add: matrix_of_def rows_for_def rs accounts_def alice bob)
  show ?thesis
    unfolding example_observations xs d1_def [symmetric] d2_def [symmetric] matrix
    by (simp add: recipient_row_for_def verdict_def alice bob example_index_def example_carries unexpected_row_def Let_def)
qed

theorem delivery_matrix_exact_witness:
  "distinct (map dv_id (pj_observations (db_projections example_delivery))) \<and>
   map rr_status (the (delivery_recipient_matrix (\<lambda>S. []) example_delivery example_artifact example_index)) =
     [''observed'', ''missing_inferred'', ''observed_not_expected'']"
proof -
  have ids: "distinct (map dv_id (pj_observations (db_projections example_delivery)))"
    by (simp add: example_delivery_def example_observation_def)
  have events: "db_events example_delivery = []" by (simp add: example_delivery_def empty_database_def)
  have hashable_id: "list_all hashable_recipients (recipient_expectations (db_projections example_delivery) example_artifact)"
    by (simp add: example_delivery_def empty_projections_def example_artifact_def recipient_expectations_def
        hashable_recipients_def expectation_identity_rows_def hashable_id_def)
  note exact = delivery_matrix_exact [OF ids, of example_artifact "\<lambda>S. []" example_index, unfolded Let_def events]
  have "delivery_recipient_matrix (\<lambda>S. []) example_delivery example_artifact example_index \<noteq> None"
    using conjunct1 [OF exact] hashable_id by (simp only: simp_thms)
  then obtain rows where some: "delivery_recipient_matrix (\<lambda>S. []) example_delivery example_artifact example_index = Some rows" by blast
  show ?thesis
    using ids example_matrix conjunct1 [OF mp [OF spec [OF conjunct2 [OF exact]] some]] by (simp only: some option.sel simp_thms)
qed

text \<open>The same artifact, with the engines of the delivered and of the missing member.\<close>

definition example_engine :: "string \<Rightarrow> string \<Rightarrow> engine_row" where
  "example_engine engine account = \<lparr> er_engine_id = engine, er_account_ref = account, er_account_refs = [account], er_label = [],
     er_source_metadata = [], er_color_index = 1, er_first_event_ms = None, er_last_event_ms = None, er_event_count = 1,
     er_sensitivity = [], er_idx = 0, er_short = [], er_initials = [] \<rparr>"

theorem delivery_cells_exact_witness:
  "distinct (map dv_id (pj_observations (db_projections example_delivery))) \<and>
   distinct (map observation_key (pj_observations (db_projections example_delivery))) \<and>
   map vw_artifact (the (attach_delivery_matrices (\<lambda>v. None) (\<lambda>S. []) example_delivery 1 [example_artifact]
     (Some [example_engine ''e1'' ''alice'', example_engine ''e3'' ''bob'']))) = [example_artifact]"
proof -
  have ids: "distinct (map dv_id (pj_observations (db_projections example_delivery)))"
    and keys: "distinct (map observation_key (pj_observations (db_projections example_delivery)))"
    by (simp_all add: example_delivery_def example_observation_def observation_key_def)
  have hashable_id: "list_all hashable_recipients (recipient_expectations (db_projections example_delivery) example_artifact)"
    by (simp add: example_delivery_def empty_projections_def example_artifact_def recipient_expectations_def
        hashable_recipients_def expectation_identity_rows_def hashable_id_def)
  define shown where "shown = Some [example_engine ''e1'' ''alice'', example_engine ''e3'' ''bob'']"
  note exact = delivery_cells_exact [OF ids keys, where shown = shown and key_text = "\<lambda>v. None" and g = 1
      and pick = "\<lambda>S. []" and artifacts = "[example_artifact]", unfolded Let_def]
  have "attach_delivery_matrices (\<lambda>v. None) (\<lambda>S. []) example_delivery 1 [example_artifact] shown \<noteq> None"
    unfolding conjunct1 [OF exact] using hashable_id by simp
  then obtain views where some: "attach_delivery_matrices (\<lambda>v. None) (\<lambda>S. []) example_delivery 1 [example_artifact] shown = Some views"
    by blast
  have "map vw_artifact views = [example_artifact]"
    using conjunct1 [OF mp [OF spec [OF conjunct2 [OF exact]] some]] .
  then show ?thesis using ids keys some by (simp add: shown_def)
qed

end
