(* ===== verification/Group_Api.thy ===== *)
theory Group_Api
  imports Delivery_Matrix Export
begin

text \<open>
  The rows of the read API of \<^verbatim>\<open>forensics/views.py\<close>: which rows of each projection table a request selects,
  and the payload, the sensitive field paths and the severity of a row. A query set is the list of the rows that
  pass its filters, in the default order of the model; NULLs sort last. A filter on a related table keeps the
  rows that have some related row with the value, each filter on its own. A payload is the dictionary the code
  builds; the delivery payload, whose matrix is a list of records, is a \<^theory_text>\<open>record\<close> with the same keys.
\<close>

section \<open>Filters\<close>

definition text_ok :: "string \<Rightarrow> string \<Rightarrow> bool" where
  "text_ok wanted v \<longleftrightarrow> wanted = [] \<or> v = wanted"

definition int_ok :: "int option \<Rightarrow> int option \<Rightarrow> bool" where
  "int_ok wanted v \<longleftrightarrow> wanted = None \<or> v = wanted"

definition from_ok :: "int option \<Rightarrow> int option \<Rightarrow> bool" where
  "from_ok wanted v \<longleftrightarrow> (case wanted of None \<Rightarrow> True | Some t \<Rightarrow> (case v of None \<Rightarrow> False | Some u \<Rightarrow> t \<le> u))"

definition until_ok :: "int option \<Rightarrow> int option \<Rightarrow> bool" where
  "until_ok wanted v \<longleftrightarrow> (case wanted of None \<Rightarrow> True | Some t \<Rightarrow> (case v of None \<Rightarrow> False | Some u \<Rightarrow> u \<le> t))"

definition null_key :: "int option \<Rightarrow> bool \<times> int" where
  "null_key v = (v = None, (case v of None \<Rightarrow> 0 | Some t \<Rightarrow> t))"

definition apply_delivery_artifact_filters ::
  "database \<Rightarrow> 'f api_filters_scheme \<Rightarrow> delivery_artifact \<Rightarrow> bool" where
  "apply_delivery_artifact_filters db fl a \<longleftrightarrow>
     (let observations = filter (\<lambda>d. dv_artifact d = da_id a) (pj_observations (db_projections db));
          evidence = events_at (db_events db) (da_evidence_events a)
      in (fl_engine_id fl = [] \<or> list_ex (\<lambda>d. dv_engine_id d = fl_engine_id fl) observations) \<and>
         (fl_account_ref fl = [] \<or> list_ex (\<lambda>d. dv_account_ref d = fl_account_ref fl) observations) \<and>
         (fl_audit_data_mode fl = [] \<or> list_ex (\<lambda>e. ev_audit_data_mode e = fl_audit_data_mode fl) evidence) \<and>
         text_ok (fl_message_id fl) (da_artifact_id a) \<and>
         (fl_event_type fl = [] \<or> list_ex (\<lambda>e. ev_event_type e = fl_event_type fl) evidence) \<and>
         from_ok (fl_from_ms fl) (da_last_seen_ms a) \<and> until_ok (fl_to_ms fl) (da_first_seen_ms a))"

definition artifact_order :: "delivery_artifact \<Rightarrow> (bool \<times> int) \<times> string" where
  "artifact_order a = (null_key (da_first_seen_ms a), da_artifact_id a)"

definition filtered_delivery_artifacts :: "database \<Rightarrow> nat \<Rightarrow> 'f api_filters_scheme \<Rightarrow> delivery_artifact list" where
  "filtered_delivery_artifacts db g fl =
     sort_key artifact_order (filter (\<lambda>a. da_group a = g \<and> apply_delivery_artifact_filters db fl a)
       (pj_artifacts (db_projections db)))"

definition filtered_message_delivery_artifacts :: "database \<Rightarrow> string \<Rightarrow> 'f api_filters_scheme \<Rightarrow> delivery_artifact list" where
  "filtered_message_delivery_artifacts db message_id fl =
     sort_key artifact_order (filter (\<lambda>a. da_artifact_id a = message_id \<and> apply_delivery_artifact_filters db fl a)
       (pj_artifacts (db_projections db)))"

definition filtered_network_observations :: "database \<Rightarrow> nat \<Rightarrow> 'f api_filters_scheme \<Rightarrow> network_observation list" where
  "filtered_network_observations db g fl =
     sort_key (\<lambda>n. (null_key (no_wall_time_ms n), no_engine_id n)) (filter (\<lambda>n. no_group n = Some g \<and>
       text_ok (fl_engine_id fl) (no_engine_id n) \<and> text_ok (fl_account_ref fl) (no_account_ref n) \<and>
       text_ok (fl_audit_data_mode fl) (ev_audit_data_mode (event_at (db_events db) (no_audit_event n))) \<and>
       text_ok (fl_message_id fl) (no_message_id n) \<and> text_ok (fl_event_type fl) (no_phase n) \<and>
       from_ok (fl_from_ms fl) (no_wall_time_ms n) \<and> until_ok (fl_to_ms fl) (no_wall_time_ms n))
       (pj_network (db_projections db)))"

definition run_candidates :: "projections \<Rightarrow> convergence_run \<Rightarrow> convergence_candidate list" where
  "run_candidates pj r =
     sort_key (\<lambda>c. (null_key (cc_fork_epoch c), null_key (cc_tip_epoch c), cc_branch_id c))
       (filter (\<lambda>c. cc_run c = cr_id r) (pj_candidates pj))"

definition run_rules :: "projections \<Rightarrow> convergence_run \<Rightarrow> rule_evaluation list" where
  "run_rules pj r = sort_key ce_sequence (filter (\<lambda>x. ce_run x = cr_id r) (pj_rules pj))"

definition convergence_epoch_ok :: "database \<Rightarrow> int option \<Rightarrow> convergence_run \<Rightarrow> bool" where
  "convergence_epoch_ok db wanted r \<longleftrightarrow> wanted = None \<or>
     cr_current_tip_epoch r = wanted \<or> cr_selected_fork_epoch r = wanted \<or> cr_selected_tip_epoch r = wanted \<or>
     list_ex (\<lambda>c. cc_fork_epoch c = wanted \<or> cc_tip_epoch c = wanted) (run_candidates (db_projections db) r) \<or>
     list_ex (\<lambda>e. ev_epoch e = wanted \<or> ev_current_tip_epoch e = wanted \<or> ev_selected_fork_epoch e = wanted \<or>
       ev_selected_tip_epoch e = wanted) (events_at (db_events db) (cr_evidence_events r))"

definition filtered_convergence_runs :: "database \<Rightarrow> nat \<Rightarrow> 'f api_filters_scheme \<Rightarrow> convergence_run list" where
  "filtered_convergence_runs db g fl =
     sort_key (\<lambda>r. (null_key (cr_started_at_ms r), cr_engine_id r, cr_run_id r)) (filter (\<lambda>r. cr_group r = g \<and>
       text_ok (fl_engine_id fl) (cr_engine_id r) \<and> text_ok (fl_account_ref fl) (cr_account_ref r) \<and>
       (fl_audit_data_mode fl = [] \<or>
         list_ex (\<lambda>e. ev_audit_data_mode e = fl_audit_data_mode fl) (events_at (db_events db) (cr_evidence_events r))) \<and>
       convergence_epoch_ok db (fl_epoch fl) r \<and>
       (fl_event_type fl = [] \<or>
         list_ex (\<lambda>e. ev_event_type e = fl_event_type fl) (events_at (db_events db) (cr_evidence_events r))) \<and>
       from_ok (fl_from_ms fl) (cr_ended_at_ms r) \<and> until_ok (fl_to_ms fl) (cr_started_at_ms r))
       (pj_runs (db_projections db)))"

definition message_event_ok :: "string \<Rightarrow> audit_event \<Rightarrow> bool" where
  "message_event_ok wanted e \<longleftrightarrow> ev_msg_id e = wanted \<or> ev_outbound_msg_id e = wanted \<or> ev_invalidated_msg_id e = wanted"

definition filtered_state_deltas :: "database \<Rightarrow> nat \<Rightarrow> 'f api_filters_scheme \<Rightarrow> state_delta list" where
  "filtered_state_deltas db g fl =
     sort_key (\<lambda>d. (null_key (sd_epoch d), null_key (sd_wall_time_ms d))) (filter (\<lambda>d.
       let e = event_at (db_events db) (sd_audit_event d)
       in sd_group d = Some g \<and>
          text_ok (fl_engine_id fl) (ev_engine_id e) \<and> text_ok (fl_account_ref fl) (ev_account_ref e) \<and>
          text_ok (fl_audit_data_mode fl) (sd_audit_data_mode d) \<and>
          (fl_message_id fl = [] \<or> sd_origin_commit_id d = fl_message_id fl \<or> message_event_ok (fl_message_id fl) e) \<and>
          int_ok (fl_epoch fl) (sd_epoch d) \<and> text_ok (fl_event_type fl) (sd_change_kind d) \<and>
          from_ok (fl_from_ms fl) (sd_wall_time_ms d) \<and> until_ok (fl_to_ms fl) (sd_wall_time_ms d))
       (pj_deltas (db_projections db)))"

definition filtered_epoch_transitions :: "database \<Rightarrow> nat \<Rightarrow> 'f api_filters_scheme \<Rightarrow> epoch_transition list" where
  "filtered_epoch_transitions db g fl =
     sort_key (\<lambda>t. (null_key (et_wall_time_ms t), et_engine_id t)) (filter (\<lambda>t.
       let e = event_at (db_events db) (et_audit_event t)
       in et_group t = Some g \<and>
          text_ok (fl_engine_id fl) (et_engine_id t) \<and> text_ok (fl_account_ref fl) (et_account_ref t) \<and>
          text_ok (fl_audit_data_mode fl) (ev_audit_data_mode e) \<and>
          (fl_message_id fl = [] \<or> message_event_ok (fl_message_id fl) e) \<and>
          int_ok (fl_epoch fl) (et_epoch t) \<and> text_ok (fl_event_type fl) (et_new_state t) \<and>
          from_ok (fl_from_ms fl) (et_wall_time_ms t) \<and> until_ok (fl_to_ms fl) (et_wall_time_ms t))
       (pj_transitions (db_projections db)))"

definition filtered_audit_data_mode_changes :: "database \<Rightarrow> nat \<Rightarrow> 'f api_filters_scheme \<Rightarrow> audit_event list" where
  "filtered_audit_data_mode_changes db g fl =
     sort_key db_order_key (filter (\<lambda>e. counted_event (db_files db) e \<and> ev_group e = Some g \<and>
       ev_event_type e = ''audit_data_mode_changed'' \<and>
       text_ok (fl_engine_id fl) (ev_engine_id e) \<and> text_ok (fl_account_ref fl) (ev_account_ref e) \<and>
       text_ok (fl_audit_data_mode fl) (ev_audit_data_mode e) \<and>
       (fl_event_type fl = [] \<or> fl_event_type fl = ''audit_data_mode_changed'') \<and>
       from_ok (fl_from_ms fl) (ev_wall_time_ms e) \<and> until_ok (fl_to_ms fl) (ev_wall_time_ms e)) (db_events db))"

definition filtered_evidence_events :: "database \<Rightarrow> nat \<Rightarrow> 'f api_filters_scheme \<Rightarrow> audit_event list" where
  "filtered_evidence_events db g fl =
     sort_key db_order_key (filter (\<lambda>e. ev_group e = Some g \<and>
       text_ok (fl_engine_id fl) (ev_engine_id e) \<and> text_ok (fl_account_ref fl) (ev_account_ref e) \<and>
       text_ok (fl_audit_data_mode fl) (ev_audit_data_mode e) \<and>
       (fl_message_id fl = [] \<or> ev_msg_id e = fl_message_id fl \<or> ev_outbound_msg_id e = fl_message_id fl) \<and>
       text_ok (fl_event_type fl) (ev_event_type e) \<and>
       (fl_epoch fl = None \<or> ev_epoch e = fl_epoch fl \<or> ev_source_epoch e = fl_epoch fl \<or> ev_to_epoch e = fl_epoch fl \<or>
         ev_pending_epoch e = fl_epoch fl \<or> ev_current_tip_epoch e = fl_epoch fl \<or> ev_selected_tip_epoch e = fl_epoch fl) \<and>
       from_ok (fl_from_ms fl) (ev_wall_time_ms e) \<and> until_ok (fl_to_ms fl) (ev_wall_time_ms e)) (db_events db))"

section \<open>Sensitive fields\<close>

definition delivery_artifact_sensitive_field_paths :: "delivery_artifact \<Rightarrow> string list" where
  "delivery_artifact_sensitive_field_paths a =
     (let author = dict_of (da_author a); app_event = dict_of (da_decoded_app_event a)
      in (if truthy (da_decoded_payload a) then [''decoded_payload''] else []) @
         (if truthy (da_decoded_app_event a) then [''decoded_app_event''] else []) @
         (if truthy (dict_get author ''account_pubkey_hex'') then [''author.account_pubkey_hex''] else []) @
         (if truthy (dict_get author ''npub'') then [''author.npub''] else []) @
         (if truthy (dict_get app_event ''pubkey_hex'') then [''decoded_app_event.pubkey_hex''] else []) @
         (if truthy (dict_get app_event ''content'') then [''decoded_app_event.content''] else []))"

definition network_sensitive_field_paths :: "network_observation \<Rightarrow> string list" where
  "network_sensitive_field_paths n =
     map fst (filter (\<lambda>(field, v). v \<noteq> []) [
       (''wire_id'', no_wire_id n),
       (''wire_pubkey_hex'', no_wire_pubkey_hex n),
       (''transport_group_id'', no_transport_group_id n),
       (''nostr_event_id'', no_nostr_event_id n),
       (''nostr_pubkey_hex'', no_nostr_pubkey_hex n),
       (''gift_wrap_event_id'', no_gift_wrap_event_id n),
       (''welcome_nostr_event_id'', no_welcome_nostr_event_id n),
       (''welcome_rumor_event_id'', no_welcome_rumor_event_id n),
       (''welcome_key_package_tag'', no_welcome_key_package_tag n),
       (''publish_result_id'', no_publish_result_id n)])"

definition convergence_sensitive_field_paths :: "projections \<Rightarrow> convergence_run \<Rightarrow> string list" where
  "convergence_sensitive_field_paths pj r =
     (if cr_account_ref r \<noteq> [] then [''account_ref''] else []) @
     (if list_ex (\<lambda>c. cc_tip_committer_pubkey_hex c \<noteq> []) (run_candidates pj r)
      then [''candidates[].tip_committer_pubkey_hex''] else [])"

definition state_delta_sensitive_field_paths :: "state_delta \<Rightarrow> string list" where
  "state_delta_sensitive_field_paths d =
     (if sd_actor_pubkey_hex d \<noteq> [] then [''actor_pubkey_hex''] else []) @
     (if sd_subject_pubkey_hex d \<noteq> [] then [''subject_pubkey_hex''] else []) @
     (if truthy (dict_get (sd_value d) ''text'') then [''value.text''] else [])"

definition audit_data_mode_change_sensitive_field_paths :: "audit_event \<Rightarrow> string list" where
  "audit_data_mode_change_sensitive_field_paths e =
     (if ev_engine_id e \<noteq> [] then [''engine_id''] else []) @
     (if ev_account_ref e \<noteq> [] then [''account_ref''] else []) @
     (if ev_recorder_session_id e \<noteq> [] then [''recorder_session_id''] else [])"

definition evidence_row_sensitive_field_paths :: "audit_event \<Rightarrow> string list" where
  "evidence_row_sensitive_field_paths e =
     [''line_hash'', ''event_type''] @
     (if ev_engine_id e \<noteq> [] then [''engine_id''] else []) @
     (if ev_account_ref e \<noteq> [] then [''account_ref''] else []) @
     (if ev_msg_id e \<noteq> [] then [''message_id''] else []) @
     (if ev_outbound_msg_id e \<noteq> [] then [''outbound_msg_id''] else []) @
     (if ev_recorder_session_id e \<noteq> [] then [''recorder_session_id''] else []) @
     (if ev_audit_data_mode e = FULL_DATA_AUDIT_MODE then [''audit_data_mode:full_data''] else [])"

section \<open>Severity\<close>

definition delivery_payload_severity :: "recipient_row list \<Rightarrow> observation_payload list \<Rightarrow> string" where
  "delivery_payload_severity matrix observations =
     (if list_ex (\<lambda>row. rr_status row \<in> {''missing_inferred'', ''missing_count_inferred'', ''partial_count_inferred'',
           ''observed_count_exceeds_expected'', ''unobserved_no_uploaded_engine''}) matrix
      then ''warning''
      else severity_from_values (map (\<lambda>d. JStr (op_latest_state d)) observations))"

definition network_payload_severity :: "dict \<Rightarrow> string" where
  "network_payload_severity payload =
     (let severity = severity_from_values [dict_get payload ''phase'', dict_get payload ''outcome'']
      in if severity = ''error'' then severity
         else if dict_get payload ''met_required_acks'' = JBool False \<or> truthy (dict_get payload ''failed_relays'') then ''warning''
         else severity)"

definition convergence_payload_severity :: "dict \<Rightarrow> string" where
  "convergence_payload_severity payload =
     (let severity = severity_from_values [dict_get payload ''phase'', dict_get payload ''error_kinds''];
          candidates = map dict_of (list_of (dict_get payload ''candidates''))
      in if severity = ''error'' then severity
         else if list_ex (\<lambda>c. dict_get c ''eligible'' = JBool False) candidates then ''warning''
         else if list_ex (\<lambda>c. truthy (dict_get c ''rejection_reasons'')) candidates then ''warning''
         else severity)"

definition state_delta_payload_severity :: "dict \<Rightarrow> string" where
  "state_delta_payload_severity payload =
     severity_from_values [dict_get payload ''change_kind'', dict_get payload ''fields'']"

definition epoch_transition_payload_severity :: "dict \<Rightarrow> string" where
  "epoch_transition_payload_severity payload =
     severity_from_values [dict_get payload ''previous_state'', dict_get payload ''new_state'', dict_get payload ''reason'']"

definition evidence_row_payload_severity :: "dict \<Rightarrow> string" where
  "evidence_row_payload_severity payload =
     (if dict_get payload ''parse_status'' \<noteq> JStr (status_str STATUS_VALID) then ''error''
      else (let severity = severity_from_values
                  [dict_get payload ''event_type'', dict_get payload ''validation_error'', dict_get payload ''summary'']
            in if severity = ''info'' \<and> dict_get payload ''audit_data_mode'' = JStr FULL_DATA_AUDIT_MODE then ''warning''
               else severity))"

definition audit_data_mode_change_payload_severity :: "dict \<Rightarrow> string" where
  "audit_data_mode_change_payload_severity payload =
     (if dict_get payload ''new_mode'' = JStr FULL_DATA_AUDIT_MODE then ''warning''
      else severity_from_values [dict_get payload ''reason''])"

text \<open>\<^verbatim>\<open>payload["severity"] = f(payload)\<close>.\<close>

definition with_severity :: "(dict \<Rightarrow> string) \<Rightarrow> dict \<Rightarrow> dict" where
  "with_severity f payload = payload @ [(''severity'', JStr (f payload))]"

definition mode_list :: "string \<Rightarrow> string list" where
  "mode_list mode = (if mode \<noteq> [] then [mode] else [])"

section \<open>Payloads\<close>

definition network_observation_payload :: "audit_event list \<Rightarrow> network_observation \<Rightarrow> dict" where
  "network_observation_payload events n = with_severity network_payload_severity [
     (''direction'', JStr (no_direction n)),
     (''phase'', JStr (no_phase n)),
     (''message_id'', JStr (no_message_id n)),
     (''artifact_kind'', JStr (no_artifact_kind n)),
     (''engine_id'', JStr (no_engine_id n)),
     (''account_ref'', JStr (no_account_ref n)),
     (''wall_time_ms'', j_int (no_wall_time_ms n)),
     (''transport_source'', JStr (no_transport_source n)),
     (''delivery_plane'', JStr (no_delivery_plane n)),
     (''relay_url'', JStr (no_relay_url n)),
     (''subscription_id'', JStr (no_subscription_id n)),
     (''wire_id'', JStr (no_wire_id n)),
     (''wire_kind'', JStr (no_wire_kind n)),
     (''wire_pubkey_hex'', JStr (no_wire_pubkey_hex n)),
     (''transport_group_id'', JStr (no_transport_group_id n)),
     (''nostr_event_id'', JStr (no_nostr_event_id n)),
     (''nostr_kind'', j_int (no_nostr_kind n)),
     (''nostr_pubkey_hex'', JStr (no_nostr_pubkey_hex n)),
     (''gift_wrap_event_id'', JStr (no_gift_wrap_event_id n)),
     (''welcome_nostr_event_id'', JStr (no_welcome_nostr_event_id n)),
     (''welcome_rumor_event_id'', JStr (no_welcome_rumor_event_id n)),
     (''welcome_key_package_tag'', JStr (no_welcome_key_package_tag n)),
     (''publish_result_id'', JStr (no_publish_result_id n)),
     (''payload_len'', j_int (no_payload_len n)),
     (''payload_digest'', JStr (no_payload_digest n)),
     (''outcome'', JStr (no_outcome n)),
     (''accepted_relay_urls'', j_strs (no_accepted_relay_urls n)),
     (''failed_relays'', JList (no_failed_relays n)),
     (''required_acks'', j_int (no_required_acks n)),
     (''met_required_acks'', j_bool (no_met_required_acks n)),
     (''sensitivity'', JObj (sensitivity_payload (network_sensitive_field_paths n) (mode_list (ev_audit_data_mode (event_at events (no_audit_event n)))))),
     (''evidence_ref'', JObj (evidence_ref_payload (event_at events (no_audit_event n))))]"

definition candidate_payload :: "dict list \<Rightarrow> convergence_candidate \<Rightarrow> dict" where
  "candidate_payload decision_refs c = [
     (''branch_id'', JStr (cc_branch_id c)),
     (''fork_epoch'', j_int (cc_fork_epoch c)),
     (''tip_epoch'', j_int (cc_tip_epoch c)),
     (''commit_ids'', JList (cc_commit_ids c)),
     (''commit_count'', j_int (cc_commit_count c)),
     (''state_digest'', JStr (cc_state_digest c)),
     (''tip_digest'', JStr (cc_tip_digest c)),
     (''tip_priority'', JStr (cc_tip_priority c)),
     (''tip_committer_ref'', JStr (cc_tip_committer_ref c)),
     (''tip_committer_pubkey_hex'', JStr (cc_tip_committer_pubkey_hex c)),
     (''retained_anchor_status'', JStr (cc_retained_anchor_status c)),
     (''last_input_time_ms'', j_int (cc_last_input_time_ms c)),
     (''eligible'', j_bool (cc_eligible c)),
     (''rejection_reasons'', JList (cc_rejection_reasons c)),
     (''score'', JObj (cc_score c)),
     (''app_witnesses'', JList (cc_app_witnesses c)),
     (''evidence_refs'', JList (map JObj decision_refs))]"

definition rule_payload :: "dict list \<Rightarrow> rule_evaluation \<Rightarrow> dict" where
  "rule_payload decision_refs x = [
     (''rule_name'', JStr (ce_rule_name x)),
     (''scope'', JStr (ce_scope x)),
     (''candidate_branch_id'', JStr (ce_candidate_branch_id x)),
     (''other_candidate_branch_id'', JStr (ce_other_candidate_branch_id x)),
     (''inputs'', JObj (ce_inputs x)),
     (''result'', ce_result x),
     (''decisive'', JBool (ce_decisive x)),
     (''selected_branch_id'', JStr (ce_selected_branch_id x)),
     (''rejected_branch_id'', JStr (ce_rejected_branch_id x)),
     (''sequence'', j_nat (ce_sequence x)),
     (''evidence_refs'', JList (map JObj decision_refs))]"

definition convergence_run_payload :: "database \<Rightarrow> convergence_run \<Rightarrow> dict" where
  "convergence_run_payload db r =
     (let evidence_refs = evidence_refs_payload (db_events db) (cr_evidence_events r);
          decision_evidence_refs = filter (\<lambda>ref. dict_get ref ''event_type'' = JStr ''convergence_decision'') evidence_refs
      in with_severity convergence_payload_severity [
     (''run_id'', JStr (cr_run_id r)),
     (''engine_id'', JStr (cr_engine_id r)),
     (''account_ref'', JStr (cr_account_ref r)),
     (''inferred'', JBool (cr_inferred r)),
     (''phase'', JStr (cr_phase r)),
     (''started_at_ms'', j_int (cr_started_at_ms r)),
     (''ended_at_ms'', j_int (cr_ended_at_ms r)),
     (''current_tip_epoch'', j_int (cr_current_tip_epoch r)),
     (''selected_branch_id'', JStr (cr_selected_branch_id r)),
     (''selected_fork_epoch'', j_int (cr_selected_fork_epoch r)),
     (''selected_tip_epoch'', j_int (cr_selected_tip_epoch r)),
     (''max_rewind_commits'', j_int (cr_max_rewind_commits r)),
     (''losing_branch_ids'', JList (cr_losing_branch_ids r)),
     (''error_kinds'', JList (cr_error_kinds r)),
     (''sensitivity'', JObj (sensitivity_payload (convergence_sensitive_field_paths (db_projections db) r) [])),
     (''evidence_refs'', JList (map JObj evidence_refs)),
     (''candidates'', JList (map (\<lambda>c. JObj (candidate_payload decision_evidence_refs c)) (run_candidates (db_projections db) r))),
     (''rule_evaluations'', JList (map (\<lambda>x. JObj (rule_payload decision_evidence_refs x)) (run_rules (db_projections db) r)))])"

definition state_delta_payload :: "audit_event list \<Rightarrow> state_delta \<Rightarrow> dict" where
  "state_delta_payload events d = with_severity state_delta_payload_severity [
     (''epoch'', j_int (sd_epoch d)),
     (''change_kind'', JStr (sd_change_kind d)),
     (''membership_change_source'', JStr (sd_membership_change_source d)),
     (''actor_member_ref'', JStr (sd_actor_member_ref d)),
     (''actor_pubkey_hex'', JStr (sd_actor_pubkey_hex d)),
     (''subject_member_ref'', JStr (sd_subject_member_ref d)),
     (''subject_pubkey_hex'', JStr (sd_subject_pubkey_hex d)),
     (''origin_commit_id'', JStr (sd_origin_commit_id d)),
     (''fields'', JList (sd_fields d)),
     (''component_ids'', JList (sd_component_ids d)),
     (''value'', JObj (sd_value d)),
     (''audit_data_mode'', JStr (sd_audit_data_mode d)),
     (''wall_time_ms'', j_int (sd_wall_time_ms d)),
     (''sensitivity'', JObj (sensitivity_payload (state_delta_sensitive_field_paths d) (mode_list (sd_audit_data_mode d)))),
     (''evidence_ref'', JObj (evidence_ref_payload (event_at events (sd_audit_event d))))]"

definition epoch_transition_payload :: "audit_event list \<Rightarrow> epoch_transition \<Rightarrow> dict" where
  "epoch_transition_payload events t = with_severity epoch_transition_payload_severity [
     (''engine_id'', JStr (et_engine_id t)),
     (''account_ref'', JStr (et_account_ref t)),
     (''previous_state'', JStr (et_previous_state t)),
     (''new_state'', JStr (et_new_state t)),
     (''epoch'', j_int (et_epoch t)),
     (''reason'', JStr (et_reason t)),
     (''pending_ref'', j_int (et_pending_ref t)),
     (''pending_kind'', JStr (et_pending_kind t)),
     (''wall_time_ms'', j_int (et_wall_time_ms t)),
     (''evidence_ref'', JObj (evidence_ref_payload (event_at events (et_audit_event t))))]"

text \<open>The event with the file it belongs to.\<close>

definition evidence_row_payload :: "audit_event \<Rightarrow> audit_file \<Rightarrow> dict" where
  "evidence_row_payload e f = with_severity evidence_row_payload_severity [
     (''evidence_ref'', JObj (evidence_ref_payload e)),
     (''parse_status'', JStr (status_str (ev_parse_status e))),
     (''validation_error'', JStr (ev_validation_error e)),
     (''seq'', j_int (ev_seq e)),
     (''schema_version'', JStr (ev_schema_version e)),
     (''recorder_session_id'', JStr (ev_recorder_session_id e)),
     (''audit_data_mode'', JStr (ev_audit_data_mode e)),
     (''account_ref'', JStr (ev_account_ref e)),
     (''engine_id'', JStr (ev_engine_id e)),
     (''group_ref'', JStr (ev_group_ref e)),
     (''event_type'', JStr (ev_event_type e)),
     (''message_id'', JStr (ev_msg_id e)),
     (''outbound_msg_id'', JStr (ev_outbound_msg_id e)),
     (''wall_time_ms'', j_int (ev_wall_time_ms e)),
     (''summary'', dict_get (event_row e) ''summary''),
     (''sensitivity'', JObj (sensitivity_payload (evidence_row_sensitive_field_paths e) (mode_list (ev_audit_data_mode e)))),
     (''source_file'', JObj [(''id'', j_nat (af_id f)), (''source_name'', JStr (af_source_name f)),
       (''validation_status'', JStr (status_str (af_validation_status f))), (''file_sha256'', JStr (af_file_sha256 f))])]"

definition audit_data_mode_change_payload :: "audit_event \<Rightarrow> dict" where
  "audit_data_mode_change_payload e =
     (let kind = raw_kind_of e
      in with_severity audit_data_mode_change_payload_severity [
     (''engine_id'', JStr (ev_engine_id e)),
     (''account_ref'', JStr (ev_account_ref e)),
     (''recorder_session_id'', JStr (ev_recorder_session_id e)),
     (''wall_time_ms'', j_int (ev_wall_time_ms e)),
     (''previous_mode'', JStr (py_str (py_or (dict_get kind ''previous_mode'') (JStr [])))),
     (''new_mode'', JStr (py_str (py_or (py_or (dict_get kind ''new_mode'') (JStr (ev_outcome e))) (JStr [])))),
     (''reason'', JStr (py_str (py_or (py_or (dict_get kind ''reason'') (JStr (ev_reason e))) (JStr [])))),
     (''recorder_restarted'', j_bool (bool_or_none (dict_get kind ''recorder_restarted''))),
     (''audit_data_mode'', JStr (ev_audit_data_mode e)),
     (''sensitivity'', JObj (sensitivity_payload (audit_data_mode_change_sensitive_field_paths e) (mode_list (ev_audit_data_mode e)))),
     (''evidence_ref'', JObj (evidence_ref_payload e))])"

record delivery_payload =
  dp_artifact_id :: string
  dp_artifact_kind :: string
  dp_first_seen_ms :: "int option"
  dp_last_seen_ms :: "int option"
  dp_audit_data_modes :: "string list"
  dp_author :: json
  dp_decoded_payload :: json
  dp_decoded_app_event :: json
  dp_sensitivity :: dict
  dp_evidence_refs :: "dict list"
  dp_engine_observations :: "observation_payload list"
  dp_recipient_expectations :: "dict list"
  dp_recipient_matrix :: "recipient_row list"
  dp_severity :: string

definition expectation_payload :: "audit_event list \<Rightarrow> recipient_expectation \<Rightarrow> dict" where
  "expectation_payload events x = [
     (''recipient_scope'', JStr (re_recipient_scope x)),
     (''artifact_kind'', JStr (re_artifact_kind x)),
     (''membership_epoch'', j_int (re_membership_epoch x)),
     (''basis_commit_id'', JStr (re_basis_commit_id x)),
     (''expected_member_refs'', JList (re_expected_member_refs x)),
     (''expected_pubkeys_hex'', JList (re_expected_pubkeys_hex x)),
     (''expected_count'', j_int (re_expected_count x)),
     (''evidence_ref'', JObj (evidence_ref_payload (event_at events (re_evidence_event x))))]"

definition delivery_artifact_payload ::
  "(string set \<Rightarrow> string) \<Rightarrow> database \<Rightarrow> identities \<Rightarrow> delivery_artifact \<Rightarrow> delivery_payload option" where
  "delivery_artifact_payload pick db idx a =
     (let observations = map (delivery_observation_payload (db_events db)) (engine_observations (db_projections db) a)
      in map_option (\<lambda>matrix. \<lparr>
           dp_artifact_id = da_artifact_id a, dp_artifact_kind = da_artifact_kind a,
           dp_first_seen_ms = da_first_seen_ms a, dp_last_seen_ms = da_last_seen_ms a,
           dp_audit_data_modes = da_audit_data_modes a, dp_author = da_author a,
           dp_decoded_payload = da_decoded_payload a, dp_decoded_app_event = da_decoded_app_event a,
           dp_sensitivity = sensitivity_payload (delivery_artifact_sensitive_field_paths a) (da_audit_data_modes a),
           dp_evidence_refs = evidence_refs_payload (db_events db) (da_evidence_events a),
           dp_engine_observations = observations,
           dp_recipient_expectations = map (expectation_payload (db_events db)) (recipient_expectations (db_projections db) a),
           dp_recipient_matrix = matrix,
           dp_severity = delivery_payload_severity matrix observations \<rparr>)
         (delivery_recipient_matrix pick db a idx))"

definition convergence_payload_matches_filters :: "dict \<Rightarrow> string \<Rightarrow> bool" where
  "convergence_payload_matches_filters payload message_id \<longleftrightarrow> message_id = [] \<or>
     JStr message_id \<in> set (list_of (dict_get payload ''losing_branch_ids'')) \<or>
     JStr message_id = dict_get payload ''selected_branch_id'' \<or>
     list_ex (\<lambda>c. JStr message_id = dict_get (dict_of c) ''branch_id'' \<or>
       JStr message_id \<in> set (list_of (dict_get (dict_of c) ''commit_ids''))) (list_of (dict_get payload ''candidates'')) \<or>
     list_ex (\<lambda>ref. JStr message_id = dict_get (dict_of ref) ''message_id'') (list_of (dict_get payload ''evidence_refs''))"

section \<open>The group\<close>

definition group_summary_header_context :: "database \<Rightarrow> nat \<Rightarrow> dict \<times> dict" where
  "group_summary_header_context db g =
     (let valid = filter (\<lambda>e. counted_event (db_files db) e \<and> ev_group e = Some g) (db_events db);
          pj = db_projections db;
          distinct_count = (\<lambda>f. card (set (filter (\<lambda>s. s \<noteq> []) (map f valid))));
          file_count = length (filter (\<lambda>f. g \<in> set (af_groups f)) (db_files db));
          invalid_event_count = length (filter (\<lambda>e. ev_group e = Some g \<and> ev_parse_status e = STATUS_INVALID) (db_events db));
          delivery_count = length (filter (\<lambda>a. da_group a = g) (pj_artifacts pj));
          network_count = length (filter (\<lambda>n. no_group n = Some g) (pj_network pj));
          convergence_count = length (filter (\<lambda>r. cr_group r = g) (pj_runs pj));
          state_count = length (filter (\<lambda>d. sd_group d = Some g) (pj_deltas pj)) +
            length (filter (\<lambda>t. et_group t = Some g) (pj_transitions pj))
      in ([(''file_count'', j_nat file_count),
           (''event_count'', j_nat (length valid)),
           (''invalid_event_count'', j_nat invalid_event_count),
           (''engine_count'', j_nat (distinct_count ev_engine_id)),
           (''group_count'', j_nat (distinct_count ev_group_ref)),
           (''message_count'', j_nat (distinct_count ev_msg_id)),
           (''raw_message_count'', j_nat (distinct_count ev_msg_id)),
           (''delivery_count'', j_nat delivery_count),
           (''network_count'', j_nat network_count),
           (''convergence_count'', j_nat convergence_count),
           (''state_count'', j_nat state_count)],
          [(''overview'', j_nat (length valid)),
           (''delivery'', j_nat delivery_count),
           (''network'', j_nat network_count),
           (''convergence'', j_nat convergence_count),
           (''state'', j_nat state_count),
           (''evidence'', j_nat file_count),
           (''exports'', JStr [])]))"

definition audit_data_modes_for_group :: "database \<Rightarrow> nat \<Rightarrow> (string \<times> nat) list" where
  "audit_data_modes_for_group db g =
     (let modes = concat (map af_audit_data_modes (filter (\<lambda>f. g \<in> set (af_groups f)) (db_files db)))
      in map (\<lambda>m. (m, count_list modes m)) (sorted_set modes))"

definition group_api_payload :: "database \<Rightarrow> audit_group \<Rightarrow> dict" where
  "group_api_payload db g =
     (let (summary, tab_counts) = group_summary_header_context db (g_id g)
      in [(''slug'', JStr (g_slug g)), (''name'', JStr (g_name g)), (''group_ref'', JStr (g_group_ref g)),
          (''summary'', JObj summary), (''tab_counts'', JObj tab_counts), (''updated_at'', JInt (g_updated_at g))])"

definition group_classification :: "database \<Rightarrow> nat \<Rightarrow> dict" where
  "group_classification db g =
     (let modes = map fst (audit_data_modes_for_group db g);
          full = JBool (FULL_DATA_AUDIT_MODE \<in> set modes)
      in [(''audit_data_modes'', j_strs modes), (''contains_full_data'', full),
          (''may_include_decrypted_message_content'', full), (''may_include_full_transport_identifiers'', full)])"

section \<open>The message filter on convergence runs\<close>

text \<open>
  A convergence run matches a message id exactly when the id is one of its losing branches, the selected
  branch, a candidate's branch or a commit of a candidate. The last test of the code, on the evidence
  references, never holds: a reference carries no \<^verbatim>\<open>message_id\<close>.
\<close>

theorem convergence_message_filter_exact:
  "convergence_payload_matches_filters (convergence_run_payload db r) message_id \<longleftrightarrow>
     message_id = [] \<or> JStr message_id \<in> set (cr_losing_branch_ids r) \<or> message_id = cr_selected_branch_id r \<or>
     (\<exists>c \<in> set (run_candidates (db_projections db) r).
        message_id = cc_branch_id c \<or> JStr message_id \<in> set (cc_commit_ids c))"
proof -
  have no_id: "dict_get (evidence_ref_payload e) ''message_id'' = JNull" for e
    by (simp add: evidence_ref_payload_def)
  have entries:
    "dict_get (convergence_run_payload db r) ''losing_branch_ids'' = JList (cr_losing_branch_ids r)"
    "dict_get (convergence_run_payload db r) ''selected_branch_id'' = JStr (cr_selected_branch_id r)"
    "dict_get (convergence_run_payload db r) ''evidence_refs'' = JList (map JObj (evidence_refs_payload (db_events db) (cr_evidence_events r)))"
    "\<exists>refs. dict_get (convergence_run_payload db r) ''candidates'' =
       JList (map (\<lambda>c. JObj (candidate_payload refs c)) (run_candidates (db_projections db) r))"
    by (simp_all add: convergence_run_payload_def with_severity_def Let_def) blast
  then obtain refs where candidates: "dict_get (convergence_run_payload db r) ''candidates'' =
      JList (map (\<lambda>c. JObj (candidate_payload refs c)) (run_candidates (db_projections db) r))" by blast
  have candidate: "dict_get (candidate_payload refs c) ''branch_id'' = JStr (cc_branch_id c)"
    "dict_get (candidate_payload refs c) ''commit_ids'' = JList (cc_commit_ids c)" for c
    by (simp_all add: candidate_payload_def)
  show ?thesis
    unfolding convergence_payload_matches_filters_def entries candidates
    by (simp add: list_ex_iff candidate no_id evidence_refs_payload_def)
qed

end
