(* ===== verification/Stream_Export.thy ===== *)
theory Stream_Export
  imports Group_Api Upload_Api "HOL-Library.Sublist"
begin

text \<open>
  The streaming group export: the line generator of \<^verbatim>\<open>forensics/streaming.py\<close> and the endpoint
  \<^verbatim>\<open>api_group_export_stream\<close> of \<^verbatim>\<open>forensics/views.py\<close> with \<^verbatim>\<open>authenticate_reader\<close>. A line is given by
  the object that is written on it. A section carries the payloads of its rows in the order of the query; \<open>None\<close> is
  a payload whose construction raises, at which the generator stops. The rows are read from one state of the
  database.
\<close>

section \<open>Lines\<close>

datatype export_payload =
    SourceRow dict
  | EventRow agent_event
  | DeliveryRow delivery_payload
  | PlainRow dict

record export_section =
  xs_record_type :: string
  xs_payloads :: "export_payload option list"

record export_manifest =
  mf_schema_version :: string
  mf_generated_at :: int
  mf_group :: dict
  mf_classification :: dict
  mf_sensitivity :: dict
  mf_sections :: "string list"

datatype export_line =
    ManifestLine export_manifest
  | RecordLine string export_payload
  | EofLine "(string \<times> nat) list"
  | ErrorLine

text \<open>The lines of a section, and its count unless a payload raised.\<close>

fun stream_section :: "string \<Rightarrow> export_payload option list \<Rightarrow> nat \<Rightarrow> export_line list \<times> nat option" where
  "stream_section record_type [] n = ([], Some n)"
| "stream_section record_type (None # rows) n = ([], None)"
| "stream_section record_type (Some payload # rows) n =
     (let (rest, result) = stream_section record_type rows (Suc n) in (RecordLine record_type payload # rest, result))"

fun stream_sections :: "export_section list \<Rightarrow> (string \<times> nat) list \<Rightarrow> export_line list" where
  "stream_sections [] counts = [EofLine counts]"
| "stream_sections (s # ss) counts =
     (case stream_section (xs_record_type s) (xs_payloads s) 0 of
        (rows, None) \<Rightarrow> rows @ [ErrorLine]
      | (rows, Some n) \<Rightarrow> rows @ stream_sections ss (AList.update (xs_record_type s) n counts))"

definition stream_ndjson :: "export_manifest \<Rightarrow> export_section list \<Rightarrow> export_line list" where
  "stream_ndjson manifest sections = ManifestLine manifest # stream_sections sections []"

section \<open>The endpoint\<close>

definition GROUP_EXPORT_SCHEMA_VERSION :: string where
  "GROUP_EXPORT_SCHEMA_VERSION = ''goggles-group-export/v1''"

definition EXPORT_SENSITIVITY :: dict where
  "EXPORT_SENSITIVITY = [(''classification'', JStr ''sensitive_forensic_export''),
     (''contains'', j_strs EXPORT_CONTAINS), (''omits'', j_strs EXPORT_OMITS)]"

definition authenticate_reader ::
  "deployment \<Rightarrow> int \<Rightarrow> nat set \<Rightarrow> bool \<Rightarrow> string option \<Rightarrow> access_token list \<Rightarrow> access_token list \<times> bool" where
  "authenticate_reader dp now active_users logged_in authorization rows =
     (if logged_in then (rows, True)
      else (case authenticate_access_token (dp_hmac dp) (dp_settings dp) now active_users rows (bearer_value authorization) of
              (rows', None) \<Rightarrow> (rows', False)
            | (rows', Some t) \<Rightarrow> (mark_used now t rows', True)))"

definition section_of :: "string \<Rightarrow> 'r list \<Rightarrow> ('r \<Rightarrow> export_payload option) \<Rightarrow> export_section" where
  "section_of record_type rows to_payload = \<lparr> xs_record_type = record_type, xs_payloads = map to_payload rows \<rparr>"

definition export_sections ::
  "(json \<Rightarrow> string option) \<Rightarrow> (string set \<Rightarrow> string) \<Rightarrow> database \<Rightarrow> nat \<Rightarrow> export_section list" where
  "export_sections key_text pick db g =
     (let filters = default_api_filters;
          identity_index = delivery_identity_index key_text (db_events db) g;
          events = db_events db
      in [section_of ''source'' (audit_files_for_group db g) (\<lambda>f. Some (SourceRow (agent_source_row db g f))),
          section_of ''event'' (valid_events_for_group (db_files db) events g) (\<lambda>e. Some (EventRow (agent_event_row e))),
          section_of ''delivery_artifact'' (filtered_delivery_artifacts db g filters)
            (\<lambda>a. map_option DeliveryRow (delivery_artifact_payload pick db identity_index a)),
          section_of ''network_observation'' (filtered_network_observations db g filters)
            (\<lambda>n. Some (PlainRow (network_observation_payload events n))),
          section_of ''convergence_run'' (filtered_convergence_runs db g filters)
            (\<lambda>r. Some (PlainRow (convergence_run_payload db r))),
          section_of ''state_delta'' (filtered_state_deltas db g filters)
            (\<lambda>d. Some (PlainRow (state_delta_payload events d))),
          section_of ''epoch_state_transition'' (filtered_epoch_transitions db g filters)
            (\<lambda>t. Some (PlainRow (epoch_transition_payload events t))),
          section_of ''audit_data_mode_change'' (filtered_audit_data_mode_changes db g filters)
            (\<lambda>e. Some (PlainRow (audit_data_mode_change_payload e)))])"

definition export_manifest_of :: "database \<Rightarrow> int \<Rightarrow> audit_group \<Rightarrow> export_section list \<Rightarrow> export_manifest" where
  "export_manifest_of db now g sections =
     \<lparr> mf_schema_version = GROUP_EXPORT_SCHEMA_VERSION, mf_generated_at = now, mf_group = group_api_payload db g,
       mf_classification = group_classification db (g_id g), mf_sensitivity = EXPORT_SENSITIVITY,
       mf_sections = map xs_record_type sections \<rparr>"

datatype export_response = ExportError nat string | ExportStream "export_line list"

definition api_group_export_stream ::
  "deployment \<Rightarrow> (json \<Rightarrow> string option) \<Rightarrow> (string set \<Rightarrow> string) \<Rightarrow> bool \<Rightarrow> int \<Rightarrow> nat set \<Rightarrow> bool \<Rightarrow> string option \<Rightarrow> string
     \<Rightarrow> service \<Rightarrow> service \<times> export_response" where
  "api_group_export_stream dp key_text pick exports_enabled now active_users logged_in authorization slug sv =
     (if \<not> exports_enabled then (sv, ExportError 503 ''exports are temporarily disabled'')
      else (case authenticate_reader dp now active_users logged_in authorization (sv_access_tokens sv) of
              (rows, False) \<Rightarrow> (sv\<lparr>sv_access_tokens := rows\<rparr>, ExportError 401 ''authentication required'')
            | (rows, True) \<Rightarrow>
                (sv\<lparr>sv_access_tokens := rows\<rparr>,
                 (case find (\<lambda>g. g_slug g = slug) (db_groups (sv_db sv)) of
                    None \<Rightarrow> ExportError 404 ''not found''
                  | Some g \<Rightarrow>
                      (let sections = export_sections key_text pick (sv_db sv) (g_id g)
                       in ExportStream (stream_ndjson (export_manifest_of (sv_db sv) now g sections) sections))))))"

section \<open>A stream is complete or says so\<close>

definition built :: "export_section \<Rightarrow> bool" where
  "built s \<longleftrightarrow> None \<notin> set (xs_payloads s)"

definition record_lines :: "export_section \<Rightarrow> export_line list" where
  "record_lines s = map (RecordLine (xs_record_type s)) (the_list (xs_payloads s))"

definition section_counts :: "export_section list \<Rightarrow> (string \<times> nat) list" where
  "section_counts sections = fold (\<lambda>s. AList.update (xs_record_type s) (length (xs_payloads s))) sections []"

lemma stream_section_eq:
  "stream_section rt rows n =
     (map (RecordLine rt \<circ> the) (takeWhile (\<lambda>p. p \<noteq> None) rows), if None \<in> set rows then None else Some (n + length rows))"
  by (induction rt rows n rule: stream_section.induct) auto

lemma takeWhile_prefix_the: "prefix (map the (takeWhile (\<lambda>p. p \<noteq> None) rows)) (the_list rows)"
  by (induction rows) (auto simp: the_list_def)

lemma stream_built:
  "None \<notin> set rows \<Longrightarrow> stream_section rt rows n = (map (RecordLine rt) (the_list rows), Some (n + length rows))"
  by (induction rt rows n rule: stream_section.induct) auto

lemma stream_complete:
  "list_all built ss \<Longrightarrow> stream_sections ss counts =
     concat (map record_lines ss) @ [EofLine (fold (\<lambda>s. AList.update (xs_record_type s) (length (xs_payloads s))) ss counts)]"
proof (induction ss arbitrary: counts)
  case (Cons s ss)
  then have "built s" and ss: "list_all built ss" by simp_all
  then have "stream_section (xs_record_type s) (xs_payloads s) 0 = (record_lines s, Some (length (xs_payloads s)))"
    by (simp add: built_def record_lines_def stream_built)
  then show ?case using Cons.IH [OF ss] by simp
qed simp

lemma stream_failed:
  "\<not> list_all built ss \<Longrightarrow> \<exists>ls. stream_sections ss counts = ls @ [ErrorLine] \<and> prefix ls (concat (map record_lines ss))"
proof (induction ss arbitrary: counts)
  case (Cons s ss)
  show ?case
  proof (cases "built s")
    case True
    then have s: "stream_section (xs_record_type s) (xs_payloads s) 0 = (record_lines s, Some (length (xs_payloads s)))"
      by (simp add: built_def record_lines_def stream_built)
    have ss: "\<not> list_all built ss" using True Cons.prems by simp
    obtain ls where "stream_sections ss (AList.update (xs_record_type s) (length (xs_payloads s)) counts) = ls @ [ErrorLine]"
      "prefix ls (concat (map record_lines ss))" using Cons.IH [OF ss] by blast
    then show ?thesis using s by (intro exI [of _ "record_lines s @ ls"]) simp
  next
    case False
    have "prefix (map (RecordLine (xs_record_type s) \<circ> the) (takeWhile (\<lambda>p. p \<noteq> None) (xs_payloads s))) (record_lines s)"
      using map_mono_prefix [OF takeWhile_prefix_the [of "xs_payloads s"], of "RecordLine (xs_record_type s)"]
      unfolding record_lines_def map_map .
    then show ?thesis using False by (auto simp: stream_section_eq built_def intro: prefix_prefix)
  qed
qed simp

definition records_only :: "export_line list \<Rightarrow> bool" where
  "records_only ls \<longleftrightarrow> list_all (\<lambda>l. \<exists>t p. l = RecordLine t p) ls"

lemma record_lines_only: "records_only (concat (map record_lines ss))"
  by (auto simp: records_only_def record_lines_def list_all_iff)

lemma records_only_prefix: "records_only ls \<Longrightarrow> prefix ls' ls \<Longrightarrow> records_only ls'"
  unfolding records_only_def list_all_iff using set_mono_prefix by fast

lemma no_eof: "records_only ls \<Longrightarrow> EofLine c \<notin> set ls"
  by (auto simp: records_only_def list_all_iff)

text \<open>
  The stream fails closed. It opens with the manifest. When every payload can be built, the lines are all the
  records of all the sections in order and then one \<^verbatim>\<open>eof\<close> with the number of records of each section; when one
  cannot, the lines are a part of those records from the start and then one \<^verbatim>\<open>error\<close>, and no \<^verbatim>\<open>eof\<close> appears. A
  stream that was cut off anywhere shows no \<^verbatim>\<open>eof\<close> either.
\<close>

theorem stream_fails_closed:
  "let lines = stream_ndjson manifest sections; records = concat (map record_lines sections)
   in (list_all built sections \<longrightarrow> lines = ManifestLine manifest # records @ [EofLine (section_counts sections)]) \<and>
      (\<not> list_all built sections \<longrightarrow>
        (\<exists>ls. lines = ManifestLine manifest # ls @ [ErrorLine] \<and> prefix ls records \<and> (\<forall>c. EofLine c \<notin> set lines))) \<and>
      (\<forall>c part. strict_prefix part lines \<longrightarrow> EofLine c \<notin> set part)"
proof -
  define lines where "lines = stream_ndjson manifest sections"
  define records where "records = concat (map record_lines sections)"
  have only: "records_only records" unfolding records_def by (rule record_lines_only)
  have complete: "lines = ManifestLine manifest # records @ [EofLine (section_counts sections)]" if "list_all built sections"
    using that by (simp add: lines_def records_def stream_ndjson_def stream_complete section_counts_def)
  have failed: "\<exists>ls. lines = ManifestLine manifest # ls @ [ErrorLine] \<and> prefix ls records \<and> (\<forall>c. EofLine c \<notin> set lines)"
    if bad: "\<not> list_all built sections"
  proof -
    obtain ls where ls: "stream_sections sections [] = ls @ [ErrorLine]" "prefix ls records"
      using stream_failed [OF bad] unfolding records_def by blast
    have "EofLine c \<notin> set ls" for c using no_eof [OF records_only_prefix [OF only ls(2)]] .
    with ls show ?thesis by (auto simp: lines_def stream_ndjson_def)
  qed
  have cut: "EofLine c \<notin> set part" if part: "strict_prefix part lines" for c part
  proof (cases "list_all built sections")
    case True
    have "prefix part (ManifestLine manifest # records)"
      using part unfolding complete [OF True] append_Cons [symmetric] strict_prefix_def prefix_snoc by blast
    then have "set part \<subseteq> set (ManifestLine manifest # records)" by (rule set_mono_prefix)
    then show ?thesis using no_eof [OF only, of c] by auto
  next
    case False
    then have "EofLine c \<notin> set lines" using failed by blast
    moreover have "set part \<subseteq> set lines" using part by (auto simp: strict_prefix_def dest: set_mono_prefix)
    ultimately show ?thesis by blast
  qed
  show ?thesis unfolding Let_def lines_def [symmetric] records_def [symmetric] using complete failed cut by blast
qed

definition example_manifest :: export_manifest where
  "example_manifest = \<lparr> mf_schema_version = GROUP_EXPORT_SCHEMA_VERSION, mf_generated_at = 0, mf_group = [],
     mf_classification = [], mf_sensitivity = EXPORT_SENSITIVITY, mf_sections = [''event''] \<rparr>"

theorem stream_fails_closed_witness:
  "stream_ndjson example_manifest [\<lparr> xs_record_type = ''event'', xs_payloads = [Some (PlainRow [])] \<rparr>] =
    [ManifestLine example_manifest, RecordLine ''event'' (PlainRow []), EofLine [(''event'', 1)]]"
  using stream_fails_closed [of example_manifest "[\<lparr> xs_record_type = ''event'', xs_payloads = [Some (PlainRow [])] \<rparr>]"]
  by (simp add: Let_def built_def record_lines_def section_counts_def)

section \<open>The export is the whole group\<close>

text \<open>The payloads of the records of a type, in the order of the lines.\<close>

definition records_of :: "string \<Rightarrow> export_line list \<Rightarrow> export_payload list" where
  "records_of t lines = concat (map (\<lambda>l. case l of RecordLine t' p \<Rightarrow> if t' = t then [p] else [] | _ \<Rightarrow> []) lines)"

lemma records_of_append [simp]: "records_of t (xs @ ys) = records_of t xs @ records_of t ys"
  by (simp add: records_of_def)

lemma records_of_section: "records_of t (record_lines s) = (if xs_record_type s = t then the_list (xs_payloads s) else [])"
  by (simp add: records_of_def record_lines_def o_def)

lemma records_of_ends [simp]:
  "records_of t (ManifestLine m # ls) = records_of t ls" "records_of t [EofLine c] = []" "records_of t [] = []"
  by (simp_all add: records_of_def)

lemma default_filters [simp]:
  "text_ok [] v" "int_ok None v'" "from_ok None v'" "until_ok None v'" "convergence_epoch_ok db None r"
  by (simp_all add: text_ok_def int_ok_def from_ok_def until_ok_def convergence_epoch_ok_def)

lemma default_filter_values [simp]:
  "fl_engine_id default_api_filters = []" "fl_account_ref default_api_filters = []" "fl_audit_data_mode default_api_filters = []"
  "fl_message_id default_api_filters = []" "fl_event_type default_api_filters = []" "fl_epoch default_api_filters = None"
  "fl_from_ms default_api_filters = None" "fl_to_ms default_api_filters = None"
  by (simp_all add: default_api_filters_def)

text \<open>With the default filters every query set is the group's rows, whole.\<close>

lemma default_rows:
  "mset (filtered_delivery_artifacts db g default_api_filters) = mset (filter (\<lambda>a. da_group a = g) (pj_artifacts (db_projections db)))"
  "mset (filtered_network_observations db g default_api_filters) = mset (filter (\<lambda>n. no_group n = Some g) (pj_network (db_projections db)))"
  "mset (filtered_convergence_runs db g default_api_filters) = mset (filter (\<lambda>r. cr_group r = g) (pj_runs (db_projections db)))"
  "mset (filtered_state_deltas db g default_api_filters) = mset (filter (\<lambda>d. sd_group d = Some g) (pj_deltas (db_projections db)))"
  "mset (filtered_epoch_transitions db g default_api_filters) = mset (filter (\<lambda>t. et_group t = Some g) (pj_transitions (db_projections db)))"
  by (simp_all add: filtered_delivery_artifacts_def apply_delivery_artifact_filters_def filtered_network_observations_def
      filtered_convergence_runs_def filtered_state_deltas_def filtered_epoch_transitions_def Let_def)

lemma built_section_of: "built (section_of t rows f) \<longleftrightarrow> (\<forall>r \<in> set rows. f r \<noteq> None)"
  by (force simp: built_def section_of_def)

lemma payload_None: "delivery_artifact_payload pick db idx a = None \<longleftrightarrow>
    \<not> list_all hashable_recipients (recipient_expectations (db_projections db) a)"
  by (simp add: delivery_artifact_payload_def Let_def matrix_None)

lemma the_list_Some: "the_list (map (\<lambda>x. Some (f x)) xs) = map f xs"
  by (induction xs) auto

lemma mset_section:
  "mset (the_list (xs_payloads (section_of t rows (\<lambda>r. Some (f r))))) = image_mset f (mset rows)"
  by (simp add: section_of_def the_list_Some)

definition exportable :: "database \<Rightarrow> nat \<Rightarrow> bool" where
  "exportable db g \<longleftrightarrow> (\<forall>a \<in> set (pj_artifacts (db_projections db)).
     da_group a = g \<longrightarrow> list_all hashable_recipients (recipient_expectations (db_projections db) a))"

lemma sections_built: "list_all built (export_sections key_text pick db g) \<longleftrightarrow> exportable db g"
proof -
  have "set (filtered_delivery_artifacts db g default_api_filters) = {a \<in> set (pj_artifacts (db_projections db)). da_group a = g}"
    using arg_cong [OF default_rows(1) [of db g], of set_mset] by simp
  then show ?thesis
    by (auto simp: export_sections_def Let_def built_section_of payload_None exportable_def)
qed

text \<open>What a complete export of a group contains, record type by record type.\<close>

definition exports_group ::
  "(json \<Rightarrow> string option) \<Rightarrow> (string set \<Rightarrow> string) \<Rightarrow> database \<Rightarrow> nat \<Rightarrow> export_line list \<Rightarrow> bool" where
  "exports_group key_text pick db g lines \<longleftrightarrow>
     (let pj = db_projections db; idx = delivery_identity_index key_text (db_events db) g
      in records_of ''source'' lines = map (\<lambda>f. SourceRow (agent_source_row db g f)) (audit_files_for_group db g) \<and>
         records_of ''event'' lines = map (\<lambda>e. EventRow (agent_event_row e)) (valid_events_for_group (db_files db) (db_events db) g) \<and>
         image_mset Some (mset (records_of ''delivery_artifact'' lines)) =
           image_mset (\<lambda>a. map_option DeliveryRow (delivery_artifact_payload pick db idx a))
             (mset (filter (\<lambda>a. da_group a = g) (pj_artifacts pj))) \<and>
         mset (records_of ''network_observation'' lines) =
           image_mset (\<lambda>n. PlainRow (network_observation_payload (db_events db) n))
             (mset (filter (\<lambda>n. no_group n = Some g) (pj_network pj))) \<and>
         mset (records_of ''convergence_run'' lines) =
           image_mset (\<lambda>r. PlainRow (convergence_run_payload db r)) (mset (filter (\<lambda>r. cr_group r = g) (pj_runs pj))) \<and>
         mset (records_of ''state_delta'' lines) =
           image_mset (\<lambda>d. PlainRow (state_delta_payload (db_events db) d))
             (mset (filter (\<lambda>d. sd_group d = Some g) (pj_deltas pj))) \<and>
         mset (records_of ''epoch_state_transition'' lines) =
           image_mset (\<lambda>t. PlainRow (epoch_transition_payload (db_events db) t))
             (mset (filter (\<lambda>t. et_group t = Some g) (pj_transitions pj))))"

lemma section_of_simps [simp]: "xs_record_type (section_of t rows f) = t" "xs_payloads (section_of t rows f) = map f rows"
  by (simp_all add: section_of_def)

lemma export_lists:
  defines "lines \<equiv> \<lambda>key_text pick db g. concat (map record_lines (export_sections key_text pick db g))"
  shows "records_of ''source'' (lines kt pick db g) = map (\<lambda>f. SourceRow (agent_source_row db g f)) (audit_files_for_group db g)"
    and "records_of ''event'' (lines kt pick db g) =
      map (\<lambda>e. EventRow (agent_event_row e)) (valid_events_for_group (db_files db) (db_events db) g)"
    and "records_of ''delivery_artifact'' (lines kt pick db g) =
      the_list (map (\<lambda>a. map_option DeliveryRow (delivery_artifact_payload pick db (delivery_identity_index kt (db_events db) g) a))
        (filtered_delivery_artifacts db g default_api_filters))"
    and "records_of ''network_observation'' (lines kt pick db g) =
      map (\<lambda>n. PlainRow (network_observation_payload (db_events db) n)) (filtered_network_observations db g default_api_filters)"
    and "records_of ''convergence_run'' (lines kt pick db g) =
      map (\<lambda>r. PlainRow (convergence_run_payload db r)) (filtered_convergence_runs db g default_api_filters)"
    and "records_of ''state_delta'' (lines kt pick db g) =
      map (\<lambda>d. PlainRow (state_delta_payload (db_events db) d)) (filtered_state_deltas db g default_api_filters)"
    and "records_of ''epoch_state_transition'' (lines kt pick db g) =
      map (\<lambda>t. PlainRow (epoch_transition_payload (db_events db) t)) (filtered_epoch_transitions db g default_api_filters)"
  by (simp_all add: lines_def export_sections_def Let_def records_of_section the_list_Some)

lemma all_built_Some: "(\<And>p. p \<in> set ps \<Longrightarrow> p \<noteq> None) \<Longrightarrow> map Some (the_list ps) = ps"
proof (induction ps)
  case (Cons p ps)
  then have "map Some (the_list ps) = ps" "p \<noteq> None" by auto
  then show ?case by auto
qed simp

lemma complete_records:
  assumes "exportable db g"
  shows "exports_group key_text pick db g (concat (map record_lines (export_sections key_text pick db g)))"
proof -
  define idx where "idx = delivery_identity_index key_text (db_events db) g"
  define ps where "ps = map (\<lambda>a. map_option DeliveryRow (delivery_artifact_payload pick db idx a)) (filtered_delivery_artifacts db g default_api_filters)"
  have "set (filtered_delivery_artifacts db g default_api_filters) = {a \<in> set (pj_artifacts (db_projections db)). da_group a = g}"
    using arg_cong [OF default_rows(1) [of db g], of set_mset] by simp
  then have "delivery_artifact_payload pick db idx a \<noteq> None" if "a \<in> set (filtered_delivery_artifacts db g default_api_filters)" for a
    using that assms unfolding payload_None exportable_def by blast
  then have "p \<noteq> None" if "p \<in> set ps" for p using that unfolding ps_def by fastforce
  then have "map Some (the_list ps) = ps" by (rule all_built_Some)
  then have "image_mset Some (mset (the_list ps)) = mset ps" by (metis mset_map)
  then have delivery: "image_mset Some (mset (the_list ps)) = image_mset (\<lambda>a. map_option DeliveryRow (delivery_artifact_payload pick db idx a))
      (mset (filter (\<lambda>a. da_group a = g) (pj_artifacts (db_projections db))))"
    unfolding ps_def mset_map default_rows(1) .
  show ?thesis
    unfolding exports_group_def Let_def export_lists idx_def [symmetric] ps_def [symmetric] delivery mset_map default_rows
    by (intro conjI refl)
qed

text \<open>The counts of the last line are the counts of the group header that the manifest carries.\<close>

definition counts_agree :: "database \<Rightarrow> nat \<Rightarrow> (string \<times> nat) list \<Rightarrow> bool" where
  "counts_agree db g c \<longleftrightarrow>
     (let summary = fst (group_summary_header_context db g)
      in dict_get summary ''file_count'' = j_nat (dd_get 0 c ''source'') \<and>
         dict_get summary ''event_count'' = j_nat (dd_get 0 c ''event'') \<and>
         dict_get summary ''delivery_count'' = j_nat (dd_get 0 c ''delivery_artifact'') \<and>
         dict_get summary ''network_count'' = j_nat (dd_get 0 c ''network_observation'') \<and>
         dict_get summary ''convergence_count'' = j_nat (dd_get 0 c ''convergence_run'') \<and>
         dict_get summary ''state_count'' = j_nat (dd_get 0 c ''state_delta'' + dd_get 0 c ''epoch_state_transition''))"

lemma export_counts:
  "section_counts (export_sections kt pick db g) = [
     (''source'', length (audit_files_for_group db g)),
     (''event'', length (valid_events_for_group (db_files db) (db_events db) g)),
     (''delivery_artifact'', length (filtered_delivery_artifacts db g default_api_filters)),
     (''network_observation'', length (filtered_network_observations db g default_api_filters)),
     (''convergence_run'', length (filtered_convergence_runs db g default_api_filters)),
     (''state_delta'', length (filtered_state_deltas db g default_api_filters)),
     (''epoch_state_transition'', length (filtered_epoch_transitions db g default_api_filters)),
     (''audit_data_mode_change'', length (filtered_audit_data_mode_changes db g default_api_filters))]"
  by (simp add: section_counts_def export_sections_def Let_def)

lemmas default_lengths = default_rows [THEN arg_cong [where f = size], unfolded size_mset]

lemma export_counts_agree: "counts_agree db g (section_counts (export_sections kt pick db g))"
  unfolding counts_agree_def export_counts Let_def default_lengths
  by (simp add: group_summary_header_context_def dd_get_def audit_files_for_group_def valid_events_for_group_def Let_def)

text \<open>
  C28: the streaming endpoint. It streams only when exports are enabled, the caller is logged in or presents an
  access token that authenticates, and the group exists; otherwise it answers 503, 401 or 404. It changes
  nothing but the access-token table. The stream ends in \<^verbatim>\<open>eof\<close> exactly when no artifact of the group expects a
  recipient that is a JSON list or object, and a stream that does holds every source, every counted event and
  every projection row of the group, once each, with the counts that the manifest states.
\<close>

theorem group_export_exact:
  "let (sv', response) = api_group_export_stream dp key_text pick enabled now active_users logged_in authorization slug sv;
       reader = authenticate_reader dp now active_users logged_in authorization (sv_access_tokens sv)
   in sv_db sv' = sv_db sv \<and> sv_upload_tokens sv' = sv_upload_tokens sv \<and>
      (case response of
         ExportError status message \<Rightarrow>
           (status = 503 \<and> \<not> enabled) \<or> (status = 401 \<and> enabled \<and> \<not> snd reader) \<or>
           (status = 404 \<and> enabled \<and> snd reader \<and> slug \<notin> g_slug ` set (db_groups (sv_db sv)))
       | ExportStream lines \<Rightarrow>
           enabled \<and> snd reader \<and>
           (\<exists>g \<in> set (db_groups (sv_db sv)). g_slug g = slug \<and>
              ((\<exists>c. EofLine c \<in> set lines) \<longleftrightarrow> exportable (sv_db sv) (g_id g)) \<and>
              (exportable (sv_db sv) (g_id g) \<longrightarrow> exports_group key_text pick (sv_db sv) (g_id g) lines \<and>
                 (\<exists>c. last lines = EofLine c \<and> counts_agree (sv_db sv) (g_id g) c))))"
proof -
  have lines: "((\<exists>c. EofLine c \<in> set (stream_ndjson m (export_sections key_text pick db g))) \<longleftrightarrow> exportable db g) \<and>
      (exportable db g \<longrightarrow> exports_group key_text pick db g (stream_ndjson m (export_sections key_text pick db g)) \<and>
        (\<exists>c. last (stream_ndjson m (export_sections key_text pick db g)) = EofLine c \<and> counts_agree db g c))" for m db g
  proof (cases "exportable db g")
    case True
    then have eq: "stream_ndjson m (export_sections key_text pick db g) =
        ManifestLine m # concat (map record_lines (export_sections key_text pick db g)) @
          [EofLine (section_counts (export_sections key_text pick db g))]"
      using stream_complete [of "export_sections key_text pick db g" "[]"] sections_built [of key_text pick db g]
      by (simp add: stream_ndjson_def section_counts_def)
    have "exports_group key_text pick db g (stream_ndjson m (export_sections key_text pick db g))"
      using complete_records [OF True, of key_text pick] unfolding eq exports_group_def by (simp only: records_of_ends records_of_append append_Nil2)
    moreover have "last (stream_ndjson m (export_sections key_text pick db g)) = EofLine (section_counts (export_sections key_text pick db g))"
      unfolding eq by simp
    ultimately show ?thesis using True eq export_counts_agree by auto
  next
    case False
    then obtain ls where "stream_sections (export_sections key_text pick db g) [] = ls @ [ErrorLine]"
      "prefix ls (concat (map record_lines (export_sections key_text pick db g)))"
      using stream_failed sections_built by blast
    moreover from this have "EofLine c \<notin> set ls" for c using no_eof records_only_prefix record_lines_only by blast
    ultimately show ?thesis using False by (auto simp: stream_ndjson_def)
  qed
  obtain rows ok where reader: "authenticate_reader dp now active_users logged_in authorization (sv_access_tokens sv) = (rows, ok)"
    by (cases "authenticate_reader dp now active_users logged_in authorization (sv_access_tokens sv)")
  show ?thesis
  proof (cases "enabled \<and> ok")
    case False
    then show ?thesis by (cases enabled) (simp_all add: api_group_export_stream_def reader)
  next
    case True
    then show ?thesis
    proof (cases "find (\<lambda>g. g_slug g = slug) (db_groups (sv_db sv))")
      case None
      then have "slug \<notin> g_slug ` set (db_groups (sv_db sv))" by (auto simp: find_None_iff)
      with True None show ?thesis by (simp add: api_group_export_stream_def reader)
    next
      case (Some g)
      then have "g \<in> set (db_groups (sv_db sv))" "g_slug g = slug" by (auto simp: find_Some_iff)
      with True Some lines show ?thesis by (auto simp: api_group_export_stream_def reader Let_def)
    qed
  qed
qed

definition example_export :: service where
  "example_export = \<lparr> sv_db = example_delivery\<lparr>
       db_groups := [\<lparr> g_id = 1, g_name = ''G'', g_slug = ''g'', g_group_ref = [], g_divergent_message_count = 0, g_notes = [],
         g_created_at = 0, g_updated_at = 0 \<rparr>],
       db_projections := (db_projections example_delivery)\<lparr>pj_artifacts := [example_artifact]\<rparr>\<rparr>,
     sv_upload_tokens = [], sv_access_tokens = [] \<rparr>"

lemma example_exportable: "exportable (sv_db example_export) 1"
  by (simp add: exportable_def example_export_def example_delivery_def example_artifact_def recipient_expectations_def
      hashable_recipients_def expectation_identity_rows_def hashable_id_def)

theorem group_export_exact_witness:
  "\<exists>lines c. snd (api_group_export_stream example_deployment (\<lambda>v. None) (\<lambda>S. []) True 0 {} True None ''g'' example_export) =
      ExportStream lines \<and> EofLine c \<in> set lines \<and>
      exports_group (\<lambda>v. None) (\<lambda>S. []) (sv_db example_export) 1 lines"
proof -
  define result where "result = api_group_export_stream example_deployment (\<lambda>v. None) (\<lambda>S. []) True 0 {} True None ''g'' example_export"
  have groups: "g_slug ` set (db_groups (sv_db example_export)) = {''g''}" "g \<in> set (db_groups (sv_db example_export)) \<Longrightarrow> g_id g = 1" for g
    by (simp_all add: example_export_def)
  have reader: "authenticate_reader dp now users True authorization rows = (rows, True)" for dp now users authorization rows
    by (simp add: authenticate_reader_def)
  note exact = group_export_exact [where dp = example_deployment and key_text = "\<lambda>v. None" and pick = "\<lambda>S. []" and enabled = True
      and now = 0 and active_users = "{}" and logged_in = True and authorization = None and slug = "''g''" and sv = example_export,
      folded result_def, unfolded reader Let_def split_beta groups(1)]
  show ?thesis
  proof (cases "snd result")
    case (ExportError status message)
    then show ?thesis using exact by simp
  next
    case (ExportStream lines)
    then obtain g where g: "g \<in> set (db_groups (sv_db example_export))"
      "(\<exists>c. EofLine c \<in> set lines) \<longleftrightarrow> exportable (sv_db example_export) (g_id g)"
      "exportable (sv_db example_export) (g_id g) \<longrightarrow> exports_group (\<lambda>v. None) (\<lambda>S. []) (sv_db example_export) (g_id g) lines"
      using exact by auto
    then show ?thesis using ExportStream example_exportable groups(2) [OF g(1)] by (auto simp: result_def)
  qed
qed

end
