(* ===== verification/Attribution.thy ===== *)
theory Attribution
  imports Group_Api
begin

text \<open>
  The action attribution API of \<^verbatim>\<open>forensics/views.py\<close>: the newest bounded window of a group's action events,
  the groups of actions made of it, the three sections by origin and their pagination. The grouping is
  \<open>human_action_groups_for_group\<close> of \<open>Event_View\<close>, whose \<open>None\<close> is passed on. The entries that a payload
  copies from its group are kept as the group itself. The descending order is the ascending one reversed,
  NULLs first.
\<close>

section \<open>The window of events\<close>

definition action_event_queryset :: "database \<Rightarrow> nat \<Rightarrow> audit_event list" where
  "action_event_queryset db g =
     sort_key db_order_key (filter (\<lambda>e. counted_event (db_files db) e \<and> ev_group e = Some g \<and>
       ev_human_action_action e \<noteq> [] \<and> ev_human_action_action e \<noteq> ev_event_type e) (db_events db))"

definition filtered_action_events :: "database \<Rightarrow> nat \<Rightarrow> action_filters \<Rightarrow> audit_event list" where
  "filtered_action_events db g fl =
     filter (\<lambda>e. text_ok (fl_engine_id fl) (ev_engine_id e) \<and> text_ok (fl_account_ref fl) (ev_account_ref e) \<and>
       text_ok (fl_audit_data_mode fl) (ev_audit_data_mode e) \<and> text_ok (fl_event_type fl) (ev_event_type e) \<and>
       (fl_epoch fl = None \<or> ev_from_epoch e = fl_epoch fl \<or> ev_to_epoch e = fl_epoch fl) \<and>
       text_ok (fl_origin fl) (ev_human_action_origin e) \<and> text_ok (fl_action fl) (ev_human_action_action e) \<and>
       from_ok (fl_from_ms fl) (ev_wall_time_ms e) \<and> until_ok (fl_to_ms fl) (ev_wall_time_ms e))
       (action_event_queryset db g)"

definition action_event_message_ids :: "audit_event \<Rightarrow> string set" where
  "action_event_message_ids e =
     set (filter (\<lambda>v. v \<noteq> []) ([ev_msg_id e, ev_outbound_msg_id e, ev_invalidated_msg_id e] @
       ev_outbound_welcome_msg_ids e @ ev_human_action_message_ids e))"

definition action_attribution_kind :: "string \<Rightarrow> string" where
  "action_attribution_kind origin =
     (if origin = ''local_user'' then ''user'' else if origin = ''system'' then ''system'' else ''other'')"

section \<open>Payloads\<close>

record action_payload =
  ap_attribution_kind :: string
  ap_group :: action_group
  ap_event_count :: nat
  ap_audit_data_modes :: "string list"
  ap_events :: "dict list"
  ap_evidence_refs :: "dict list"
  ap_sensitivity :: dict
  ap_severity :: string

definition event_by_id :: "audit_event list \<Rightarrow> json \<Rightarrow> audit_event option" where
  "event_by_id events i = find (\<lambda>e. j_nat (ev_id e) = i) (rev events)"

definition action_event_payload :: "audit_event list \<Rightarrow> dict \<Rightarrow> dict" where
  "action_event_payload events row =
     (let event = event_by_id events (dict_get row ''id'')
      in [(''event_id'', dict_get row ''id''),
          (''event_type'', dict_get row ''event_type''),
          (''engine_id'', dict_get row ''engine_id''),
          (''account_ref'', dict_get row ''account_ref''),
          (''audit_data_mode'', JStr (case event of Some e \<Rightarrow> ev_audit_data_mode e | None \<Rightarrow> [])),
          (''wall_time_ms'', dict_get row ''wall_time_ms''),
          (''message_ids'', dict_get row ''message_ids''),
          (''summary'', dict_get row ''summary''),
          (''evidence_ref'', (case event of Some e \<Rightarrow> JObj (evidence_ref_payload e) | None \<Rightarrow> JNull))])"

definition action_attribution_payload_severity :: "action_group \<Rightarrow> dict list \<Rightarrow> string" where
  "action_attribution_payload_severity g events =
     severity_from_values ([JStr (act_action g), JStr (act_origin g), JStr (act_phase g)] @
       map (\<lambda>e. dict_get e ''summary'') events)"

definition action_group_sensitive_field_paths :: "action_group \<Rightarrow> dict list \<Rightarrow> dict list \<Rightarrow> string list" where
  "action_group_sensitive_field_paths g events evidence_refs =
     (if act_operation_id g \<noteq> [] then [''operation_id''] else []) @
     (if act_message_ids g \<noteq> [] then [''message_ids''] else []) @
     (if evidence_refs \<noteq> [] then [''evidence_refs[].line_hash''] else []) @
     (if list_ex (\<lambda>e. truthy (dict_get e ''engine_id'')) events then [''events[].engine_id''] else []) @
     (if list_ex (\<lambda>e. truthy (dict_get e ''account_ref'')) events then [''events[].account_ref''] else [])"

definition action_group_payload :: "audit_event list \<Rightarrow> action_group \<Rightarrow> action_payload" where
  "action_group_payload events g =
     (let rows = map (action_event_payload events) (act_events g);
          modes = sorted_set (filter (\<lambda>m. m \<noteq> []) (map ev_audit_data_mode
            (the_list (map (\<lambda>row. event_by_id events (dict_get row ''id'')) (act_events g)))));
          evidence_refs = map dict_of (filter truthy (map (\<lambda>row. dict_get row ''evidence_ref'') rows))
      in \<lparr> ap_attribution_kind = action_attribution_kind (act_origin g), ap_group = g, ap_event_count = length rows,
           ap_audit_data_modes = modes, ap_events = rows, ap_evidence_refs = evidence_refs,
           ap_sensitivity = sensitivity_payload (action_group_sensitive_field_paths g rows evidence_refs) modes,
           ap_severity = action_attribution_payload_severity g rows \<rparr>)"

text \<open>The groups of the request and whether its window was cut.\<close>

definition action_groups_for_api ::
  "database \<Rightarrow> nat \<Rightarrow> nat \<Rightarrow> action_filters \<Rightarrow> (action_payload list \<times> bool) option" where
  "action_groups_for_api db g max_events fl =
     (let newest = take (max_events + 1) (rev (filtered_action_events db g fl));
          truncated = length newest > max_events;
          newest = (if truncated then take max_events newest else newest);
          events = rev newest;
          events = (if fl_message_id fl \<noteq> [] then filter (\<lambda>e. fl_message_id fl \<in> action_event_message_ids e) events else events)
      in map_option (\<lambda>groups.
           let payloads = map (action_group_payload events) groups
           in (if fl_severity fl \<noteq> [] then filter (\<lambda>p. ap_severity p = fl_severity fl) payloads else payloads, truncated))
         (human_action_groups_for_group events))"

definition action_origin_counts :: "database \<Rightarrow> nat \<Rightarrow> (string \<times> string \<times> nat) list" where
  "action_origin_counts db g =
     (let origins = map ev_human_action_origin (action_event_queryset db g)
      in map (\<lambda>origin. (origin, action_attribution_kind origin, count_list origins origin)) (sorted_set origins))"

section \<open>Sections\<close>

definition ACTION_ATTRIBUTION_PAGE_KEYS :: "(string \<times> string) list" where
  "ACTION_ATTRIBUTION_PAGE_KEYS = [(''user'', ''user_actions''), (''system'', ''system_attribution''), (''other'', ''other_attribution'')]"

definition of_kind :: "action_payload list \<Rightarrow> string \<Rightarrow> action_payload list" where
  "of_kind groups kind = filter (\<lambda>row. ap_attribution_kind row = kind) groups"

definition action_attribution_section :: "action_payload list \<Rightarrow> string \<Rightarrow> 'f api_filters_scheme \<Rightarrow> action_payload list" where
  "action_attribution_section groups kind fl = take (fl_limit fl) (drop (fl_offset fl) (of_kind groups kind))"

record attribution_pagination =
  ag_pages :: "(string \<times> pagination) list"
  ag_scan_truncated :: bool
  ag_scan_limit :: nat

definition section_pagination :: "action_payload list \<Rightarrow> bool \<Rightarrow> string \<Rightarrow> 'f api_filters_scheme \<Rightarrow> pagination" where
  "section_pagination groups truncated kind fl =
     (let total_rows = length (of_kind groups kind);
          returned = min (total_rows - fl_offset fl) (fl_limit fl)
      in pagination_payload (fl_limit fl) (fl_offset fl) returned (fl_offset fl + fl_limit fl < total_rows \<or> truncated))"

definition attribution_pagination_payload ::
  "nat \<Rightarrow> action_payload list \<Rightarrow> bool \<Rightarrow> 'f api_filters_scheme \<Rightarrow> attribution_pagination" where
  "attribution_pagination_payload max_events groups truncated fl =
     \<lparr> ag_pages = map (\<lambda>(kind, page_key). (page_key, section_pagination groups truncated kind fl)) ACTION_ATTRIBUTION_PAGE_KEYS,
       ag_scan_truncated = truncated, ag_scan_limit = max_events \<rparr>"

record actions_response =
  ar_origin_counts :: "(string \<times> string \<times> nat) list"
  ar_pagination :: attribution_pagination
  ar_user_actions :: "action_payload list"
  ar_system_attribution :: "action_payload list"
  ar_other_attribution :: "action_payload list"

definition api_group_actions :: "database \<Rightarrow> nat \<Rightarrow> nat \<Rightarrow> query_dict \<Rightarrow> actions_response option" where
  "api_group_actions db g max_events query =
     (let fl = action_filter_values query
      in map_option (\<lambda>(groups, truncated).
           \<lparr> ar_origin_counts = action_origin_counts db g,
             ar_pagination = attribution_pagination_payload max_events groups truncated fl,
             ar_user_actions = action_attribution_section groups ''user'' fl,
             ar_system_attribution = action_attribution_section groups ''system'' fl,
             ar_other_attribution = action_attribution_section groups ''other'' fl \<rparr>)
         (action_groups_for_api db g max_events fl))"

section \<open>What a response holds\<close>

text \<open>The events a request is about: the newest of those that match, in order, that name the message asked for.\<close>

definition shown_action_events :: "database \<Rightarrow> nat \<Rightarrow> nat \<Rightarrow> action_filters \<Rightarrow> audit_event list" where
  "shown_action_events db g max_events fl =
     (let matching = filtered_action_events db g fl
      in filter (\<lambda>e. fl_message_id fl = [] \<or> fl_message_id fl \<in> action_event_message_ids e)
           (drop (length matching - max_events) matching))"

lemma newest_window:
  "rev (if length (take (n + 1) (rev xs)) > n then take n (take (n + 1) (rev xs)) else take (n + 1) (rev xs)) = drop (length xs - n) xs"
proof (cases "length xs \<le> n")
  case True
  then show ?thesis by simp
next
  case False
  then have "take n (take (n + 1) (rev xs)) = take n (rev xs)" by simp
  with False show ?thesis by (simp add: take_rev)
qed

lemma groups_for_api_eq:
  "action_groups_for_api db g max_events fl =
     map_option (\<lambda>groups. (filter (\<lambda>p. fl_severity fl = [] \<or> ap_severity p = fl_severity fl)
         (map (action_group_payload (shown_action_events db g max_events fl)) groups),
         max_events < length (filtered_action_events db g fl)))
       (human_action_groups_for_group (shown_action_events db g max_events fl))"
proof -
  define xs where "xs = filtered_action_events db g fl"
  define events where "events = (let window = drop (length xs - max_events) xs
      in if fl_message_id fl \<noteq> [] then filter (\<lambda>e. fl_message_id fl \<in> action_event_message_ids e) window else window)"
  have events: "events = shown_action_events db g max_events fl"
    by (auto simp: events_def shown_action_events_def xs_def Let_def)
  have truncated: "length (take (max_events + 1) (rev xs)) > max_events \<longleftrightarrow> max_events < length xs" by auto
  have "action_groups_for_api db g max_events fl = map_option (\<lambda>groups.
      let payloads = map (action_group_payload events) groups
      in (if fl_severity fl \<noteq> [] then filter (\<lambda>p. ap_severity p = fl_severity fl) payloads else payloads, max_events < length xs))
    (human_action_groups_for_group events)"
    unfolding action_groups_for_api_def xs_def [symmetric] Let_def newest_window
    unfolding truncated events_def Let_def by (rule refl)
  then show ?thesis unfolding events xs_def by (auto simp: Let_def intro!: option.map_cong0)
qed

lemma kinds: "ap_attribution_kind (action_group_payload events grp) \<in> {''user'', ''system'', ''other''}"
  by (simp add: action_group_payload_def action_attribution_kind_def Let_def)

text \<open>
  The attribution API groups exactly the newest window of the matching action events: at most the scan limit of
  them, the latest in the group's order, and it reports a cut exactly when more match. Every group of the
  response belongs to one of the three sections, and a section is the requested slice of its groups, whose
  length the pagination states.
\<close>

theorem attribution_window_exact:
  "let matching = filtered_action_events db g fl; shown = shown_action_events db g max_events fl
   in length shown \<le> max_events \<and>
      (case action_groups_for_api db g max_events fl of
         None \<Rightarrow> human_action_groups_for_group shown = None
       | Some (groups, truncated) \<Rightarrow>
           (\<exists>gs. human_action_groups_for_group shown = Some gs \<and>
              groups = filter (\<lambda>p. fl_severity fl = [] \<or> ap_severity p = fl_severity fl) (map (action_group_payload shown) gs)) \<and>
           truncated = (max_events < length matching) \<and>
           mset groups = mset (of_kind groups ''user'') + mset (of_kind groups ''system'') + mset (of_kind groups ''other'') \<and>
           pg_returned (section_pagination groups truncated kind fl) = length (action_attribution_section groups kind fl))"
proof -
  define shown where "shown = shown_action_events db g max_events fl"
  have window: "length shown \<le> max_events"
    unfolding shown_def shown_action_events_def Let_def by (rule le_trans [OF length_filter_le]) simp
  have partition: "mset groups = mset (of_kind groups ''user'') + mset (of_kind groups ''system'') + mset (of_kind groups ''other'')"
    if "list_all (\<lambda>p. ap_attribution_kind p \<in> {''user'', ''system'', ''other''}) groups" for groups
    using that by (induction groups) (auto simp: of_kind_def)
  have "list_all (\<lambda>p. ap_attribution_kind p \<in> {''user'', ''system'', ''other''})
      (filter P (map (action_group_payload shown) gs))" for P gs
    using kinds [of shown] by (auto simp: list_all_iff)
  note partition = partition [OF this]
  show ?thesis
    unfolding Let_def shown_def [symmetric] groups_for_api_eq
    using window partition
    by (cases "human_action_groups_for_group shown")
      (auto simp: section_pagination_def action_attribution_section_def pagination_payload_def Let_def)
qed

section \<open>Following the pages of a section\<close>

text \<open>A client that asks for the next page as long as one is named, for at most \<open>n\<close> requests.\<close>

fun follow :: "nat \<Rightarrow> action_payload list \<Rightarrow> bool \<Rightarrow> string \<Rightarrow> action_filters \<Rightarrow> action_payload list option" where
  "follow 0 groups truncated kind fl = None"
| "follow (Suc n) groups truncated kind fl =
     (let page = action_attribution_section groups kind fl
      in (case pg_next_offset (section_pagination groups truncated kind fl) of
            None \<Rightarrow> Some page
          | Some nxt \<Rightarrow> map_option ((@) page) (follow n groups truncated kind (fl\<lparr>fl_offset := nxt\<rparr>))))"

lemma follow_ends:
  assumes "1 \<le> fl_limit fl" "length (of_kind groups kind) - fl_offset fl < n"
  shows "follow n groups False kind fl = Some (drop (fl_offset fl) (of_kind groups kind))"
  using assms
proof (induction n arbitrary: fl)
  case (Suc n)
  define rows where "rows = of_kind groups kind"
  show ?case
  proof (cases "fl_offset fl + fl_limit fl < length rows")
    case True
    have IH: "follow n groups False kind (fl\<lparr>fl_offset := fl_offset fl + fl_limit fl\<rparr>) =
        Some (drop (fl_offset fl + fl_limit fl) rows)"
      using Suc.IH [of "fl\<lparr>fl_offset := fl_offset fl + fl_limit fl\<rparr>"] Suc.prems True by (simp add: rows_def)
    have "min (length rows - fl_offset fl) (fl_limit fl) = fl_limit fl" using True by simp
    moreover have "take (fl_limit fl) (drop (fl_offset fl) rows) @ drop (fl_offset fl + fl_limit fl) rows = drop (fl_offset fl) rows"
      by (metis add.commute append_take_drop_id drop_drop)
    ultimately show ?thesis
      using True IH
      by (simp add: section_pagination_def action_attribution_section_def pagination_payload_def rows_def [symmetric] Let_def)
  next
    case False
    then show ?thesis
      by (simp add: section_pagination_def action_attribution_section_def pagination_payload_def rows_def [symmetric] Let_def)
  qed
qed simp

lemma follow_truncated: "follow n groups True kind fl = None"
  by (induction n arbitrary: fl) (simp_all add: section_pagination_def pagination_payload_def Let_def)

text \<open>
  C31: paging through a section of an uncut scan from its start ends after at most one request per row and yields
  every row of the section once, in order. Of a cut scan it never ends: a next page is named always, also
  past the last row, where it is the same page again.
\<close>

theorem attribution_paging_ends_iff_uncut:
  assumes "1 \<le> fl_limit fl" "fl_offset fl = 0"
  shows "((\<exists>n rows. follow n groups truncated kind fl = Some rows) \<longleftrightarrow> \<not> truncated) \<and>
    (\<not> truncated \<longrightarrow> follow (Suc (length groups)) groups truncated kind fl = Some (of_kind groups kind)) \<and>
    (truncated \<longrightarrow> pg_next_offset (section_pagination groups truncated kind
        (fl\<lparr>fl_offset := length (of_kind groups kind)\<rparr>)) = Some (length (of_kind groups kind)))"
proof -
  have "length (of_kind groups kind) \<le> length groups" by (simp add: of_kind_def)
  then have "follow (Suc (length groups)) groups False kind fl = Some (of_kind groups kind)"
    using follow_ends [OF assms(1), of groups kind "Suc (length groups)"] assms(2) by simp
  then show ?thesis
    by (cases truncated) (auto simp: follow_truncated section_pagination_def pagination_payload_def Let_def simp del: follow.simps)
qed

theorem attribution_paging_ends_iff_uncut_witness:
  "1 \<le> fl_limit default_action_filters \<and>
   follow 1 [] False ''user'' default_action_filters = Some [] \<and>
   pg_next_offset (section_pagination [] True ''user'' (default_action_filters\<lparr>fl_offset := 0\<rparr>)) = Some 0"
proof -
  have limit: "1 \<le> fl_limit default_action_filters" and start: "fl_offset default_action_filters = 0"
    by (simp_all add: default_action_filters_def default_api_filters_def api_filters.defs GROUP_PROJECTION_API_DEFAULT_LIMIT_def)
  show ?thesis
    using attribution_paging_ends_iff_uncut [OF limit start, of "[]" False "''user''"]
      attribution_paging_ends_iff_uncut [OF limit start, of "[]" True "''user''"] limit
    by (simp add: of_kind_def del: follow.simps)
qed

end
