(* ===== verification/Projection_Api.thy ===== *)
theory Projection_Api
  imports Attribution Convergence
begin

text \<open>
  The read endpoints of \<^verbatim>\<open>forensics/views.py\<close> that put rows, filters and pages together: the projection,
  message, network, convergence, state, evidence and delivery APIs, the lookup of one convergence run, the
  bounded lists of the detail tabs, the investigation of one account or engine, and the size guard of the agent
  export. An exception while a payload is built is \<open>None\<close>. Rendering and the login decorator are left out.
\<close>

section \<open>Pages whose payloads may raise\<close>

text \<open>\<open>page_loop\<close> and \<open>paginated_payloads\<close> for a payload factory that may raise.\<close>

fun page_loop_opt ::
  "nat \<Rightarrow> nat \<Rightarrow> ('a \<Rightarrow> 'p option) \<Rightarrow> ('p \<Rightarrow> bool) \<Rightarrow> 'a list \<Rightarrow> 'p list \<Rightarrow> nat \<Rightarrow> ('p list \<times> bool) option" where
  "page_loop_opt limit offset payload_factory keep [] page matched = Some (page, False)"
| "page_loop_opt limit offset payload_factory keep (item # items) page matched =
     (case payload_factory item of
        None \<Rightarrow> None
      | Some payload \<Rightarrow>
          if \<not> keep payload then page_loop_opt limit offset payload_factory keep items page matched
          else if matched < offset then page_loop_opt limit offset payload_factory keep items page (Suc matched)
          else if length page \<ge> limit then Some (page, True)
          else page_loop_opt limit offset payload_factory keep items (page @ [payload]) (Suc matched))"

definition paginated_payloads_opt ::
  "'a list \<Rightarrow> ('f api_filters_scheme) \<Rightarrow> ('a \<Rightarrow> 'p option) \<Rightarrow> ('p \<Rightarrow> string) \<Rightarrow> ('p list \<times> pagination) option" where
  "paginated_payloads_opt ordered filters payload_factory severity_factory =
     (let limit = fl_limit filters; offset = fl_offset filters; severity = fl_severity filters
      in if severity \<noteq> []
         then map_option (\<lambda>(page, has_more). (page, pagination_payload limit offset (length page) has_more))
                (page_loop_opt limit offset payload_factory (keeps severity severity_factory None) ordered [] 0)
         else (let rows = take (limit + 1) (drop offset ordered)
               in map_option (\<lambda>payloads. (payloads, pagination_payload limit offset (length payloads) (length rows > limit)))
                    (map_opt payload_factory (take limit rows))))"

section \<open>The pages of each projection\<close>

definition delivery_page ::
  "(json \<Rightarrow> string option) \<Rightarrow> (string set \<Rightarrow> string) \<Rightarrow> database \<Rightarrow> nat \<Rightarrow> 'f api_filters_scheme
     \<Rightarrow> (delivery_payload list \<times> pagination) option" where
  "delivery_page key_text pick db g fl =
     paginated_payloads_opt (filtered_delivery_artifacts db g fl) fl
       (delivery_artifact_payload pick db (delivery_identity_index key_text (db_events db) g)) dp_severity"

definition network_page :: "database \<Rightarrow> nat \<Rightarrow> 'f api_filters_scheme \<Rightarrow> dict list \<times> pagination" where
  "network_page db g fl = paginated_payloads (filtered_network_observations db g fl) fl
     (network_observation_payload (db_events db)) network_payload_severity None"

definition convergence_page :: "database \<Rightarrow> nat \<Rightarrow> 'f api_filters_scheme \<Rightarrow> dict list \<times> pagination" where
  "convergence_page db g fl = paginated_payloads (filtered_convergence_runs db g fl) fl
     (convergence_run_payload db) convergence_payload_severity
     (if fl_message_id fl \<noteq> [] then Some (\<lambda>p. convergence_payload_matches_filters p (fl_message_id fl)) else None)"

definition state_delta_page :: "database \<Rightarrow> nat \<Rightarrow> 'f api_filters_scheme \<Rightarrow> dict list \<times> pagination" where
  "state_delta_page db g fl = paginated_payloads (filtered_state_deltas db g fl) fl
     (state_delta_payload (db_events db)) state_delta_payload_severity None"

definition epoch_transition_page :: "database \<Rightarrow> nat \<Rightarrow> 'f api_filters_scheme \<Rightarrow> dict list \<times> pagination" where
  "epoch_transition_page db g fl = paginated_payloads (filtered_epoch_transitions db g fl) fl
     (epoch_transition_payload (db_events db)) epoch_transition_payload_severity None"

text \<open>The mode changes are ordered without the line number here.\<close>

definition mode_change_page :: "database \<Rightarrow> nat \<Rightarrow> 'f api_filters_scheme \<Rightarrow> dict list \<times> pagination" where
  "mode_change_page db g fl = paginated_payloads
     (sort_key (\<lambda>e. (null_key (ev_wall_time_ms e), ev_engine_id e, ev_id e)) (filtered_audit_data_mode_changes db g fl)) fl
     audit_data_mode_change_payload audit_data_mode_change_payload_severity None"

definition file_at :: "audit_file list \<Rightarrow> nat \<Rightarrow> audit_file" where
  "file_at files i = the (find (\<lambda>f. af_id f = i) files)"

definition evidence_page :: "database \<Rightarrow> nat \<Rightarrow> 'f api_filters_scheme \<Rightarrow> dict list \<times> pagination" where
  "evidence_page db g fl = paginated_payloads (filtered_evidence_events db g fl) fl
     (\<lambda>e. evidence_row_payload e (file_at (db_files db) (ev_audit_file e))) evidence_row_payload_severity None"

section \<open>Combined responses\<close>

record attribution_part =
  rp_origin_counts :: "(string \<times> string \<times> nat) list"
  rp_user_actions :: "action_payload list"
  rp_system_attribution :: "action_payload list"
  rp_other_attribution :: "action_payload list"
  rp_action_pagination :: attribution_pagination

definition attribution_part_of ::
  "database \<Rightarrow> nat \<Rightarrow> nat \<Rightarrow> action_filters \<Rightarrow> attribution_part option" where
  "attribution_part_of db g max_events fl =
     map_option (\<lambda>(groups, truncated). \<lparr>
         rp_origin_counts = action_origin_counts db g,
         rp_user_actions = action_attribution_section groups ''user'' fl,
         rp_system_attribution = action_attribution_section groups ''system'' fl,
         rp_other_attribution = action_attribution_section groups ''other'' fl,
         rp_action_pagination = attribution_pagination_payload max_events groups truncated fl \<rparr>)
       (action_groups_for_api db g max_events fl)"

record related_payload =
  rp_network :: "dict list \<times> pagination"
  rp_convergence :: "dict list \<times> pagination"
  rp_state_deltas :: "dict list \<times> pagination"
  rp_epoch_transitions :: "dict list \<times> pagination"
  rp_attribution :: attribution_part

definition message_related_projection_payload :: "database \<Rightarrow> nat \<Rightarrow> nat \<Rightarrow> action_filters \<Rightarrow> related_payload option" where
  "message_related_projection_payload db g max_events fl =
     map_option (\<lambda>attribution. \<lparr>
         rp_network = network_page db g fl, rp_convergence = convergence_page db g fl,
         rp_state_deltas = state_delta_page db g fl, rp_epoch_transitions = epoch_transition_page db g fl,
         rp_attribution = attribution \<rparr>)
       (attribution_part_of db g max_events fl)"

record projection_payload = related_payload +
  rp_group :: dict
  rp_classification :: dict
  rp_filters :: action_filters
  rp_delivery :: "delivery_payload list \<times> pagination"
  rp_mode_changes :: "dict list \<times> pagination"

text \<open>The filters of the caller, with or without the two action keys, are completed first.\<close>

definition group_projection_payload ::
  "(json \<Rightarrow> string option) \<Rightarrow> (string set \<Rightarrow> string) \<Rightarrow> database \<Rightarrow> audit_group \<Rightarrow> nat \<Rightarrow> api_filters \<Rightarrow> (string \<times> string) option
     \<Rightarrow> projection_payload option" where
  "group_projection_payload key_text pick db g max_events filters action_keys =
     (let fl = normalized_projection_filters filters action_keys
      in case (message_related_projection_payload db (g_id g) max_events fl, delivery_page key_text pick db (g_id g) fl) of
        (Some related, Some delivery) \<Rightarrow>
          Some (related_payload.extend related (projection_payload.fields (group_api_payload db g)
            (group_classification db (g_id g)) fl delivery (mode_change_page db (g_id g) fl)))
      | _ \<Rightarrow> None)"

record message_match =
  mm_group :: dict
  mm_classification :: dict
  mm_delivery_artifact :: delivery_payload
  mm_related :: related_payload

definition message_match_of ::
  "(json \<Rightarrow> string option) \<Rightarrow> (string set \<Rightarrow> string) \<Rightarrow> database \<Rightarrow> nat \<Rightarrow> action_filters \<Rightarrow> audit_group \<times> delivery_artifact
     \<Rightarrow> message_match option" where
  "message_match_of key_text pick db max_events fl item =
     (let (g, a) = item
      in (case (delivery_artifact_payload pick db (delivery_identity_index key_text (db_events db) (g_id g)) a,
                message_related_projection_payload db (g_id g) max_events (fl\<lparr>fl_offset := 0\<rparr>)) of
            (Some delivery, Some related) \<Rightarrow>
              Some \<lparr> mm_group = group_api_payload db g, mm_classification = group_classification db (g_id g),
                     mm_delivery_artifact = delivery, mm_related = related \<rparr>
          | _ \<Rightarrow> None))"

definition group_at :: "audit_group list \<Rightarrow> nat \<Rightarrow> audit_group" where
  "group_at groups i = the (find (\<lambda>g. g_id g = i) groups)"

definition api_message_detail ::
  "(json \<Rightarrow> string option) \<Rightarrow> (string set \<Rightarrow> string) \<Rightarrow> database \<Rightarrow> nat \<Rightarrow> query_dict \<Rightarrow> string
     \<Rightarrow> (message_match list \<times> pagination) option" where
  "api_message_detail key_text pick db max_events query message_id =
     (let fl = normalized_projection_filters ((api_filter_values query)\<lparr>fl_message_id := message_id\<rparr>) None;
          artifacts = map (\<lambda>a. (group_at (db_groups db) (da_group a), a)) (filtered_message_delivery_artifacts db message_id fl);
          ordered = sort_key (\<lambda>(g, a). (g_slug g, artifact_order a)) artifacts
      in paginated_payloads_opt ordered fl (message_match_of key_text pick db max_events fl)
           (\<lambda>m. dp_severity (mm_delivery_artifact m)))"

section \<open>The endpoints\<close>

text \<open>
  A page of the read API is found by the group's slug, unique among the groups. \<open>Http404\<close> is the answer when no
  row has it, \<open>ServerError\<close> when a payload raises.
\<close>

datatype 'a api_response = Http404 | ServerError | JsonOk 'a

definition group_by_slug :: "database \<Rightarrow> string \<Rightarrow> audit_group option" where
  "group_by_slug db slug = find (\<lambda>g. g_slug g = slug) (db_groups db)"

definition answer :: "'a option \<Rightarrow> 'a api_response" where
  "answer r = (case r of None \<Rightarrow> ServerError | Some a \<Rightarrow> JsonOk a)"

record group_part =
  gp_group :: dict
  gp_classification :: dict

definition group_part_of :: "database \<Rightarrow> audit_group \<Rightarrow> group_part" where
  "group_part_of db g = \<lparr> gp_group = group_api_payload db g, gp_classification = group_classification db (g_id g) \<rparr>"

definition api_group_detail :: "database \<Rightarrow> string \<Rightarrow> group_part api_response" where
  "api_group_detail db slug =
     (case group_by_slug db slug of None \<Rightarrow> Http404 | Some g \<Rightarrow> JsonOk (group_part_of db g))"

definition api_group_delivery ::
  "(json \<Rightarrow> string option) \<Rightarrow> (string set \<Rightarrow> string) \<Rightarrow> database \<Rightarrow> query_dict \<Rightarrow> string
     \<Rightarrow> (group_part \<times> api_filters \<times> delivery_payload list \<times> pagination) api_response" where
  "api_group_delivery key_text pick db query slug =
     (case group_by_slug db slug of
        None \<Rightarrow> Http404
      | Some g \<Rightarrow>
          (let filters = api_filter_values query
           in answer (map_option (\<lambda>page. (group_part_of db g, filters, page)) (delivery_page key_text pick db (g_id g) filters))))"

definition api_group_delivery_artifact ::
  "(json \<Rightarrow> string option) \<Rightarrow> (string set \<Rightarrow> string) \<Rightarrow> database \<Rightarrow> string \<Rightarrow> string
     \<Rightarrow> (group_part \<times> delivery_payload) api_response" where
  "api_group_delivery_artifact key_text pick db slug artifact_id =
     (case group_by_slug db slug of
        None \<Rightarrow> Http404
      | Some g \<Rightarrow>
          (case find (\<lambda>a. da_group a = g_id g \<and> da_artifact_id a = artifact_id) (pj_artifacts (db_projections db)) of
             None \<Rightarrow> Http404
           | Some a \<Rightarrow> answer (map_option (\<lambda>payload. (group_part_of db g, payload))
               (delivery_artifact_payload pick db (delivery_identity_index key_text (db_events db) (g_id g)) a))))"

definition api_group_network ::
  "database \<Rightarrow> query_dict \<Rightarrow> string \<Rightarrow> (group_part \<times> api_filters \<times> dict list \<times> pagination) api_response" where
  "api_group_network db query slug =
     (case group_by_slug db slug of
        None \<Rightarrow> Http404
      | Some g \<Rightarrow>
          (let filters = api_filter_values query in JsonOk (group_part_of db g, filters, network_page db (g_id g) filters)))"

definition api_group_convergence_runs ::
  "database \<Rightarrow> query_dict \<Rightarrow> string \<Rightarrow> (group_part \<times> api_filters \<times> dict list \<times> pagination) api_response" where
  "api_group_convergence_runs db query slug =
     (case group_by_slug db slug of
        None \<Rightarrow> Http404
      | Some g \<Rightarrow>
          (let filters = api_filter_values query in JsonOk (group_part_of db g, filters, convergence_page db (g_id g) filters)))"

definition api_group_state ::
  "database \<Rightarrow> query_dict \<Rightarrow> string
     \<Rightarrow> (group_part \<times> api_filters \<times> (dict list \<times> pagination) \<times> dict list \<times> pagination) api_response" where
  "api_group_state db query slug =
     (case group_by_slug db slug of
        None \<Rightarrow> Http404
      | Some g \<Rightarrow>
          (let filters = api_filter_values query
           in JsonOk (group_part_of db g, filters, state_delta_page db (g_id g) filters, epoch_transition_page db (g_id g) filters)))"

definition api_group_engines ::
  "(json \<Rightarrow> string option) \<Rightarrow> database \<Rightarrow> string \<Rightarrow> (group_part \<times> engine_row list) api_response" where
  "api_group_engines key_text db slug =
     (case group_by_slug db slug of
        None \<Rightarrow> Http404
      | Some g \<Rightarrow> JsonOk (group_part_of db g, group_engine_rows key_text db (g_id g) None))"

definition api_group_evidence ::
  "database \<Rightarrow> query_dict \<Rightarrow> string \<Rightarrow> (group_part \<times> api_filters \<times> dict list \<times> pagination) api_response" where
  "api_group_evidence db query slug =
     (case group_by_slug db slug of
        None \<Rightarrow> Http404
      | Some g \<Rightarrow>
          (let filters = api_filter_values query in JsonOk (group_part_of db g, filters, evidence_page db (g_id g) filters)))"

definition api_group_projections ::
  "(json \<Rightarrow> string option) \<Rightarrow> (string set \<Rightarrow> string) \<Rightarrow> database \<Rightarrow> nat \<Rightarrow> query_dict \<Rightarrow> string \<Rightarrow> projection_payload api_response" where
  "api_group_projections key_text pick db max_events query slug =
     (case group_by_slug db slug of
        None \<Rightarrow> Http404
      | Some g \<Rightarrow>
          (let filters = action_filter_values query
           in answer (group_projection_payload key_text pick db g max_events (api_filters.truncate filters)
                (Some (fl_origin filters, fl_action filters)))))"

section \<open>One convergence run\<close>

datatype run_response =
    RunNotFound
  | RunAmbiguous group_part api_filters "dict list"
  | RunFound group_part api_filters dict

definition run_match :: "convergence_run \<Rightarrow> dict" where
  "run_match r = [
     (''run_id'', JStr (cr_run_id r)), (''engine_id'', JStr (cr_engine_id r)), (''account_ref'', JStr (cr_account_ref r)),
     (''inferred'', JBool (cr_inferred r)), (''phase'', JStr (cr_phase r)), (''started_at_ms'', j_int (cr_started_at_ms r)),
     (''ended_at_ms'', j_int (cr_ended_at_ms r))]"

definition runs_named :: "database \<Rightarrow> nat \<Rightarrow> 'f api_filters_scheme \<Rightarrow> string \<Rightarrow> convergence_run list" where
  "runs_named db g filters run_id =
     filter (\<lambda>r. cr_group r = g \<and> cr_run_id r = run_id \<and> text_ok (fl_engine_id filters) (cr_engine_id r))
       (pj_runs (db_projections db))"

definition api_group_convergence_run :: "database \<Rightarrow> query_dict \<Rightarrow> string \<Rightarrow> string \<Rightarrow> run_response" where
  "api_group_convergence_run db query slug run_id =
     (case group_by_slug db slug of
        None \<Rightarrow> RunNotFound
      | Some g \<Rightarrow>
          (let filters = api_filter_values query;
               runs = runs_named db (g_id g) filters run_id;
               matches = take 2 (sort_key (\<lambda>r. (cr_engine_id r, null_key (cr_started_at_ms r), cr_id r)) runs)
           in (case matches of
                 [] \<Rightarrow> RunNotFound
               | [r1] \<Rightarrow> RunFound (group_part_of db g) filters (convergence_run_payload db r1)
               | _ \<Rightarrow> RunAmbiguous (group_part_of db g) filters (map run_match matches))))"

section \<open>The agent export\<close>

datatype agent_export_response =
    AgentExportTooLarge nat nat
  | AgentExport agent_export projection_payload

text \<open>\<open>None\<close> when the export or the projection raises.\<close>

definition group_agent_export ::
  "(json \<Rightarrow> string option) \<Rightarrow> (string set \<Rightarrow> string) \<Rightarrow> nat \<Rightarrow> nat \<Rightarrow> int \<Rightarrow> database \<Rightarrow> audit_group \<Rightarrow> agent_export_response option" where
  "group_agent_export key_text pick max_export_events max_events now db g =
     (let events = valid_events_for_group (db_files db) (db_events db) (g_id g)
      in if length events > max_export_events then Some (AgentExportTooLarge (length events) max_export_events)
         else (case (agent_state_export_for_group key_text db now g events (audit_files_for_group db (g_id g)),
                     group_projection_payload key_text pick db g max_events default_api_filters None) of
                 (Some export, Some projection) \<Rightarrow> Some (AgentExport export projection)
               | _ \<Rightarrow> None))"

section \<open>What the pages hold\<close>

text \<open>Where no payload raises, the pages are those of \<open>paginated_payloads\<close>, so the theorems on paging apply to them.\<close>

lemma page_loop_opt_total:
  assumes "\<And>x. x \<in> set items \<Longrightarrow> f x = Some (h x)"
  shows "page_loop_opt limit offset f keep items page matched = Some (page_loop limit offset h keep items page matched)"
  using assms by (induction items arbitrary: page matched) simp_all

lemma paginated_opt_total:
  assumes "\<And>x. x \<in> set ordered \<Longrightarrow> f x = Some (h x)"
  shows "paginated_payloads_opt ordered filters f sev = Some (paginated_payloads ordered filters h sev None)"
proof -
  have part: "map_opt f (take n (take m (drop k ordered))) = Some (map h (take n (take m (drop k ordered))))" for n m k
    using assms by (intro map_opt_total) (meson in_set_dropD in_set_takeD)
  have loop: "page_loop_opt limit offset f keep ordered [] 0 = Some (page_loop limit offset h keep ordered [] 0)" for limit offset keep
    using page_loop_opt_total [OF assms, of ordered] by simp
  show ?thesis
    unfolding paginated_payloads_opt_def paginated_payloads_def Let_def loop part by (simp add: case_prod_beta)
qed

lemma runs_named_engines:
  assumes "runs_ok (db_projections db)"
  shows "distinct (map cr_engine_id (runs_named db g filters run_id))"
proof -
  have "distinct (map run_key (runs_named db g filters run_id))"
    using assms by (simp add: runs_ok_def runs_named_def distinct_map_filter)
  moreover have "map run_key (runs_named db g filters run_id) = map (\<lambda>e. (g, e, run_id)) (map cr_engine_id (runs_named db g filters run_id))"
    by (auto simp: runs_named_def run_key_def)
  ultimately show ?thesis using distinct_map by metis
qed

lemma filter_distinct_key: "distinct (map f xs) \<Longrightarrow> x \<in> set xs \<Longrightarrow> filter (\<lambda>y. f y = f x) xs = [x]"
proof (induction xs)
  case (Cons y ys)
  show ?case
  proof (cases "f y = f x")
    case True
    then have "y = x" using Cons.prems by (auto simp: image_iff)
    moreover have "filter (\<lambda>z. f z = f y) ys = []" using Cons.prems(1) by (simp add: filter_empty_conv image_iff) metis
    ultimately show ?thesis by simp
  next
    case False
    then show ?thesis using Cons by auto
  qed
qed simp

lemma take2_cases:
  obtains "xs = []" "take 2 xs = []" | x where "xs = [x]" "take 2 xs = [x]" | x y zs where "xs = x # y # zs" "take 2 xs = [x, y]"
  by (cases xs; cases "tl xs") (auto simp: numeral_2_eq_2)

text \<open>
  C33: the lookup of one convergence run by its id. In a database whose run rows are unique, the answer is 404
  exactly when the group is unknown or no run of it matches; one run is returned exactly when it is the only
  match; and the request is ambiguous only if it names no engine, in which case the two matches listed come
  from different engines, so that repeating it with either engine's id finds that engine's run.
\<close>

theorem run_lookup_exact:
  assumes "runs_ok (db_projections db)" "group_by_slug db slug = Some g"
  shows "let filters = api_filter_values query; runs = runs_named db (g_id g) filters run_id
    in (case api_group_convergence_run db query slug run_id of
          RunNotFound \<Rightarrow> runs = []
        | RunFound part fl payload \<Rightarrow> (\<exists>r. runs = [r] \<and> payload = convergence_run_payload db r)
        | RunAmbiguous part fl matches \<Rightarrow> fl_engine_id filters = [] \<and>
            (\<exists>r1 r2. matches = [run_match r1, run_match r2] \<and> cr_engine_id r1 < cr_engine_id r2 \<and> {r1, r2} \<subseteq> set runs \<and>
               (\<forall>r \<in> {r1, r2}. cr_engine_id r \<noteq> [] \<longrightarrow>
                  api_group_convergence_run db (query @ [(''engine_id'', cr_engine_id r)]) slug run_id =
                    RunFound (group_part_of db g) (api_filter_values (query @ [(''engine_id'', cr_engine_id r)]))
                      (convergence_run_payload db r))))"
proof -
  define key where "key = (\<lambda>r :: convergence_run. (cr_engine_id r, null_key (cr_started_at_ms r), cr_id r))"
  define runs where "runs = (\<lambda>q. runs_named db (g_id g) (api_filter_values q) run_id)"
  have lookup: "api_group_convergence_run db q slug run_id =
      (case take 2 (sort_key key (runs q)) of
         [] \<Rightarrow> RunNotFound
       | [r1] \<Rightarrow> RunFound (group_part_of db g) (api_filter_values q) (convergence_run_payload db r1)
       | _ \<Rightarrow> RunAmbiguous (group_part_of db g) (api_filter_values q) (map run_match (take 2 (sort_key key (runs q)))))" for q
    unfolding api_group_convergence_run_def assms(2) runs_def key_def Let_def option.case by (rule refl)
  have engines: "distinct (map cr_engine_id (runs q))" for q
    unfolding runs_def by (rule runs_named_engines [OF assms(1)])
  have single: "sort_key key (runs q) = [r]" if "runs q = [r]" for q r using that by simp
  show ?thesis
  proof (cases rule: take2_cases [of "sort_key key (runs query)"])
    case 1
    then have "runs query = []" by (metis length_0_conv length_sort)
    then show ?thesis using lookup [of query] by (simp add: runs_def)
  next
    case (2 r)
    then have "runs query = [r]" by (metis length_0_conv length_Suc_conv length_sort set_sort list.set_intros(1) singletonD list.set(1,2) empty_set)
    then show ?thesis using lookup [of query] 2 by (simp add: runs_def)
  next
    case (3 r1 r2 zs)
    have members: "{r1, r2} \<subseteq> set (runs query)" using 3(1) by (metis set_sort insert_subset list.set_intros empty_subsetI)
    have "distinct (map cr_engine_id (sort_key key (runs query)))"
      using engines [of query] by (metis distinct_map distinct_sort set_sort)
    then have neq: "cr_engine_id r1 \<noteq> cr_engine_id r2" by (simp add: 3(1))
    have "sorted (map key (sort_key key (runs query)))" by simp
    then have "key r1 \<le> key r2" by (simp add: 3(1))
    with neq have less: "cr_engine_id r1 < cr_engine_id r2" by (auto simp: key_def less_eq_prod_def)
    have unfiltered: "fl_engine_id (api_filter_values query) = []"
      using members neq by (auto simp: runs_def runs_named_def text_ok_def)
    have retry: "runs (query @ [(''engine_id'', cr_engine_id r)]) = [r]" if "r \<in> {r1, r2}" "cr_engine_id r \<noteq> []" for r
    proof -
      have "runs (query @ [(''engine_id'', cr_engine_id r)]) = filter (\<lambda>x. cr_engine_id x = cr_engine_id r) (runs query)"
        using unfiltered \<open>cr_engine_id r \<noteq> []\<close>
        by (auto simp: runs_def runs_named_def text_ok_def api_filter_values_def query_get_or_def query_get_def intro!: filter_cong)
      then show ?thesis using filter_distinct_key [OF engines] that(1) members by auto
    qed
    have found: "api_group_convergence_run db (query @ [(''engine_id'', cr_engine_id r)]) slug run_id =
        RunFound (group_part_of db g) (api_filter_values (query @ [(''engine_id'', cr_engine_id r)])) (convergence_run_payload db r)"
      if "r \<in> {r1, r2}" "cr_engine_id r \<noteq> []" for r
      using retry [OF that] unfolding lookup [of "query @ _"] by simp
    have ambiguous: "api_group_convergence_run db query slug run_id =
        RunAmbiguous (group_part_of db g) (api_filter_values query) [run_match r1, run_match r2]"
      using lookup [of query] 3(2) by simp
    show ?thesis
      unfolding Let_def ambiguous run_response.case
    proof (intro conjI, rule unfiltered, rule exI [of _ r1], rule exI [of _ r2], intro conjI ballI impI)
      show "{r1, r2} \<subseteq> set (runs_named db (g_id g) (api_filter_values query) run_id)" using members by (simp add: runs_def)
    qed (rule refl, rule less, rule found)
  qed
qed


definition example_two_engines :: database where
  "example_two_engines =
     (let run1 = \<lparr> cr_id = 1, cr_group = 1, cr_run_id = ''r'', cr_engine_id = ''bb'', cr_account_ref = [], cr_inferred = False,
            cr_phase = [], cr_started_at_ms = Some 1, cr_ended_at_ms = None, cr_current_tip_epoch = None,
            cr_selected_branch_id = [], cr_selected_fork_epoch = None, cr_selected_tip_epoch = None,
            cr_max_rewind_commits = None, cr_losing_branch_ids = [], cr_error_kinds = [], cr_evidence_events = [] \<rparr>
      in example_db\<lparr>db_projections := empty_projections\<lparr>pj_next_run := 3,
           pj_runs := [run1, run1\<lparr>cr_id := 2, cr_engine_id := ''aa''\<rparr>]\<rparr>\<rparr>)"

theorem run_lookup_exact_witness:
  "\<exists>g part fl m1 m2 part2 payload. group_by_slug example_two_engines ''g'' = Some g \<and>
     api_group_convergence_run example_two_engines [] ''g'' ''r'' = RunAmbiguous part fl [m1, m2] \<and>
     dict_get m1 ''engine_id'' = JStr ''aa'' \<and>
     api_group_convergence_run example_two_engines [(''engine_id'', ''aa'')] ''g'' ''r'' =
       RunFound part2 (api_filter_values [(''engine_id'', ''aa'')]) payload"
proof -
  have ok: "runs_ok (db_projections example_two_engines)" by code_simp
  obtain g where g: "group_by_slug example_two_engines ''g'' = Some g" "g_id g = 1"
    by (simp add: group_by_slug_def example_two_engines_def example_db_def Let_def)
  define q where "q = ([] :: query_dict)"
  have two: "map cr_engine_id (runs_named example_two_engines 1 (api_filter_values q) ''r'') = [''bb'', ''aa'']"
    unfolding q_def by code_simp
  note exact = run_lookup_exact [OF ok g(1), of q "''r''", unfolded Let_def g(2)]
  show ?thesis
  proof (cases "api_group_convergence_run example_two_engines q ''g'' ''r''")
    case RunNotFound
    then show ?thesis using exact two by simp
  next
    case (RunFound part fl payload)
    then show ?thesis using exact two by auto
  next
    case (RunAmbiguous part fl ms)
    obtain r1 r2 where r: "ms = [run_match r1, run_match r2]" "cr_engine_id r1 < cr_engine_id r2"
        "{r1, r2} \<subseteq> set (runs_named example_two_engines 1 (api_filter_values q) ''r'')"
        and retry: "\<forall>r \<in> {r1, r2}. cr_engine_id r \<noteq> [] \<longrightarrow>
          api_group_convergence_run example_two_engines (q @ [(''engine_id'', cr_engine_id r)]) ''g'' ''r'' =
            RunFound (group_part_of example_two_engines g) (api_filter_values (q @ [(''engine_id'', cr_engine_id r)]))
              (convergence_run_payload example_two_engines r)"
      using conjunct2 [OF exact [unfolded RunAmbiguous run_response.case]] by (elim exE conjE) rule
    have "cr_engine_id r1 \<in> {''bb'', ''aa''}" "cr_engine_id r2 \<in> {''bb'', ''aa''}"
      using r(3) arg_cong [OF two, of set] by auto
    moreover have "\<not> ''bb'' < ''aa''" by code_simp
    ultimately have aa: "cr_engine_id r1 = ''aa''" using r(2) by auto
    have "api_group_convergence_run example_two_engines [(''engine_id'', ''aa'')] ''g'' ''r'' =
        RunFound (group_part_of example_two_engines g) (api_filter_values [(''engine_id'', ''aa'')])
          (convergence_run_payload example_two_engines r1)"
      using retry [THEN bspec, of r1] aa by (simp add: q_def)
    moreover have "dict_get (run_match r1) ''engine_id'' = JStr ''aa''" by (simp add: run_match_def aa)
    ultimately show ?thesis using RunAmbiguous r(1) g(1) unfolding q_def by blast
  qed
qed

end
