(* ===== verification/Group_Tabs.thy ===== *)
theory Group_Tabs
  imports Projection_Api Stream_Export
begin

text \<open>
  The pages of one group and of one account or engine (\<^verbatim>\<open>forensics/views.py\<close>): what each tab of the group page
  is given, the rows of an investigation, and the saved reports. The templates that render them are left out.
  The theorems state when a list says that rows were left out, and that the summary of a saved report agrees
  with the projection it was made of.
\<close>

section \<open>Bounded lists\<close>

definition GROUP_DETAIL_TAB_EVENT_LIMIT :: nat where
  "GROUP_DETAIL_TAB_EVENT_LIMIT = 100"

definition limited_tab_events :: "nat \<Rightarrow> 'a list \<Rightarrow> 'a list \<times> bool" where
  "limited_tab_events limit rows =
     (let fetched = take (limit + 1) rows in (take limit fetched, length fetched > limit))"

definition attach_decisive_rules :: "projections \<Rightarrow> convergence_run list \<Rightarrow> (convergence_run \<times> rule_evaluation list) list" where
  "attach_decisive_rules pj runs = map (\<lambda>r. (r, filter ce_decisive (run_rules pj r))) runs"

definition recent_evidence_rows :: "database \<Rightarrow> nat \<Rightarrow> dict list" where
  "recent_evidence_rows db g =
     map (\<lambda>e. event_row e @ [(''audit_file_id'', j_nat (ev_audit_file e)), (''line_hash'', JStr (ev_line_hash e))])
       (take GROUP_DETAIL_TAB_EVENT_LIMIT
         (rev (sort_key (\<lambda>e. (null_key (ev_wall_time_ms e), ev_id e)) (filter (\<lambda>e. ev_group e = Some g) (db_events db)))))"

text \<open>\<^verbatim>\<open>.values(f).annotate(count=Count("id")).order_by("-count", f)[:12]\<close>.\<close>

definition top_counts :: "('r \<Rightarrow> string) \<Rightarrow> 'r list \<Rightarrow> (string \<times> nat) list" where
  "top_counts f rows =
     (let vs = map f rows
      in take 12 (sort_key (\<lambda>(v, n). (- int n, v)) (map (\<lambda>v. (v, count_list vs v)) (sorted_set vs))))"

definition audit_data_mode_change_queryset :: "database \<Rightarrow> nat \<Rightarrow> audit_event list" where
  "audit_data_mode_change_queryset db g =
     filter (\<lambda>e. counted_event (db_files db) e \<and> ev_group e = Some g \<and> ev_event_type e = ''audit_data_mode_changed'') (db_events db)"

section \<open>The overview\<close>

record overview_context =
  ov_audit_files :: "dict list"
  ov_audit_files_limited :: bool
  ov_engines :: "engine_row list"
  ov_engines_limited :: bool
  ov_mode_changes :: "dict list"
  ov_mode_changes_limited :: bool
  ov_network_by_phase :: "(string \<times> nat) list"
  ov_delivery_by_kind :: "(string \<times> nat) list"
  ov_convergence_by_phase :: "(string \<times> nat) list"
  ov_state_by_kind :: "(string \<times> nat) list"
  ov_audit_data_modes :: "(string \<times> nat) list"
  ov_classification :: dict
  ov_action_origin_counts :: "(string \<times> string \<times> nat) list"
  ov_recent_user_actions :: "action_payload list"
  ov_recent_system_attribution :: "action_payload list"
  ov_recent_other_attribution :: "action_payload list"
  ov_action_events_limited :: bool

definition group_overview_context ::
  "(json \<Rightarrow> string option) \<Rightarrow> database \<Rightarrow> nat \<Rightarrow> nat \<Rightarrow> overview_context option" where
  "group_overview_context key_text db g max_events =
     (let audit_files = take GROUP_DETAIL_TAB_EVENT_LIMIT (audit_files_for_group db g);
          engine_rows = group_engine_rows key_text db g (Some (GROUP_DETAIL_TAB_EVENT_LIMIT + 1));
          fl = default_action_filters\<lparr>fl_limit := 5\<rparr>;
          mode_changes = audit_data_mode_change_queryset db g;
          mode_change_events = take GROUP_DETAIL_TAB_EVENT_LIMIT
            (rev (sort_key (\<lambda>e. (null_key (ev_wall_time_ms e), ev_id e)) mode_changes));
          pj = db_projections db
      in map_option (\<lambda>(groups, truncated). \<lparr>
           ov_audit_files = file_rows_for_group db g audit_files,
           ov_audit_files_limited = (length audit_files = GROUP_DETAIL_TAB_EVENT_LIMIT),
           ov_engines = take GROUP_DETAIL_TAB_EVENT_LIMIT engine_rows,
           ov_engines_limited = (length engine_rows > GROUP_DETAIL_TAB_EVENT_LIMIT),
           ov_mode_changes = map audit_data_mode_change_payload mode_change_events,
           ov_mode_changes_limited = (length mode_changes > length mode_change_events),
           ov_network_by_phase = top_counts no_phase (filter (\<lambda>n. no_group n = Some g) (pj_network pj)),
           ov_delivery_by_kind = top_counts da_artifact_kind (filter (\<lambda>a. da_group a = g) (pj_artifacts pj)),
           ov_convergence_by_phase = top_counts cr_phase (filter (\<lambda>r. cr_group r = g) (pj_runs pj)),
           ov_state_by_kind = top_counts sd_change_kind (filter (\<lambda>d. sd_group d = Some g) (pj_deltas pj)),
           ov_audit_data_modes = audit_data_modes_for_group db g,
           ov_classification = group_classification db g,
           ov_action_origin_counts = action_origin_counts db g,
           ov_recent_user_actions = action_attribution_section groups ''user'' fl,
           ov_recent_system_attribution = action_attribution_section groups ''system'' fl,
           ov_recent_other_attribution = action_attribution_section groups ''other'' fl,
           ov_action_events_limited = truncated \<rparr>)
         (action_groups_for_api db g max_events fl))"

section \<open>Saved reports\<close>

text \<open>\<^verbatim>\<open>AnalysisRun\<close>: \<open>sr_projection\<close> is the projection stored in \<^verbatim>\<open>report_json\<close>, whose title and notes are the row's.\<close>

record saved_investigation =
  sr_id :: nat
  sr_group :: nat
  sr_created_by :: "nat option"
  sr_title :: string
  sr_notes :: string
  sr_projection :: projection_payload
  sr_created_at :: int

definition post_text :: "string option \<Rightarrow> string \<Rightarrow> string" where
  "post_text v dflt = py_strip (case v of None \<Rightarrow> dflt | Some s \<Rightarrow> if s = [] then dflt else s)"

definition create_saved_report ::
  "(json \<Rightarrow> string option) \<Rightarrow> (string set \<Rightarrow> string) \<Rightarrow> database \<Rightarrow> nat \<Rightarrow> int \<Rightarrow> nat \<Rightarrow> nat \<Rightarrow> string option \<Rightarrow> string option
     \<Rightarrow> string \<Rightarrow> saved_investigation list \<Rightarrow> saved_investigation list api_response" where
  "create_saved_report key_text pick db max_events now next_id user title notes slug reports =
     (case group_by_slug db slug of
        None \<Rightarrow> Http404
      | Some g \<Rightarrow>
          answer (map_option (\<lambda>projection.
              reports @ [\<lparr> sr_id = next_id, sr_group = g_id g, sr_created_by = Some user,
                sr_title = take 160 (post_text title ''Group forensic snapshot''), sr_notes = post_text notes [],
                sr_projection = projection, sr_created_at = now \<rparr>])
            (group_projection_payload key_text pick db g max_events default_api_filters None)))"

fun nested_json_value :: "json \<Rightarrow> string list \<Rightarrow> json" where
  "nested_json_value current [] = current"
| "nested_json_value (JObj d) (key # path) = nested_json_value (dict_get d key) path"
| "nested_json_value _ (key # path) = JNull"

definition SAVED_REPORT_PROJECTION_SECTIONS :: "(string \<times> string list) list" where
  "SAVED_REPORT_PROJECTION_SECTIONS = [
     (''Delivery artifacts'', [''delivery_artifacts'']),
     (''Network observations'', [''network_observations'']),
     (''Convergence runs'', [''convergence_runs'']),
     (''State deltas'', [''state_deltas'']),
     (''Epoch state transitions'', [''epoch_state_transitions'']),
     (''Audit mode changes'', [''audit_data_mode_changes'']),
     (''User actions'', [''action_attribution'', ''user_actions'']),
     (''System attribution'', [''action_attribution'', ''system_attribution'']),
     (''Other attribution'', [''action_attribution'', ''other_attribution''])]"

record summary_row =
  su_label :: string
  su_count :: nat
  su_has_more :: bool
  su_next_offset :: json

text \<open>The two paths of a section are equal in the source. \<open>report_json\<close> is any JSON value.\<close>

definition saved_report_projection_summary :: "json \<Rightarrow> summary_row list" where
  "saved_report_projection_summary report_json =
     (let projection = (case report_json of JObj d \<Rightarrow> dict_get d ''projection'' | _ \<Rightarrow> JObj []);
          projection = (if is_dict projection then projection else JObj []);
          pagination = dict_get (dict_of projection) ''pagination'';
          pagination = (if is_dict pagination then pagination else JObj [])
      in map (\<lambda>(label, path).
           let vs = nested_json_value projection path; page = nested_json_value pagination path
           in \<lparr> su_label = label, su_count = (case vs of JList xs \<Rightarrow> length xs | _ \<Rightarrow> 0),
                su_has_more = (case page of JObj p \<Rightarrow> truthy (dict_get p ''has_more'') | _ \<Rightarrow> False),
                su_next_offset = (case page of JObj p \<Rightarrow> dict_get p ''next_offset'' | _ \<Rightarrow> JNull) \<rparr>)
         SAVED_REPORT_PROJECTION_SECTIONS)"

text \<open>
  The JSON that is stored. \<open>delivery_json\<close> and \<open>action_json\<close> write one delivery and one action payload; the counts
  do not depend on them. Times are written as numbers.
\<close>

definition page_json :: "pagination \<Rightarrow> json" where
  "page_json pg = JObj [(''limit'', j_nat (pg_limit pg)), (''offset'', j_nat (pg_offset pg)), (''returned'', j_nat (pg_returned pg)),
     (''has_more'', JBool (pg_has_more pg)), (''next_offset'', (case pg_next_offset pg of None \<Rightarrow> JNull | Some n \<Rightarrow> j_nat n))]"

definition filters_json :: "action_filters \<Rightarrow> json" where
  "filters_json fl = JObj [(''engine_id'', JStr (fl_engine_id fl)), (''account_ref'', JStr (fl_account_ref fl)),
     (''audit_data_mode'', JStr (fl_audit_data_mode fl)), (''message_id'', JStr (fl_message_id fl)),
     (''event_type'', JStr (fl_event_type fl)), (''severity'', JStr (fl_severity fl)), (''epoch'', j_int (fl_epoch fl)),
     (''from_ms'', j_int (fl_from_ms fl)), (''to_ms'', j_int (fl_to_ms fl)), (''limit'', j_nat (fl_limit fl)),
     (''offset'', j_nat (fl_offset fl)), (''origin'', JStr (fl_origin fl)), (''action'', JStr (fl_action fl))]"

definition rows_json :: "dict list \<Rightarrow> json" where
  "rows_json rows = JList (map JObj rows)"

definition projection_json :: "(delivery_payload \<Rightarrow> json) \<Rightarrow> (action_payload \<Rightarrow> json) \<Rightarrow> projection_payload \<Rightarrow> dict" where
  "projection_json delivery_json action_json p =
     (let at = rp_attribution p; ap = rp_action_pagination at
      in [(''schema_version'', JStr ''goggles-audit-projections/v1''),
          (''group'', JObj (rp_group p)),
          (''classification'', JObj (rp_classification p)),
          (''filters'', filters_json (rp_filters p)),
          (''pagination'', JObj [
             (''delivery_artifacts'', page_json (snd (rp_delivery p))),
             (''network_observations'', page_json (snd (rp_network p))),
             (''convergence_runs'', page_json (snd (rp_convergence p))),
             (''state_deltas'', page_json (snd (rp_state_deltas p))),
             (''epoch_state_transitions'', page_json (snd (rp_epoch_transitions p))),
             (''audit_data_mode_changes'', page_json (snd (rp_mode_changes p))),
             (''action_attribution'', JObj (map (\<lambda>(k, pg). (k, page_json pg)) (ag_pages ap) @
                [(''scan_truncated'', JBool (ag_scan_truncated ap)), (''scan_limit'', j_nat (ag_scan_limit ap))]))]),
          (''delivery_artifacts'', JList (map delivery_json (fst (rp_delivery p)))),
          (''network_observations'', rows_json (fst (rp_network p))),
          (''convergence_runs'', rows_json (fst (rp_convergence p))),
          (''state_deltas'', rows_json (fst (rp_state_deltas p))),
          (''epoch_state_transitions'', rows_json (fst (rp_epoch_transitions p))),
          (''audit_data_mode_changes'', rows_json (fst (rp_mode_changes p))),
          (''action_attribution'', JObj [
             (''origin_counts'', JList (map (\<lambda>(origin, kind, n).
                JObj [(''origin'', JStr origin), (''attribution_kind'', JStr kind), (''count'', j_nat n)]) (rp_origin_counts at))),
             (''user_actions'', JList (map action_json (rp_user_actions at))),
             (''system_attribution'', JList (map action_json (rp_system_attribution at))),
             (''other_attribution'', JList (map action_json (rp_other_attribution at)))])])"

definition report_json :: "(delivery_payload \<Rightarrow> json) \<Rightarrow> (action_payload \<Rightarrow> json) \<Rightarrow> saved_investigation \<Rightarrow> json" where
  "report_json delivery_json action_json r = JObj [
     (''schema_version'', JStr ''goggles-saved-investigation/v1''), (''saved_at'', JInt (sr_created_at r)),
     (''title'', JStr (sr_title r)), (''notes'', JStr (sr_notes r)),
     (''projection'', JObj (projection_json delivery_json action_json (sr_projection r)))]"

definition saved_report_detail ::
  "(delivery_payload \<Rightarrow> json) \<Rightarrow> (action_payload \<Rightarrow> json) \<Rightarrow> saved_investigation list \<Rightarrow> nat
     \<Rightarrow> (saved_investigation \<times> summary_row list) api_response" where
  "saved_report_detail delivery_json action_json reports pk =
     (case find (\<lambda>r. sr_id r = pk) reports of
        None \<Rightarrow> Http404
      | Some r \<Rightarrow> JsonOk (r, saved_report_projection_summary (report_json delivery_json action_json r)))"

definition saved_report_json ::
  "(delivery_payload \<Rightarrow> json) \<Rightarrow> (action_payload \<Rightarrow> json) \<Rightarrow> saved_investigation list \<Rightarrow> nat \<Rightarrow> json api_response" where
  "saved_report_json delivery_json action_json reports pk =
     (case find (\<lambda>r. sr_id r = pk) reports of
        None \<Rightarrow> Http404
      | Some r \<Rightarrow> JsonOk (report_json delivery_json action_json r))"

section \<open>The tabs\<close>

datatype tab_context =
    OverviewTab overview_context
  | EvidenceTab "dict list" bool "dict list"
  | DeliveryTab "delivery_view list" "engine_row list" bool
  | NetworkTab "network_observation list" bool
  | ConvergenceTab "(convergence_run \<times> rule_evaluation list) list" bool
  | StateTab "state_delta list" bool "epoch_transition list" bool
  | ExportsTab dict dict "saved_investigation list"

text \<open>
  The unfiltered query sets in the order a tab asks for are those of the default filters. A report list is
  newest first.
\<close>

definition group_tab_context ::
  "(json \<Rightarrow> string option) \<Rightarrow> (string set \<Rightarrow> string) \<Rightarrow> database \<Rightarrow> nat \<Rightarrow> saved_investigation list \<Rightarrow> nat \<Rightarrow> string
     \<Rightarrow> tab_context api_response" where
  "group_tab_context key_text pick db max_events reports g tab =
     (if tab = ''overview'' then answer (map_option OverviewTab (group_overview_context key_text db g max_events))
      else if tab = ''evidence'' then
        (let (audit_files, audit_files_limited) = limited_tab_events GROUP_DETAIL_TAB_EVENT_LIMIT (audit_files_for_group db g)
         in JsonOk (EvidenceTab (file_rows_for_group db g audit_files) audit_files_limited (recent_evidence_rows db g)))
      else if tab = ''delivery'' then
        (let (artifacts, has_more) = limited_tab_events GROUP_DETAIL_TAB_EVENT_LIMIT
               (filtered_delivery_artifacts db g default_api_filters);
             delivery_engines = group_engine_rows key_text db g None
         in answer (map_option (\<lambda>views. DeliveryTab views delivery_engines has_more)
              (attach_delivery_matrices key_text pick db g artifacts (Some delivery_engines))))
      else if tab = ''network'' then
        (let (observations, has_more) = limited_tab_events GROUP_DETAIL_TAB_EVENT_LIMIT
               (filtered_network_observations db g default_api_filters)
         in JsonOk (NetworkTab observations has_more))
      else if tab = ''convergence'' then
        (let (runs, has_more) = limited_tab_events GROUP_DETAIL_TAB_EVENT_LIMIT
               (filtered_convergence_runs db g default_api_filters)
         in JsonOk (ConvergenceTab (attach_decisive_rules (db_projections db) runs) has_more))
      else if tab = ''state'' then
        (let (deltas, deltas_has_more) = limited_tab_events GROUP_DETAIL_TAB_EVENT_LIMIT
               (filtered_state_deltas db g default_api_filters);
             (transitions, transitions_has_more) = limited_tab_events GROUP_DETAIL_TAB_EVENT_LIMIT
               (filtered_epoch_transitions db g default_api_filters)
         in JsonOk (StateTab deltas deltas_has_more transitions transitions_has_more))
      else if tab = ''exports'' then
        JsonOk (ExportsTab (fst (group_summary_header_context db g)) (group_classification db g)
          (take 20 (rev (sort_key sr_created_at (filter (\<lambda>r. sr_group r = g) reports)))))
      else Http404)"

definition GROUP_DETAIL_TABS :: "string list" where
  "GROUP_DETAIL_TABS = [''overview'', ''delivery'', ''network'', ''convergence'', ''state'', ''evidence'', ''exports'']"

definition group_tab ::
  "(json \<Rightarrow> string option) \<Rightarrow> (string set \<Rightarrow> string) \<Rightarrow> database \<Rightarrow> nat \<Rightarrow> saved_investigation list \<Rightarrow> string \<Rightarrow> string
     \<Rightarrow> tab_context api_response" where
  "group_tab key_text pick db max_events reports slug tab =
     (if tab \<notin> set GROUP_DETAIL_TABS then Http404
      else (case group_by_slug db slug of
              None \<Rightarrow> Http404
            | Some g \<Rightarrow> group_tab_context key_text pick db max_events reports (g_id g) tab))"

section \<open>Investigating one account or engine\<close>

record subject_row =
  sj_group :: audit_group
  sj_event_count :: nat
  sj_engine_count :: nat
  sj_account_count :: nat
  sj_first_ms :: "int option"
  sj_last_ms :: "int option"

definition subject_row_of :: "database \<Rightarrow> (audit_event \<Rightarrow> bool) \<Rightarrow> audit_group \<Rightarrow> subject_row" where
  "subject_row_of db subject g =
     (let events = filter (\<lambda>e. ev_group e = Some (g_id g) \<and> subject e) (db_events db)
      in \<lparr> sj_group = g, sj_event_count = length events,
           sj_engine_count = card (set (filter (\<lambda>s. s \<noteq> []) (map ev_engine_id events))),
           sj_account_count = card (set (filter (\<lambda>s. s \<noteq> []) (map ev_account_ref events))),
           sj_first_ms = opt_min (the_list (map ev_wall_time_ms events)),
           sj_last_ms = opt_max (the_list (map ev_wall_time_ms events)) \<rparr>)"

text \<open>Descending by the last time, NULL first, then by slug.\<close>

definition subject_order :: "subject_row \<Rightarrow> (bool \<times> int) \<times> string" where
  "subject_order r = ((case sj_last_ms r of None \<Rightarrow> (False, 0) | Some t \<Rightarrow> (True, - t)), g_slug (sj_group r))"

definition investigation_group_rows :: "database \<Rightarrow> (audit_event \<Rightarrow> bool) \<Rightarrow> subject_row list" where
  "investigation_group_rows db subject =
     sort_key subject_order (filter (\<lambda>r. sj_event_count r > 0) (map (subject_row_of db subject) (db_groups db)))"

definition account_investigation :: "database \<Rightarrow> string \<Rightarrow> subject_row list" where
  "account_investigation db account_ref = investigation_group_rows db (\<lambda>e. ev_account_ref e = account_ref)"

definition engine_investigation :: "database \<Rightarrow> string \<Rightarrow> subject_row list" where
  "engine_investigation db engine_id = investigation_group_rows db (\<lambda>e. ev_engine_id e = engine_id)"

definition api_account_groups :: "database \<Rightarrow> string \<Rightarrow> dict list" where
  "api_account_groups db account_ref =
     map (group_api_payload db) (sort_key g_slug (filter (\<lambda>g. list_ex (\<lambda>e. ev_group e = Some (g_id g) \<and>
       ev_account_ref e = account_ref) (db_events db)) (db_groups db)))"

definition api_engine_groups :: "database \<Rightarrow> string \<Rightarrow> dict list" where
  "api_engine_groups db engine_id =
     map (group_api_payload db) (sort_key g_slug (filter (\<lambda>g. list_ex (\<lambda>e. ev_group e = Some (g_id g) \<and>
       ev_engine_id e = engine_id) (db_events db)) (db_groups db)))"

section \<open>What the lists leave out\<close>

lemma limited_tab_events_eq: "limited_tab_events limit rows = (take limit rows, limit < length rows)"
  by (auto simp: limited_tab_events_def Let_def)

lemma engine_rows_limited:
  "length (group_engine_rows key_text db g (Some n)) = min (length (group_engine_rows key_text db g None)) n"
  by (simp add: group_engine_rows_def Let_def)

lemma map_opt_map: "map_opt f xs = Some ys \<Longrightarrow> (\<And>x y. f x = Some y \<Longrightarrow> h y = x) \<Longrightarrow> map h ys = xs"
  by (induction xs arbitrary: ys) (auto split: option.splits)

lemma attach_views:
  "attach_delivery_matrices key_text pick db g artifacts engines = Some views \<Longrightarrow> map vw_artifact views = artifacts"
  unfolding attach_delivery_matrices_def Let_def
  by (rule map_opt_map) (auto split: option.splits)


section \<open>What a saved report says\<close>

lemma default_projection_filters [simp]:
  "fl_engine_id (normalized_projection_filters default_api_filters k) = []"
  "fl_account_ref (normalized_projection_filters default_api_filters k) = []"
  "fl_audit_data_mode (normalized_projection_filters default_api_filters k) = []"
  "fl_message_id (normalized_projection_filters default_api_filters k) = []"
  "fl_event_type (normalized_projection_filters default_api_filters k) = []"
  "fl_severity (normalized_projection_filters default_api_filters k) = []"
  "fl_epoch (normalized_projection_filters default_api_filters k) = None"
  "fl_from_ms (normalized_projection_filters default_api_filters k) = None"
  "fl_to_ms (normalized_projection_filters default_api_filters k) = None"
  "fl_limit (normalized_projection_filters default_api_filters k) = 100"
  "fl_offset (normalized_projection_filters default_api_filters k) = 0"
  by (simp_all add: normalized_projection_filters_def api_filters.defs action_filters.defs default_api_filters_def
      GROUP_PROJECTION_API_DEFAULT_LIMIT_def split: option.splits)

text \<open>The first page of a list of \<open>n\<close> rows.\<close>

definition first_page :: "nat \<Rightarrow> 'p list \<times> pagination \<Rightarrow> bool" where
  "first_page n page \<longleftrightarrow> length (fst page) = min n 100 \<and> snd page = pagination_payload 100 0 (min n 100) (100 < n)"

lemma first_page_payloads:
  "fl_severity fl = [] \<Longrightarrow> fl_limit fl = 100 \<Longrightarrow> fl_offset fl = 0 \<Longrightarrow>
   first_page (length rows) (paginated_payloads rows fl f sev None)"
  by (auto simp: first_page_def paginated_slice matching_def keeps_def Let_def)

lemma map_opt_length: "map_opt f xs = Some ys \<Longrightarrow> length ys = length xs"
  by (induction xs arbitrary: ys) (auto split: option.splits)

lemma first_page_payloads_opt:
  "paginated_payloads_opt rows fl f sev = Some page \<Longrightarrow> fl_severity fl = [] \<Longrightarrow> fl_limit fl = 100 \<Longrightarrow> fl_offset fl = 0 \<Longrightarrow>
   first_page (length rows) page"
  by (auto simp: first_page_def paginated_payloads_opt_def Let_def dest!: map_opt_length)

lemma projection_first_pages:
  assumes "group_projection_payload key_text pick db g max_events default_api_filters None = Some p"
  shows "first_page (length (filter (\<lambda>a. da_group a = g_id g) (pj_artifacts (db_projections db)))) (rp_delivery p)"
    "first_page (length (filter (\<lambda>n. no_group n = Some (g_id g)) (pj_network (db_projections db)))) (rp_network p)"
    "first_page (length (filter (\<lambda>r. cr_group r = g_id g) (pj_runs (db_projections db)))) (rp_convergence p)"
    "first_page (length (filter (\<lambda>d. sd_group d = Some (g_id g)) (pj_deltas (db_projections db)))) (rp_state_deltas p)"
    "first_page (length (filter (\<lambda>t. et_group t = Some (g_id g)) (pj_transitions (db_projections db)))) (rp_epoch_transitions p)"
    "first_page (length (audit_data_mode_change_queryset db (g_id g))) (rp_mode_changes p)"
proof -
  define fl where "fl = normalized_projection_filters default_api_filters None"
  note fl = fl_def
  obtain related delivery where parts: "message_related_projection_payload db (g_id g) max_events fl = Some related"
      "delivery_page key_text pick db (g_id g) fl = Some delivery"
    and p: "p = related_payload.extend related (projection_payload.fields (group_api_payload db g)
        (group_classification db (g_id g)) fl delivery (mode_change_page db (g_id g) fl))"
    using assms by (auto simp: group_projection_payload_def Let_def fl split: option.splits prod.splits)
  obtain attribution where related: "related = \<lparr> rp_network = network_page db (g_id g) fl, rp_convergence = convergence_page db (g_id g) fl,
      rp_state_deltas = state_delta_page db (g_id g) fl, rp_epoch_transitions = epoch_transition_page db (g_id g) fl,
      rp_attribution = attribution \<rparr>"
    using parts(1) by (auto simp: message_related_projection_payload_def)
  have get: "rp_network p = network_page db (g_id g) fl" "rp_convergence p = convergence_page db (g_id g) fl"
    "rp_state_deltas p = state_delta_page db (g_id g) fl" "rp_epoch_transitions p = epoch_transition_page db (g_id g) fl"
    "rp_delivery p = delivery" "rp_mode_changes p = mode_change_page db (g_id g) fl"
    by (simp_all add: p related related_payload.defs projection_payload.defs)
  have rows: "length (filtered_delivery_artifacts db i fl) = length (filter (\<lambda>a. da_group a = i) (pj_artifacts (db_projections db)))"
    "length (filtered_network_observations db i fl) = length (filter (\<lambda>n. no_group n = Some i) (pj_network (db_projections db)))"
    "length (filtered_convergence_runs db i fl) = length (filter (\<lambda>r. cr_group r = i) (pj_runs (db_projections db)))"
    "length (filtered_state_deltas db i fl) = length (filter (\<lambda>d. sd_group d = Some i) (pj_deltas (db_projections db)))"
    "length (filtered_epoch_transitions db i fl) = length (filter (\<lambda>t. et_group t = Some i) (pj_transitions (db_projections db)))"
    "length (filtered_audit_data_mode_changes db i fl) = length (audit_data_mode_change_queryset db i)" for i
    by (simp_all add: fl filtered_delivery_artifacts_def apply_delivery_artifact_filters_def filtered_network_observations_def
      filtered_convergence_runs_def filtered_state_deltas_def filtered_epoch_transitions_def filtered_audit_data_mode_changes_def
      audit_data_mode_change_queryset_def Let_def)
  have ok: "fl_severity fl = []" "fl_limit fl = 100" "fl_offset fl = 0" "fl_message_id fl = []" by (simp_all add: fl)
  show "first_page (length (filter (\<lambda>a. da_group a = g_id g) (pj_artifacts (db_projections db)))) (rp_delivery p)"
    using first_page_payloads_opt [OF parts(2) [unfolded delivery_page_def] ok(1-3)] by (simp add: get rows)
  show "first_page (length (filter (\<lambda>n. no_group n = Some (g_id g)) (pj_network (db_projections db)))) (rp_network p)"
    using first_page_payloads [OF ok(1-3)] by (simp add: get network_page_def flip: rows)
  show "first_page (length (filter (\<lambda>r. cr_group r = g_id g) (pj_runs (db_projections db)))) (rp_convergence p)"
    using first_page_payloads [OF ok(1-3)] by (simp add: get convergence_page_def ok flip: rows)
  show "first_page (length (filter (\<lambda>d. sd_group d = Some (g_id g)) (pj_deltas (db_projections db)))) (rp_state_deltas p)"
    using first_page_payloads [OF ok(1-3)] by (simp add: get state_delta_page_def flip: rows)
  show "first_page (length (filter (\<lambda>t. et_group t = Some (g_id g)) (pj_transitions (db_projections db)))) (rp_epoch_transitions p)"
    using first_page_payloads [OF ok(1-3)] by (simp add: get epoch_transition_page_def flip: rows)
  show "first_page (length (audit_data_mode_change_queryset db (g_id g))) (rp_mode_changes p)"
    using first_page_payloads [OF ok(1-3), of "sort_key k (filtered_audit_data_mode_changes db (g_id g) fl)" for k]
    by (simp add: get mode_change_page_def flip: rows)
qed

definition summary_of :: "string \<times> nat \<Rightarrow> summary_row" where
  "summary_of row = \<lparr> su_label = fst row, su_count = min (snd row) 100, su_has_more = 100 < snd row,
     su_next_offset = (if 100 < snd row then JInt 100 else JNull) \<rparr>"

lemma summary_row_of_page:
  "first_page n page \<Longrightarrow>
   \<lparr> su_label = label, su_count = length (fst page), su_has_more = pg_has_more (snd page),
     su_next_offset = (case pg_next_offset (snd page) of None \<Rightarrow> JNull | Some k \<Rightarrow> j_nat k) \<rparr> = summary_of (label, n)"
  by (auto simp: first_page_def summary_of_def pagination_payload_def j_nat_def)

lemma summary_rows:
  "take 6 (saved_report_projection_summary (report_json dj aj r)) =
    map (\<lambda>(label, len, pg). \<lparr> su_label = label, su_count = len, su_has_more = pg_has_more pg,
          su_next_offset = (case pg_next_offset pg of None \<Rightarrow> JNull | Some k \<Rightarrow> j_nat k) \<rparr>)
      (let p = sr_projection r
       in [(''Delivery artifacts'', length (fst (rp_delivery p)), snd (rp_delivery p)),
           (''Network observations'', length (fst (rp_network p)), snd (rp_network p)),
           (''Convergence runs'', length (fst (rp_convergence p)), snd (rp_convergence p)),
           (''State deltas'', length (fst (rp_state_deltas p)), snd (rp_state_deltas p)),
           (''Epoch state transitions'', length (fst (rp_epoch_transitions p)), snd (rp_epoch_transitions p)),
           (''Audit mode changes'', length (fst (rp_mode_changes p)), snd (rp_mode_changes p))])"
  by (simp add: saved_report_projection_summary_def report_json_def projection_json_def SAVED_REPORT_PROJECTION_SECTIONS_def
      Let_def rows_json_def page_json_def)


definition save_example :: "saved_investigation list api_response" where
  "save_example = create_saved_report (\<lambda>v. None) (\<lambda>S. []) example_two_engines 10 5 1 7 None (Some '' n '') ''g'' []"


section \<open>What an investigation lists\<close>

lemma subject_groups:
  "mset (map sj_group (investigation_group_rows db subject)) =
     mset (filter (\<lambda>g. list_ex (\<lambda>e. ev_group e = Some (g_id g) \<and> subject e) (db_events db)) (db_groups db))"
proof -
  have "sj_event_count (subject_row_of db subject g) > 0 \<longleftrightarrow> list_ex (\<lambda>e. ev_group e = Some (g_id g) \<and> subject e) (db_events db)"
    "sj_group (subject_row_of db subject g) = g" for g
    by (auto simp: subject_row_of_def Let_def list_ex_iff filter_empty_conv)
  then show ?thesis
    by (simp add: investigation_group_rows_def filter_map comp_def image_mset.compositionality)
qed

text \<open>
  The page of an account or an engine and the API list the same groups, those with an event of it, each once;
  the page counts the events.
\<close>

theorem investigation_lists_agree:
  "mset (map (\<lambda>r. group_api_payload db (sj_group r)) (account_investigation db account_ref)) = mset (api_account_groups db account_ref) \<and>
   mset (map (\<lambda>r. group_api_payload db (sj_group r)) (engine_investigation db engine_id)) = mset (api_engine_groups db engine_id) \<and>
   map sj_event_count (account_investigation db account_ref) =
     map (\<lambda>r. length (filter (\<lambda>e. ev_group e = Some (g_id (sj_group r)) \<and> ev_account_ref e = account_ref) (db_events db)))
       (account_investigation db account_ref)"
proof -
  have payloads: "mset (map (\<lambda>r. group_api_payload db (sj_group r)) (investigation_group_rows db subject)) =
      image_mset (group_api_payload db) (mset (filter (\<lambda>g. list_ex (\<lambda>e. ev_group e = Some (g_id g) \<and> subject e) (db_events db)) (db_groups db)))"
    for subject
    unfolding subject_groups [symmetric] by (simp add: image_mset.compositionality comp_def)
  have counts: "map sj_event_count (investigation_group_rows db subject) =
      map (\<lambda>r. length (filter (\<lambda>e. ev_group e = Some (g_id (sj_group r)) \<and> subject e) (db_events db))) (investigation_group_rows db subject)"
    for subject by (auto simp: investigation_group_rows_def subject_row_of_def Let_def)
  show ?thesis
    unfolding account_investigation_def engine_investigation_def api_account_groups_def api_engine_groups_def payloads counts
    by simp
qed

end
