(* ===== verification/Settings.thy ===== *)
theory Settings
  imports Py_Text Runtime "HOL-Library.Sublist"
begin

text \<open>
  The start-up configuration and the error-report scrubber of \<^verbatim>\<open>config/settings.py\<close>. The environment is a
  partial map; the module either loads, giving the settings the program uses, or stops with the error it raises.
  An error report is a JSON document; \<open>url_path\<close> stands for \<^verbatim>\<open>urlsplit(url).path\<close>, \<open>None\<close> when that raises. The
  floating-point parser and the engine that \<^verbatim>\<open>dj_database_url\<close> reads off a URL are parameters too. Constants of
  the web framework (middleware, templates, cookie policies that no variable changes) are left out.
\<close>

section \<open>Reading the environment\<close>

type_synonym environment = "string \<Rightarrow> string option"

datatype settings_error = BadInteger string | Improper string

definition env_bool :: "environment \<Rightarrow> string \<Rightarrow> bool \<Rightarrow> bool" where
  "env_bool env name dflt =
     (case env name of None \<Rightarrow> dflt | Some v \<Rightarrow> py_lower v \<in> {''1'', ''true'', ''yes'', ''on''})"

definition env_text :: "environment \<Rightarrow> string \<Rightarrow> string \<Rightarrow> string" where
  "env_text env name dflt = (case env name of None \<Rightarrow> dflt | Some v \<Rightarrow> v)"

definition env_list :: "environment \<Rightarrow> string \<Rightarrow> string \<Rightarrow> string list" where
  "env_list env name dflt =
     filter (\<lambda>s. s \<noteq> []) (map py_strip (split_on (CHR '','') (env_text env name dflt)))"

definition env_int :: "environment \<Rightarrow> string \<Rightarrow> int \<Rightarrow> settings_error + int" where
  "env_int env name dflt =
     (case env name of
        None \<Rightarrow> Inr dflt
      | Some v \<Rightarrow> (case py_int v of None \<Rightarrow> Inl (BadInteger name) | Some i \<Rightarrow> Inr i))"

definition and_then :: "'e + 'a \<Rightarrow> ('a \<Rightarrow> 'e + 'b) \<Rightarrow> 'e + 'b" where
  "and_then r f = (case r of Inl e \<Rightarrow> Inl e | Inr a \<Rightarrow> f a)"

definition require :: "bool \<Rightarrow> string \<Rightarrow> settings_error + unit" where
  "require ok name = (if ok then Inr () else Inl (Improper name))"

definition env_float_ok :: "(string \<Rightarrow> bool) \<Rightarrow> environment \<Rightarrow> string \<Rightarrow> bool" where
  "env_float_ok is_float env name = (case env name of None \<Rightarrow> True | Some v \<Rightarrow> is_float v)"

section \<open>Loading\<close>

record settings =
  st_debug :: bool
  st_secret_key :: string
  st_token_hash_key :: string
  st_allowed_hosts :: "string list"
  st_csrf_trusted_origins :: "string list"
  st_database_url :: "string option"
  st_max_dump_bytes :: int
  st_max_dump_records :: int
  st_max_jsonl_line_bytes :: int
  st_max_action_events_per_request :: int
  st_agent_export_max_events :: int
  st_uploads_enabled :: bool
  st_ingest_lock_timeout_ms :: int
  st_ingest_statement_timeout_ms :: int
  st_ingest_idle_timeout_ms :: int
  st_ingest_transaction_timeout_ms :: int
  st_audit_retention_days :: int
  st_exports_enabled :: bool
  st_file_upload_max_memory_size :: int
  st_session_cookie_secure :: bool
  st_csrf_cookie_secure :: bool
  st_hsts_seconds :: int

definition dev_secret_key :: string where
  "dev_secret_key = ''dev-only-change-me''"

text \<open>The first half of the module: what a production start insists on.\<close>

definition load_identity ::
  "(string \<Rightarrow> bool) \<Rightarrow> (string \<Rightarrow> bool) \<Rightarrow> environment
     \<Rightarrow> settings_error + (bool \<times> string \<times> string list \<times> string list \<times> string option)" where
  "load_identity is_float is_sqlite env =
     (let debug = env_bool env ''DJANGO_DEBUG'' False;
          secret_key = env_text env ''DJANGO_SECRET_KEY'' dev_secret_key;
          hosts = env_list env ''DJANGO_ALLOWED_HOSTS'' (if debug then ''127.0.0.1,localhost'' else []);
          origins = env_list env ''DJANGO_CSRF_TRUSTED_ORIGINS'' [];
          database_url = env ''DATABASE_URL'';
          given = database_url \<noteq> None \<and> database_url \<noteq> Some []
      in and_then (require (debug \<or> secret_key \<noteq> [] \<and> secret_key \<noteq> dev_secret_key) ''DJANGO_SECRET_KEY'') (\<lambda>_.
         and_then (require (debug \<or> hosts \<noteq> [] \<and> ''*'' \<notin> set hosts) ''DJANGO_ALLOWED_HOSTS'') (\<lambda>_.
         and_then (require (debug \<or> origins \<noteq> []) ''DJANGO_CSRF_TRUSTED_ORIGINS'') (\<lambda>_.
         and_then (require (env_float_ok is_float env ''GLITCHTIP_TRACES_SAMPLE_RATE'') ''GLITCHTIP_TRACES_SAMPLE_RATE'') (\<lambda>_.
         and_then (require (debug \<or> given) ''DATABASE_URL'') (\<lambda>_.
         and_then (require (debug \<or> \<not> is_sqlite (the database_url)) ''DATABASE_URL'') (\<lambda>_.
           Inr (debug, secret_key, hosts, origins, database_url))))))))"

text \<open>The checks on the numbers, in the order of the loop and of the comparison that follows it.\<close>

definition positive_settings :: "settings \<Rightarrow> (string \<times> int) list" where
  "positive_settings st = [
     (''GOGGLES_MAX_DUMP_BYTES'', st_max_dump_bytes st),
     (''GOGGLES_MAX_DUMP_RECORDS'', st_max_dump_records st),
     (''GOGGLES_MAX_JSONL_LINE_BYTES'', st_max_jsonl_line_bytes st),
     (''GOGGLES_MAX_ACTION_EVENTS_PER_REQUEST'', st_max_action_events_per_request st),
     (''GOGGLES_AGENT_EXPORT_MAX_EVENTS'', st_agent_export_max_events st),
     (''GOGGLES_AUDIT_RETENTION_DAYS'', st_audit_retention_days st),
     (''GOGGLES_INGEST_LOCK_TIMEOUT_MS'', st_ingest_lock_timeout_ms st),
     (''GOGGLES_INGEST_STATEMENT_TIMEOUT_MS'', st_ingest_statement_timeout_ms st),
     (''GOGGLES_INGEST_IDLE_TIMEOUT_MS'', st_ingest_idle_timeout_ms st),
     (''GOGGLES_INGEST_TRANSACTION_TIMEOUT_MS'', st_ingest_transaction_timeout_ms st),
     (''FILE_UPLOAD_MAX_MEMORY_SIZE'', st_file_upload_max_memory_size st)]"

definition check_limits :: "settings \<Rightarrow> settings_error + settings" where
  "check_limits st =
     (case find (\<lambda>(name, n). n \<le> 0) (positive_settings st) of
        Some (name, n) \<Rightarrow> Inl (Improper name)
      | None \<Rightarrow>
          and_then (require (st_ingest_lock_timeout_ms st < st_ingest_statement_timeout_ms st \<and>
            st_ingest_statement_timeout_ms st < st_ingest_transaction_timeout_ms st \<and>
            st_ingest_idle_timeout_ms st < st_ingest_transaction_timeout_ms st) ''GOGGLES_INGEST_TRANSACTION_TIMEOUT_MS'')
            (\<lambda>_. Inr st))"

record limit_values =
  lv_dump_bytes :: int
  lv_dump_records :: int
  lv_line_bytes :: int
  lv_action_events :: int
  lv_export_events :: int
  lv_lock_ms :: int
  lv_statement_ms :: int
  lv_idle_ms :: int
  lv_transaction_ms :: int
  lv_retention_days :: int
  lv_memory_bytes :: int

definition load_limits :: "environment \<Rightarrow> settings_error + limit_values" where
  "load_limits env =
     and_then (env_int env ''GOGGLES_MAX_DUMP_BYTES'' (64 * 1024 * 1024)) (\<lambda>dump_bytes.
     and_then (env_int env ''GOGGLES_MAX_DUMP_RECORDS'' (dump_bytes div int RECORD_CAP_BYTES_PER_LINE)) (\<lambda>dump_records.
     and_then (env_int env ''GOGGLES_MAX_JSONL_LINE_BYTES'' (2 * 1024 * 1024)) (\<lambda>line_bytes.
     and_then (env_int env ''GOGGLES_MAX_ACTION_EVENTS_PER_REQUEST'' 50000) (\<lambda>action_events.
     and_then (env_int env ''GOGGLES_AGENT_EXPORT_MAX_EVENTS'' 50000) (\<lambda>export_events.
     and_then (env_int env ''GOGGLES_INGEST_LOCK_TIMEOUT_MS'' 1000) (\<lambda>lock_ms.
     and_then (env_int env ''GOGGLES_INGEST_STATEMENT_TIMEOUT_MS'' 30000) (\<lambda>statement_ms.
     and_then (env_int env ''GOGGLES_INGEST_IDLE_TIMEOUT_MS'' 15000) (\<lambda>idle_ms.
     and_then (env_int env ''GOGGLES_INGEST_TRANSACTION_TIMEOUT_MS'' 90000) (\<lambda>transaction_ms.
     and_then (env_int env ''GOGGLES_AUDIT_RETENTION_DAYS'' 30) (\<lambda>retention_days.
     and_then (env_int env ''GOGGLES_FILE_UPLOAD_MEMORY_BYTES'' (1024 * 1024)) (\<lambda>memory_bytes.
       Inr \<lparr> lv_dump_bytes = dump_bytes, lv_dump_records = dump_records, lv_line_bytes = line_bytes,
             lv_action_events = action_events, lv_export_events = export_events, lv_lock_ms = lock_ms,
             lv_statement_ms = statement_ms, lv_idle_ms = idle_ms, lv_transaction_ms = transaction_ms,
             lv_retention_days = retention_days, lv_memory_bytes = memory_bytes \<rparr>)))))))))))"

definition settings_of ::
  "environment \<Rightarrow> bool \<times> string \<times> string list \<times> string list \<times> string option \<Rightarrow> limit_values \<Rightarrow> settings" where
  "settings_of env identity lv =
     (let (debug, secret_key, hosts, origins, database_url) = identity
      in \<lparr> st_debug = debug, st_secret_key = secret_key,
           st_token_hash_key = (case env ''GOGGLES_TOKEN_HASH_KEY'' of None \<Rightarrow> secret_key | Some k \<Rightarrow> if k = [] then secret_key else k),
           st_allowed_hosts = hosts, st_csrf_trusted_origins = origins, st_database_url = database_url,
           st_max_dump_bytes = lv_dump_bytes lv, st_max_dump_records = lv_dump_records lv,
           st_max_jsonl_line_bytes = lv_line_bytes lv, st_max_action_events_per_request = lv_action_events lv,
           st_agent_export_max_events = lv_export_events lv,
           st_uploads_enabled = env_bool env ''GOGGLES_UPLOADS_ENABLED'' True,
           st_ingest_lock_timeout_ms = lv_lock_ms lv, st_ingest_statement_timeout_ms = lv_statement_ms lv,
           st_ingest_idle_timeout_ms = lv_idle_ms lv, st_ingest_transaction_timeout_ms = lv_transaction_ms lv,
           st_audit_retention_days = lv_retention_days lv,
           st_exports_enabled = env_bool env ''GOGGLES_EXPORTS_ENABLED'' True,
           st_file_upload_max_memory_size = min (lv_dump_bytes lv) (lv_memory_bytes lv),
           st_session_cookie_secure = env_bool env ''DJANGO_SESSION_COOKIE_SECURE'' (\<not> debug),
           st_csrf_cookie_secure = env_bool env ''DJANGO_CSRF_COOKIE_SECURE'' (\<not> debug),
           st_hsts_seconds = 0 \<rparr>)"

text \<open>The last number is read after the checks.\<close>

definition load_settings :: "(string \<Rightarrow> bool) \<Rightarrow> (string \<Rightarrow> bool) \<Rightarrow> environment \<Rightarrow> settings_error + settings" where
  "load_settings is_float is_sqlite env =
     and_then (load_identity is_float is_sqlite env) (\<lambda>identity.
     and_then (load_limits env) (\<lambda>lv.
     and_then (check_limits (settings_of env identity lv)) (\<lambda>st.
     and_then (env_int env ''DJANGO_SECURE_HSTS_SECONDS'' (if st_debug st then 0 else 31536000)) (\<lambda>hsts.
       Inr (st\<lparr>st_hsts_seconds := hsts\<rparr>)))))"

lemma and_then_Inr: "and_then r f = Inr b \<longleftrightarrow> (\<exists>a. r = Inr a \<and> f a = Inr b)"
  by (cases r) (simp_all add: and_then_def)

lemma require_Inr: "require ok name = Inr u \<longleftrightarrow> ok"
  by (simp add: require_def)

lemma check_limits_Inr:
  "check_limits st = Inr st' \<longleftrightarrow> st' = st \<and> list_all (\<lambda>(name, n). 0 < n) (positive_settings st) \<and>
     st_ingest_lock_timeout_ms st < st_ingest_statement_timeout_ms st \<and>
     st_ingest_statement_timeout_ms st < st_ingest_transaction_timeout_ms st \<and>
     st_ingest_idle_timeout_ms st < st_ingest_transaction_timeout_ms st"
proof (cases "find (\<lambda>(name, n). n \<le> 0) (positive_settings st)")
  case None
  then have "list_all (\<lambda>(name, n). 0 < n) (positive_settings st)" by (auto simp: find_None_iff list_all_iff not_le)
  with None show ?thesis by (auto simp: check_limits_def and_then_Inr require_Inr)
next
  case (Some a)
  then have "\<not> list_all (\<lambda>(name, n). 0 < n) (positive_settings st)"
    by (auto simp: find_Some_iff list_all_length not_less)
  with Some show ?thesis by (cases a) (simp add: check_limits_def)
qed

lemma load_identity_Inr:
  "load_identity is_float is_sqlite env = Inr (debug, secret_key, hosts, origins, url) \<Longrightarrow>
     debug = env_bool env ''DJANGO_DEBUG'' False \<and> url = env ''DATABASE_URL'' \<and>
     (debug \<or> secret_key \<notin> {[], dev_secret_key} \<and> hosts \<noteq> [] \<and> ''*'' \<notin> set hosts \<and> origins \<noteq> [] \<and>
        (\<exists>u. url = Some u \<and> u \<noteq> [] \<and> \<not> is_sqlite u))"
  by (auto simp: load_identity_def Let_def and_then_Inr require_Inr)

lemma positive_settings_hsts [simp]: "positive_settings (st\<lparr>st_hsts_seconds := h\<rparr>) = positive_settings st"
  by (simp add: positive_settings_def)

lemma load_settings_Inr:
  assumes "load_settings is_float is_sqlite env = Inr st"
  obtains identity lv h where "load_identity is_float is_sqlite env = Inr identity"
    "check_limits (settings_of env identity lv) = Inr (settings_of env identity lv)"
    "st = (settings_of env identity lv)\<lparr>st_hsts_seconds := h\<rparr>"
  using assms unfolding load_settings_def and_then_Inr by (elim exE conjE) (auto simp: check_limits_Inr)

text \<open>
  C37: the program starts only with a safe configuration. In production mode, which is the default, it has a secret
  key of its own, named hosts without a wildcard, a trusted origin and a database that is not SQLite, and its
  cookies are secure unless a variable says otherwise; with no variable set it does not start. In every mode all limits
  are positive, the in-memory part of an upload is within the upload limit, and every deadline of the upload
  transaction precedes the transaction's own.
\<close>

theorem settings_fail_closed:
  "load_settings is_float is_sqlite (\<lambda>name. None) = Inl (Improper ''DJANGO_SECRET_KEY'') \<and>
   (case load_settings is_float is_sqlite env of
     Inl e \<Rightarrow> True
   | Inr st \<Rightarrow>
       (\<not> st_debug st \<longrightarrow> st_secret_key st \<notin> {[], dev_secret_key} \<and> st_token_hash_key st \<noteq> [] \<and>
          st_allowed_hosts st \<noteq> [] \<and> ''*'' \<notin> set (st_allowed_hosts st) \<and> st_csrf_trusted_origins st \<noteq> [] \<and>
          (\<exists>url. env ''DATABASE_URL'' = Some url \<and> url \<noteq> [] \<and> \<not> is_sqlite url) \<and>
          (env ''DJANGO_SESSION_COOKIE_SECURE'' = None \<longrightarrow> st_session_cookie_secure st) \<and>
          (env ''DJANGO_CSRF_COOKIE_SECURE'' = None \<longrightarrow> st_csrf_cookie_secure st)) \<and>
       (st_debug st \<longleftrightarrow> (\<exists>v. env ''DJANGO_DEBUG'' = Some v \<and> py_lower v \<in> {''1'', ''true'', ''yes'', ''on''})) \<and>
       list_all (\<lambda>(name, n). 0 < n) (positive_settings st) \<and>
       st_file_upload_max_memory_size st \<le> st_max_dump_bytes st \<and>
       st_ingest_lock_timeout_ms st < st_ingest_statement_timeout_ms st \<and>
       st_ingest_statement_timeout_ms st < st_ingest_transaction_timeout_ms st \<and>
       st_ingest_idle_timeout_ms st < st_ingest_transaction_timeout_ms st)"
proof (rule conjI, goal_cases)
  case 1
  show ?case
    by (simp add: load_settings_def load_identity_def env_bool_def env_text_def Let_def and_then_def require_def)
next
  case 2
  show ?case
  proof (cases "load_settings is_float is_sqlite env")
    case (Inr st)
    then obtain identity lv h where id: "load_identity is_float is_sqlite env = Inr identity"
      and limits: "check_limits (settings_of env identity lv) = Inr (settings_of env identity lv)"
      and st: "st = (settings_of env identity lv)\<lparr>st_hsts_seconds := h\<rparr>"
      by (rule load_settings_Inr)
    obtain debug secret_key hosts origins url where identity: "identity = (debug, secret_key, hosts, origins, url)"
      by (cases identity) auto
    have fields: "st_debug st = debug" "st_secret_key st = secret_key" "st_allowed_hosts st = hosts"
        "st_csrf_trusted_origins st = origins" "st_token_hash_key st = secret_key \<or> st_token_hash_key st \<noteq> []"
        "st_session_cookie_secure st = env_bool env ''DJANGO_SESSION_COOKIE_SECURE'' (\<not> debug)"
        "st_csrf_cookie_secure st = env_bool env ''DJANGO_CSRF_COOKIE_SECURE'' (\<not> debug)"
        "st_file_upload_max_memory_size st \<le> st_max_dump_bytes st"
      unfolding st identity settings_of_def by (simp_all split: option.split)
    have numbers: "list_all (\<lambda>(name, n). 0 < n) (positive_settings st)"
        "st_ingest_lock_timeout_ms st < st_ingest_statement_timeout_ms st"
        "st_ingest_statement_timeout_ms st < st_ingest_transaction_timeout_ms st"
        "st_ingest_idle_timeout_ms st < st_ingest_transaction_timeout_ms st"
      using limits unfolding check_limits_Inr st by simp_all
    show ?thesis
      unfolding Inr sum.case using load_identity_Inr [OF id [unfolded identity]] fields numbers
      by (auto simp: env_bool_def split: option.splits)
  qed simp
qed

definition example_environment :: environment where
  "example_environment = map_of [
     (''DJANGO_SECRET_KEY'', ''k1''), (''DJANGO_ALLOWED_HOSTS'', '' goggles.example , ''),
     (''DJANGO_CSRF_TRUSTED_ORIGINS'', ''https://goggles.example''), (''DATABASE_URL'', ''postgres://db''),
     (''GOGGLES_MAX_DUMP_BYTES'', ''1_024'')]"

theorem settings_fail_closed_witness:
  "\<exists>st. load_settings (\<lambda>v. True) (\<lambda>url. url = ''sqlite:///db'') example_environment = Inr st \<and>
     st_allowed_hosts st = [''goggles.example''] \<and> st_max_dump_records st = 4 \<and> \<not> st_debug st \<and> st_session_cookie_secure st \<and>
     st_file_upload_max_memory_size st \<le> st_max_dump_bytes st"
proof -
  define r where "r = load_settings (\<lambda>v. True) (\<lambda>url. url = ''sqlite:///db'') example_environment"
  have "(case r of Inl e \<Rightarrow> False
      | Inr st \<Rightarrow> st_allowed_hosts st = [''goggles.example''] \<and> st_max_dump_records st = 4 \<and> \<not> st_debug st)"
    unfolding r_def by code_simp
  then obtain st where st: "r = Inr st" "st_allowed_hosts st = [''goggles.example'']" "st_max_dump_records st = 4" "\<not> st_debug st"
    by (cases r) auto
  have "example_environment ''DJANGO_SESSION_COOKIE_SECURE'' = None" by code_simp
  then show ?thesis
    using settings_fail_closed [of "\<lambda>v. True" "\<lambda>url. url = ''sqlite:///db''" example_environment] st unfolding r_def by auto
qed

end
