(* ===== verification/Scrubber.thy ===== *)
theory Scrubber
  imports Prelude "HOL-Library.Sublist"
begin

text \<open>
  The filter that every error report passes before it leaves the server (\<^verbatim>\<open>config/settings.py\<close>,
  \<^verbatim>\<open>scrub_glitchtip_event\<close>). A report is a JSON document. \<open>url_path\<close> stands for \<^verbatim>\<open>urlsplit(url).path\<close>, \<open>None\<close> when
  that raises \<^verbatim>\<open>ValueError\<close>. The theorem states what a report that is sent can still hold.
\<close>

section \<open>Sensitive keys\<close>

definition SENSITIVE_EVENT_KEYS :: "string list" where
  "SENSITIVE_EVENT_KEYS = [''authorization'', ''cookie'', ''cookies'', ''data'', ''engine_id'', ''group'', ''group_ref'',
     ''http_authorization'', ''ip_address'', ''message_id'', ''msg_id'', ''payload'', ''payload_digest'', ''query_string'',
     ''raw'', ''raw_body'', ''raw_line'', ''raw_text'', ''remote_addr'', ''request_body'', ''source_ip'', ''token'', ''upload'',
     ''upload_token'', ''user-agent'', ''user_agent'', ''x-forwarded-for'', ''x-goggles-account-label'',
     ''x-goggles-app-version'', ''x-goggles-device-label'', ''x-goggles-group'', ''x-goggles-platform'', ''x-real-ip'']"

definition SENSITIVE_EVENT_KEY_PARTS :: "string list" where
  "SENSITIVE_EVENT_KEY_PARTS = [''account_ref'', ''account_label'', ''device_label'', ''device_name'', ''audit'', ''authorization'',
     ''bearer'', ''body'', ''digest'', ''engine_id'', ''group_ref'', ''message_id'', ''msg_id'', ''payload'', ''raw'', ''secret'', ''token'']"

definition SCRUBBED_VALUE :: string where
  "SCRUBBED_VALUE = ''[Filtered]''"

text \<open>\<^verbatim>\<open>s.replace(a, b)\<close> for single characters.\<close>

definition replace_char :: "char \<Rightarrow> char \<Rightarrow> string \<Rightarrow> string" where
  "replace_char a b s = map (\<lambda>c. if c = a then b else c) s"

definition sensitive_key :: "string \<Rightarrow> bool" where
  "sensitive_key key \<longleftrightarrow>
     (let normalized = replace_char (CHR ''_'') (CHR ''-'') (py_lower key);
          with_underscores = replace_char (CHR ''-'') (CHR ''_'') normalized
      in normalized \<in> set SENSITIVE_EVENT_KEYS \<or> with_underscores \<in> set SENSITIVE_EVENT_KEYS \<or>
         list_ex (\<lambda>part. contains_str part with_underscores) SENSITIVE_EVENT_KEY_PARTS)"

section \<open>Scrubbing\<close>

fun scrub_value :: "json \<Rightarrow> json"
  and scrub_members :: "dict \<Rightarrow> dict" where
  "scrub_value (JObj d) = JObj (scrub_members d)"
| "scrub_value (JList xs) = JList (map scrub_value xs)"
| "scrub_value v = v"
| "scrub_members [] = []"
| "scrub_members ((key, child) # d) =
     (key, if sensitive_key key then JStr SCRUBBED_VALUE else scrub_value child) # scrub_members d"

definition pop_key :: "string \<Rightarrow> dict \<Rightarrow> dict" where
  "pop_key k d = filter (\<lambda>(k', v). k' \<noteq> k) d"

definition upload_path :: "string \<Rightarrow> bool" where
  "upload_path path \<longleftrightarrow>
     (let stripped = rev (dropWhile (\<lambda>c. c = CHR ''/'') (rev path))
      in prefix ''/api/v1/'' stripped \<and> suffix ''/audit-logs'' stripped)"

definition header_sensitive :: "string \<Rightarrow> bool" where
  "header_sensitive key \<longleftrightarrow> py_lower key \<in> set SENSITIVE_EVENT_KEYS \<or> prefix ''x-goggles-'' (py_lower key)"

definition scrub_headers :: "json \<Rightarrow> json" where
  "scrub_headers headers =
     (case headers of
        JObj h \<Rightarrow> JObj (map (\<lambda>(k, v). (k, if header_sensitive k then JStr SCRUBBED_VALUE else v)) h)
      | v \<Rightarrow> v)"

definition set_present :: "string \<Rightarrow> (json \<Rightarrow> json) \<Rightarrow> dict \<Rightarrow> dict" where
  "set_present k f d = map (\<lambda>(k', v). (k', if k' = k then f v else v)) d"

definition scrub_request :: "json \<Rightarrow> json" where
  "scrub_request request =
     (case request of
        JObj r \<Rightarrow> JObj (set_present ''headers'' scrub_headers
          (pop_key ''env'' (pop_key ''query_string'' (pop_key ''cookies'' (pop_key ''data'' r)))))
      | v \<Rightarrow> v)"

definition scrub_user :: "json \<Rightarrow> json" where
  "scrub_user user = (case user of JObj u \<Rightarrow> JObj (pop_key ''ip_address'' u) | v \<Rightarrow> v)"

text \<open>\<open>None\<close>: the report is dropped.\<close>

definition scrub_glitchtip_event :: "(string \<Rightarrow> string option) \<Rightarrow> dict \<Rightarrow> dict option" where
  "scrub_glitchtip_event url_path event =
     (let dropped = (case dict_get event ''request'' of
            JObj request \<Rightarrow>
              (case (case map_of request ''url'' of None \<Rightarrow> JStr [] | Some url \<Rightarrow> url) of
                 JStr url \<Rightarrow> (case url_path url of None \<Rightarrow> True | Some path \<Rightarrow> upload_path path)
               | _ \<Rightarrow> False)
          | _ \<Rightarrow> False)
      in if dropped then None
         else Some (set_present ''user'' scrub_user (set_present ''request'' scrub_request (scrub_members event))))"

section \<open>Reports without sensitive values\<close>

text \<open>A position in a document: a member of an object or an item of a list at each step.\<close>

datatype step = Key string | Item nat

fun json_at :: "json \<Rightarrow> step list \<Rightarrow> json option" where
  "json_at v [] = Some v"
| "json_at (JObj d) (Key k # p) = (case map_of d k of None \<Rightarrow> None | Some v \<Rightarrow> json_at v p)"
| "json_at (JList xs) (Item i # p) = (if i < length xs then json_at (xs ! i) p else None)"
| "json_at _ _ = None"

fun is_hidden :: "json option \<Rightarrow> bool" where
  "is_hidden None = True"
| "is_hidden (Some v) = (v = JStr SCRUBBED_VALUE)"

text \<open>Nothing under a sensitive key is left in the document.\<close>

fun clean :: "json \<Rightarrow> bool" where
  "clean (JObj d) = list_all (\<lambda>(k, v). if sensitive_key k then v = JStr SCRUBBED_VALUE else clean v) d"
| "clean (JList xs) = list_all clean xs"
| "clean v = True"

lemma clean_scrub: "clean (scrub_value v)" "clean (JObj (scrub_members d))"
  by (induction v and d rule: scrub_value_scrub_members.induct) (auto simp: list_all_iff)

lemma clean_hides: "clean v \<Longrightarrow> sensitive_key k \<Longrightarrow> is_hidden (json_at v (p @ [Key k]))"
proof (induction v p rule: json_at.induct)
  case (1 v)
  then show ?case by (cases v) (auto simp: list_all_iff split: option.split dest!: map_of_SomeD)
next
  case (2 d k' p)
  show ?case
  proof (cases "map_of d k'")
    case (Some v)
    then have v: "if sensitive_key k' then v = JStr SCRUBBED_VALUE else clean v"
      using 2(2) map_of_SomeD [OF Some] by (auto simp: list_all_iff)
    have "clean v" using v by (auto split: if_splits)
    then show ?thesis using 2 Some by simp
  qed simp
qed (auto simp: list_all_length)

lemma map_of_pop_key [simp]: "map_of (pop_key k d) k' = (if k' = k then None else map_of d k')"
  by (induction d) (auto simp: pop_key_def)

lemma map_of_set_present [simp]: "map_of (set_present k f d) k' = (if k' = k then map_option f (map_of d k') else map_of d k')"
  by (induction d) (auto simp: set_present_def)

lemma map_of_scrub_members [simp]:
  "map_of (scrub_members d) k = map_option (\<lambda>v. if sensitive_key k then JStr SCRUBBED_VALUE else scrub_value v) (map_of d k)"
  by (induction d) auto

lemma clean_pop_key: "clean (JObj d) \<Longrightarrow> clean (JObj (pop_key k d))"
  by (auto simp: pop_key_def list_all_iff)

lemma clean_set_present:
  "clean (JObj d) \<Longrightarrow> \<not> sensitive_key k \<Longrightarrow> (\<And>v. clean v \<Longrightarrow> clean (f v)) \<Longrightarrow> clean (JObj (set_present k f d))"
  by (force simp: set_present_def list_all_iff)

lemma plain_keys: "\<not> sensitive_key ''request''" "\<not> sensitive_key ''headers''" "\<not> sensitive_key ''user''"
  by code_simp+

lemma clean_headers: "clean v \<Longrightarrow> clean (scrub_headers v)"
  by (cases v) (auto simp: scrub_headers_def list_all_iff)

lemma clean_request: "clean v \<Longrightarrow> clean (scrub_request v)"
  by (cases v) (auto simp: scrub_request_def simp del: clean.simps(1) intro!: clean_set_present clean_pop_key clean_headers plain_keys)

lemma clean_user: "clean v \<Longrightarrow> clean (scrub_user v)"
  by (cases v) (auto simp: scrub_user_def simp del: clean.simps(1) intro!: clean_pop_key)

text \<open>The positions whose values a report keeps.\<close>

fun plain_step :: "step \<Rightarrow> bool" where
  "plain_step (Key k) = (\<not> sensitive_key k)"
| "plain_step (Item i) = True"

fun shown_header :: "step list \<Rightarrow> bool" where
  "shown_header (Key k # q) = (\<not> header_sensitive k)"
| "shown_header q = True"

definition shown :: "step list \<Rightarrow> bool" where
  "shown p \<longleftrightarrow> list_all plain_step p \<and> \<not> prefix [Key ''request'', Key ''env''] p \<and>
     (prefix [Key ''request'', Key ''headers''] p \<longrightarrow> shown_header (drop 2 p))"

fun scalar :: "json \<Rightarrow> bool" where
  "scalar (JObj d) = False"
| "scalar (JList xs) = False"
| "scalar v = True"

lemma scrub_keeps: "list_all plain_step p \<Longrightarrow> json_at (scrub_value v) p = map_option scrub_value (json_at v p)"
  by (induction v p rule: json_at.induct) (auto split: option.split)

lemma scrub_scalar: "scalar v \<Longrightarrow> scrub_value v = v"
  by (cases v) auto

text \<open>Whether a report is about an upload request, or has a URL that cannot be read.\<close>

definition upload_report :: "(string \<Rightarrow> string option) \<Rightarrow> dict \<Rightarrow> bool" where
  "upload_report url_path event \<longleftrightarrow>
     (\<exists>r url. json_at (JObj event) [Key ''request''] = Some (JObj r) \<and>
        (json_at (JObj r) [Key ''url''] = Some (JStr url) \<or> json_at (JObj r) [Key ''url''] = None \<and> url = []) \<and>
        (case url_path url of None \<Rightarrow> True | Some path \<Rightarrow> upload_path path))"

lemma scrub_event_eq:
  "scrub_glitchtip_event url_path event =
     (if upload_report url_path event then None
      else Some (set_present ''user'' scrub_user (set_present ''request'' scrub_request (scrub_members event))))"
proof (cases "map_of event ''request''")
  case None
  then show ?thesis by (simp add: scrub_glitchtip_event_def upload_report_def)
next
  case request: (Some v)
  show ?thesis
  proof (cases v)
    case (JObj r)
    have "(case (case map_of r ''url'' of None \<Rightarrow> JStr [] | Some url \<Rightarrow> url) of
        JStr url \<Rightarrow> (case url_path url of None \<Rightarrow> True | Some path \<Rightarrow> upload_path path) | _ \<Rightarrow> False) = upload_report url_path event"
      by (cases "map_of r ''url''") (auto simp: upload_report_def request JObj split: json.split)
    then show ?thesis by (simp add: scrub_glitchtip_event_def request JObj)
  qed (simp_all add: scrub_glitchtip_event_def upload_report_def request)
qed

lemma map_of_headers [simp]:
  "map_of (map (\<lambda>(k, v). (k, if P k then c else v)) h) k = map_option (\<lambda>v. if P k then c else v) (map_of h k)"
  by (induction h) auto

lemma json_at_headers:
  "json_at (scrub_headers v) (Key k # p) = (if header_sensitive k then
     (if json_at v [Key k] = None then None else json_at (JStr SCRUBBED_VALUE) p) else json_at v (Key k # p))"
  by (cases v) (simp_all add: scrub_headers_def split: option.split)

lemma json_at_Item [simp]:
  "json_at (scrub_headers v) (Item i # p) = json_at v (Item i # p)"
  "json_at (scrub_request v) (Item i # p) = json_at v (Item i # p)"
  "json_at (scrub_user v) (Item i # p) = json_at v (Item i # p)"
  by (cases v; simp add: scrub_headers_def scrub_request_def scrub_user_def)+

lemma json_at_request:
  "json_at (scrub_request v) (Key k # p) =
     (if k \<in> {''data'', ''cookies'', ''query_string'', ''env''} then None
      else if k = ''headers'' then (case json_at v [Key k] of None \<Rightarrow> None | Some h \<Rightarrow> json_at (scrub_headers h) p)
      else json_at v (Key k # p))"
  by (cases v) (simp_all add: scrub_request_def split: option.split)

lemma json_at_user: "json_at (scrub_user v) (Key k # p) = (if k = ''ip_address'' then None else json_at v (Key k # p))"
  by (cases v) (simp_all add: scrub_user_def)

lemma sensitive_parts: "sensitive_key ''data''" "sensitive_key ''cookies''" "sensitive_key ''query_string''" "sensitive_key ''ip_address''"
  by code_simp+

lemma headers_keep_scalar:
  assumes "json_at h p = Some v" "scalar v" "shown_header p"
  shows "json_at (scrub_headers h) p = Some v"
proof (cases p)
  case Nil
  then show ?thesis using assms by (cases h) (auto simp: scrub_headers_def)
next
  case (Cons s q)
  then show ?thesis using assms by (cases s) (simp_all add: json_at_headers)
qed

lemma request_keep_scalar:
  assumes "json_at r p = Some v" "scalar v" "shown (Key ''request'' # p)"
  shows "json_at (scrub_request r) p = Some v"
proof (cases p)
  case Nil
  then show ?thesis using assms by (cases r) (auto simp: scrub_request_def)
next
  case (Cons s q)
  show ?thesis
  proof (cases s)
    case (Key k)
    have "k \<notin> {''data'', ''cookies'', ''query_string'', ''env''}"
      using assms(3) sensitive_parts by (auto simp: shown_def Cons Key)
    moreover have "json_at (scrub_headers h) q = Some v" if "k = ''headers''" "json_at h q = Some v" for h
      using that assms(2,3) by (intro headers_keep_scalar) (simp_all add: shown_def Cons Key)
    moreover have "(case json_at r [Key k] of None \<Rightarrow> None | Some h \<Rightarrow> json_at h q) = Some v"
      using assms(1) by (cases r) (simp_all add: Cons Key split: option.splits)
    moreover have "k \<noteq> ''headers'' \<Longrightarrow> json_at r (Key k # q) = Some v" using assms(1) Cons Key by simp
    ultimately show ?thesis
      unfolding Cons Key json_at_request by (cases "k = ''headers''"; cases "json_at r [Key k]") simp_all
  next
    case (Item i)
    then show ?thesis using assms(1) Cons by simp
  qed
qed

lemma user_keep_scalar:
  assumes "json_at u p = Some v" "scalar v" "list_all plain_step p"
  shows "json_at (scrub_user u) p = Some v"
proof (cases p)
  case Nil
  then show ?thesis using assms by (cases u) (auto simp: scrub_user_def)
next
  case (Cons s q)
  then show ?thesis using assms sensitive_parts(4) by (cases s) (auto simp: json_at_user)
qed

text \<open>
  C36: what leaves the server. A report about an upload request, or one whose URL cannot be read, is dropped. Every
  other report is sent without its request body, cookies, query string and environment and without the user's
  address; wherever a key is sensitive, and under every header of the upload protocol, it shows only the
  placeholder; and every other scalar value is kept.
\<close>

theorem reports_are_scrubbed:
  "case scrub_glitchtip_event url_path event of
     None \<Rightarrow> upload_report url_path event
   | Some sent \<Rightarrow> \<not> upload_report url_path event \<and>
       (\<forall>p k. sensitive_key k \<longrightarrow> is_hidden (json_at (JObj sent) (p @ [Key k]))) \<and>
       (\<forall>k. header_sensitive k \<longrightarrow> is_hidden (json_at (JObj sent) [Key ''request'', Key ''headers'', Key k])) \<and>
       list_all (\<lambda>k. json_at (JObj sent) [Key ''request'', Key k] = None) [''data'', ''cookies'', ''query_string'', ''env''] \<and>
       json_at (JObj sent) [Key ''user'', Key ''ip_address''] = None \<and>
       (\<forall>p v. shown p \<and> scalar v \<and> json_at (JObj event) p = Some v \<longrightarrow> json_at (JObj sent) p = Some v)"
proof (cases "upload_report url_path event")
  case False
  define sent where "sent = set_present ''user'' scrub_user (set_present ''request'' scrub_request (scrub_members event))"
  have eq: "scrub_glitchtip_event url_path event = Some sent" using False by (simp add: scrub_event_eq sent_def)
  have at: "json_at (JObj sent) (Key k # p) =
      (case json_at (JObj (scrub_members event)) [Key k] of None \<Rightarrow> None
       | Some v \<Rightarrow> json_at ((if k = ''user'' then scrub_user else if k = ''request'' then scrub_request else id) v) p)" for k p
    by (simp add: sent_def split: option.split)
  have "clean (JObj sent)"
    unfolding sent_def
    by (intro clean_set_present clean_scrub clean_request clean_user plain_keys)
  moreover have "is_hidden (json_at (JObj sent) [Key ''request'', Key ''headers'', Key k])" if "header_sensitive k" for k
    using that unfolding at by (simp add: json_at_request json_at_headers split: option.split)
  moreover have "json_at (JObj sent) [Key ''request'', Key k] = None" if "k \<in> {''data'', ''cookies'', ''query_string'', ''env''}" for k
    using that unfolding at by (simp add: json_at_request split: option.split)
  moreover have "json_at (JObj sent) [Key ''user'', Key ''ip_address''] = None"
    unfolding at by (simp add: json_at_user split: option.split)
  moreover have "json_at (JObj sent) p = Some v" if p: "shown p" "scalar v" "json_at (JObj event) p = Some v" for p v
  proof (cases p)
    case (Cons s q)
    have plain: "json_at (JObj (scrub_members event)) p = Some v"
      using scrub_keeps [of p "JObj event"] p by (simp add: shown_def scrub_scalar)
    obtain k c where k: "s = Key k" "map_of (scrub_members event) k = Some c" "json_at c q = Some v"
      using plain unfolding Cons by (cases s) (auto split: option.splits)
    have "json_at (scrub_request c) q = Some v" if "k = ''request''"
      using request_keep_scalar [OF k(3) p(2)] p(1) that by (simp add: Cons k)
    moreover have "json_at (scrub_user c) q = Some v"
      using p(1) by (intro user_keep_scalar [OF k(3) p(2)]) (simp add: shown_def Cons)
    moreover have "json_at (JObj (scrub_members event)) [Key k] = Some c"
      using k(2) by (simp del: map_of_scrub_members)
    ultimately show ?thesis unfolding Cons k(1) at using k(3) by (simp del: json_at.simps)
  qed (use p in auto)
  ultimately show ?thesis using False clean_hides [of "JObj sent"] unfolding eq by auto
qed (simp add: scrub_event_eq)

definition example_report :: dict where
  "example_report = [
     (''level'', JStr ''error''),
     (''request'', JObj [(''url'', JStr ''https://h/g/1''), (''data'', JStr ''body''), (''headers'', JObj [(''X-Goggles-Extra'', JStr ''x'')])]),
     (''extra'', JList [JObj [(''Upload-Token'', JStr ''s3cret''), (''line'', JInt 3)]])]"

theorem reports_are_scrubbed_witness:
  "\<exists>sent. scrub_glitchtip_event (\<lambda>url. Some ''/g/1'') example_report = Some sent \<and>
     is_hidden (json_at (JObj sent) [Key ''extra'', Item 0, Key ''Upload-Token'']) \<and>
     is_hidden (json_at (JObj sent) [Key ''request'', Key ''headers'', Key ''X-Goggles-Extra'']) \<and>
     json_at (JObj sent) [Key ''extra'', Item 0, Key ''line''] = Some (JInt 3)"
proof -
  define r where "r = scrub_glitchtip_event (\<lambda>url. Some ''/g/1'') example_report"
  have "r \<noteq> None" unfolding r_def by code_simp
  then obtain sent where sent: "r = Some sent" by blast
  note scrubbed = reports_are_scrubbed [of "\<lambda>url. Some ''/g/1''" example_report, folded r_def, unfolded sent option.case]
  have keys: "sensitive_key ''Upload-Token''" "header_sensitive ''X-Goggles-Extra''" by code_simp+
  have at: "shown [Key ''extra'', Item 0, Key ''line'']" "scalar (JInt 3)"
    "json_at (JObj example_report) [Key ''extra'', Item 0, Key ''line''] = Some (JInt 3)" by code_simp+
  have "is_hidden (json_at (JObj sent) ([Key ''extra'', Item 0] @ [Key ''Upload-Token'']))"
    using scrubbed keys(1) by blast
  moreover have "is_hidden (json_at (JObj sent) [Key ''request'', Key ''headers'', Key ''X-Goggles-Extra''])"
    using scrubbed keys(2) by blast
  moreover have "json_at (JObj sent) [Key ''extra'', Item 0, Key ''line''] = Some (JInt 3)"
    using scrubbed at by blast
  ultimately show ?thesis using sent unfolding r_def by simp
qed

end
