(* ===== verification/Ingest_Locks.thy ===== *)
theory Ingest_Locks
  imports Settings
begin

text \<open>
  The transaction-local safeguards of an upload (\<^verbatim>\<open>forensics/ingestion_limits.py\<close>, \<^verbatim>\<open>forensics/checks.py\<close>): the
  deadlines it sets, the recorder locks it takes, and the start-up check of the database version. Several uploads
  run at once; their interleaving is a step relation on the lock table of the database, in which a lock attempt
  never waits and the locks of a transaction go when it ends, however it ends. \<open>digest\<close> stands for the SHA-256
  digest of a text. The theorems state that two uploads that write at the same time never have an engine in
  common, and that an upload is never kept waiting by another.
\<close>

section \<open>The start of a transaction\<close>

record db_connection =
  dc_vendor :: string
  dc_pg_version :: nat

definition MIN_PG_VERSION :: nat where
  "MIN_PG_VERSION = 170000"

text \<open>\<^verbatim>\<open>int.from_bytes(digest[:8], signed=True)\<close>.\<close>

definition key_of_bytes :: "byte list \<Rightarrow> int" where
  "key_of_bytes bs = sint (fold (\<lambda>b w. push_bit 8 w + ucast b) (take 8 bs) (0 :: 64 word))"

definition recorder_key :: "(string \<Rightarrow> byte list) \<Rightarrow> string \<Rightarrow> int" where
  "recorder_key digest engine_id = key_of_bytes (digest (''goggles-ingest-recorder:'' @ engine_id))"

definition lock_keys :: "(string \<Rightarrow> byte list) \<Rightarrow> string list \<Rightarrow> int list" where
  "lock_keys digest engine_ids = map (recorder_key digest) (sorted_set engine_ids)"

definition transaction_config :: "settings \<Rightarrow> (string \<times> string) list" where
  "transaction_config st = [
     (''lock_timeout'', int_str (st_ingest_lock_timeout_ms st) @ ''ms''),
     (''statement_timeout'', int_str (st_ingest_statement_timeout_ms st) @ ''ms''),
     (''idle_in_transaction_session_timeout'', int_str (st_ingest_idle_timeout_ms st) @ ''ms''),
     (''transaction_timeout'', int_str (st_ingest_transaction_timeout_ms st) @ ''ms'')]"

text \<open>The lock table: which transaction holds a key. A transaction may take a key it holds again.\<close>

type_synonym locks = "int \<Rightarrow> nat option"

definition available :: "nat \<Rightarrow> int \<Rightarrow> locks \<Rightarrow> bool" where
  "available t k locks \<longleftrightarrow> locks k = None \<or> locks k = Some t"

fun try_locks :: "nat \<Rightarrow> int list \<Rightarrow> locks \<Rightarrow> locks \<times> bool" where
  "try_locks t [] locks = (locks, True)"
| "try_locks t (k # ks) locks = (if available t k locks then try_locks t ks (locks(k := Some t)) else (locks, False))"

datatype begin_result = Unbounded | UnsupportedVersion | IngestionBusy | Begun "(string \<times> string) list"

definition begin_ingestion ::
  "(string \<Rightarrow> byte list) \<Rightarrow> settings \<Rightarrow> db_connection \<Rightarrow> nat \<Rightarrow> string list \<Rightarrow> locks \<Rightarrow> locks \<times> begin_result" where
  "begin_ingestion digest st conn t engine_ids locks =
     (if dc_vendor conn \<noteq> ''postgresql'' then (locks, Unbounded)
      else if dc_pg_version conn < MIN_PG_VERSION then (locks, UnsupportedVersion)
      else (let (locks', ok) = try_locks t (lock_keys digest engine_ids) locks
            in (locks', if ok then Begun (transaction_config st) else IngestionBusy)))"

definition ingestion_database_version :: "(string \<times> db_connection) list \<Rightarrow> string list \<Rightarrow> string list" where
  "ingestion_database_version connections databases =
     map (\<lambda>alias. ''forensics.E001'') (filter (\<lambda>alias.
       case map_of connections alias of
         None \<Rightarrow> False
       | Some conn \<Rightarrow> dc_vendor conn = ''postgresql'' \<and> dc_pg_version conn < MIN_PG_VERSION) databases)"

section \<open>Uploads side by side\<close>

datatype phase = Absent | Acquiring "string list" "int list" | Writing "string list"

record lock_state =
  ls_locks :: locks
  ls_phase :: "nat \<Rightarrow> phase"

definition release :: "nat \<Rightarrow> locks \<Rightarrow> locks" where
  "release t locks = (\<lambda>k. if locks k = Some t then None else locks k)"

definition left :: "nat \<Rightarrow> lock_state \<Rightarrow> lock_state" where
  "left t s = \<lparr> ls_locks = release t (ls_locks s), ls_phase = (ls_phase s)(t := Absent) \<rparr>"

text \<open>
  One step of transaction \<open>t\<close>: it begins, takes its next lock, gives up because another holds it, starts to write
  once it has all, or ends: by commit, by rollback, or because its connection is lost.
\<close>

inductive lock_step :: "(string \<Rightarrow> byte list) \<Rightarrow> nat \<Rightarrow> lock_state \<Rightarrow> lock_state \<Rightarrow> bool" for digest t where
  begins: "ls_phase s t = Absent \<Longrightarrow>
    lock_step digest t s (s\<lparr>ls_phase := (ls_phase s)(t := Acquiring engines (lock_keys digest engines))\<rparr>)"
| takes: "ls_phase s t = Acquiring engines (k # ks) \<Longrightarrow> available t k (ls_locks s) \<Longrightarrow>
    lock_step digest t s \<lparr> ls_locks = (ls_locks s)(k := Some t), ls_phase = (ls_phase s)(t := Acquiring engines ks) \<rparr>"
| refused: "ls_phase s t = Acquiring engines (k # ks) \<Longrightarrow> \<not> available t k (ls_locks s) \<Longrightarrow> lock_step digest t s (left t s)"
| enters: "ls_phase s t = Acquiring engines [] \<Longrightarrow>
    lock_step digest t s (s\<lparr>ls_phase := (ls_phase s)(t := Writing engines)\<rparr>)"
| ends: "ls_phase s t \<noteq> Absent \<Longrightarrow> lock_step digest t s (left t s)"

inductive reachable :: "(string \<Rightarrow> byte list) \<Rightarrow> lock_state \<Rightarrow> bool" for digest where
  start: "reachable digest \<lparr> ls_locks = (\<lambda>k. None), ls_phase = (\<lambda>t. Absent) \<rparr>"
| onward: "reachable digest s \<Longrightarrow> lock_step digest t s s' \<Longrightarrow> reachable digest s'"

inductive_cases lock_stepE: "lock_step digest t s s'"

section \<open>Mutual exclusion\<close>

text \<open>What a transaction holds: every key it does not still have to take.\<close>

definition holds_enough :: "(string \<Rightarrow> byte list) \<Rightarrow> lock_state \<Rightarrow> nat \<Rightarrow> bool" where
  "holds_enough digest s t \<longleftrightarrow>
     (case ls_phase s t of
        Absent \<Rightarrow> (\<forall>k. ls_locks s k \<noteq> Some t)
      | Acquiring engines ks \<Rightarrow> (\<forall>e \<in> set engines. recorder_key digest e \<in> set ks \<or> ls_locks s (recorder_key digest e) = Some t)
      | Writing engines \<Rightarrow> (\<forall>e \<in> set engines. ls_locks s (recorder_key digest e) = Some t))"

lemma other_keeps: "lock_step digest u s s' \<Longrightarrow> u \<noteq> t \<Longrightarrow> ls_phase s' t = ls_phase s t \<and> (ls_locks s' k = Some t \<longleftrightarrow> ls_locks s k = Some t)"
  by (cases rule: lock_step.cases) (auto simp: left_def release_def available_def split: if_splits)

lemma own_holds: "lock_step digest t s s' \<Longrightarrow> holds_enough digest s t \<Longrightarrow> holds_enough digest s' t"
  by (cases rule: lock_step.cases) (auto simp: holds_enough_def left_def release_def lock_keys_def)

lemma step_holds: "lock_step digest u s s' \<Longrightarrow> holds_enough digest s t \<Longrightarrow> holds_enough digest s' t"
  using own_holds other_keeps unfolding holds_enough_def by (cases "u = t") (simp, auto split: phase.splits)

lemma reachable_holds: "reachable digest s \<Longrightarrow> holds_enough digest s t"
  by (induction rule: reachable.induct) (simp add: holds_enough_def, rule step_holds)

section \<open>The big step\<close>

lemma try_locks_exact:
  "snd (try_locks t ks locks) \<longleftrightarrow> (\<forall>k \<in> set ks. available t k locks)"
  "snd (try_locks t ks locks) \<Longrightarrow> fst (try_locks t ks locks) = (\<lambda>k. if k \<in> set ks then Some t else locks k)"
  "fst (try_locks t ks locks) k = locks k \<or> fst (try_locks t ks locks) k = Some t"
  by (induction t ks locks rule: try_locks.induct) (auto simp: available_def)

lemma try_locks_keep: "locks k = Some u \<Longrightarrow> fst (try_locks t ks locks) k = Some u"
  by (induction t ks locks rule: try_locks.induct) (simp_all add: available_def, metis option.inject option.distinct(1))

definition loop_end :: "nat \<Rightarrow> string list \<Rightarrow> int list \<Rightarrow> lock_state \<Rightarrow> lock_state" where
  "loop_end t engines ks s =
     (let (locks', ok) = try_locks t ks (ls_locks s)
      in if ok then \<lparr> ls_locks = locks', ls_phase = (ls_phase s)(t := Writing engines) \<rparr>
         else left t \<lparr> ls_locks = locks', ls_phase = ls_phase s \<rparr>)"

text \<open>Run without interruption, the steps of a transaction are the loop.\<close>

lemma steps_are_loop:
  assumes "ls_phase s t = Acquiring engines ks"
  shows "(lock_step digest t)\<^sup>*\<^sup>* s (loop_end t engines ks s)"
  using assms
proof (induction ks arbitrary: s)
  case Nil
  have eq: "s\<lparr>ls_phase := (ls_phase s)(t := Writing engines)\<rparr> =
      \<lparr> ls_locks = ls_locks s, ls_phase = (ls_phase s)(t := Writing engines) \<rparr>" by simp
  show ?case using lock_step.enters [of s t engines digest] Nil unfolding eq by (simp add: loop_end_def r_into_rtranclp)
next
  case (Cons k ks)
  show ?case
  proof (cases "available t k (ls_locks s)")
    case True
    define s1 where "s1 = \<lparr> ls_locks = (ls_locks s)(k := Some t), ls_phase = (ls_phase s)(t := Acquiring engines ks) \<rparr>"
    have "lock_step digest t s s1" unfolding s1_def using Cons.prems True by (rule lock_step.takes)
    moreover have "ls_phase s1 t = Acquiring engines ks" by (simp add: s1_def)
    moreover have "loop_end t engines (k # ks) s = loop_end t engines ks s1"
      using True by (simp add: loop_end_def s1_def left_def split: prod.split)
    ultimately show ?thesis
      using Cons.IH [of s1] by (auto intro: converse_rtranclp_into_rtranclp)
  next
    case False
    then have "loop_end t engines (k # ks) s = left t s" by (simp add: loop_end_def left_def)
    then show ?thesis using lock_step.refused [OF Cons.prems False, of digest] by (simp add: r_into_rtranclp)
  qed
qed

text \<open>
  The start of an upload on a supported database. It is refused as busy exactly when another transaction holds
  the lock of one of its engines; otherwise it holds all of them, every other lock is as before, and its deadlines
  are set, each as the configuration states it.
\<close>

theorem begin_ingestion_exact:
  assumes "dc_vendor conn = ''postgresql''" "MIN_PG_VERSION \<le> dc_pg_version conn"
  shows "let (locks', result) = begin_ingestion digest st conn t engine_ids locks;
      keys = recorder_key digest ` set engine_ids
    in result = (if \<exists>k \<in> keys. \<exists>u. locks k = Some u \<and> u \<noteq> t then IngestionBusy else Begun (transaction_config st)) \<and>
       (result = IngestionBusy \<or> locks' = (\<lambda>k. if k \<in> keys then Some t else locks k)) \<and>
       release t locks' = release t locks"
proof -
  define ks where "ks = lock_keys digest engine_ids"
  have keys: "set ks = recorder_key digest ` set engine_ids" by (simp add: ks_def lock_keys_def)
  have begun: "begin_ingestion digest st conn t engine_ids locks =
      (fst (try_locks t ks locks), if snd (try_locks t ks locks) then Begun (transaction_config st) else IngestionBusy)"
    using assms by (simp add: begin_ingestion_def ks_def split_beta)
  have "snd (try_locks t ks locks) \<longleftrightarrow> \<not> (\<exists>k \<in> set ks. \<exists>u. locks k = Some u \<and> u \<noteq> t)"
    unfolding try_locks_exact(1) available_def by (metis not_None_eq option.inject)
  moreover have "release t (fst (try_locks t ks locks)) = release t locks"
  proof
    show "release t (fst (try_locks t ks locks)) k = release t locks k" for k
      using try_locks_exact(3) [of t ks locks k] try_locks_keep [of locks k _ t ks] by (cases "locks k") (auto simp: release_def)
  qed
  ultimately show ?thesis
    unfolding begun Let_def case_prod_conv keys [symmetric] using try_locks_exact(2) [of t ks locks] by auto
qed

section \<open>No two writers on an engine\<close>

text \<open>
  C38: uploads that write at the same time have no engine in common, whatever the interleaving and whatever keys the
  digest maps the engines to: so a line of an engine is never stored twice by two uploads that both found it new.
\<close>

theorem writers_share_no_engine:
  assumes "reachable digest s" "ls_phase s t = Writing engines" "ls_phase s u = Writing engines'" "t \<noteq> u"
  shows "set engines \<inter> set engines' = {}"
proof (rule ccontr)
  assume "set engines \<inter> set engines' \<noteq> {}"
  then obtain e where "e \<in> set engines" "e \<in> set engines'" by blast
  then have "ls_locks s (recorder_key digest e) = Some t" "ls_locks s (recorder_key digest e) = Some u"
    using reachable_holds [OF assms(1), of t] reachable_holds [OF assms(1), of u] assms(2,3) by (auto simp: holds_enough_def)
  then show False using assms(4) by simp
qed

lemma reachable_steps: "(lock_step digest t)\<^sup>*\<^sup>* s s' \<Longrightarrow> reachable digest s \<Longrightarrow> reachable digest s'"
  by (induction rule: rtranclp_induct) (auto intro: reachable.onward)

text \<open>A transaction that begins and runs alone.\<close>

lemma reachable_begins:
  assumes "reachable digest s" "ls_phase s t = Absent" "lock_keys digest engines = ks"
  shows "reachable digest (loop_end t engines ks (s\<lparr>ls_phase := (ls_phase s)(t := Acquiring engines ks)\<rparr>))"
proof (rule reachable_steps)
  show "reachable digest (s\<lparr>ls_phase := (ls_phase s)(t := Acquiring engines ks)\<rparr>)"
    using reachable.onward [OF assms(1) lock_step.begins [OF assms(2), of digest engines]] assms(3) by simp
qed (rule steps_are_loop, simp)

definition letter_digest :: "string \<Rightarrow> byte list" where
  "letter_digest s = (if last s = CHR ''a'' then [7] else [9])"

theorem writers_share_no_engine_witness:
  "\<exists>s. reachable letter_digest s \<and> ls_phase s 1 = Writing [''a''] \<and> ls_phase s 2 = Writing [''b''] \<and>
     set [''a''] \<inter> set [''b''] = {}"
proof -
  have keys: "lock_keys letter_digest [''a''] = [7]" "lock_keys letter_digest [''b''] = [9]" by code_simp+
  define s0 where "s0 = \<lparr> ls_locks = (\<lambda>k. None), ls_phase = (\<lambda>t. Absent) \<rparr>"
  define s1 where "s1 = loop_end 1 [''a''] [7] (s0\<lparr>ls_phase := (ls_phase s0)(1 := Acquiring [''a''] [7])\<rparr>)"
  define s2 where "s2 = loop_end 2 [''b''] [9] (s1\<lparr>ls_phase := (ls_phase s1)(2 := Acquiring [''b''] [9])\<rparr>)"
  have "reachable letter_digest s0" unfolding s0_def by (rule reachable.start)
  then have "reachable letter_digest s1"
    unfolding s1_def by (rule reachable_begins [OF _ _ keys(1)]) (simp add: s0_def)
  then have reach: "reachable letter_digest s2"
    unfolding s2_def by (rule reachable_begins [OF _ _ keys(2)]) (simp add: s1_def s0_def loop_end_def available_def)
  have phases: "ls_phase s2 1 = Writing [''a'']" "ls_phase s2 2 = Writing [''b'']"
    by (simp_all add: s2_def s1_def s0_def loop_end_def available_def)
  have "set [''a''] \<inter> set [''b''] = {}" by (rule writers_share_no_engine [OF reach phases]) simp
  with reach phases show ?thesis by (intro exI [of _ s2] conjI)
qed

end
