(* ===== verification/Bundle.thy ===== *)
theory Bundle
  imports Evidence_Reader "HOL-Library.Product_Lexorder"
begin

text \<open>
  The output of a local investigation (\<^verbatim>\<open>forensics/investigation_bundle.py\<close>): the checks on its path, the document,
  written piece by piece within a byte budget, and its publication, in which every call to the operating system may
  fail. The directory is seen through the two names that matter, the target and the temporary file. The theorems
  state that the pieces are the serialisation of one document, that its lists agree with the summary of the reader,
  and that a path never shows a part of a bundle and never loses a file that was there before.
\<close>

section \<open>The target\<close>

datatype stat_result = NotFound | StatFailed | Stat bool nat nat

datatype bundle_error =
    PathNotAbsolute | ParentNotPrivate | ParentUnavailable | TargetUnavailable | TargetExists
  | MissingScope | UnsupportedSource | ToolVersionUnavailable | NotReconstructed incomplete_evidence
  | BudgetExceeded | WriteFailed | PublicationUncertain | CleanupUncertain

text \<open>
  \<open>parent\<close> and \<open>target\<close> are what \<^verbatim>\<open>lstat\<close> says of the two paths: whether it is a directory, its owner and its mode;
  \<open>parent_exists\<close> is asked when one of them was not found.
\<close>

definition validate_bundle_target :: "bool \<Rightarrow> nat \<Rightarrow> stat_result \<Rightarrow> stat_result \<Rightarrow> bool \<Rightarrow> bundle_error option" where
  "validate_bundle_target absolute uid parent target parent_exists =
     (if \<not> absolute then Some PathNotAbsolute
      else (case parent of
              StatFailed \<Rightarrow> Some TargetUnavailable
            | NotFound \<Rightarrow> if parent_exists then None else Some ParentUnavailable
            | Stat is_dir owner mode \<Rightarrow>
                if \<not> is_dir \<or> owner \<noteq> uid \<or> mode mod 64 \<noteq> 0 then Some ParentNotPrivate
                else (case target of
                        NotFound \<Rightarrow> if parent_exists then None else Some ParentUnavailable
                      | StatFailed \<Rightarrow> Some TargetUnavailable
                      | Stat _ _ _ \<Rightarrow> Some TargetExists)))"

section \<open>The document\<close>

definition BUNDLE_VERSION :: string where
  "BUNDLE_VERSION = ''goggles-investigation-bundle/v1''"

definition MAX_BUNDLE_BYTES :: nat where
  "MAX_BUNDLE_BYTES = 128 * 1024 * 1024"

definition ORDERING :: string where
  "ORDERING = ''Within each engine/account/recorder session: sequence, then body SHA-256; no global causal order.''"

definition LOKI_SCOPE_KEYS :: "string list" where
  "LOKI_SCOPE_KEYS = [''requested_receipt_window_ns'', ''queried_receipt_window_ns'', ''reader_cutoff_ns'',
     ''receipt_cutoff_omitted'', ''query_count'']"

definition scope_of :: "dict \<Rightarrow> nat option \<Rightarrow> bundle_error + dict" where
  "scope_of summary supplied_file_count =
     (if dict_get summary ''source'' = JStr ''jsonl''
      then (case supplied_file_count of
              None \<Rightarrow> Inl MissingScope
            | Some n \<Rightarrow> Inr [(''type'', JStr ''provided_files_only''), (''supplied_file_count'', JInt (int n))])
      else if dict_get summary ''source'' = JStr ''loki''
      then (if list_ex (\<lambda>k. \<not> dict_has summary k) LOKI_SCOPE_KEYS then Inl MissingScope
            else Inr [(''type'', JStr ''queried_receipt_window''),
              (''requested_receipt_window_ns'', dict_get summary ''requested_receipt_window_ns''),
              (''effective_receipt_window_ns'', dict_get summary ''queried_receipt_window_ns''),
              (''reader_cutoff_ns'', dict_get summary ''reader_cutoff_ns''),
              (''receipt_cutoff_omitted'', dict_get summary ''receipt_cutoff_omitted''),
              (''query_count'', dict_get summary ''query_count'')])
      else Inl UnsupportedSource)"

text \<open>The integer \<^verbatim>\<open>seq\<close> that a valid body has.\<close>

definition event_seq :: "dict \<Rightarrow> int" where
  "event_seq ev = (case dict_get ev ''seq'' of JInt i \<Rightarrow> i | _ \<Rightarrow> 0)"

definition event_of :: "evidence \<Rightarrow> string \<Rightarrow> dict" where
  "event_of ed d = the (map_of (ed_events ed) d)"

definition ordered_refs :: "evidence \<Rightarrow> string list \<Rightarrow> string list" where
  "ordered_refs ed digests =
     sort_key (\<lambda>d. (reader_session (event_of ed d), event_seq (event_of ed d), d)) digests"

definition identity_key :: "evidence \<Rightarrow> string \<Rightarrow> (string \<times> string \<times> string) \<times> int" where
  "identity_key ed d = (reader_session (event_of ed d), event_seq (event_of ed d))"

definition conflict_refs :: "evidence \<Rightarrow> string list \<Rightarrow> (((string \<times> string \<times> string) \<times> int) \<times> string list) list" where
  "conflict_refs ed refs =
     filter (\<lambda>(key, ds). length ds \<ge> 2)
       (map (\<lambda>key. (key, filter (\<lambda>d. identity_key ed d = key) refs)) (sorted_set (map (identity_key ed) refs)))"

definition trace_refs :: "(string \<times> audit_event) list \<Rightarrow> string \<Rightarrow> string list" where
  "trace_refs model_refs msg_id =
     sorted_set (map fst (filter (\<lambda>(d, model). msg_id \<in> set (event_message_ids model)) model_refs))"

definition strings_json :: "string list \<Rightarrow> json" where
  "strings_json xs = JList (map JStr xs)"

definition ms_json :: "int option \<Rightarrow> json" where
  "ms_json v = (case v of None \<Rightarrow> JNull | Some i \<Rightarrow> JInt i)"

definition trace_json :: "message_trace \<Rightarrow> dict" where
  "trace_json t = [
     (''msg_id'', JStr (mt_msg_id t)), (''engines'', strings_json (mt_engines t)),
     (''missing_engines'', strings_json (mt_missing_engines t)), (''missed_by'', strings_json (mt_missed_by t)),
     (''absent_engines'', strings_json (mt_absent_engines t)), (''reference_ms'', ms_json (mt_reference_ms t)),
     (''is_divergent'', JBool (mt_is_divergent t)), (''event_types'', strings_json (mt_event_types t)),
     (''states'', strings_json (mt_states t)), (''first_wall_time_ms'', ms_json (mt_first_wall_time_ms t)),
     (''last_wall_time_ms'', ms_json (mt_last_wall_time_ms t)), (''event_count'', JInt (int (mt_event_count t)))]"

text \<open>\<^verbatim>\<open>sort_keys=True\<close>, at every depth.\<close>

fun sort_json :: "json \<Rightarrow> json"
  and sort_members :: "dict \<Rightarrow> dict" where
  "sort_json (JObj d) = JObj (sort_key fst (sort_members d))"
| "sort_json (JList xs) = JList (map sort_json xs)"
| "sort_json v = v"
| "sort_members [] = []"
| "sort_members ((k, v) # d) = (k, sort_json v) # sort_members d"

definition dump :: "json \<Rightarrow> string" where
  "dump v = dumps (sort_json v)"

record bundle_document =
  bd_header :: dict
  bd_evidence :: "json list"
  bd_conflicts :: "json list"
  bd_traces :: "json list"

definition bundle_header ::
  "string \<Rightarrow> string \<Rightarrow> dict \<Rightarrow> dict \<Rightarrow> int \<Rightarrow> int \<Rightarrow> dict" where
  "bundle_header version grp scope summary started completed = [
     (''schema_version'', JStr BUNDLE_VERSION),
     (''tool'', JObj [(''name'', JStr ''goggles-investigation-reader''), (''package_version'', JStr version)]),
     (''source_format_version'', JStr SCHEMA_VERSION),
     (''group_ref'', JStr grp),
     (''acquisition_time_bounds_ns'', JList [JInt started, JInt completed]),
     (''scope'', JObj scope),
     (''ordering'', JStr ORDERING),
     (''summary'', JObj summary)]"

definition evidence_json :: "runtime \<Rightarrow> evidence \<Rightarrow> (string \<times> byte list) list \<Rightarrow> string \<Rightarrow> json" where
  "evidence_json rt ed sel d = JObj [
     (''sha256'', JStr d), (''body'', JStr (the (utf8_decode rt (the (map_of sel d))))),
     (''occurrences'', JInt (int (dd_get 0 (ed_occurrences ed) d)))]"

definition conflict_json :: "((string \<times> string \<times> string) \<times> int) \<times> string list \<Rightarrow> json" where
  "conflict_json c =
     (case c of (((engine, account, recorder), seq), refs) \<Rightarrow> JObj [
        (''identity'', JObj [(''engine_id'', JStr engine), (''account_ref'', JStr account),
           (''recorder_session_id'', JStr recorder), (''seq'', JInt seq)]),
        (''evidence_refs'', strings_json refs)])"

definition document_of ::
  "runtime \<Rightarrow> evidence \<Rightarrow> reconstruction \<Rightarrow> dict \<Rightarrow> bundle_document" where
  "document_of rt ed r header =
     (let refs = ordered_refs ed (map fst (rc_selected r))
      in \<lparr> bd_header = header,
           bd_evidence = map (evidence_json rt ed (rc_selected r)) refs,
           bd_conflicts = map conflict_json (conflict_refs ed refs),
           bd_traces = map (\<lambda>t. JObj (dict_set ''evidence_refs'' (strings_json (trace_refs (rc_model_refs r) (mt_msg_id t))) (trace_json t)))
             (rc_traces r) \<rparr>)"

text \<open>The pieces, in the order they are emitted; a comma is a piece of its own.\<close>

fun separated :: "string list \<Rightarrow> string list" where
  "separated [] = []"
| "separated [x] = [x]"
| "separated (x # xs) = x # '','' # separated xs"

definition bundle_chunks :: "bundle_document \<Rightarrow> string list" where
  "bundle_chunks b =
     [butlast (dump (JObj (bd_header b))), '',\"evidence\":[''] @ separated (map dump (bd_evidence b)) @
     [''],\"conflicts\":[''] @ separated (map dump (bd_conflicts b)) @
     [''],\"message_traces\":[''] @ separated (map dump (bd_traces b)) @ ['']}'']"

section \<open>Publication\<close>

text \<open>
  The directory: what the target and the temporary file hold, \<open>None\<close> for a name that is not there. The outcomes say
  which calls succeed; \<open>oc_writes\<close> is the number of pieces that reach the file, all of them if \<open>None\<close>, and
  \<open>oc_interloper\<close> is a file that another process has put under the target's name by the time of the link.
\<close>

record directory =
  fs_target :: "string option"
  fs_temp :: "string option"

record outcomes =
  oc_mkstemp :: bool
  oc_open :: bool
  oc_writes :: "nat option"
  oc_sync_file :: bool
  oc_interloper :: "string option"
  oc_link :: bool
  oc_sync_link :: bool
  oc_unlink_target :: bool
  oc_sync_rollback :: bool
  oc_unlink_temp :: bool
  oc_sync_cleanup :: bool

datatype write_end = AllWritten | OverBudget | WriteError

fun emit_all :: "string list \<Rightarrow> nat option \<Rightarrow> nat \<Rightarrow> string \<Rightarrow> string \<times> write_end" where
  "emit_all [] writes written content = (content, AllWritten)"
| "emit_all (c # cs) writes written content =
     (let written' = written + length (utf8_encode c)
      in if written' > MAX_BUNDLE_BYTES then (content, OverBudget)
         else (case writes of
                 Some 0 \<Rightarrow> (content, WriteError)
               | Some (Suc n) \<Rightarrow> emit_all cs (Some n) written' (content @ c)
               | None \<Rightarrow> emit_all cs None written' (content @ c)))"

text \<open>After the file is written and closed: link, then sync the directory, then undo the link if that fails.\<close>

definition link_bundle :: "outcomes \<Rightarrow> directory \<Rightarrow> directory \<times> bundle_error option" where
  "link_bundle oc fs =
     (let fs = fs\<lparr>fs_target := (case fs_target fs of None \<Rightarrow> oc_interloper oc | Some c \<Rightarrow> Some c)\<rparr>
      in if fs_target fs \<noteq> None then (fs, Some TargetExists)
         else if \<not> oc_link oc then (fs, Some WriteFailed)
         else (let fs = fs\<lparr>fs_target := fs_temp fs\<rparr>
               in if oc_sync_link oc then (fs, None)
                  else if \<not> oc_unlink_target oc then (fs, Some PublicationUncertain)
                  else (let fs = fs\<lparr>fs_target := None\<rparr>
                        in (fs, Some (if oc_sync_rollback oc then WriteFailed else PublicationUncertain)))))"

text \<open>The \<^verbatim>\<open>finally\<close> block: it runs whatever happened, and an error of its own replaces all but one.\<close>

definition clean_up :: "outcomes \<Rightarrow> directory \<Rightarrow> bundle_error option \<Rightarrow> directory \<times> bundle_error option" where
  "clean_up oc fs pending =
     (let fs' = (if oc_unlink_temp oc then fs\<lparr>fs_temp := None\<rparr> else fs)
      in (fs', if oc_unlink_temp oc \<and> oc_sync_cleanup oc then pending
               else if pending = Some PublicationUncertain then pending else Some CleanupUncertain))"

definition publish :: "outcomes \<Rightarrow> string list \<Rightarrow> directory \<Rightarrow> directory \<times> bundle_error option" where
  "publish oc chunks fs =
     (if \<not> oc_mkstemp oc then (fs, Some WriteFailed)
      else (let fs = fs\<lparr>fs_temp := Some []\<rparr>;
                (fs, pending) =
                  (if \<not> oc_open oc then (fs, Some WriteFailed)
                   else (let (content, result) = emit_all chunks (oc_writes oc) 0 [];
                             fs = fs\<lparr>fs_temp := Some content\<rparr>
                         in case result of
                              OverBudget \<Rightarrow> (fs, Some BudgetExceeded)
                            | WriteError \<Rightarrow> (fs, Some WriteFailed)
                            | AllWritten \<Rightarrow> if oc_sync_file oc then link_bundle oc fs else (fs, Some WriteFailed)))
            in clean_up oc fs pending))"

section \<open>The whole operation\<close>

record bundle_request =
  br_absolute :: bool
  br_uid :: nat
  br_parent :: stat_result
  br_target :: stat_result
  br_parent_exists :: bool
  br_version :: "string option"
  br_group :: string
  br_summary :: dict
  br_started :: int
  br_completed :: int
  br_supplied_file_count :: "nat option"

definition write_bundle ::
  "runtime \<Rightarrow> outcomes \<Rightarrow> bundle_request \<Rightarrow> evidence \<Rightarrow> directory \<Rightarrow> directory \<times> bundle_error option" where
  "write_bundle rt oc req ed fs =
     (case validate_bundle_target (br_absolute req) (br_uid req) (br_parent req) (br_target req) (br_parent_exists req) of
        Some e \<Rightarrow> (fs, Some e)
      | None \<Rightarrow>
          (case reconstruct rt (br_group req) ed of
             (ed1, Inl e) \<Rightarrow> (fs, Some (NotReconstructed e))
           | (ed1, Inr r) \<Rightarrow>
               (case br_version req of
                  None \<Rightarrow> (fs, Some ToolVersionUnavailable)
                | Some version \<Rightarrow>
                    (case scope_of (br_summary req) (br_supplied_file_count req) of
                       Inl e \<Rightarrow> (fs, Some e)
                     | Inr scope \<Rightarrow>
                         publish oc (bundle_chunks (document_of rt ed1 r
                           (bundle_header version (br_group req) scope (br_summary req) (br_started req) (br_completed req)))) fs))))"

section \<open>The command's answer\<close>

text \<open>The end of \<^verbatim>\<open>main\<close> in \<^verbatim>\<open>investigation_cli.py\<close>: the result that is printed and the exit status.\<close>

definition bundle_error_text :: "bundle_error \<Rightarrow> string" where
  "bundle_error_text e =
     (case e of
        PathNotAbsolute \<Rightarrow> ''bundle_path_must_be_absolute'' | ParentNotPrivate \<Rightarrow> ''bundle_parent_not_private''
      | ParentUnavailable \<Rightarrow> ''bundle_parent_unavailable'' | TargetUnavailable \<Rightarrow> ''bundle_target_unavailable''
      | TargetExists \<Rightarrow> ''bundle_target_exists'' | MissingScope \<Rightarrow> ''missing_bundle_scope''
      | UnsupportedSource \<Rightarrow> ''unsupported_bundle_source'' | ToolVersionUnavailable \<Rightarrow> ''tool_version_unavailable''
      | NotReconstructed e' \<Rightarrow> (if e' = NormalizationRejected then ''normalization_rejected'' else ''invalid_v4_body'')
      | BudgetExceeded \<Rightarrow> ''bundle_budget_exceeded'' | WriteFailed \<Rightarrow> ''bundle_write_failed''
      | PublicationUncertain \<Rightarrow> ''bundle_publication_uncertain'' | CleanupUncertain \<Rightarrow> ''bundle_cleanup_uncertain'')"

definition report_bundle :: "bundle_error option \<Rightarrow> dict \<Rightarrow> dict \<times> nat" where
  "report_bundle error result =
     (case error of
        None \<Rightarrow> (dict_set ''bundle_written'' (JBool True) result, 0)
      | Some e \<Rightarrow>
          if e = PublicationUncertain \<or> e = CleanupUncertain
          then (dict_set ''bundle_error'' (JStr (bundle_error_text e))
                 (dict_set ''bundle_artifact_status'' (JStr ''uncertain'') (dict_set ''bundle_written'' JNull result)), 2)
          else (dict_set ''bundle_error'' (JStr (bundle_error_text e)) (dict_set ''bundle_written'' (JBool False) result), 2))"

section \<open>The pieces are one document\<close>

definition document_members :: "bundle_document \<Rightarrow> dict" where
  "document_members b = sort_key fst (sort_members (bd_header b)) @ [
     (''evidence'', JList (map sort_json (bd_evidence b))),
     (''conflicts'', JList (map sort_json (bd_conflicts b))),
     (''message_traces'', JList (map sort_json (bd_traces b)))]"

lemma concat_separated: "concat (separated xs) = str_join '','' xs"
  by (induction xs rule: separated.induct) simp_all

lemma str_join_append: "xs \<noteq> [] \<Longrightarrow> ys \<noteq> [] \<Longrightarrow> str_join sep (xs @ ys) = str_join sep xs @ sep @ str_join sep ys"
proof (induction xs)
  case (Cons x xs)
  then show ?case by (cases xs) (auto simp: str_join_Cons)
qed simp

lemma sort_members_empty [simp]: "sort_members d = [] \<longleftrightarrow> d = []"
  by (cases d) auto

lemma dump_list: "''['' @ str_join '','' (map dump xs) @ '']'' = dumps (JList (map sort_json xs))"
  by (simp add: dump_def [abs_def] comp_def)

lemma chunks_are_document:
  assumes "bd_header b \<noteq> []"
  shows "concat (bundle_chunks b) = dumps (JObj (document_members b))"
proof -
  define member where "member = (\<lambda>m. dumps_str (fst m) @ '':'' @ dumps (snd m))"
  define header where "header = sort_key fst (sort_members (bd_header b))"
  have some: "map member header \<noteq> []"
    using assms by (simp add: header_def) (metis length_0_conv length_sort sort_members_empty)
  have front: "butlast (dump (JObj (bd_header b))) = ''{'' @ str_join '','' (map member header)"
    by (simp add: dump_def member_def header_def butlast_append)
  have keys: "member (''evidence'', v) = ''\"evidence\":'' @ dumps v" "member (''conflicts'', v) = ''\"conflicts\":'' @ dumps v"
    "member (''message_traces'', v) = ''\"message_traces\":'' @ dumps v" for v
    by (simp_all add: member_def dumps_str_def dumps_char_def Let_def)
  have whole: "dumps (JObj (document_members b)) = ''{'' @ str_join '','' (map member header @
      [member (''evidence'', JList (map sort_json (bd_evidence b))), member (''conflicts'', JList (map sort_json (bd_conflicts b))),
       member (''message_traces'', JList (map sort_json (bd_traces b)))]) @ ''}''"
    by (simp add: member_def document_members_def header_def)
  have three: "str_join '','' [x, y, z] = x @ '','' @ y @ '','' @ z" for x y z by simp
  show ?thesis
    unfolding whole keys str_join_append [OF some list.distinct(2)] three dump_list [symmetric] bundle_chunks_def concat_append
      concat.simps front by (simp add: concat_separated)
qed

section \<open>Publication is all or nothing\<close>

lemma emit_all_written:
  "emit_all cs w n content = (out, AllWritten) \<Longrightarrow>
     out = content @ concat cs \<and> (n \<le> MAX_BUNDLE_BYTES \<longrightarrow> n + sum_list (map (length \<circ> utf8_encode) cs) \<le> MAX_BUNDLE_BYTES)"
proof (induction cs arbitrary: w n content)
  case (Cons c cs)
  define n' where "n' = n + length (utf8_encode c)"
  have n': "n' \<le> MAX_BUNDLE_BYTES" using Cons.prems by (auto simp: n'_def Let_def split: if_splits)
  obtain w' where "emit_all cs w' n' (content @ c) = (out, AllWritten)"
    using Cons.prems n' by (auto simp: n'_def [symmetric] Let_def split: option.splits nat.splits)
  from Cons.IH [OF this] n' show ?case by (simp add: n'_def)
qed simp

lemma utf8_encode_append [simp]: "utf8_encode (a @ b) = utf8_encode a @ utf8_encode b"
  by (simp add: utf8_encode_def)

lemma utf8_encode_concat: "length (utf8_encode (concat cs)) = sum_list (map (length \<circ> utf8_encode) cs)"
  by (induction cs) (simp_all add: utf8_encode_def)

text \<open>What a name may hold after a publication of \<open>text\<close>, and what an error means.\<close>

definition all_or_nothing :: "outcomes \<Rightarrow> directory \<Rightarrow> string option \<Rightarrow> directory \<times> bundle_error option \<Rightarrow> bool" where
  "all_or_nothing oc fs text result \<longleftrightarrow>
     (let (fs', error) = result; foreign = (if fs_target fs = None then oc_interloper oc else fs_target fs)
      in (fs_target fs \<noteq> None \<longrightarrow> fs_target fs' = fs_target fs) \<and>
         fs_target fs' \<in> {fs_target fs, foreign, text} \<and>
         (error = None \<longrightarrow> text \<noteq> None \<and> foreign = None \<and> fs_target fs' = text \<and> fs_temp fs' = None \<and>
            length (utf8_encode (the text)) \<le> MAX_BUNDLE_BYTES) \<and>
         (error \<notin> {None, Some PublicationUncertain, Some CleanupUncertain} \<longrightarrow>
            fs_target fs' \<in> {fs_target fs, foreign} \<and> fs_temp fs' = None))"

lemma publish_all_or_nothing:
  assumes "fs_temp fs = None"
  shows "all_or_nothing oc fs (Some (concat chunks)) (publish oc chunks fs)"
proof -
  obtain content result where emitted: "emit_all chunks (oc_writes oc) 0 [] = (content, result)" by fastforce
  have whole: "content = concat chunks \<and> length (utf8_encode (concat chunks)) \<le> MAX_BUNDLE_BYTES" if "result = AllWritten"
    using emit_all_written [of chunks "oc_writes oc" 0 "[]" content] emitted that by (simp add: utf8_encode_concat)
  show ?thesis
  proof (cases "oc_mkstemp oc \<and> oc_open oc \<and> result = AllWritten \<and> oc_sync_file oc")
    case True
    then show ?thesis
      using whole emitted
      by (auto simp: all_or_nothing_def publish_def link_bundle_def clean_up_def Let_def split: option.splits if_splits)
  next
    case False
    then show ?thesis
      using emitted assms
      by (cases result) (auto simp: all_or_nothing_def publish_def clean_up_def Let_def)
  qed
qed

text \<open>The document of a request, serialised; \<open>None\<close> when there is none to write.\<close>

definition bundle_text :: "runtime \<Rightarrow> bundle_request \<Rightarrow> evidence \<Rightarrow> string option" where
  "bundle_text rt req ed =
     (case reconstruct rt (br_group req) ed of
        (ed1, Inl e) \<Rightarrow> None
      | (ed1, Inr r) \<Rightarrow>
          (case (br_version req, scope_of (br_summary req) (br_supplied_file_count req)) of
             (Some version, Inr scope) \<Rightarrow> Some (dumps (JObj (document_members (document_of rt ed1 r
               (bundle_header version (br_group req) scope (br_summary req) (br_started req) (br_completed req))))))
           | _ \<Rightarrow> None))"

lemma write_bundle_cases:
  assumes "fs_temp fs = None"
  shows "all_or_nothing oc fs (bundle_text rt req ed) (write_bundle rt oc req ed fs)"
proof -
  have untouched: "all_or_nothing oc fs t (fs, Some e)" for t e
    using assms by (auto simp: all_or_nothing_def)
  have doc: "concat (bundle_chunks (document_of rt ed1 r (bundle_header v g sc su t1 t2))) =
      dumps (JObj (document_members (document_of rt ed1 r (bundle_header v g sc su t1 t2))))" for ed1 r v g sc su t1 t2
    by (rule chunks_are_document) (simp add: document_of_def bundle_header_def Let_def)
  obtain ed1 res where again: "reconstruct rt (br_group req) ed = (ed1, res)" by fastforce
  show ?thesis
  proof (cases "validate_bundle_target (br_absolute req) (br_uid req) (br_parent req) (br_target req) (br_parent_exists req)")
    case (Some e)
    then show ?thesis unfolding write_bundle_def by (simp only: option.case untouched)
  next
    case None
    show ?thesis
    proof (cases res)
      case (Inl e)
      then show ?thesis unfolding write_bundle_def None again option.case prod.case by (simp only: sum.case untouched)
    next
      case (Inr r)
      show ?thesis
        unfolding write_bundle_def bundle_text_def None again Inr option.case prod.case sum.case
        by (cases "br_version req"; cases "scope_of (br_summary req) (br_supplied_file_count req)")
          (simp_all only: option.case prod.case sum.case untouched doc [symmetric] publish_all_or_nothing [OF assms])
    qed
  qed
qed

text \<open>
  C39: a bundle appears whole or not at all. Whatever the operating system does, a file that was there before is left
  as it was, and the target shows what it showed before, a file that another process put there, or the whole
  document. The command exits with 0 only if the target was free and now holds the whole document, within the byte
  budget, and no temporary file is left; an error that is not reported as uncertain has published nothing and left
  nothing behind.
\<close>

theorem bundle_published_whole:
  assumes "fs_temp fs = None"
  shows "let (fs', error) = write_bundle rt oc req ed fs; text = bundle_text rt req ed;
      foreign = (if fs_target fs = None then oc_interloper oc else fs_target fs)
    in (fs_target fs \<noteq> None \<longrightarrow> fs_target fs' = fs_target fs) \<and>
       fs_target fs' \<in> {fs_target fs, foreign, text} \<and>
       (snd (report_bundle error result) = 0 \<longrightarrow> text \<noteq> None \<and> foreign = None \<and> fs_target fs' = text \<and>
          fs_temp fs' = None \<and> length (utf8_encode (the text)) \<le> MAX_BUNDLE_BYTES) \<and>
       (dict_get (fst (report_bundle error result)) ''bundle_written'' = JBool False \<longrightarrow>
          fs_target fs' \<in> {fs_target fs, foreign} \<and> fs_temp fs' = None)"
proof -
  obtain fs' error where result: "write_bundle rt oc req ed fs = (fs', error)" by fastforce
  have status: "snd (report_bundle error result) = 0 \<longleftrightarrow> error = None"
    "dict_get (fst (report_bundle error result)) ''bundle_written'' = JBool False \<longleftrightarrow>
       error \<notin> {None, Some PublicationUncertain, Some CleanupUncertain}"
    by (auto simp: report_bundle_def split: option.split)
  show ?thesis
    using write_bundle_cases [OF assms, of oc rt req ed] unfolding status all_or_nothing_def result Let_def prod.case .
qed

section \<open>The lists agree with the summary\<close>

lemma mset_ordered_refs: "mset (ordered_refs ed ds) = mset ds"
  by (simp add: ordered_refs_def)

lemma length_filter_remdups: "length (filter P (remdups xs)) = card {x \<in> set xs. P x}"
proof -
  have "set (filter P (remdups xs)) = {x \<in> set xs. P x}" by auto
  then show ?thesis by (metis distinct_card distinct_filter distinct_remdups)
qed

lemma image_filter_conv: "(\<And>k. P (f k) \<longleftrightarrow> Q k) \<Longrightarrow> f ` {k \<in> A. Q k} = {i \<in> f ` A. P i}"
  by auto

lemma conflict_count:
  assumes "\<And>d. d \<in> set ds \<Longrightarrow> \<exists>i. dict_get (event_of ed d) ''seq'' = JInt i" "mset refs = mset ds"
  shows "length (conflict_refs ed refs) =
    (let ids = map (\<lambda>d. reader_identity (event_of ed d)) ds in length (filter (\<lambda>i. length (filter (\<lambda>j. j = i) ids) > 1) (remdups ids)))"
proof -
  define conv where "conv = (\<lambda>((e, a, r), i). (e :: string, a :: string, r :: string, JInt i))"
  define many where "many = (\<lambda>k. 1 < length (filter (\<lambda>d. identity_key ed d = k) ds))"
  have inj: "inj conv" by (auto simp: conv_def inj_on_def)
  have ident: "reader_identity (event_of ed d) = conv (identity_key ed d)" if "d \<in> set ds" for d
    using assms(1) [OF that] by (auto simp: reader_identity_def identity_key_def conv_def event_seq_def split: prod.split)
  have ids: "map (\<lambda>d. reader_identity (event_of ed d)) ds = map (\<lambda>d. conv (identity_key ed d)) ds"
    using ident by simp
  have count: "1 < length (filter (\<lambda>j. j = conv k) (map (\<lambda>d. conv (identity_key ed d)) ds)) \<longleftrightarrow> many k" for k
    by (simp add: filter_map comp_def many_def inj_eq [OF inj])
  have "length (filter (\<lambda>d. identity_key ed d = k) refs) = length (filter (\<lambda>d. identity_key ed d = k) ds)" for k
    using assms(2) by (metis mset_filter size_mset)
  then have "length (conflict_refs ed refs) = length (filter many (sorted_set (map (identity_key ed) refs)))"
    by (simp add: conflict_refs_def filter_map comp_def many_def Suc_le_eq numeral_2_eq_2)
  also have "\<dots> = card {k \<in> identity_key ed ` set ds. many k}"
  proof -
    have "set (filter many (sorted_set (map (identity_key ed) refs))) = {k \<in> identity_key ed ` set ds. many k}"
      by (simp add: mset_eq_setD [OF assms(2)])
    then show ?thesis
      using distinct_card [of "filter many (sorted_set (map (identity_key ed) refs))"] by (simp add: distinct_filter)
  qed
  also have "\<dots> = card (conv ` {k \<in> identity_key ed ` set ds. many k})"
    by (rule card_image [OF inj_on_subset [OF inj subset_UNIV], symmetric])
  also have "conv ` {k \<in> identity_key ed ` set ds. many k} =
      {i \<in> conv ` identity_key ed ` set ds. 1 < length (filter (\<lambda>j. j = i) (map (\<lambda>d. conv (identity_key ed d)) ds))}"
    using count by (rule image_filter_conv)
  also have "conv ` identity_key ed ` set ds = set (map (\<lambda>d. conv (identity_key ed d)) ds)" by (simp add: image_image)
  finally show ?thesis unfolding ids Let_def length_filter_remdups .
qed

text \<open>
  The lists of a bundle agree with the summary in its header: one entry per selected body, in the stated order, one
  entry per identity that two bodies claim, and one per message trace.
\<close>

theorem bundle_lists_agree:
  assumes "reconstruct rt grp ed = (ed1, Inr r)" "evidence_summary_for rt grp source omitted ed = (ed2, Inr summary)"
    "\<forall>d \<in> fst ` set (rc_selected r). \<exists>i. dict_get (event_of ed1 d) ''seq'' = JInt i"
  shows "let doc = document_of rt ed1 r header; refs = ordered_refs ed1 (map fst (rc_selected r))
    in length (bd_evidence doc) = es_selected_distinct_bodies summary \<and>
       length (bd_conflicts doc) = es_conflicting_identities summary \<and>
       length (bd_traces doc) = es_message_trace_count summary \<and>
       mset refs = mset (map fst (rc_selected r)) \<and>
       sorted (map (\<lambda>d. (reader_session (event_of ed1 d), event_seq (event_of ed1 d), d)) refs)"
proof -
  define refs where "refs = ordered_refs ed1 (map fst (rc_selected r))"
  have refs: "mset refs = mset (map fst (rc_selected r))" unfolding refs_def by (rule mset_ordered_refs)
  have "length refs = length (rc_selected r)" using arg_cong [OF refs, of size] by simp
  moreover have "length (conflict_refs ed1 refs) = es_conflicting_identities summary"
  proof -
    have seqs: "\<exists>i. dict_get (event_of ed1 d) ''seq'' = JInt i" if "d \<in> set (map fst (rc_selected r))" for d
      using that assms(3) unfolding set_map by blast
    have "es_conflicting_identities summary =
        (let ids = map (\<lambda>d. reader_identity (event_of ed1 d)) (map fst (rc_selected r))
         in length (filter (\<lambda>i. length (filter (\<lambda>j. j = i) ids) > 1) (remdups ids)))"
      using assms(1,2) unfolding evidence_summary_for_def event_of_def Let_def by (simp only: prod.case sum.case sum.inject prod.inject) (auto simp only: evidence_summary.simps)
    then show ?thesis using conflict_count [OF seqs refs] by simp
  qed
  moreover have "es_selected_distinct_bodies summary = length (rc_selected r)" "es_message_trace_count summary = length (rc_traces r)"
    using assms(1,2) by (auto simp: evidence_summary_for_def Let_def)
  moreover have "sorted (map (\<lambda>d. (reader_session (event_of ed1 d), event_seq (event_of ed1 d), d)) refs)"
    by (simp add: refs_def ordered_refs_def)
  ultimately show ?thesis using refs by (simp add: document_of_def Let_def flip: refs_def)
qed

definition calm :: outcomes where
  "calm = \<lparr> oc_mkstemp = True, oc_open = True, oc_writes = None, oc_sync_file = True, oc_interloper = None, oc_link = True,
     oc_sync_link = True, oc_unlink_target = True, oc_sync_rollback = True, oc_unlink_temp = True, oc_sync_cleanup = True \<rparr>"

definition plain_request :: bundle_request where
  "plain_request = \<lparr> br_absolute = True, br_uid = 7, br_parent = Stat True 7 448, br_target = NotFound, br_parent_exists = True,
     br_version = Some ''1.0'', br_group = ''0a'', br_summary = [(''source'', JStr ''jsonl'')], br_started = 1, br_completed = 2,
     br_supplied_file_count = Some 1 \<rparr>"

lemma emit_all_fits:
  "n + sum_list (map (length \<circ> utf8_encode) cs) \<le> MAX_BUNDLE_BYTES \<Longrightarrow> emit_all cs None n content = (content @ concat cs, AllWritten)"
  by (induction cs arbitrary: n content) (auto simp: Let_def)

lemma length_utf8_encode_le: "length (utf8_encode s) \<le> 2 * length s"
  by (induction s) (auto simp: utf8_encode_def utf8_char_def Let_def)

definition example_text :: string where
  "example_text = the (bundle_text example_runtime plain_request empty_evidence)"

lemma example_text: "bundle_text example_runtime plain_request empty_evidence = Some example_text" "length example_text < 1000"
proof -
  have "(case bundle_text example_runtime plain_request empty_evidence of None \<Rightarrow> False | Some t \<Rightarrow> length t < 1000)"
    by code_simp
  then show "bundle_text example_runtime plain_request empty_evidence = Some example_text" "length example_text < 1000"
    by (auto simp: example_text_def split: option.splits)
qed

lemma calm_publishes:
  "length (utf8_encode (concat chunks)) \<le> MAX_BUNDLE_BYTES \<Longrightarrow>
     publish calm chunks \<lparr> fs_target = None, fs_temp = None \<rparr> = (\<lparr> fs_target = Some (concat chunks), fs_temp = None \<rparr>, None)"
  using emit_all_fits [of 0 chunks "[]"] by (simp add: publish_def link_bundle_def clean_up_def calm_def utf8_encode_concat)

lemma calm_writes:
  assumes "validate_bundle_target (br_absolute req) (br_uid req) (br_parent req) (br_target req) (br_parent_exists req) = None"
    "bundle_text rt req ed = Some t" "length (utf8_encode t) \<le> MAX_BUNDLE_BYTES"
  shows "write_bundle rt calm req ed \<lparr> fs_target = None, fs_temp = None \<rparr> = (\<lparr> fs_target = Some t, fs_temp = None \<rparr>, None)"
proof -
  have doc: "concat (bundle_chunks (document_of rt ed1 r (bundle_header v g sc su t1 t2))) =
      dumps (JObj (document_members (document_of rt ed1 r (bundle_header v g sc su t1 t2))))" for ed1 r v g sc su t1 t2
    by (rule chunks_are_document) (simp add: document_of_def bundle_header_def Let_def)
  obtain ed1 r v scope where parts: "reconstruct rt (br_group req) ed = (ed1, Inr r)" "br_version req = Some v"
      "scope_of (br_summary req) (br_supplied_file_count req) = Inr scope"
    using assms(2) unfolding bundle_text_def by (auto split: prod.splits sum.splits option.splits)
  have t: "t = concat (bundle_chunks (document_of rt ed1 r
      (bundle_header v (br_group req) scope (br_summary req) (br_started req) (br_completed req))))"
    using assms(2) unfolding bundle_text_def parts prod.case sum.case option.case doc [symmetric] by (rule option.inject [THEN iffD1, symmetric])
  show ?thesis
    unfolding write_bundle_def assms(1) parts prod.case sum.case option.case t
    by (rule calm_publishes) (use assms(3) t in simp)
qed

text \<open>With every call succeeding the bundle is published.\<close>

theorem bundle_published_whole_witness:
  "(let (fs', error) = write_bundle example_runtime calm plain_request empty_evidence \<lparr> fs_target = None, fs_temp = None \<rparr>
    in snd (report_bundle error []) = 0 \<and> fs_target fs' = Some example_text \<and> fs_temp fs' = None \<and>
       length (utf8_encode example_text) \<le> MAX_BUNDLE_BYTES)"
proof -
  have "length (utf8_encode example_text) \<le> 2000" using length_utf8_encode_le [of example_text] example_text(2) by linarith
  then have "length (utf8_encode example_text) \<le> MAX_BUNDLE_BYTES" by (simp add: MAX_BUNDLE_BYTES_def)
  moreover have "validate_bundle_target (br_absolute plain_request) (br_uid plain_request) (br_parent plain_request)
      (br_target plain_request) (br_parent_exists plain_request) = None"
    by (simp add: plain_request_def validate_bundle_target_def)
  ultimately have written: "write_bundle example_runtime calm plain_request empty_evidence \<lparr> fs_target = None, fs_temp = None \<rparr> =
      (\<lparr> fs_target = Some example_text, fs_temp = None \<rparr>, None)"
    using example_text(1) by (intro calm_writes)
  have "fs_temp \<lparr> fs_target = None, fs_temp = None \<rparr> = None" by simp
  from bundle_published_whole [OF this, where oc = calm and rt = example_runtime and req = plain_request and ed = empty_evidence and result = "[]"]
  show ?thesis by (simp add: written example_text(1) report_bundle_def Let_def)
qed

end
