(* ===== verification/Investigation_Cli.thy ===== *)
theory Investigation_Cli
  imports Bundle Loki_Reader
begin

text \<open>
  The investigation command (\<^verbatim>\<open>forensics/investigation_cli.py\<close>) around the readers and the bundle, and the loopback
  transport of \<^verbatim>\<open>forensics/investigation_reader.py\<close>. Arguments are given as parsed; what the standard library makes
  of a URL, of a host and of a file is a parameter. The theorem states what the command answers and writes: the
  evidence it prints the summary of is that of the bundle, and a failed acquisition writes nothing.
\<close>

section \<open>The transport\<close>

text \<open>\<^verbatim>\<open>urlsplit(url)\<close>; \<open>su_port\<close> is \<open>None\<close> when reading the port raises, \<open>Some None\<close> when the URL has none.\<close>

record split_url =
  su_scheme :: string
  su_username :: "string option"
  su_password :: "string option"
  su_hostname :: "string option"
  su_port :: "nat option option"
  su_path :: string
  su_query :: string
  su_fragment :: string

datatype endpoint_error = UnsupportedEndpoint | LoopbackRequired

text \<open>\<open>is_loopback\<close> stands for \<^verbatim>\<open>ipaddress.ip_address(host).is_loopback\<close>, \<open>None\<close> when it raises.\<close>

definition endpoint_error_of :: "(string \<Rightarrow> bool option) \<Rightarrow> split_url \<Rightarrow> endpoint_error option" where
  "endpoint_error_of is_loopback u =
     (if su_scheme u \<noteq> ''http'' \<or> su_username u \<notin> {None, Some []} \<or> su_password u \<notin> {None, Some []} \<or>
         su_path u \<notin> {[], ''/''} \<or> su_query u \<noteq> [] \<or> su_fragment u \<noteq> []
      then Some UnsupportedEndpoint
      else if su_port u = None \<or> su_port u = Some None then Some LoopbackRequired
      else (case su_hostname u of
              None \<Rightarrow> Some LoopbackRequired
            | Some host \<Rightarrow> if is_loopback host = Some True then None else Some LoopbackRequired))"

definition MAX_RESPONSE_BYTES :: nat where
  "MAX_RESPONSE_BYTES = 16 * 1024 * 1024"

datatype http_outcome = HttpFailed | HttpRedirect | HttpBody "byte list"

datatype transport_failure = LokiRequestFailed | RedirectRefused | ResponseBudget | InvalidLokiResponse

definition transport_call :: "runtime \<Rightarrow> http_outcome \<Rightarrow> transport_failure + json" where
  "transport_call rt outcome =
     (case outcome of
        HttpFailed \<Rightarrow> Inl LokiRequestFailed
      | HttpRedirect \<Rightarrow> Inl RedirectRefused
      | HttpBody body \<Rightarrow>
          (let raw = take (MAX_RESPONSE_BYTES + 1) body
           in if length raw > MAX_RESPONSE_BYTES then Inl ResponseBudget
              else (case Option.bind (utf8_decode rt raw) (loads_audit_json rt) of
                      None \<Rightarrow> Inl InvalidLokiResponse
                    | Some v \<Rightarrow> Inr v)))"

section \<open>The printed result\<close>

definition summary_dict :: "evidence_summary \<Rightarrow> dict" where
  "summary_dict s =
     (let jsonl = (es_source s = SourceJsonl)
      in [(''source'', JStr (if jsonl then ''jsonl'' else ''loki'')),
          (''scope'', JStr (if jsonl then ''provided_files_only'' else ''queried_receipt_window'')),
          (''selected_distinct_bodies'', JInt (int (es_selected_distinct_bodies s))),
          (''group_records'', JInt (int (es_group_records s))),
          (''supporting_groupless_context'', JInt (es_supporting_groupless_context s)),
          (''duplicate_occurrences'', JInt (es_duplicate_occurrences s)),
          (''conflicting_identities'', JInt (int (es_conflicting_identities s))),
          (''kind_counts'', JObj (map (\<lambda>(k, n). (k, JInt (int n))) (es_kind_counts s))),
          (''message_trace_count'', JInt (int (es_message_trace_count s))),
          (''source_event_time_bounds_ms'',
            (case es_time_bounds s of None \<Rightarrow> JNull | Some (a, b) \<Rightarrow> JList [JInt a, JInt b])),
          (''context_incomplete'', JBool (es_context_incomplete s)),
          (''receipt_cutoff_omitted'', (case es_receipt_cutoff_omitted s of None \<Rightarrow> JNull | Some b \<Rightarrow> JBool b)),
          (''bounded_retrieval_completed'', JBool True),
          (''complete_for_requested_scope'', JBool (es_complete_for_requested_scope s)),
          (''limits'', JList [JStr (if jsonl then ''No receipt coverage can be inferred from JSONL files.''
             else ''No atomic Loki snapshot or late-arrival watermark is established.'')])])"

definition investigation_dict :: "investigation \<Rightarrow> dict" where
  "investigation_dict iv =
     summary_dict (iv_summary iv) @ [
       (''requested_receipt_window_ns'', JList [JInt (fst (iv_requested iv)), JInt (snd (iv_requested iv))]),
       (''queried_receipt_window_ns'', (case iv_queried iv of None \<Rightarrow> JNull | Some (a, b) \<Rightarrow> JList [JInt a, JInt b])),
       (''reader_cutoff_ns'', JInt (iv_reader_cutoff iv)),
       (''query_count'', JInt (int (iv_query_count iv)))]"

section \<open>The arguments\<close>

text \<open>What the file system says of the bundle's path, each time it is asked.\<close>

record path_view =
  pv_absolute :: bool
  pv_uid :: nat
  pv_parent :: stat_result
  pv_target :: stat_result
  pv_parent_exists :: bool

datatype cli_source = JsonlFiles "string list" | LokiUrl string

record cli_args =
  ca_group :: string
  ca_source :: cli_source
  ca_service_name :: "string option"
  ca_environment_name :: "string option"
  ca_start_ns :: "int option"
  ca_end_ns :: "int option"
  ca_bundle :: bool

datatype usage_error = GroupNotHex | LokiOptionsMissing | LokiOptionsGiven

definition usage_error_of :: "cli_args \<Rightarrow> usage_error option" where
  "usage_error_of args =
     (if ca_group args = [] \<or> \<not> list_all is_hex_char (ca_group args) then Some GroupNotHex
      else (case ca_source args of
              LokiUrl url \<Rightarrow>
                if url \<noteq> [] \<and> (ca_service_name args \<in> {None, Some []} \<or> ca_environment_name args \<in> {None, Some []} \<or>
                    ca_start_ns args = None \<or> ca_end_ns args = None)
                then Some LokiOptionsMissing else None
            | JsonlFiles paths \<Rightarrow>
                if ca_service_name args \<noteq> None \<or> ca_environment_name args \<noteq> None \<or>
                    ca_start_ns args \<noteq> None \<or> ca_end_ns args \<noteq> None
                then Some LokiOptionsGiven else None))"

section \<open>Acquisition\<close>

text \<open>
  The surroundings: \<open>ce_read\<close> is the content of a file, \<open>None\<close> if it cannot be opened; \<open>ce_http\<close> is the outcome of
  the n-th request; \<open>ce_failure\<close> is the failure of the transport that ended the investigation, if one did; the
  labels of \<open>ce_loki\<close> and its transport are those of the arguments. The path is looked at before the acquisition
  and again before writing.
\<close>

record cli_env =
  ce_runtime :: runtime
  ce_read :: "string \<Rightarrow> byte list option"
  ce_split :: "string \<Rightarrow> split_url option"
  ce_loopback :: "string \<Rightarrow> bool option"
  ce_http :: "nat \<Rightarrow> string \<Rightarrow> int \<Rightarrow> int \<Rightarrow> nat \<Rightarrow> http_outcome"
  ce_loki :: loki
  ce_failure :: transport_failure
  ce_before :: path_view
  ce_after :: path_view
  ce_version :: "string option"
  ce_started :: int
  ce_completed :: int
  ce_outcomes :: outcomes

datatype cli_reason = BundlePath bundle_error | Evidence incomplete_evidence | SourceReadFailed | InvalidInput

definition read_paths :: "cli_env \<Rightarrow> string list \<Rightarrow> cli_reason + evidence" where
  "read_paths env paths =
     (let contents = map (ce_read env) paths; readable = takeWhile (\<lambda>c. c \<noteq> None) contents
      in if length paths > MAX_SOURCE_FILES then Inl (Evidence SourceFileBudget)
         else (case read_files (ce_runtime env) (map the readable) 0 empty_evidence of
                 Inl e \<Rightarrow> Inl (Evidence e)
               | Inr ed \<Rightarrow> if length readable < length paths then Inl SourceReadFailed else Inr ed))"

definition cli_loki :: "cli_env \<Rightarrow> cli_args \<Rightarrow> loki" where
  "cli_loki env args = (ce_loki env)\<lparr>
     lk_transport := (\<lambda>n expression start stop limit.
       case transport_call (ce_runtime env) (ce_http env n expression start stop limit) of Inl f \<Rightarrow> None | Inr v \<Rightarrow> Some v),
     lk_service_name := (case ca_service_name args of None \<Rightarrow> [] | Some s \<Rightarrow> s),
     lk_environment_name := (case ca_environment_name args of None \<Rightarrow> [] | Some s \<Rightarrow> s) \<rparr>"

definition acquire :: "cli_env \<Rightarrow> cli_args \<Rightarrow> cli_reason + (evidence \<times> dict)" where
  "acquire env args =
     (case ca_source args of
        JsonlFiles paths \<Rightarrow>
          (case read_paths env paths of
             Inl r \<Rightarrow> Inl r
           | Inr ed \<Rightarrow>
               (case evidence_summary_for (ce_runtime env) (ca_group args) SourceJsonl False ed of
                  (ed1, Inl e) \<Rightarrow> Inl (Evidence e)
                | (ed1, Inr s) \<Rightarrow> Inr (ed1, summary_dict s)))
      | LokiUrl url \<Rightarrow>
          (case ce_split env url of
             None \<Rightarrow> Inl InvalidInput
           | Some u \<Rightarrow>
               if endpoint_error_of (ce_loopback env) u \<noteq> None \<or> \<not> loki_init_ok (cli_loki env args) then Inl InvalidInput
               else (case investigate (ce_runtime env) (cli_loki env args) (ca_group args)
                            (the (ca_start_ns args)) (the (ca_end_ns args)) new_reader of
                       Inl (Incomplete e) \<Rightarrow> Inl (Evidence e)
                     | Inl _ \<Rightarrow> Inl InvalidInput
                     | Inr (st, iv) \<Rightarrow> Inr (rs_evidence st, investigation_dict iv))))"

section \<open>The command\<close>

definition failure_text :: "transport_failure \<Rightarrow> string" where
  "failure_text f =
     (case f of LokiRequestFailed \<Rightarrow> ''loki_request_failed'' | RedirectRefused \<Rightarrow> ''loki_redirect_refused''
      | ResponseBudget \<Rightarrow> ''response_budget_exceeded'' | InvalidLokiResponse \<Rightarrow> ''invalid_loki_response'')"

definition evidence_reason :: "transport_failure \<Rightarrow> incomplete_evidence \<Rightarrow> string" where
  "evidence_reason f e =
     (case e of InvalidBody \<Rightarrow> ''invalid_v4_body'' | EvidenceBudget \<Rightarrow> ''evidence_budget_exceeded''
      | NormalizationRejected \<Rightarrow> ''normalization_rejected'' | SourceFileBudget \<Rightarrow> ''source_file_budget_exceeded''
      | SourceBudget \<Rightarrow> ''source_budget_exceeded'' | IncompleteLine \<Rightarrow> ''incomplete_jsonl_line''
      | RequestFailed \<Rightarrow> failure_text f | InvalidResponse \<Rightarrow> ''invalid_loki_response''
      | QueryBudget \<Rightarrow> ''query_budget_exceeded'' | ExpressionBudget \<Rightarrow> ''context_expression_budget_exceeded''
      | PageOverflow \<Rightarrow> ''query_page_overflow'' | UnresolvableTie \<Rightarrow> ''unresolvable_timestamp_tie''
      | LabelMismatch \<Rightarrow> ''loki_label_mismatch'')"

definition reason_text :: "transport_failure \<Rightarrow> cli_reason \<Rightarrow> string" where
  "reason_text f r =
     (case r of BundlePath e \<Rightarrow> bundle_error_text e | Evidence e \<Rightarrow> evidence_reason f e
      | SourceReadFailed \<Rightarrow> ''source_read_failed'' | InvalidInput \<Rightarrow> ''invalid_input'')"

definition validate_view :: "path_view \<Rightarrow> bundle_error option" where
  "validate_view v = validate_bundle_target (pv_absolute v) (pv_uid v) (pv_parent v) (pv_target v) (pv_parent_exists v)"

definition request_of :: "cli_env \<Rightarrow> cli_args \<Rightarrow> dict \<Rightarrow> bundle_request" where
  "request_of env args result =
     (let v = ce_after env
      in \<lparr> br_absolute = pv_absolute v, br_uid = pv_uid v, br_parent = pv_parent v, br_target = pv_target v,
           br_parent_exists = pv_parent_exists v, br_version = ce_version env, br_group = ca_group args,
           br_summary = result, br_started = ce_started env, br_completed = ce_completed env,
           br_supplied_file_count = (case ca_source args of JsonlFiles paths \<Rightarrow> Some (length paths) | LokiUrl _ \<Rightarrow> None) \<rparr>)"

definition attempt :: "cli_env \<Rightarrow> cli_args \<Rightarrow> cli_reason + (evidence \<times> dict)" where
  "attempt env args =
     (case (if ca_bundle args then validate_view (ce_before env) else None) of
        Some e \<Rightarrow> Inl (BundlePath e)
      | None \<Rightarrow> acquire env args)"

text \<open>A usage error ends the command before anything is read; otherwise one object is printed.\<close>

datatype cli_end = Usage usage_error | Answer dict nat

definition main :: "cli_env \<Rightarrow> cli_args \<Rightarrow> directory \<Rightarrow> directory \<times> cli_end" where
  "main env args fs =
     (case usage_error_of args of
        Some e \<Rightarrow> (fs, Usage e)
      | None \<Rightarrow>
          (case attempt env args of
             Inl r \<Rightarrow> (fs, Answer [(''bounded_retrieval_completed'', JBool False), (''reason'', JStr (reason_text (ce_failure env) r))] 2)
           | Inr (ed, result) \<Rightarrow>
               if \<not> ca_bundle args then (fs, Answer result 0)
               else (case write_bundle (ce_runtime env) (ce_outcomes env) (request_of env args result) ed fs of
                       (fs', error) \<Rightarrow> (fs', (case report_bundle error result of (answer, code) \<Rightarrow> Answer answer code)))))"

section \<open>What is printed is what is written\<close>

text \<open>A reconstruction is kept, and the summary is of the kept one.\<close>

lemma reconstruct_again: "reconstruct rt grp ed = (ed1, Inr r) \<Longrightarrow> reconstruct rt grp ed1 = (ed1, Inr r)"
  by (auto simp: reconstruct_def split: option.splits sum.splits if_splits)

definition summarised :: "runtime \<Rightarrow> string \<Rightarrow> evidence \<Rightarrow> evidence_summary \<Rightarrow> bool" where
  "summarised rt grp ed s \<longleftrightarrow>
     (\<exists>r. reconstruct rt grp ed = (ed, Inr r) \<and> es_selected_distinct_bodies s = length (rc_selected r) \<and>
        es_message_trace_count s = length (rc_traces r) \<and> es_context_incomplete s = rc_context_incomplete r)"

lemma summary_of_kept: "evidence_summary_for rt grp source omitted ed = (ed1, Inr s) \<Longrightarrow> summarised rt grp ed1 s"
  by (auto simp: evidence_summary_for_def summarised_def Let_def split: prod.splits sum.splits dest: reconstruct_again)

lemma report_kept: "report rt grp omitted requested queried cutoff st = Inr (st', iv) \<Longrightarrow> summarised rt grp (rs_evidence st') (iv_summary iv)"
  by (auto simp: report_def split: prod.splits sum.splits dest: summary_of_kept)

lemma investigate_kept: "investigate rt lk grp start_ns end_ns st = Inr (st', iv) \<Longrightarrow> summarised rt grp (rs_evidence st') (iv_summary iv)"
  unfolding investigate_def Let_def by (auto split: if_splits sum.splits dest: report_kept)

text \<open>The printed result of an acquisition has the counts of its summary.\<close>

lemma acquired_result:
  assumes "acquire env args = Inr (ed, result)"
  shows "\<exists>s. summarised (ce_runtime env) (ca_group args) ed s \<and>
    dict_get result ''selected_distinct_bodies'' = JInt (int (es_selected_distinct_bodies s)) \<and>
    dict_get result ''message_trace_count'' = JInt (int (es_message_trace_count s)) \<and>
    dict_get result ''bounded_retrieval_completed'' = JBool True"
proof -
  have printed: "dict_get (summary_dict s @ d) ''selected_distinct_bodies'' = JInt (int (es_selected_distinct_bodies s))"
    "dict_get (summary_dict s @ d) ''message_trace_count'' = JInt (int (es_message_trace_count s))"
    "dict_get (summary_dict s @ d) ''bounded_retrieval_completed'' = JBool True" for s d
    by (simp_all add: summary_dict_def Let_def)
  have "\<exists>s d. summarised (ce_runtime env) (ca_group args) ed s \<and> result = summary_dict s @ d"
  proof (cases "ca_source args")
    case (JsonlFiles paths)
    then obtain ed0 s where "evidence_summary_for (ce_runtime env) (ca_group args) SourceJsonl False ed0 = (ed, Inr s)"
        "result = summary_dict s"
      using assms unfolding acquire_def by (auto split: sum.splits prod.splits)
    then show ?thesis by (metis append_Nil2 summary_of_kept)
  next
    case (LokiUrl url)
    then obtain st iv where
      "investigate (ce_runtime env) (cli_loki env args) (ca_group args) (the (ca_start_ns args)) (the (ca_end_ns args)) new_reader =
         Inr (st, iv)" "ed = rs_evidence st" "result = investigation_dict iv"
      using assms unfolding acquire_def by (auto split: sum.splits option.splits prod.splits if_splits investigation_error.splits)
    then show ?thesis unfolding investigation_dict_def using investigate_kept by blast
  qed
  then show ?thesis using printed by metis
qed

text \<open>
  What the command prints is what it writes. It ends with 0 or 2. If the acquisition or the path fails nothing is
  written, and the answer is the flag and a fixed reason. With 0 the answer is the result of the acquisition, whose
  counts are those of the reconstruction; and if a bundle was asked for, the target, which was free, holds the
  document made of that reconstruction with that result as its summary.
\<close>

theorem cli_answer_exact:
  assumes "main env args fs = (fs', Answer answer code)" "fs_temp fs = None"
  shows "code \<in> {0, 2} \<and>
    (dict_get answer ''bounded_retrieval_completed'' = JBool False \<longrightarrow>
       code = 2 \<and> fs' = fs \<and> map fst answer = [''bounded_retrieval_completed'', ''reason'']) \<and>
    (code = 0 \<longrightarrow> (\<exists>ed result s. acquire env args = Inr (ed, result) \<and> summarised (ce_runtime env) (ca_group args) ed s \<and>
       dict_get answer ''selected_distinct_bodies'' = JInt (int (es_selected_distinct_bodies s)) \<and>
       dict_get answer ''message_trace_count'' = JInt (int (es_message_trace_count s)) \<and>
       (if ca_bundle args
        then answer = dict_set ''bundle_written'' (JBool True) result \<and> fs_target fs = None \<and> fs_temp fs' = None \<and>
          fs_target fs' = bundle_text (ce_runtime env) (request_of env args result) ed \<and> fs_target fs' \<noteq> None
        else answer = result \<and> fs' = fs)))"
proof -
  have usage: "usage_error_of args = None" using assms(1) by (auto simp: main_def split: option.splits)
  show ?thesis
  proof (cases "attempt env args")
    case (Inl r)
    then show ?thesis using assms(1) by (auto simp: main_def usage)
  next
    case (Inr got)
    obtain ed result where got: "got = (ed, result)" by fastforce
    have acquired: "acquire env args = Inr (ed, result)" using Inr unfolding attempt_def got by (auto split: option.splits)
    obtain s where s: "summarised (ce_runtime env) (ca_group args) ed s"
      "dict_get result ''selected_distinct_bodies'' = JInt (int (es_selected_distinct_bodies s))"
      "dict_get result ''message_trace_count'' = JInt (int (es_message_trace_count s))"
      "dict_get result ''bounded_retrieval_completed'' = JBool True"
      using acquired_result [OF acquired] by blast
    show ?thesis
    proof (cases "ca_bundle args")
      case False
      then have "fs' = fs" "answer = result" "code = 0"
        using assms(1) Inr by (auto simp: main_def usage got)
      then show ?thesis using False acquired s by auto
    next
      case True
      obtain fs1 error where written: "write_bundle (ce_runtime env) (ce_outcomes env) (request_of env args result) ed fs = (fs1, error)"
        by fastforce
      have out: "fs' = fs1" "report_bundle error result = (answer, code)"
        using assms(1) Inr True by (auto simp: main_def usage got written split: prod.splits)
      have whole: "all_or_nothing (ce_outcomes env) fs (bundle_text (ce_runtime env) (request_of env args result) ed) (fs1, error)"
        using write_bundle_cases [OF assms(2), of "ce_outcomes env" "ce_runtime env" "request_of env args result" ed]
        unfolding written .
      show ?thesis
      proof (cases error)
        case None
        then have "answer = dict_set ''bundle_written'' (JBool True) result" "code = 0"
          using out(2) by (auto simp: report_bundle_def)
        moreover have "fs_target fs = None" "fs_temp fs1 = None"
            "fs_target fs1 = bundle_text (ce_runtime env) (request_of env args result) ed" "fs_target fs1 \<noteq> None"
          using whole None by (auto simp: all_or_nothing_def Let_def split: if_splits)
        ultimately show ?thesis using True acquired s out(1) by auto
      next
        case (Some e)
        then have "code = 2" "dict_get answer ''bounded_retrieval_completed'' = JBool True"
          using out(2) s(4) by (auto simp: report_bundle_def split: if_splits)
        then show ?thesis by simp
      qed
    qed
  qed
qed

text \<open>Only a plain address of this machine is an endpoint.\<close>

lemma endpoint_is_loopback:
  "endpoint_error_of is_loopback u = None \<longleftrightarrow>
     su_scheme u = ''http'' \<and> su_username u \<in> {None, Some []} \<and> su_password u \<in> {None, Some []} \<and> su_path u \<in> {[], ''/''} \<and>
     su_query u = [] \<and> su_fragment u = [] \<and> (\<exists>port. su_port u = Some (Some port)) \<and>
     (\<exists>host. su_hostname u = Some host \<and> is_loopback host = Some True)"
  unfolding endpoint_error_of_def by (cases "su_port u"; cases "su_hostname u") (auto split: if_splits)

end
