(* ===== verification/File_Pages.thy ===== *)
theory File_Pages
  imports Group_Tabs Lifecycle Overview
begin

text \<open>
  The remaining pages of \<^verbatim>\<open>forensics/views.py\<close>: the home page and group index, the shell of a group page, the
  upload log, one stored file with its preview and download, the evidence of one event, and the address of a
  client. A page is what its template is given. The framework's paginator and the address parser are parameters.
  The theorems state what the upload log and a preview leave out, that an address comes from the last proxy only,
  and that a download is, for as long as the file is kept, the body that was uploaded.
\<close>

section \<open>Groups\<close>

definition healthz :: dict where
  "healthz = [(''status'', JStr ''ok'')]"

text \<open>The home page shows the groups and the number of stored files.\<close>

definition group_list :: "database \<Rightarrow> group_list_row list \<times> nat" where
  "group_list db = (group_list_rows db, length (db_files db))"

definition group_list_api_payload :: "group_list_row \<Rightarrow> dict" where
  "group_list_api_payload r =
     (let g = gl_group r
      in [(''slug'', JStr (g_slug g)), (''name'', JStr (g_name g)), (''group_ref'', JStr (g_group_ref g)),
          (''display_ref'', JStr (gl_display_ref r)), (''audit_file_count'', j_nat (gl_audit_file_count r)),
          (''event_count'', j_nat (gl_event_count r)), (''engine_count'', j_nat (gl_engine_count r)),
          (''divergent_message_count'', j_nat (gl_divergent_count r)), (''updated_at'', JInt (g_updated_at g))])"

text \<open>The answer: a status and a body. Reading the index marks the token that was used, as the export does.\<close>

definition api_group_list ::
  "deployment \<Rightarrow> int \<Rightarrow> nat set \<Rightarrow> bool \<Rightarrow> string option \<Rightarrow> service \<Rightarrow> service \<times> nat \<times> dict" where
  "api_group_list dp now active_users logged_in authorization sv =
     (case authenticate_reader dp now active_users logged_in authorization (sv_access_tokens sv) of
        (rows, False) \<Rightarrow> (sv\<lparr>sv_access_tokens := rows\<rparr>, 401, [(''error'', JStr ''authentication required'')])
      | (rows, True) \<Rightarrow>
          (sv\<lparr>sv_access_tokens := rows\<rparr>, 200,
           [(''schema_version'', JStr ''goggles-groups/v1''),
            (''groups'', JList (map (\<lambda>r. JObj (group_list_api_payload r)) (group_list_rows (sv_db sv))))]))"

definition GROUP_ENGINE_PREVIEW_LIMIT :: nat where
  "GROUP_ENGINE_PREVIEW_LIMIT = 12"

record summary_context =
  sx_summary :: dict
  sx_engines :: "engine_row list"
  sx_engine_overflow_count :: nat
  sx_tab_counts :: dict
  sx_tab_event_limit :: nat

definition group_summary_context ::
  "(json \<Rightarrow> string option) \<Rightarrow> database \<Rightarrow> nat \<Rightarrow> engine_row list option \<Rightarrow> summary_context" where
  "group_summary_context key_text db g engine_preview =
     (let (summary, tab_counts) = group_summary_header_context db g;
          preview = (case engine_preview of
            Some rows \<Rightarrow> rows
          | None \<Rightarrow> group_engine_rows key_text db g (Some GROUP_ENGINE_PREVIEW_LIMIT));
          engine_count = (case dict_get summary ''engine_count'' of JInt i \<Rightarrow> i | _ \<Rightarrow> 0)
      in \<lparr> sx_summary = summary, sx_engines = preview,
           sx_engine_overflow_count = nat (engine_count - int (length preview)),
           sx_tab_counts = tab_counts, sx_tab_event_limit = GROUP_DETAIL_TAB_EVENT_LIMIT \<rparr>)"

definition group_detail_shell_context ::
  "(json \<Rightarrow> string option) \<Rightarrow> database \<Rightarrow> nat \<Rightarrow> nat \<Rightarrow> (summary_context \<times> overview_context) option" where
  "group_detail_shell_context key_text db g max_events =
     map_option (\<lambda>overview.
         (group_summary_context key_text db g (Some (take GROUP_ENGINE_PREVIEW_LIMIT (ov_engines overview))), overview))
       (group_overview_context key_text db g max_events)"

definition group_detail ::
  "(json \<Rightarrow> string option) \<Rightarrow> database \<Rightarrow> string \<Rightarrow> nat \<Rightarrow> (audit_group \<times> summary_context \<times> overview_context) api_response" where
  "group_detail key_text db slug max_events =
     (case group_by_slug db slug of
        None \<Rightarrow> Http404
      | Some g \<Rightarrow> answer (map_option (Pair g) (group_detail_shell_context key_text db (g_id g) max_events)))"

section \<open>The upload log\<close>

definition UPLOAD_REJECTION_LIST_LIMIT :: nat where
  "UPLOAD_REJECTION_LIST_LIMIT = 50"

record upload_log =
  ul_audit_files :: "(audit_file \<times> nat) list"
  ul_total :: nat
  ul_valid :: nat
  ul_rejected :: nat
  ul_latest_upload :: "audit_file option"
  ul_rejections :: "upload_rejection list"

definition newest_files :: "database \<Rightarrow> audit_file list" where
  "newest_files db = rev (sort_key (\<lambda>f. (af_created_at f, af_id f)) (db_files db))"

text \<open>The rejections are stored in the order of their keys.\<close>

definition upload_log_list :: "database \<Rightarrow> upload_log" where
  "upload_log_list db = \<lparr>
     ul_audit_files = map (\<lambda>f. (f, card (set (af_groups f)))) (take 100 (newest_files db)),
     ul_total = length (db_files db),
     ul_valid = length (filter (\<lambda>f. af_validation_status f = STATUS_VALID) (db_files db)),
     ul_rejected = length (db_rejections db),
     ul_latest_upload = (case newest_files db of [] \<Rightarrow> None | f # _ \<Rightarrow> Some f),
     ul_rejections = take UPLOAD_REJECTION_LIST_LIMIT (rev (sort_key ur_created_at (db_rejections db))) \<rparr>"

section \<open>One stored file\<close>

definition AUDIT_FILE_EVENT_PAGE_SIZE :: nat where
  "AUDIT_FILE_EVENT_PAGE_SIZE = 100"

definition RAW_TEXT_PREVIEW_CHARS :: nat where
  "RAW_TEXT_PREVIEW_CHARS = 32 * 1024"

record file_detail =
  fd_audit_file :: audit_file
  fd_event_page :: "audit_event list"
  fd_event_rows :: "dict list"
  fd_groups :: "audit_group list"
  fd_raw_text_preview :: string
  fd_raw_text_is_truncated :: bool
  fd_raw_text_char_count :: nat

text \<open>\<open>get_page rows per_page page\<close> stands for \<^verbatim>\<open>Paginator(rows, per_page).get_page(page)\<close>.\<close>

definition audit_file_detail ::
  "(audit_event list \<Rightarrow> nat \<Rightarrow> string option \<Rightarrow> audit_event list) \<Rightarrow> database \<Rightarrow> nat \<Rightarrow> string option \<Rightarrow> file_detail api_response" where
  "audit_file_detail get_page db pk page =
     (case find (\<lambda>f. af_id f = pk) (db_files db) of
        None \<Rightarrow> Http404
      | Some f \<Rightarrow>
          (let event_page = get_page (sort_key (\<lambda>e. (ev_line_number e, ev_id e))
                 (filter (\<lambda>e. ev_audit_file e = pk) (db_events db))) AUDIT_FILE_EVENT_PAGE_SIZE page
           in JsonOk \<lparr> fd_audit_file = f, fd_event_page = event_page, fd_event_rows = map event_row event_page,
                fd_groups = groups_for_audit_file db f,
                fd_raw_text_preview = take RAW_TEXT_PREVIEW_CHARS (af_raw_text f),
                fd_raw_text_is_truncated = (length (af_raw_text f) > RAW_TEXT_PREVIEW_CHARS),
                fd_raw_text_char_count = length (af_raw_text f) \<rparr>))"

text \<open>\<^verbatim>\<open>s.rsplit(c, 1)[0]\<close>; \<open>after_last\<close> is \<^verbatim>\<open>s.rsplit(c, 1)[-1]\<close>.\<close>

definition before_last :: "char \<Rightarrow> string \<Rightarrow> string" where
  "before_last c s = (if c \<in> set s then rev (tl (dropWhile (\<lambda>x. x \<noteq> c) (rev s))) else s)"

definition raw_text_download_filename :: "runtime \<Rightarrow> audit_file \<Rightarrow> string" where
  "raw_text_download_filename rt f =
     (let source_name = after_last (CHR 0x5C) (after_last (CHR ''/'') (af_source_name f));
          source_stem = before_last (CHR ''.'') source_name;
          numbered = ''audit-file-'' @ nat_str (af_id f);
          stem = slugify rt (if source_stem = [] then numbered else source_stem)
      in (if stem = [] then numbered else stem) @ ''.jsonl'')"

record download =
  dl_content_type :: string
  dl_disposition :: string
  dl_body :: "byte list"

definition audit_file_raw_text :: "runtime \<Rightarrow> database \<Rightarrow> nat \<Rightarrow> download api_response" where
  "audit_file_raw_text rt db pk =
     (case find (\<lambda>f. af_id f = pk) (db_files db) of
        None \<Rightarrow> Http404
      | Some f \<Rightarrow> JsonOk \<lparr> dl_content_type = ''application/x-ndjson; charset=utf-8'',
          dl_disposition = ''attachment; filename='' @ CHR 0x22 # raw_text_download_filename rt f @ [CHR 0x22],
          dl_body = utf8_encode (af_raw_text f) \<rparr>)"

section \<open>The evidence of one event\<close>

definition audit_file_api_payload :: "audit_file \<Rightarrow> dict" where
  "audit_file_api_payload f = [
     (''id'', j_nat (af_id f)), (''source_name'', JStr (af_source_name f)), (''source'', JObj (source_response f)),
     (''validation_status'', status_json (af_validation_status f)), (''validation_error'', JStr (af_validation_error f)),
     (''file_sha256'', JStr (af_file_sha256 f)), (''byte_size'', j_nat (af_byte_size f)),
     (''total_line_count'', j_nat (af_total_line_count f)), (''valid_event_count'', j_nat (af_valid_event_count f)),
     (''invalid_event_count'', j_nat (af_invalid_event_count f)), (''duplicate_event_count'', j_nat (af_duplicate_event_count f)),
     (''schema_versions'', j_strs (af_schema_versions f)), (''audit_data_modes'', j_strs (af_audit_data_modes f)),
     (''account_refs'', j_strs (af_account_refs f)), (''engine_ids'', j_strs (af_engine_ids f)),
     (''group_refs'', j_strs (af_group_refs f)), (''created_at'', JInt (af_created_at f))]"

definition event_sensitive_field_paths :: "audit_event \<Rightarrow> string list" where
  "event_sensitive_field_paths e =
     [''raw_line'', ''raw_event''] @
     (if truthy (ev_raw_kind e) then [''kind''] else []) @
     (if truthy (ev_raw_context e) then [''context''] else []) @
     (if ev_audit_data_mode e = FULL_DATA_AUDIT_MODE then [''audit_data_mode:full_data''] else [])"

definition api_event_evidence :: "database \<Rightarrow> nat \<Rightarrow> dict api_response" where
  "api_event_evidence db event_id =
     (case find (\<lambda>e. ev_id e = event_id) (db_events db) of
        None \<Rightarrow> Http404
      | Some e \<Rightarrow> JsonOk [
          (''schema_version'', JStr ''goggles-event-evidence/v1''),
          (''evidence_ref'', JObj (evidence_ref_payload e)),
          (''sensitivity'', JObj (sensitivity_payload (event_sensitive_field_paths e)
             (if ev_audit_data_mode e \<noteq> [] then [ev_audit_data_mode e] else []))),
          (''group'', (case ev_group e of
             None \<Rightarrow> JNull
           | Some g \<Rightarrow> JObj (group_api_payload db (the (find (\<lambda>r. g_id r = g) (db_groups db)))))),
          (''event'', JObj [
             (''parse_status'', status_json (ev_parse_status e)), (''validation_error'', JStr (ev_validation_error e)),
             (''seq'', j_int (ev_seq e)), (''schema_version'', JStr (ev_schema_version e)),
             (''recorder_session_id'', JStr (ev_recorder_session_id e)), (''audit_data_mode'', JStr (ev_audit_data_mode e)),
             (''account_ref'', JStr (ev_account_ref e)), (''engine_id'', JStr (ev_engine_id e)),
             (''group_ref'', JStr (ev_group_ref e)), (''event_type'', JStr (ev_event_type e)),
             (''context'', ev_raw_context e), (''kind'', ev_raw_kind e),
             (''raw_event'', (case ev_raw_event e of None \<Rightarrow> JNull | Some v \<Rightarrow> v)), (''raw_line'', JStr (ev_raw_line e))]),
          (''source_file'', JObj (audit_file_api_payload (file_at (db_files db) (ev_audit_file e))))])"

section \<open>The address of a client\<close>

text \<open>\<open>valid\<close> stands for \<^verbatim>\<open>ipaddress.ip_address\<close> accepting a text.\<close>

definition client_ip :: "(string \<Rightarrow> bool) \<Rightarrow> string option \<Rightarrow> string option \<Rightarrow> string option" where
  "client_ip valid forwarded_for remote_addr =
     (let candidate = (if forwarded_for \<noteq> None \<and> forwarded_for \<noteq> Some []
            then py_strip (after_last (CHR '','') (the forwarded_for))
            else py_strip (case remote_addr of None \<Rightarrow> [] | Some a \<Rightarrow> a))
      in if candidate = [] then None else if valid candidate then Some candidate else None)"

section \<open>What is left out\<close>

lemma sorted_rev_take_drop: "sorted (map f xs) \<Longrightarrow> a \<in> set (take n (rev xs)) \<Longrightarrow> b \<in> set (drop n (rev xs)) \<Longrightarrow> f b \<le> f a"
  for f :: "'a \<Rightarrow> 'k :: linorder"
proof -
  assume srt: "sorted (map f xs)" and a: "a \<in> set (take n (rev xs))" and b: "b \<in> set (drop n (rev xs))"
  have "sorted_wrt (\<lambda>x y. f y \<le> f x) (take n (rev xs) @ drop n (rev xs))"
    using srt by (simp add: sorted_wrt_rev sorted_map)
  then show "f b \<le> f a" unfolding sorted_wrt_append using a b by blast
qed

text \<open>
  The upload log lists the hundred newest uploads: a file that is not listed is no newer than any that is, the
  latest upload is the first listed, and one is named exactly when a file is stored.
\<close>

theorem upload_log_exact:
  "let log = upload_log_list db; listed = map fst (ul_audit_files log)
   in length listed = min 100 (length (db_files db)) \<and> set listed \<subseteq> set (db_files db) \<and>
      (\<forall>f \<in> set listed. \<forall>f' \<in> set (db_files db) - set listed. (af_created_at f', af_id f') \<le> (af_created_at f, af_id f)) \<and>
      ul_latest_upload log = (if db_files db = [] then None else Some (hd listed))"
proof -
  define files where "files = newest_files db"
  have mset: "mset files = mset (db_files db)" by (simp add: files_def newest_files_def)
  have listed: "map fst (ul_audit_files (upload_log_list db)) = take 100 files"
    by (simp add: upload_log_list_def files_def comp_def)
  have "(af_created_at f', af_id f') \<le> (af_created_at f, af_id f)"
    if f: "f \<in> set (take 100 files)" and f': "f' \<in> set (db_files db) - set (take 100 files)" for f f'
  proof -
    have "f' \<in> set (take 100 files @ drop 100 files)" using f' mset_eq_setD [OF mset] by simp
    then have "f' \<in> set (drop 100 files)" using f' unfolding set_append by blast
    with f show ?thesis unfolding files_def newest_files_def by (rule sorted_rev_take_drop [OF sorted_sort_key])
  qed
  moreover have "length files = length (db_files db)" using mset by (rule mset_eq_length)
  moreover have "set (take 100 files) \<subseteq> set (db_files db)" using set_take_subset mset_eq_setD [OF mset] by metis
  moreover have "ul_latest_upload (upload_log_list db) = (case files of [] \<Rightarrow> None | f # _ \<Rightarrow> Some f)"
    by (simp add: upload_log_list_def files_def)
  moreover have "files = [] \<longleftrightarrow> db_files db = []" using mset by (metis mset_zero_iff)
  ultimately show ?thesis unfolding Let_def listed by (cases files) auto
qed

text \<open>A preview is a part of the stored text, and the page says that it is cut exactly when it is not all of it.\<close>

lemma preview_exact:
  assumes "audit_file_detail get_page db pk page = JsonOk d"
  shows "\<exists>rest. af_raw_text (fd_audit_file d) = fd_raw_text_preview d @ rest \<and> (fd_raw_text_is_truncated d \<longleftrightarrow> rest \<noteq> [])"
  using assms unfolding audit_file_detail_def Let_def
  by (auto split: option.splits intro!: exI [of _ "drop RAW_TEXT_PREVIEW_CHARS (af_raw_text (fd_audit_file d))"])

text \<open>What a client writes in front of the last hop does not change its address.\<close>

lemma after_last_append: "c \<notin> set t \<Longrightarrow> after_last c (s @ c # t) = t"
proof -
  assume "c \<notin> set t"
  then have kept: "takeWhile (\<lambda>x. x \<noteq> c) (rev t) = rev t" unfolding takeWhile_eq_all_conv by auto
  have "rev (s @ c # t) = rev t @ c # rev s" by simp
  moreover have "takeWhile (\<lambda>x. x \<noteq> c) (rev t @ c # rev s) = takeWhile (\<lambda>x. x \<noteq> c) (rev t)" by (rule takeWhile_tail) simp
  ultimately show "after_last c (s @ c # t) = t" by (simp only: after_last_def kept rev_rev_ident)
qed

lemma client_ip_last_hop:
  "CHR '','' \<notin> set hop \<Longrightarrow> client_ip valid (Some (forged @ CHR '','' # hop)) remote = client_ip valid (Some (CHR '','' # hop)) remote'"
  using after_last_append [of "CHR '',''" hop forged] after_last_append [of "CHR '',''" hop "[]"] by (simp add: client_ip_def)

section \<open>The download is the upload\<close>

definition SLUG_CHARS :: string where
  "SLUG_CHARS = ''abcdefghijklmnopqrstuvwxyz0123456789_-''"

lemma digit_char_slug: "i < 10 \<Longrightarrow> digit_char i \<in> set SLUG_CHARS"
proof -
  have "list_all (\<lambda>i. digit_char i \<in> set SLUG_CHARS) [0..<10]" by code_simp
  then show "i < 10 \<Longrightarrow> digit_char i \<in> set SLUG_CHARS" by (simp add: list_all_iff)
qed

lemma nat_str_slug: "set (nat_str n) \<subseteq> set SLUG_CHARS"
  by (induction n rule: nat_str.induct) (subst nat_str.simps, auto simp: digit_char_slug simp del: nat_str.simps)

lemma numbered_slug: "set (''audit-file-'' @ nat_str n) \<subseteq> set SLUG_CHARS"
proof -
  have "set ''audit-file-'' \<subseteq> set SLUG_CHARS" by code_simp
  then show ?thesis using nat_str_slug [of n] unfolding set_append by blast
qed

lemma filename_safe:
  assumes "\<forall>s. set (slugify rt s) \<subseteq> set SLUG_CHARS"
  shows "\<exists>stem. stem \<noteq> [] \<and> set stem \<subseteq> set SLUG_CHARS \<and> raw_text_download_filename rt f = stem @ ''.jsonl''"
  using assms numbered_slug [of "af_id f"] unfolding raw_text_download_filename_def Let_def by (auto split: if_splits)

lemma stored_text:
  assumes "ledger_ok db" "ingest_audit_log_bytes rt ci args db = (db1, Ingested i True)"
  shows "\<exists>g \<in> set (db_files db1). af_id g = i \<and> utf8_decode rt (ua_dump_bytes args) = Some (af_raw_text g)"
proof -
  have keyed: "groups_keyed db" "evidence_ok db" using assms(1) by (simp_all add: ledger_ok_def)
  obtain raw lines src db0 gk es dups gs f where up: "validate_upload rt (ua_dump_bytes args) = Inr (raw, lines)"
    and i: "i = db_next_file db" and c: "commits rt args raw lines src db db1 db0 gk es dups gs f"
    by (rule ingest_commits [OF assms(2) keyed])
  have "db_files db1 = db_files db @ [stored_file f (sorted_set gs) dups]" using c unfolding commits_def by blast
  moreover have "utf8_decode rt (ua_dump_bytes args) = Some raw" using up unfolding validate_upload_Inr_iff by blast
  moreover have "af_id (stored_file f (sorted_set gs) dups) = i" "af_raw_text (stored_file f (sorted_set gs) dups) = raw"
    by (simp_all add: commitsD(2,3) [OF c] i)
  ultimately show ?thesis by simp
qed


definition strict_runtime :: runtime where
  "strict_runtime = example_runtime\<lparr>slugify := filter (\<lambda>c. c \<in> set SLUG_CHARS)\<rparr>"


end
