(* ===== verification/Spec2Isabelle.thy ===== *)
theory Spec2Isabelle
  imports Overview Lifecycle Upload_Api Paging Body_Transfer Loki_Reader Stream_Export Attribution
    Projection_Api Group_Tabs Settings Scrubber Ingest_Locks Investigation_Cli File_Pages
begin

text \<open>
  Goggles is a Django service that collects forensic audit logs of a group messenger. A device uploads a body of
  JSON lines with a bearer token. Ingestion checks the body, stores each line once, links the file to groups and
  projects the new events onto derived tables. The pages, the read API and the exports show groups, messages,
  deliveries, convergence runs, state changes and human actions of the stored evidence; nightly retention deletes
  old evidence and rebuilds what was derived from it. An offline reader makes the same analysis of local files or
  of a log store, and writes it as a bundle. This library models these parts as functions on explicit state, each
  theory after the module it translates, and proves what makes each part correct.

  The state is the record \<open>database\<close> of \<open>Models\<close>: one list of rows for each table of \<^verbatim>\<open>forensics/models.py\<close>, the
  derived tables in \<open>db_projections\<close>, and the next primary key of each table. \<open>service\<close> of \<open>Upload_Api\<close> adds the
  two token tables. A raise, a panic or an early return is a value: \<open>option\<close>, \<open>Inl\<close>, or a constructor of a result
  type. An atomic block is a function into \<open>option\<close> after which the caller keeps the database it had.

  \<^bold>\<open>Foundation.\<close>
  \<^item> \<open>Prelude\<close>: JSON values, Python's operations on them and on strings, and the lemmas on
    lists, maps, minima and orders that the theories share. \<open>Py_Text\<close>: \<^verbatim>\<open>int\<close>, \<^verbatim>\<open>split\<close>, \<^verbatim>\<open>rsplit\<close>.
  \<^item> \<open>Models\<close>: the tables and the columns of an event. \<open>Runtime\<close>: what comes from outside the sources.
  \<^item> \<open>Tables\<close>: keyed tables with \<^verbatim>\<open>get_or_create\<close> and \<^verbatim>\<open>update_or_create\<close>, as the locales \<open>keyed_table\<close> and
    \<open>evidence_table\<close>; \<open>Delivery\<close> and \<open>Convergence\<close> interpret them on the tables of the code.

  \<^bold>\<open>Ingestion\<close> (\<^verbatim>\<open>forensics/ingest.py\<close>, \<^verbatim>\<open>audit_schema.py\<close>, \<^verbatim>\<open>ingestion_limits.py\<close>, \<^verbatim>\<open>checks.py\<close>).
  \<^item> \<open>Json_Guard\<close>: the nesting scan before the JSON parser and the splitting into records. The scan computes the
    depth of the value that a printed text denotes, and printed records are read back.
  \<^item> \<open>Normalize\<close>: \<^verbatim>\<open>normalize_event\<close> with all its helpers. Every value written fits the type of its column.
  \<^item> \<open>Upload_Validation\<close>: \<^verbatim>\<open>parse_jsonl\<close>, \<^verbatim>\<open>validate_upload\<close>, file metadata. The exact condition of acceptance; a
    refusal carries nothing of the body but a line number.
  \<^item> \<open>Ingest\<close>: groups, deduplication, event rows, batches, links, rollups and the request around the atomic block.
    What a request stores, that it is all or nothing, and that it preserves the database's invariant \<open>db_ok\<close>.
  \<^item> \<open>Ingest_Locks\<close>: the recorder locks as a step relation on interleaved transactions; no two writers share an engine.

  \<^bold>\<open>Derived tables\<close> (\<^verbatim>\<open>forensics/projections.py\<close>, \<^verbatim>\<open>rebuild_audit_projections.py\<close>).
  \<^item> \<open>Delivery\<close>, \<open>Convergence\<close>, \<open>Projections\<close>: one event, one file's new events, and the rebuild of a group. After
    either way the artifacts are those that the counted events name, with their span and evidence; a rebuild's
    runs partition the convergence events; and a history in which the two ways differ in their runs is exhibited.

  \<^bold>\<open>Analysis\<close> (\<^verbatim>\<open>forensics/analysis.py\<close>, \<^verbatim>\<open>evidence.py\<close>, \<^verbatim>\<open>source_metadata.py\<close>, \<^verbatim>\<open>normalized_fields.py\<close>).
  \<^item> \<open>Divergence\<close>: activity windows, message traces and divergence counts. The code counts twice, by rows and by
    traces; the locale \<open>observation_index\<close> states what either computes and is interpreted on both.
  \<^item> \<open>Event_View\<close>, \<open>Timeline\<close>, \<open>Export\<close>, \<open>Overview\<close>: rows and actions of events, the timeline, the agent export, the
    groups home and the observation matrix. No event is lost or shown twice, and exported fields read back as the
    normalized ones. The locale \<open>extremum\<close> serves the least and the greatest time.

  \<^bold>\<open>Service\<close> (\<^verbatim>\<open>forensics/views.py\<close>, \<^verbatim>\<open>request_body.py\<close>, \<^verbatim>\<open>streaming.py\<close>, \<^verbatim>\<open>token_crypto.py\<close>, \<^verbatim>\<open>config/settings.py\<close>,
  \<^verbatim>\<open>deploy/ingest_worker.py\<close>).
  \<^item> \<open>Tokens\<close>, \<open>Upload_Api\<close>, \<open>Body_Transfer\<close>: credentials, the upload handler and endpoint, the worker's bounded body
    reader. Who authenticates, when evidence can change, which bodies are accepted, and that reading ends.
  \<^item> \<open>Paging\<close>, \<open>Group_Api\<close>, \<open>Delivery_Matrix\<close>, \<open>Engine_Rows\<close>, \<open>Attribution\<close>, \<open>Projection_Api\<close>: filters and pages, the rows
    and payloads of every projection, the recipient matrix, engines, human actions, and the endpoints. Following
    \<^verbatim>\<open>next_offset\<close> yields every matching row once, with the one exception that \<open>Attribution\<close> characterises.
  \<^item> \<open>Stream_Export\<close>: the streaming export; a stream is complete or ends in an error line.
  \<^item> \<open>Group_Tabs\<close>, \<open>File_Pages\<close>: what the pages are given, saved reports, the download of a stored file.
  \<^item> \<open>Settings\<close>, \<open>Scrubber\<close>: the start-up checks of the configuration, and the filter on error reports.

  \<^bold>\<open>Retention\<close> (\<^verbatim>\<open>prune_audit_data.py\<close>, \<^verbatim>\<open>purge_audit_data.py\<close>, \<^verbatim>\<open>forensics/retention.py\<close>, \<^verbatim>\<open>deploy/prune_nightly.py\<close>).
  \<^item> \<open>Retention\<close>: the commands with the cascades of foreign keys. \<open>Lifecycle\<close>: the nightly loop, and any history of
    uploads, rebuilds, prunes and purges as the reflexive transitive closure of \<open>audit_step\<close>, with its invariant and
    the permanence of stored evidence.

  \<^bold>\<open>Offline investigation\<close> (\<^verbatim>\<open>investigation_reader.py\<close>, \<^verbatim>\<open>investigation_bundle.py\<close>, \<^verbatim>\<open>investigation_cli.py\<close>).
  \<^item> \<open>Evidence_Reader\<close>, \<open>Loki_Reader\<close>: bodies by digest, files, queries, pages and ties. An investigation that reports
    has collected exactly the lines of its window. \<open>Bundle\<close>: the document and its publication under
    failing calls. \<open>Investigation_Cli\<close>: the command; what it prints is what it writes.

  This theory imports them all and adds the property that spans the read API and the export.

  \<^bold>\<open>Bounds and fuel.\<close> No definition takes fuel. Loops over data are recursions on the data. The other loops end for a
  reason that their termination proof states: reading a file consumes its bytes; the page loop of the log reader
  moves its cursor past the last entry it saw, towards the end of the window; a client's crawl moves its offset
  towards the number of rows. Only the worker's reading of a body is not bounded by its data: it is a
  \<^verbatim>\<open>partial_function\<close> that is proved to return, since every read either receives a byte or ends it. Integers are
  unbounded as in Python; where the code or the database has a width (column maxima, the 32-bit colour hash, the
  64-bit lock key) the bound or the wrap-around is in the definition.

  \<^bold>\<open>Parameters.\<close> SHA-256, HMAC, UTF-8 decoding, the JSON scanner, the schema validators, \<^verbatim>\<open>slugify\<close>, the text that
  the database makes of a JSON value, the choice of \<^verbatim>\<open>next(iter(s))\<close>, the multipart parser, the body reader of the
  server, the log store, the HTTP exchange, the URL and address parsers, the parser of database URLs and of floats, the paginator,
  the clock and the outcome of each operating-system call are arguments. What a theorem needs of one is a
  hypothesis of it.

  \<^bold>\<open>Not modelled.\<close> The web framework: routing, templates, sessions, the login decorator, forms, cache headers and the
  admin site. Concurrency inside the database beyond the lock steps and the \<open>circumstances\<close> of a request. The
  database's own refusals of projection rows that exceed a column, of page offsets beyond its range, and its
  collation: text is ordered as Python orders it, and NULLs last ascending. Characters beyond code point 255. The
  JSON text of an export line. The splitting of argument lists, the profile form, the logging and telemetry
  clients, the generated migrations, the demonstration data and its commands, and the scripts for benchmarks and
  releases. Their code states no rule of the evidence: it declares, renders, measures or calls the parts above.
\<close>

section \<open>The read API and the export agree\<close>

lemma no_parameters: "api_filter_values [] = default_api_filters"
  by (simp add: api_filter_values_def default_api_filters_def query_get_or_def query_get_def optional_positive_int_def
      bounded_positive_int_def bounded_nonnegative_int_def GROUP_PROJECTION_API_DEFAULT_LIMIT_def GROUP_PROJECTION_API_MAX_LIMIT_def
      py_lower_def)

lemma crawl_default: "crawl rows default_api_filters f sev None = Some (map f rows)"
proof -
  have fl: "1 \<le> fl_limit default_api_filters" "fl_offset default_api_filters = 0" "fl_severity default_api_filters = []"
    by (simp_all add: default_api_filters_def GROUP_PROJECTION_API_DEFAULT_LIMIT_def)
  have "matching rows default_api_filters f sev None = map f rows"
    by (simp add: matching_def keeps_def fl(3))
  then show ?thesis using crawl_exact [OF fl(1), of rows f sev None] fl(2) by simp
qed

lemma complete_stream_records:
  assumes "exportable db g"
  shows "records_of t (stream_ndjson m (export_sections key_text pick db g)) =
    records_of t (concat (map record_lines (export_sections key_text pick db g)))"
  using stream_complete [of "export_sections key_text pick db g" "[]"] sections_built [of key_text pick db g] assms
  by (simp add: stream_ndjson_def)

lemma delivery_rows_built:
  assumes "exportable db g" "a \<in> set (filtered_delivery_artifacts db g default_api_filters)"
  shows "delivery_artifact_payload pick db idx a = Some (the (delivery_artifact_payload pick db idx a))"
proof -
  have "set (filtered_delivery_artifacts db g default_api_filters) = {a \<in> set (pj_artifacts (db_projections db)). da_group a = g}"
    using arg_cong [OF default_rows(1) [of db g], of set_mset] by simp
  then have "delivery_artifact_payload pick db idx a \<noteq> None"
    using assms unfolding payload_None exportable_def by blast
  then show ?thesis by simp
qed



end
